(* ===== verification/Prelude.thy ===== *)
theory Prelude
  imports
    Main
    "HOL-Library.Sublist"
    "HOL-Library.Word"
begin

text \<open>
  Shared vocabulary of the development: results with errors and panics as values, the
  operations of Rust's \<open>str\<close> that the modelled code uses (search, split, replace, trim,
  case mapping, decimal printing and parsing), wrap-around of signed integers, and the
  generic lemmas about them that the component theories collect in their proofs.

  A Rust \<open>String\<close> is modelled by its UTF-8 bytes, a \<open>char list\<close>. Byte offsets of the
  source are therefore list positions. Case mapping and white space are modelled on the
  ASCII range, where \<open>to_uppercase\<close>, \<open>to_lowercase\<close> and \<open>trim\<close> keep byte lengths.
\<close>

named_theorems str_simps \<open>equations about the string operations\<close>
named_theorems str_dests \<open>what a successful search or split says about its input\<close>

section \<open>Results\<close>

text \<open>
  \<open>Result<T, String>\<close> with a third outcome for a panic (a slice or index out of range, a
  failed \<open>unwrap\<close>), so that every way out of a source function is a value.
\<close>

datatype 'a result = Ok (ok_val: 'a) | Err (err_msg: string) | Panic

definition bind_result :: "'a result \<Rightarrow> ('a \<Rightarrow> 'b result) \<Rightarrow> 'b result" where
  "bind_result r f = (case r of Ok x \<Rightarrow> f x | Err e \<Rightarrow> Err e | Panic \<Rightarrow> Panic)"

lemma bind_result_simps [simp]:
  "bind_result (Ok x) f = f x"
  "bind_result (Err e) f = Err e"
  "bind_result Panic f = Panic"
  by (simp_all add: bind_result_def)

lemma bind_result_eq_Ok [simp]:
  "bind_result r f = Ok y \<longleftrightarrow> (\<exists>x. r = Ok x \<and> f x = Ok y)"
  by (cases r) simp_all

definition ok_or :: "string \<Rightarrow> 'a option \<Rightarrow> 'a result" where
  "ok_or e x = (case x of Some y \<Rightarrow> Ok y | None \<Rightarrow> Err e)"

lemma ok_or_simps [simp]: "ok_or e (Some x) = Ok x" "ok_or e None = Err e"
  by (simp_all add: ok_or_def)

lemma ok_or_eq_Ok [simp]: "ok_or e x = Ok y \<longleftrightarrow> x = Some y"
  by (cases x) simp_all

definition is_ok :: "'a result \<Rightarrow> bool" where
  "is_ok r = (case r of Ok _ \<Rightarrow> True | _ \<Rightarrow> False)"

lemma is_ok_simps [simp]: "is_ok (Ok x)" "\<not> is_ok (Err e)" "\<not> is_ok Panic"
  by (simp_all add: is_ok_def)

fun map_result_list :: "('a \<Rightarrow> 'b result) \<Rightarrow> 'a list \<Rightarrow> 'b list result" where
  "map_result_list f [] = Ok []"
| "map_result_list f (x # xs) =
     bind_result (f x) (\<lambda>y. bind_result (map_result_list f xs) (\<lambda>ys. Ok (y # ys)))"

definition unwrap_or :: "'a \<Rightarrow> 'a option \<Rightarrow> 'a" where
  "unwrap_or d x = (case x of Some y \<Rightarrow> y | None \<Rightarrow> d)"

lemma unwrap_or_simps [simp]: "unwrap_or d (Some x) = x" "unwrap_or d None = d"
  by (simp_all add: unwrap_or_def)

lemma set_map_filter: "set (List.map_filter f xs) = {y. \<exists>x \<in> set xs. f x = Some y}"
  by (induction xs) (auto simp: List.map_filter_def)

section \<open>Fixed-width integers\<close>

type_synonym u8 = "8 word"
type_synonym u32 = "32 word"
type_synonym u64 = "64 word"

text \<open>
  Signed values that are only compared, stored and incremented are \<open>int\<close> with the
  wrap-around of the width written out.
\<close>

definition wrap_i32 :: "int \<Rightarrow> int" where
  "wrap_i32 x = (x + 2 ^ 31) mod 2 ^ 32 - 2 ^ 31"

definition wrap_i64 :: "int \<Rightarrow> int" where
  "wrap_i64 x = (x + 2 ^ 63) mod 2 ^ 64 - 2 ^ 63"

definition fits_i32 :: "int \<Rightarrow> bool" where
  "fits_i32 x \<longleftrightarrow> - (2 ^ 31) \<le> x \<and> x < 2 ^ 31"

definition fits_i64 :: "int \<Rightarrow> bool" where
  "fits_i64 x \<longleftrightarrow> - (2 ^ 63) \<le> x \<and> x < 2 ^ 63"

lemma wrap_i32_id: "fits_i32 x \<Longrightarrow> wrap_i32 x = x"
  by (simp add: wrap_i32_def fits_i32_def)

lemma wrap_i64_id: "fits_i64 x \<Longrightarrow> wrap_i64 x = x"
  by (simp add: wrap_i64_def fits_i64_def)

lemma fits_wrap_i32 [simp]: "fits_i32 (wrap_i32 x)"
  using pos_mod_bound [of "2 ^ 32" "x + 2 ^ 31"] pos_mod_sign [of "2 ^ 32" "x + 2 ^ 31"]
  by (simp add: fits_i32_def wrap_i32_def)

section \<open>Search in strings\<close>

definition starts_with :: "string \<Rightarrow> string \<Rightarrow> bool" where
  "starts_with s p = prefix p s"

definition ends_with :: "string \<Rightarrow> string \<Rightarrow> bool" where
  "ends_with s p = suffix p s"

definition strip_prefix :: "string \<Rightarrow> string \<Rightarrow> string option" where
  "strip_prefix s p = (if prefix p s then Some (drop (length p) s) else None)"

definition strip_suffix :: "string \<Rightarrow> string \<Rightarrow> string option" where
  "strip_suffix s p = (if suffix p s then Some (take (length s - length p) s) else None)"

text \<open>\<open>s.find(p)\<close>: the byte position of the first occurrence.\<close>

fun find_str :: "string \<Rightarrow> string \<Rightarrow> nat option" where
  "find_str [] p = (if p = [] then Some 0 else None)"
| "find_str (c # cs) p =
     (if prefix p (c # cs) then Some 0 else map_option Suc (find_str cs p))"

text \<open>\<open>s.rfind(p)\<close>: the byte position of the last occurrence.\<close>

fun rfind_str :: "string \<Rightarrow> string \<Rightarrow> nat option" where
  "rfind_str [] p = (if p = [] then Some 0 else None)"
| "rfind_str (c # cs) p =
     (case rfind_str cs p of
        Some i \<Rightarrow> Some (Suc i)
      | None \<Rightarrow> if prefix p (c # cs) then Some 0 else None)"

definition contains :: "string \<Rightarrow> string \<Rightarrow> bool" where
  "contains s p \<longleftrightarrow> find_str s p \<noteq> None"

lemma strip_prefix_Some [str_dests]: "strip_prefix s p = Some r \<Longrightarrow> s = p @ r"
  by (auto simp: strip_prefix_def prefix_def split: if_splits)

lemma strip_prefix_append [simp]: "strip_prefix (p @ r) p = Some r"
  by (simp add: strip_prefix_def)

lemma strip_suffix_Some [str_dests]: "strip_suffix s p = Some r \<Longrightarrow> s = r @ p"
  by (auto simp: strip_suffix_def suffix_def split: if_splits)

lemma strip_suffix_append [simp]: "strip_suffix (r @ p) p = Some r"
  by (simp add: strip_suffix_def suffix_def)

lemma starts_with_append [simp]: "starts_with (p @ r) p"
  by (simp add: starts_with_def)

lemma find_str_prefix: "find_str s p = Some i \<Longrightarrow> prefix p (drop i s) \<and> i \<le> length s"
  by (induction s arbitrary: i) (auto split: if_splits)

lemma find_str_bound: "find_str s p = Some i \<Longrightarrow> i + length p \<le> length s"
proof -
  assume "find_str s p = Some i"
  then have "prefix p (drop i s)" and i: "i \<le> length s"
    by (auto dest: find_str_prefix)
  then have "length p \<le> length (drop i s)" by (auto dest: prefix_length_le)
  with i show ?thesis by simp
qed

lemma find_str_decomp [str_dests]:
  "find_str s p = Some i \<Longrightarrow> s = take i s @ p @ drop (i + length p) s"
proof -
  assume "find_str s p = Some i"
  then have "prefix p (drop i s)" by (simp add: find_str_prefix)
  then obtain r where "drop i s = p @ r" by (auto simp: prefix_def)
  then show ?thesis
    by (metis append_eq_conv_conj append_take_drop_id drop_drop add.commute)
qed

lemma find_str_first: "find_str s p = Some i \<Longrightarrow> j < i \<Longrightarrow> \<not> prefix p (drop j s)"
proof (induction s arbitrary: i j)
  case Nil
  then show ?case by (simp split: if_splits)
next
  case (Cons c s)
  then show ?case
    by (cases j) (auto split: if_splits)
qed

lemma find_str_None: "find_str s p = None \<longleftrightarrow> (\<forall>j \<le> length s. \<not> prefix p (drop j s))"
proof (induction s)
  case Nil
  then show ?case by simp
next
  case (Cons c s)
  have "(\<forall>j \<le> length (c # s). \<not> prefix p (drop j (c # s))) \<longleftrightarrow>
      \<not> prefix p (c # s) \<and> (\<forall>j \<le> length s. \<not> prefix p (drop j s))"
    by (metis Suc_le_mono drop0 drop_Suc_Cons length_Cons not0_implies_Suc zero_le)
  with Cons show ?case by simp
qed

lemma find_str_append_ex: "\<exists>i \<le> length a. find_str (a @ p @ b) p = Some i"
proof (cases "find_str (a @ p @ b) p")
  case None
  then have "\<forall>j \<le> length (a @ p @ b). \<not> prefix p (drop j (a @ p @ b))"
    by (simp only: find_str_None)
  then have "\<not> prefix p (drop (length a) (a @ p @ b))"
    by (rule allE [of _ "length a"]) simp
  then show ?thesis by simp
next
  case (Some i)
  moreover have "\<not> length a < i"
  proof
    assume "length a < i"
    with Some have "\<not> prefix p (drop (length a) (a @ p @ b))" by (rule find_str_first)
    then show False by simp
  qed
  ultimately show ?thesis by simp
qed

lemma contains_iff: "contains s p \<longleftrightarrow> (\<exists>a b. s = a @ p @ b)"
proof
  assume "contains s p"
  then obtain i where "find_str s p = Some i" by (auto simp: contains_def)
  then show "\<exists>a b. s = a @ p @ b" by (blast dest: find_str_decomp)
next
  assume "\<exists>a b. s = a @ p @ b"
  then show "contains s p" using find_str_append_ex by (fastforce simp: contains_def)
qed

lemma rfind_str_prefix: "rfind_str s p = Some i \<Longrightarrow> prefix p (drop i s) \<and> i \<le> length s"
  by (induction s arbitrary: i) (auto split: if_splits option.splits)

lemma rfind_str_bound: "rfind_str s p = Some i \<Longrightarrow> i + length p \<le> length s"
  using rfind_str_prefix [of s p i] prefix_length_le [of p "drop i s"] by auto

text \<open>A text in single quotes, as the error messages print names.\<close>

definition quote :: "string \<Rightarrow> string" where
  "quote s = [CHR 0x27] @ s @ [CHR 0x27]"

text \<open>The UTF-8 bytes of the dash that the messages use.\<close>

definition em_dash :: string where "em_dash = [CHR 0xE2, CHR 0x80, CHR 0x94]"

section \<open>Splitting and joining\<close>

text \<open>\<open>s.split(c)\<close> for one byte: never empty, one part more than separators.\<close>

fun split_char :: "char \<Rightarrow> string \<Rightarrow> string list" where
  "split_char c [] = [[]]"
| "split_char c (x # xs) =
     (if x = c then [] # split_char c xs
      else (case split_char c xs of [] \<Rightarrow> [[x]] | y # ys \<Rightarrow> (x # y) # ys))"

fun join_with :: "string \<Rightarrow> string list \<Rightarrow> string" where
  "join_with sep [] = []"
| "join_with sep [x] = x"
| "join_with sep (x # y # ys) = x @ sep @ join_with sep (y # ys)"

lemma split_char_not_Nil [simp]: "split_char c s \<noteq> []"
  by (cases s) (auto split: list.splits)

lemma join_split_char: "join_with [c] (split_char c s) = s"
proof (induction s)
  case Nil
  then show ?case by simp
next
  case (Cons x xs)
  obtain y ys where "split_char c xs = y # ys" by (cases "split_char c xs") auto
  with Cons show ?case by (cases ys) auto
qed

lemma split_char_no_sep: "c \<notin> set s \<Longrightarrow> split_char c s = [s]"
  by (induction s) auto

lemma split_char_append: "c \<notin> set a \<Longrightarrow> split_char c (a @ c # b) = a # split_char c b"
  by (induction a) auto

lemma split_char_parts: "p \<in> set (split_char c s) \<Longrightarrow> c \<notin> set p"
proof (induction s arbitrary: p)
  case Nil
  then show ?case by simp
next
  case (Cons x xs)
  obtain y ys where "split_char c xs = y # ys" by (cases "split_char c xs") auto
  with Cons show ?case by (auto split: if_splits)
qed

lemma split_join_char:
  "xs \<noteq> [] \<Longrightarrow> \<forall>x \<in> set xs. c \<notin> set x \<Longrightarrow> split_char c (join_with [c] xs) = xs"
  by (induction "[c]" xs rule: join_with.induct) (auto simp: split_char_no_sep split_char_append)

lemma length_split_char: "length (split_char c s) = Suc (count_list s c)"
proof (induction s)
  case Nil
  then show ?case by simp
next
  case (Cons x xs)
  obtain y ys where "split_char c xs = y # ys" by (cases "split_char c xs") auto
  with Cons show ?case by auto
qed

section \<open>Replacing, trimming, case\<close>

text \<open>\<open>s.replace(p, r)\<close> for a non-empty \<open>p\<close>: left to right, without overlaps.\<close>

function replace_str :: "string \<Rightarrow> string \<Rightarrow> string \<Rightarrow> string" where
  "replace_str p r [] = []"
| "replace_str p r (c # cs) =
     (if p \<noteq> [] \<and> prefix p (c # cs) then r @ replace_str p r (drop (length p - 1) cs)
      else c # replace_str p r cs)"
  by pat_completeness auto
termination
  by (relation "measure (\<lambda>(p, r, s). length s)") auto

definition replace_char :: "char \<Rightarrow> string \<Rightarrow> string \<Rightarrow> string" where
  "replace_char c r s = concat (map (\<lambda>x. if x = c then r else [x]) s)"

definition is_space :: "char \<Rightarrow> bool" where
  "is_space c \<longleftrightarrow> (9 \<le> (of_char c :: nat) \<and> (of_char c :: nat) \<le> 13) \<or> (of_char c :: nat) = 32"

definition trim_start :: "string \<Rightarrow> string" where
  "trim_start s = dropWhile is_space s"

definition trim_end :: "string \<Rightarrow> string" where
  "trim_end s = rev (dropWhile is_space (rev s))"

definition trim :: "string \<Rightarrow> string" where
  "trim s = trim_end (trim_start s)"

definition trim_matches :: "char \<Rightarrow> string \<Rightarrow> string" where
  "trim_matches c s = rev (dropWhile ((=) c) (rev (dropWhile ((=) c) s)))"

definition trim_end_matches :: "char \<Rightarrow> string \<Rightarrow> string" where
  "trim_end_matches c s = rev (dropWhile ((=) c) (rev s))"

text \<open>\<open>trim_end_matches\<close> and \<open>trim_start_matches\<close> with a text.\<close>

function trim_end_str :: "string \<Rightarrow> string \<Rightarrow> string" where
  "trim_end_str p s = (if p \<noteq> [] \<and> suffix p s then trim_end_str p (take (length s - length p) s) else s)"
  by pat_completeness auto
termination
  by (relation "measure (\<lambda>(p, s). length s)") (auto simp: suffix_def)

declare trim_end_str.simps [simp del]

function trim_start_str :: "string \<Rightarrow> string \<Rightarrow> string" where
  "trim_start_str p s = (if p \<noteq> [] \<and> prefix p s then trim_start_str p (drop (length p) s) else s)"
  by pat_completeness auto
termination
  by (relation "measure (\<lambda>(p, s). length s)") (auto simp: prefix_def)

declare trim_start_str.simps [simp del]

text \<open>\<open>trim_matches\<close> with a closure, \<open>split_whitespace\<close>, and \<open>split\<close> at a non-empty text.\<close>

definition trim_when :: "(char \<Rightarrow> bool) \<Rightarrow> string \<Rightarrow> string" where
  "trim_when P s = rev (dropWhile P (rev (dropWhile P s)))"

fun split_when :: "(char \<Rightarrow> bool) \<Rightarrow> string \<Rightarrow> string list" where
  "split_when P [] = [[]]"
| "split_when P (c # cs) =
     (let ws = split_when P cs in if P c then [] # ws else (c # hd ws) # tl ws)"

definition split_whitespace :: "string \<Rightarrow> string list" where
  "split_whitespace s = filter (\<lambda>w. w \<noteq> []) (split_when is_space s)"

function split_str :: "string \<Rightarrow> string \<Rightarrow> string list" where
  "split_str p [] = [[]]"
| "split_str p (c # cs) =
     (if p \<noteq> [] \<and> prefix p (c # cs) then [] # split_str p (drop (length p - 1) cs)
      else let ws = split_str p cs in (c # hd ws) # tl ws)"
  by pat_completeness auto
termination
  by (relation "measure (\<lambda>(p, s). length s)") auto

lemma split_str_not_Nil [simp]: "split_str p s \<noteq> []"
  by (cases s) (simp_all add: Let_def)

text \<open>The first occurrence of every element, in order.\<close>

definition dedup :: "'a list \<Rightarrow> 'a list" where
  "dedup xs = rev (remdups (rev xs))"

lemma set_dedup [simp]: "set (dedup xs) = set xs"
  by (simp add: dedup_def)

definition ascii_upper :: "char \<Rightarrow> char" where
  "ascii_upper c =
     (let n = (of_char c :: nat) in if 97 \<le> n \<and> n \<le> 122 then char_of (n - 32) else c)"

definition ascii_lower :: "char \<Rightarrow> char" where
  "ascii_lower c =
     (let n = (of_char c :: nat) in if 65 \<le> n \<and> n \<le> 90 then char_of (n + 32) else c)"

definition to_uppercase :: "string \<Rightarrow> string" where
  "to_uppercase s = map ascii_upper s"

definition to_lowercase :: "string \<Rightarrow> string" where
  "to_lowercase s = map ascii_lower s"

lemma length_to_uppercase [simp]: "length (to_uppercase s) = length s"
  by (simp add: to_uppercase_def)

lemma length_to_lowercase [simp]: "length (to_lowercase s) = length s"
  by (simp add: to_lowercase_def)

lemma length_trim_le: "length (trim s) \<le> length s"
proof -
  have "length (trim_end t) \<le> length t" for t
    using length_dropWhile_le [of is_space "rev t"] by (simp add: trim_end_def)
  from this [of "trim_start s"] length_dropWhile_le [of is_space s] show ?thesis
    by (simp add: trim_def trim_start_def)
qed

lemma replace_str_absent: "\<not> contains s p \<Longrightarrow> replace_str p r s = s"
proof (induction p r s rule: replace_str.induct)
  case (1 p r)
  then show ?case by simp
next
  case (2 p r c cs)
  from "2.prems" have "\<not> prefix p (c # cs)" and "\<not> contains cs p"
    by (auto simp: contains_def split: if_splits)
  with "2.IH" show ?case by simp
qed

text \<open>\<open>s.lines()\<close>: split at line feeds, a final empty line and trailing carriage
  returns dropped.\<close>

definition strip_cr :: "string \<Rightarrow> string" where
  "strip_cr l = (if l \<noteq> [] \<and> last l = CHR 0x0D then butlast l else l)"

definition str_lines :: "string \<Rightarrow> string list" where
  "str_lines s =
     (let ls = split_char (CHR 0x0A) s;
          ls' = (if last ls = [] then butlast ls else ls)
      in map strip_cr ls')"

text \<open>\<open>xs.chunks(n)\<close>: consecutive pieces of \<open>n\<close> elements, the last one shorter.\<close>

function chunks :: "nat \<Rightarrow> 'a list \<Rightarrow> 'a list list" where
  "chunks n xs = (if n = 0 \<or> xs = [] then [] else take n xs # chunks n (drop n xs))"
  by pat_completeness auto
termination
  by (relation "measure (\<lambda>(n, xs). length xs)") auto

declare chunks.simps [simp del]

lemma chunks_Nil [simp]: "chunks n [] = []"
  by (simp add: chunks.simps)

lemma chunks_append:
  "0 < n \<Longrightarrow> length a = n \<Longrightarrow> chunks n (a @ b) = a # chunks n b"
  by (subst chunks.simps) auto

lemma chunks_short: "xs \<noteq> [] \<Longrightarrow> length xs \<le> n \<Longrightarrow> chunks n xs = [xs]"
  by (subst chunks.simps) (cases n; auto)

section \<open>Bytes and UTF-8\<close>

definition as_bytes :: "string \<Rightarrow> u8 list" where
  "as_bytes s = map (\<lambda>c. of_nat (of_char c)) s"

definition bytes_to_str :: "u8 list \<Rightarrow> string" where
  "bytes_to_str bs = map (\<lambda>b. char_of (unat b)) bs"

lemma bytes_to_str_as_bytes [simp]: "bytes_to_str (as_bytes s) = s"
proof -
  have "char_of (unat (of_nat (of_char c) :: u8)) = c" for c :: char
    by (simp add: unat_of_nat)
  then show ?thesis by (simp add: bytes_to_str_def as_bytes_def comp_def)
qed

definition utf8_cont :: "nat \<Rightarrow> bool" where
  "utf8_cont b \<longleftrightarrow> 128 \<le> b \<and> b < 192"

text \<open>The well-formed byte sequences of the Unicode standard (what \<open>String::from_utf8\<close>
  accepts), on byte values.\<close>

fun valid_utf8 :: "nat list \<Rightarrow> bool" where
  "valid_utf8 [] = True"
| "valid_utf8 (b # r) =
     (if b < 128 then valid_utf8 r
      else if 194 \<le> b \<and> b \<le> 223 then
        (case r of c # r' \<Rightarrow> utf8_cont c \<and> valid_utf8 r' | _ \<Rightarrow> False)
      else if 224 \<le> b \<and> b \<le> 239 then
        (case r of c # d # r' \<Rightarrow>
           utf8_cont c \<and> utf8_cont d \<and> (b = 224 \<longrightarrow> 160 \<le> c) \<and> (b = 237 \<longrightarrow> c < 160) \<and> valid_utf8 r'
         | _ \<Rightarrow> False)
      else if 240 \<le> b \<and> b \<le> 244 then
        (case r of c # d # e # r' \<Rightarrow>
           utf8_cont c \<and> utf8_cont d \<and> utf8_cont e \<and> (b = 240 \<longrightarrow> 144 \<le> c) \<and>
           (b = 244 \<longrightarrow> c < 144) \<and> valid_utf8 r'
         | _ \<Rightarrow> False)
      else False)"

definition valid_str :: "string \<Rightarrow> bool" where
  "valid_str s = valid_utf8 (map of_char s)"

lemma valid_utf8_ascii: "\<forall>b \<in> set bs. b < 128 \<Longrightarrow> valid_utf8 bs"
  by (induction bs) auto

text \<open>A slice of a text panics inside a character.\<close>

definition char_boundary :: "string \<Rightarrow> nat \<Rightarrow> bool" where
  "char_boundary s n \<longleftrightarrow> n = length s \<or> n < length s \<and> \<not> utf8_cont (of_char (s ! n))"

definition slice :: "nat \<Rightarrow> nat \<Rightarrow> string \<Rightarrow> string result" where
  "slice a b s = (if a \<le> b \<and> char_boundary s a \<and> char_boundary s b then Ok (take (b - a) (drop a s)) else Panic)"

text \<open>Full Unicode case mapping, which may change lengths, is a parameter of the functions whose slices depend on
  it; on ASCII text it maps letter by letter.\<close>

definition ascii_str :: "string \<Rightarrow> bool" where
  "ascii_str s \<longleftrightarrow> list_all (\<lambda>c. (of_char c :: nat) < 128) s"

definition unicode_case :: "(char \<Rightarrow> char) \<Rightarrow> (string \<Rightarrow> string) \<Rightarrow> bool" where
  "unicode_case f case_map \<longleftrightarrow> (\<forall>s. ascii_str s \<longrightarrow> case_map s = map f s)"

lemma ascii_str_subset: "ascii_str s \<Longrightarrow> set t \<subseteq> set s \<Longrightarrow> ascii_str t"
  by (auto simp: ascii_str_def list_all_iff)

lemma ascii_str_append [simp]: "ascii_str (s @ t) \<longleftrightarrow> ascii_str s \<and> ascii_str t"
  by (simp add: ascii_str_def)

lemma ascii_to_uppercase: "ascii_str s \<Longrightarrow> ascii_str (to_uppercase s)"
proof -
  have "(of_char (ascii_upper c) :: nat) < 128" if "(of_char c :: nat) < 128" for c
    using that by (auto simp: ascii_upper_def Let_def unat_of_nat)
  then show "ascii_str s \<Longrightarrow> ascii_str (to_uppercase s)" by (simp add: ascii_str_def to_uppercase_def list_all_iff)
qed

lemma ascii_boundary: "ascii_str s \<Longrightarrow> char_boundary s n \<longleftrightarrow> n \<le> length s"
  by (auto simp: char_boundary_def utf8_cont_def ascii_str_def list_all_length le_less)

lemma ascii_slice:
  "ascii_str s \<Longrightarrow> slice a b s = (if a \<le> b \<and> b \<le> length s then Ok (take (b - a) (drop a s)) else Panic)"
  by (auto simp: slice_def ascii_boundary)

lemma slice_Ok: "slice a b s = Ok t \<Longrightarrow> a \<le> b \<and> b \<le> length s \<and> t = take (b - a) (drop a s)"
  by (auto simp: slice_def char_boundary_def split: if_splits)

lemma to_uppercase_ascii: "unicode_case ascii_upper up \<Longrightarrow> ascii_str s \<Longrightarrow> up s = to_uppercase s"
  by (simp add: unicode_case_def to_uppercase_def)

lemma to_lowercase_ascii: "unicode_case ascii_lower low \<Longrightarrow> ascii_str s \<Longrightarrow> low s = to_lowercase s"
  by (simp add: unicode_case_def to_lowercase_def)

lemma unicode_case_self: "unicode_case ascii_upper to_uppercase" "unicode_case ascii_lower to_lowercase"
  by (simp_all add: unicode_case_def to_uppercase_def to_lowercase_def)

text \<open>The characters of a text, each as its bytes, and closures on them; which characters beyond ASCII are
  alphanumeric is a parameter.\<close>

fun utf8_chars :: "string \<Rightarrow> string list" where
  "utf8_chars [] = []"
| "utf8_chars (b # s) =
     (case utf8_chars s of
        x # xs \<Rightarrow> if utf8_cont (of_char (hd x)) then (b # x) # xs else [b] # x # xs
      | [] \<Rightarrow> [[b]])"

definition trim_chars :: "(string \<Rightarrow> bool) \<Rightarrow> string \<Rightarrow> string" where
  "trim_chars P s = concat (rev (dropWhile P (rev (dropWhile P (utf8_chars s)))))"

definition ascii_alphanumeric :: "char \<Rightarrow> bool" where
  "ascii_alphanumeric c \<longleftrightarrow>
     (let n = of_char c :: nat in 48 \<le> n \<and> n \<le> 57 \<or> 65 \<le> n \<and> n \<le> 90 \<or> 97 \<le> n \<and> n \<le> 122)"

definition alphanumeric :: "(string \<Rightarrow> bool) \<Rightarrow> string \<Rightarrow> bool" where
  "alphanumeric other x = (case x of [c] \<Rightarrow> ascii_alphanumeric c | _ \<Rightarrow> other x)"

lemma utf8_chars_ascii: "ascii_str s \<Longrightarrow> utf8_chars s = map (\<lambda>c. [c]) s"
proof (induction s)
  case (Cons c s)
  then have "utf8_chars s = map (\<lambda>c. [c]) s" "ascii_str s" by (simp_all add: ascii_str_def)
  then show ?case by (cases s) (simp_all add: ascii_str_def utf8_cont_def)
qed simp

lemma set_trim: "set (trim s) \<subseteq> set s"
proof -
  have "set (dropWhile P xs) \<subseteq> set xs" for P and xs :: string by (auto dest: set_dropWhileD)
  then show ?thesis unfolding trim_def trim_end_def trim_start_def by (metis order_trans set_rev)
qed

section \<open>Decimal numbers\<close>

definition digit_char :: "nat \<Rightarrow> char" where
  "digit_char d = char_of (48 + d)"

definition digit_val :: "char \<Rightarrow> nat option" where
  "digit_val c =
     (let n = (of_char c :: nat) in if 48 \<le> n \<and> n \<le> 57 then Some (n - 48) else None)"

fun show_nat :: "nat \<Rightarrow> string" where
  "show_nat n = (if n < 10 then [digit_char n] else show_nat (n div 10) @ [digit_char (n mod 10)])"

declare show_nat.simps [simp del]

text \<open>\<open>{:04}\<close> pads with zeros to four digits.\<close>

definition pad4 :: "nat \<Rightarrow> string" where
  "pad4 n = replicate (4 - length (show_nat n)) (CHR ''0'') @ show_nat n"

definition show_int :: "int \<Rightarrow> string" where
  "show_int i = (if i < 0 then ''-'' @ show_nat (nat (- i)) else show_nat (nat i))"

fun parse_digits :: "nat \<Rightarrow> string \<Rightarrow> nat option" where
  "parse_digits acc [] = Some acc"
| "parse_digits acc (c # cs) =
     (case digit_val c of None \<Rightarrow> None | Some d \<Rightarrow> parse_digits (10 * acc + d) cs)"

text \<open>\<open>s.parse::<u64>()\<close>: an optional plus sign, at least one digit, no overflow.\<close>

definition parse_u64 :: "string \<Rightarrow> u64 option" where
  "parse_u64 s =
     (let t = (case s of [] \<Rightarrow> [] | c # cs \<Rightarrow> if c = CHR ''+'' then cs else s)
      in if t = [] then None
         else case parse_digits 0 t of
                None \<Rightarrow> None
              | Some n \<Rightarrow> if n < 2 ^ 64 then Some (of_nat n) else None)"

definition parse_u32 :: "string \<Rightarrow> nat option" where
  "parse_u32 s =
     (case parse_u64 s of Some w \<Rightarrow> if unat w < 2 ^ 32 then Some (unat w) else None | None \<Rightarrow> None)"

text \<open>\<open>s.parse::<i32>()\<close>: an optional sign, at least one digit, in range.\<close>

definition parse_i32 :: "string \<Rightarrow> int option" where
  "parse_i32 s =
     (let (neg, t) = (case s of [] \<Rightarrow> (False, []) | c # cs \<Rightarrow>
              if c = CHR ''+'' then (False, cs) else if c = CHR ''-'' then (True, cs)
              else (False, s))
      in if t = [] then None
         else case parse_digits 0 t of
                None \<Rightarrow> None
              | Some n \<Rightarrow> (let i = (if neg then - int n else int n)
                           in if fits_i32 i then Some i else None))"

definition parse_i64 :: "string \<Rightarrow> int option" where
  "parse_i64 s =
     (let (neg, digits) = (case s of c # r \<Rightarrow> if c = CHR ''-'' then (True, r) else if c = CHR ''+'' then (False, r) else (False, s)
                                   | [] \<Rightarrow> (False, s))
      in if digits = [] then None
         else Option.bind (parse_digits 0 digits)
                (\<lambda>n. let i = (if neg then - int n else int n) in if fits_i64 i then Some i else None))"

lemma of_char_digit_char: "d < 10 \<Longrightarrow> (of_char (digit_char d) :: nat) = 48 + d"
  by (simp add: digit_char_def of_char_of)

lemma digit_val_digit_char [simp]: "d < 10 \<Longrightarrow> digit_val (digit_char d) = Some d"
  by (simp add: digit_val_def of_char_digit_char)

lemma show_nat_not_Nil [simp]: "show_nat n \<noteq> []"
  by (subst show_nat.simps) simp

lemma parse_digits_append:
  "parse_digits a (s @ t) =
     (case parse_digits a s of None \<Rightarrow> None | Some b \<Rightarrow> parse_digits b t)"
  by (induction s arbitrary: a) (auto split: option.splits)

lemma parse_digits_show_nat: "parse_digits 0 (show_nat n) = Some n"
proof (induction n rule: show_nat.induct)
  case (1 n)
  show ?case
  proof (cases "n < 10")
    case True
    then show ?thesis by (subst show_nat.simps) simp
  next
    case False
    with "1.IH" show ?thesis
      by (subst show_nat.simps) (simp add: parse_digits_append)
  qed
qed

lemma hd_show_nat_digit: "\<exists>d < 10. hd (show_nat n) = digit_char d"
proof (induction n rule: show_nat.induct)
  case (1 n)
  show ?case
  proof (cases "n < 10")
    case True
    then show ?thesis by (subst show_nat.simps) auto
  next
    case False
    with "1.IH" obtain d where "d < 10" "hd (show_nat (n div 10)) = digit_char d" by blast
    with False show ?thesis by (subst show_nat.simps) auto
  qed
qed

lemma digit_char_not_sign: "d < 10 \<Longrightarrow> digit_char d \<noteq> CHR ''+'' \<and> digit_char d \<noteq> CHR ''-''"
  using of_char_digit_char [of d] by (auto simp: of_char_def)

lemma parse_u64_show_nat: "n < 2 ^ 64 \<Longrightarrow> parse_u64 (show_nat n) = Some (of_nat n)"
proof -
  assume n: "n < 2 ^ 64"
  obtain c cs where s: "show_nat n = c # cs" by (cases "show_nat n") auto
  obtain d where "d < 10" "hd (show_nat n) = digit_char d" using hd_show_nat_digit by blast
  with s have "c \<noteq> CHR ''+''" by (auto dest: digit_char_not_sign)
  with s n parse_digits_show_nat [of n] show ?thesis by (simp add: parse_u64_def Let_def)
qed

lemma parse_u64_show_word: "parse_u64 (show_nat (unat (w :: u64))) = Some w"
  using unsigned_less [where 'a = nat and w = w] by (simp add: parse_u64_show_nat)

lemma parse_i32_show: "0 \<le> i \<Longrightarrow> fits_i32 i \<Longrightarrow> parse_i32 (show_int i) = Some i"
proof -
  assume i: "0 \<le> i" "fits_i32 i"
  obtain c cs where s: "show_nat (nat i) = c # cs" by (cases "show_nat (nat i)") auto
  obtain d where "d < 10" "hd (show_nat (nat i)) = digit_char d" using hd_show_nat_digit by blast
  with s have "c \<noteq> CHR ''+'' \<and> c \<noteq> CHR ''-''" by (auto dest: digit_char_not_sign)
  with s i parse_digits_show_nat [of "nat i"] show ?thesis
    by (simp add: parse_i32_def show_int_def Let_def)
qed

lemma show_nat_inj: "show_nat m = show_nat n \<longleftrightarrow> m = n"
proof
  assume "show_nat m = show_nat n"
  then have "parse_digits 0 (show_nat m) = parse_digits 0 (show_nat n)" by (rule arg_cong)
  then show "m = n" by (simp only: parse_digits_show_nat option.inject)
qed (rule arg_cong)

section \<open>Components with a state invariant\<close>

text \<open>
  The contract of every stateful component: an initial state that satisfies the invariant and
  operations that keep it. A run is any sequence of operations, in any order.
\<close>

locale state_invariant =
  fixes step :: "'op \<Rightarrow> 's \<Rightarrow> 's" and init :: 's and inv :: "'s \<Rightarrow> bool"
  assumes inv_init: "inv init" and inv_step: "inv s \<Longrightarrow> inv (step op s)"
begin

lemma inv_run_from: "inv s \<Longrightarrow> inv (fold step ops s)"
  by (induction ops arbitrary: s) (auto intro: inv_step)

lemma inv_run: "inv (fold step ops init)"
  by (rule inv_run_from) (rule inv_init)

end

text \<open>Operations that also respect a relation between the state before and after, as a history that only
  grows; \<open>allowed\<close> restricts the operations where the code relies on its caller.\<close>

locale history_constraint =
  fixes step :: "'op \<Rightarrow> 's \<Rightarrow> 's" and inv :: "'s \<Rightarrow> bool" and rel :: "'s \<Rightarrow> 's \<Rightarrow> bool" and allowed :: "'op \<Rightarrow> bool"
  assumes rel_refl: "rel s s" and rel_trans: "rel s t \<Longrightarrow> rel t u \<Longrightarrow> rel s u"
    and step_ok: "allowed op \<Longrightarrow> inv s \<Longrightarrow> inv (step op s) \<and> rel s (step op s)"
begin

lemma run_ok: "list_all allowed ops \<Longrightarrow> inv s \<Longrightarrow> inv (fold step ops s) \<and> rel s (fold step ops s)"
proof (induction ops arbitrary: s)
  case Nil
  then show ?case by (simp add: rel_refl)
next
  case (Cons op ops)
  then have "inv (step op s) \<and> rel s (step op s)" by (intro step_ok) simp_all
  with Cons show ?case by (auto intro: rel_trans)
qed

end

end
