(* ===== verification/Base64_Codec.thy ===== *)
theory Base64_Codec
  imports Prelude
begin

text \<open>
  The hand-written Base64 codec and HMAC of \<open>crates/rustlake-api/src/auth.rs\<close> (lines
  22 to 158): the standard alphabet, the URL-safe variant without padding, and the two-pass
  HMAC construction over a hash that is a parameter (the \<open>sha2\<close> crate). The main result is
  that decoding inverts encoding for every byte string.
\<close>

section \<open>Definitions\<close>

definition CHARS :: string where
  "CHARS = ''ABCDEFGHIJKLMNOPQRSTUVWXYZabcdefghijklmnopqrstuvwxyz0123456789+/''"

definition sextet :: "u32 \<Rightarrow> nat \<Rightarrow> char" where
  "sextet triple k = CHARS ! unat (and (drop_bit k triple) 0x3F)"

definition encode_chunk :: "u8 list \<Rightarrow> string" where
  "encode_chunk chunk =
     (let b0 = ucast (chunk ! 0) :: u32;
          b1 = (if length chunk > 1 then ucast (chunk ! 1) else 0);
          b2 = (if length chunk > 2 then ucast (chunk ! 2) else 0);
          triple = or (or (push_bit 16 b0) (push_bit 8 b1)) b2
      in [sextet triple 18, sextet triple 12,
          if length chunk > 1 then sextet triple 6 else CHR ''='',
          if length chunk > 2 then sextet triple 0 else CHR ''=''])"

definition base64_encode :: "u8 list \<Rightarrow> string" where
  "base64_encode data = concat (map encode_chunk (chunks 3 data))"

definition char_val :: "char \<Rightarrow> u8 result" where
  "char_val ch =
     (let c = (of_char ch :: nat)
      in if 65 \<le> c \<and> c \<le> 90 then Ok (of_nat (c - 65))
         else if 97 \<le> c \<and> c \<le> 122 then Ok (of_nat (c - 97 + 26))
         else if 48 \<le> c \<and> c \<le> 57 then Ok (of_nat (c - 48 + 52))
         else if ch = CHR ''+'' then Ok 62
         else if ch = CHR ''/'' then Ok 63
         else if ch = CHR ''='' then Ok 0
         else Err (''invalid base64 character: '' @ [ch]))"

definition decode_chunk :: "string \<Rightarrow> u8 list result" where
  "decode_chunk chunk =
     bind_result (char_val (chunk ! 0)) (\<lambda>a.
     bind_result (char_val (chunk ! 1)) (\<lambda>b.
     bind_result (char_val (chunk ! 2)) (\<lambda>c.
     bind_result (char_val (chunk ! 3)) (\<lambda>d.
       let triple = or (or (or (push_bit 18 (ucast a :: u32)) (push_bit 12 (ucast b)))
                           (push_bit 6 (ucast c))) (ucast d)
       in Ok ([ucast (and (drop_bit 16 triple) 0xFF)]
              @ (if chunk ! 2 \<noteq> CHR ''='' then [ucast (and (drop_bit 8 triple) 0xFF)] else [])
              @ (if chunk ! 3 \<noteq> CHR ''='' then [ucast (and triple 0xFF)] else []))))))"

definition base64_decode :: "string \<Rightarrow> u8 list result" where
  "base64_decode s =
     (if length s mod 4 \<noteq> 0 then Err ''invalid base64 length''
      else bind_result (map_result_list decode_chunk (chunks 4 s)) (\<lambda>bs. Ok (concat bs)))"

definition base64_url_encode :: "u8 list \<Rightarrow> string" where
  "base64_url_encode data =
     trim_end_matches (CHR ''='')
       (replace_char (CHR ''/'') ''_'' (replace_char (CHR ''+'') ''-'' (base64_encode data)))"

definition base64_url_decode :: "string \<Rightarrow> u8 list result" where
  "base64_url_decode s0 =
     (let s = replace_char (CHR ''_'') ''/'' (replace_char (CHR ''-'') ''+'' s0);
          pad = (4 - length s mod 4) mod 4
      in base64_decode (s @ replicate pad (CHR ''='')))"

definition hmac_key_block :: "(u8 list \<Rightarrow> u8 list) \<Rightarrow> u8 list \<Rightarrow> u8 list" where
  "hmac_key_block sha256 key =
     (let k = (if length key > 64 then sha256 key else key) in k @ replicate (64 - length k) 0)"

definition hmac_sha256 :: "(u8 list \<Rightarrow> u8 list) \<Rightarrow> u8 list \<Rightarrow> u8 list \<Rightarrow> u8 list" where
  "hmac_sha256 sha256 key message =
     (let key_bytes = hmac_key_block sha256 key;
          i_key_pad = map (\<lambda>b. xor 0x36 b) key_bytes;
          o_key_pad = map (\<lambda>b. xor 0x5C b) key_bytes;
          inner_result = sha256 (i_key_pad @ message)
      in sha256 (o_key_pad @ inner_result))"

section \<open>Characters and sextets\<close>

lemma length_CHARS [simp]: "length CHARS = 64"
  by (simp add: CHARS_def)

lemma char_val_CHARS: "map char_val CHARS = map (\<lambda>i. Ok (of_nat i)) [0..<64]"
  by (simp add: CHARS_def char_val_def upt_conv_Cons)

lemma CHARS_plain:
  "\<forall>c \<in> set CHARS. c \<noteq> CHR ''='' \<and> c \<noteq> CHR ''-'' \<and> c \<noteq> CHR ''_'' \<and> c \<noteq> CHR ''.''
     \<and> (of_char c :: nat) < 128"
  by (simp add: CHARS_def)

lemma CHARS_nth:
  assumes "i < 64"
  shows "char_val (CHARS ! i) = Ok (of_nat i)" "CHARS ! i \<noteq> CHR ''=''"
    "CHARS ! i \<noteq> CHR ''-''" "CHARS ! i \<noteq> CHR ''_''" "CHARS ! i \<noteq> CHR ''.''"
    "(of_char (CHARS ! i) :: nat) < 128"
proof -
  have "map char_val CHARS ! i = map (\<lambda>i. Ok (of_nat i)) [0..<64] ! i"
    by (simp only: char_val_CHARS)
  with assms show "char_val (CHARS ! i) = Ok (of_nat i)" by simp
  have "CHARS ! i \<in> set CHARS" using assms by simp
  with CHARS_plain show "CHARS ! i \<noteq> CHR ''=''" "CHARS ! i \<noteq> CHR ''-''"
    "CHARS ! i \<noteq> CHR ''_''" "CHARS ! i \<noteq> CHR ''.''" "(of_char (CHARS ! i) :: nat) < 128"
    by blast+
qed

lemma sextet_less: "unat (and (w :: u32) 0x3F) < 64"
proof -
  have "and w 0x3F = take_bit 6 w" by (simp add: take_bit_eq_mask mask_eq_exp_minus_1)
  then have "unat (and w 0x3F) = take_bit 6 (unat w)" by (simp add: unsigned_take_bit_eq)
  then show ?thesis using take_bit_nat_less_exp [of 6 "unat w"] by simp
qed

lemma sextet_val: "char_val (sextet t k) = Ok (ucast (and (drop_bit k t) 0x3F))"
  using CHARS_nth(1) [OF sextet_less [of "drop_bit k t"]] by (simp add: sextet_def)

lemma sextet_char [simp]:
  "sextet t k \<noteq> CHR ''=''" "sextet t k \<noteq> CHR ''-''" "sextet t k \<noteq> CHR ''_''"
  "sextet t k \<noteq> CHR ''.''" "(of_char (sextet t k) :: nat) < 128"
  using CHARS_nth [OF sextet_less [of "drop_bit k t"]] by (simp_all add: sextet_def)

lemma char_val_pad [simp]: "char_val (CHR ''='') = Ok 0"
  by (simp add: char_val_def)

section \<open>One chunk\<close>

definition triple_of :: "u8 \<Rightarrow> u8 \<Rightarrow> u8 \<Rightarrow> u32" where
  "triple_of x y z = or (or (push_bit 16 (ucast x)) (push_bit 8 (ucast y))) (ucast z)"

lemma encode_chunk_cases [simp]:
  "encode_chunk [x] =
     [sextet (triple_of x 0 0) 18, sextet (triple_of x 0 0) 12, CHR ''='', CHR ''='']"
  "encode_chunk [x, y] =
     [sextet (triple_of x y 0) 18, sextet (triple_of x y 0) 12, sextet (triple_of x y 0) 6, CHR ''='']"
  "encode_chunk [x, y, z] =
     [sextet (triple_of x y z) 18, sextet (triple_of x y z) 12, sextet (triple_of x y z) 6,
      sextet (triple_of x y z) 0]"
  by (simp_all add: encode_chunk_def triple_of_def Let_def)

text \<open>The four sextets of a 24-bit value, as the decoder reads them back.\<close>

definition sext :: "u32 \<Rightarrow> nat \<Rightarrow> u8" where
  "sext t k = ucast (and (drop_bit k t) 0x3F)"

definition regroup :: "u8 \<Rightarrow> u8 \<Rightarrow> u8 \<Rightarrow> u8 \<Rightarrow> u32" where
  "regroup a b c d =
     or (or (or (push_bit 18 (ucast a)) (push_bit 12 (ucast b))) (push_bit 6 (ucast c))) (ucast d)"

lemma low6: "and (w :: u32) 0x3F = take_bit 6 w"
  by (simp add: take_bit_eq_mask mask_eq_exp_minus_1)

lemma low8: "and (w :: u32) 0xFF = take_bit 8 w"
  by (simp add: take_bit_eq_mask mask_eq_exp_minus_1)

lemma bit_u8_high: "bit (w :: u8) n \<Longrightarrow> n < 8"
  using bit_imp_le_length [of w n] by simp

lemma triple_bytes:
  "ucast (and (drop_bit 16 (triple_of x y z)) 0xFF) = x"
  "ucast (and (drop_bit 8 (triple_of x y z)) 0xFF) = y"
  "ucast (and (triple_of x y z) 0xFF) = z"
  unfolding triple_of_def low8
  by (rule bit_word_eqI; auto simp: bit_simps dest: bit_u8_high)+

lemma sext_zero:
  "sext (triple_of x y 0) 0 = 0"
  "sext (triple_of x 0 0) 6 = 0"
  unfolding sext_def triple_of_def low6
  by (rule bit_word_eqI; auto simp: bit_simps dest: bit_u8_high)+

lemma bit_sext: "bit (sext t k) n \<longleftrightarrow> n < 6 \<and> bit t (k + n)"
  unfolding sext_def low6 by (auto simp: bit_simps add.commute)

lemma regroup_sext:
  assumes "\<And>n. bit t n \<Longrightarrow> n < 24"
  shows "regroup (sext t 18) (sext t 12) (sext t 6) (sext t 0) = t"
proof (rule bit_word_eqI)
  fix n assume "n < LENGTH(32)"
  then have n: "n < 32" by simp
  have "bit (regroup (sext t 18) (sext t 12) (sext t 6) (sext t 0)) n \<longleftrightarrow>
     (18 \<le> n \<and> n - 18 < 6 \<and> bit t n) \<or> (12 \<le> n \<and> n - 12 < 6 \<and> bit t n) \<or>
     (6 \<le> n \<and> n - 6 < 6 \<and> bit t n) \<or> (n < 6 \<and> bit t n)"
    using n unfolding regroup_def
    by (simp add: bit_or_iff bit_push_bit_iff bit_unsigned_iff bit_sext cong: conj_cong) auto
  then show "bit (regroup (sext t 18) (sext t 12) (sext t 6) (sext t 0)) n \<longleftrightarrow> bit t n"
    using assms [of n] by auto
qed

lemma triple_high: "bit (triple_of x y z) n \<Longrightarrow> n < 24"
  unfolding triple_of_def by (auto simp: bit_simps dest: bit_u8_high)

lemma regroup_triple:
  "regroup (sext (triple_of x y z) 18) (sext (triple_of x y z) 12) (sext (triple_of x y z) 6)
     (sext (triple_of x y z) 0) = triple_of x y z"
  by (rule regroup_sext) (rule triple_high)

lemma decode_chunk_eq:
  "decode_chunk [p, q, r, s] =
     bind_result (char_val p) (\<lambda>a. bind_result (char_val q) (\<lambda>b.
     bind_result (char_val r) (\<lambda>c. bind_result (char_val s) (\<lambda>d.
       Ok ([ucast (and (drop_bit 16 (regroup a b c d)) 0xFF)]
          @ (if r \<noteq> CHR ''='' then [ucast (and (drop_bit 8 (regroup a b c d)) 0xFF)] else [])
          @ (if s \<noteq> CHR ''='' then [ucast (and (regroup a b c d) 0xFF)] else []))))))"
  unfolding decode_chunk_def regroup_def Let_def by simp

lemma char_val_sextet [simp]: "char_val (sextet t k) = Ok (sext t k)"
  by (simp add: sext_def sextet_val)

lemma decode_encode_chunk:
  "decode_chunk (encode_chunk [x]) = Ok [x]"
  "decode_chunk (encode_chunk [x, y]) = Ok [x, y]"
  "decode_chunk (encode_chunk [x, y, z]) = Ok [x, y, z]"
  using regroup_triple [where x = x and y = 0 and z = 0]
    regroup_triple [where x = x and y = y and z = 0]
    regroup_triple [where x = x and y = y and z = z]
  by (simp_all add: decode_chunk_eq sext_zero triple_bytes)

section \<open>Whole strings\<close>

lemma list3_induct [case_names Nil One Two More]:
  assumes "P []" "\<And>x. P [x]" "\<And>x y. P [x, y]" "\<And>x y z r. P r \<Longrightarrow> P (x # y # z # r)"
  shows "P xs"
proof (induction xs rule: length_induct)
  case (1 xs)
  then show ?case
    using assms by (cases xs; cases "tl xs"; cases "tl (tl xs)") auto
qed

lemma base64_encode_simps [simp]:
  "base64_encode [] = []"
  "base64_encode [x] = encode_chunk [x]"
  "base64_encode [x, y] = encode_chunk [x, y]"
  "base64_encode (x # y # z # r) = encode_chunk [x, y, z] @ base64_encode r"
  using chunks_append [of 3 "[x, y, z]" r]
  by (simp_all add: base64_encode_def chunks_short del: encode_chunk_cases)

lemma base64_decode_append:
  assumes "length c = 4"
  shows "base64_decode (c @ s) =
    bind_result (if length s mod 4 \<noteq> 0 then Err ''invalid base64 length'' else decode_chunk c)
      (\<lambda>b. bind_result (base64_decode s) (\<lambda>bs. Ok (b @ bs)))"
  using assms chunks_append [of 4 c s]
  by (cases "decode_chunk c"; cases "map_result_list decode_chunk (chunks 4 s)")
     (simp_all add: base64_decode_def)

lemma length_base64_encode_mod [simp]: "length (base64_encode d) mod 4 = 0"
  by (induction d rule: list3_induct) simp_all

lemma base64_decode_encode: "base64_decode (base64_encode d) = Ok d"
proof (induction d rule: list3_induct)
  case Nil
  then show ?case by (simp add: base64_decode_def)
next
  case (One x)
  show ?case
    using base64_decode_append [of "encode_chunk [x]" "[]"] decode_encode_chunk(1) [of x]
    by (simp add: base64_decode_def [of "[]"])
next
  case (Two x y)
  show ?case
    using base64_decode_append [of "encode_chunk [x, y]" "[]"] decode_encode_chunk(2) [of x y]
    by (simp add: base64_decode_def [of "[]"])
next
  case (More x y z r)
  then show ?case
    using base64_decode_append [of "encode_chunk [x, y, z]" "base64_encode r"]
      decode_encode_chunk(3) [of x y z]
    by simp
qed

section \<open>The URL-safe variant\<close>

definition plain_char :: "char \<Rightarrow> bool" where
  "plain_char c \<longleftrightarrow> c \<noteq> CHR ''='' \<and> c \<noteq> CHR ''-'' \<and> c \<noteq> CHR ''_'' \<and> c \<noteq> CHR ''.''
     \<and> (of_char c :: nat) < 128"

lemma plain_sextet [simp]: "plain_char (sextet t k)"
  unfolding plain_char_def by (intro conjI sextet_char)

lemma encode_body_pad:
  "\<exists>b k. base64_encode d = b @ replicate k (CHR ''='') \<and> (\<forall>c \<in> set b. plain_char c)
     \<and> k = (4 - length b mod 4) mod 4"
proof (induction d rule: list3_induct)
  case Nil
  show ?case by (intro exI [of _ "[]"] exI [of _ 0]) simp
next
  case (One x)
  show ?case
    by (intro exI [of _ "[sextet (triple_of x 0 0) 18, sextet (triple_of x 0 0) 12]"]
          exI [of _ "2::nat"]) (simp add: numeral_2_eq_2)
next
  case (Two x y)
  show ?case
    by (intro exI [of _ "[sextet (triple_of x y 0) 18, sextet (triple_of x y 0) 12,
          sextet (triple_of x y 0) 6]"] exI [of _ "1::nat"]) simp
next
  case (More x y z r)
  then obtain b k where "base64_encode r = b @ replicate k (CHR ''='')"
    "\<forall>c \<in> set b. plain_char c" "k = (4 - length b mod 4) mod 4" by blast
  then show ?case
    by (intro exI [of _ "encode_chunk [x, y, z] @ b"] exI [of _ k]) simp
qed

definition to_url :: "char \<Rightarrow> char" where
  "to_url c = (if c = CHR ''+'' then CHR ''-'' else if c = CHR ''/'' then CHR ''_'' else c)"

lemma replace_char_single: "replace_char c [d] s = map (\<lambda>x. if x = c then d else x) s"
  by (induction s) (auto simp: replace_char_def)

lemma to_url_map:
  "replace_char (CHR ''/'') ''_'' (replace_char (CHR ''+'') ''-'' s) = map to_url s"
  by (simp add: replace_char_single to_url_def cong: map_cong)

lemma of_url_map:
  "\<forall>c \<in> set s. plain_char c \<Longrightarrow>
     replace_char (CHR ''_'') ''/'' (replace_char (CHR ''-'') ''+'' (map to_url s)) = s"
  by (induction s) (auto simp: replace_char_single to_url_def plain_char_def)

lemma to_url_plain: "plain_char c \<Longrightarrow> to_url c \<noteq> CHR ''='' \<and> to_url c \<noteq> CHR ''.''"
  by (auto simp: to_url_def plain_char_def)

lemma trim_end_matches_pad:
  "\<forall>x \<in> set s. x \<noteq> c \<Longrightarrow> trim_end_matches c (s @ replicate k c) = s"
proof -
  assume s: "\<forall>x \<in> set s. x \<noteq> c"
  have "dropWhile ((=) c) (replicate k c @ rev s) = dropWhile ((=) c) (rev s)"
    by (induction k) simp_all
  also have "\<dots> = rev s" using s by (cases "rev s") (auto simp: set_eq_iff)
  finally show ?thesis by (simp add: trim_end_matches_def)
qed

lemma url_encode_body:
  assumes "base64_encode d = b @ replicate k (CHR ''='')" "\<forall>c \<in> set b. plain_char c"
  shows "base64_url_encode d = map to_url b"
proof -
  have "map to_url (base64_encode d) = map to_url b @ replicate k (CHR ''='')"
    using assms by (simp add: to_url_def)
  moreover have "\<forall>x \<in> set (map to_url b). x \<noteq> CHR ''=''"
    using assms(2) by (auto dest: to_url_plain)
  ultimately show ?thesis
    by (simp only: base64_url_encode_def to_url_map trim_end_matches_pad)
qed

lemma url_decode_encode: "base64_url_decode (base64_url_encode d) = Ok d"
proof -
  obtain b k where b: "base64_encode d = b @ replicate k (CHR ''='')"
    "\<forall>c \<in> set b. plain_char c" "k = (4 - length b mod 4) mod 4"
    using encode_body_pad by blast
  then have "base64_url_decode (base64_url_encode d) = base64_decode (b @ replicate k (CHR ''=''))"
    by (simp add: base64_url_decode_def url_encode_body of_url_map)
  with b(1) show ?thesis by (simp add: base64_decode_encode flip: b(1))
qed

lemma url_encode_no_dot: "CHR ''.'' \<notin> set (base64_url_encode d)"
proof -
  obtain b k where "base64_encode d = b @ replicate k (CHR ''='')" "\<forall>c \<in> set b. plain_char c"
    using encode_body_pad by blast
  then have "base64_url_encode d = map to_url b" and "\<forall>c \<in> set b. to_url c \<noteq> CHR ''.''"
    by (auto simp: url_encode_body dest: to_url_plain)
  then show ?thesis by (simp add: image_iff) metis
qed

section \<open>The interface the token code uses\<close>

text \<open>
  What \<open>create_token\<close> and \<open>validate_token\<close> rely on: a text encoding of bytes that decodes
  back and never uses the dot that separates the parts of a token.
\<close>

locale text_codec =
  fixes enc :: "u8 list \<Rightarrow> string" and dec :: "string \<Rightarrow> u8 list result"
  assumes dec_enc: "dec (enc d) = Ok d"
    and no_dot: "CHR ''.'' \<notin> set (enc d)"
begin

lemma enc_inj: "enc a = enc b \<longleftrightarrow> a = b"
  by (metis dec_enc result.inject(1))

lemma split_token:
  "split_char (CHR ''.'') ((enc a @ ''.'' @ enc b) @ ''.'' @ enc c) = [enc a, enc b, enc c]"
  using no_dot by (simp add: split_char_append split_char_no_sep)

end

interpretation url64: text_codec base64_url_encode base64_url_decode
  by unfold_locales (simp_all add: url_decode_encode url_encode_no_dot)

text \<open>C19. The hand-written URL-safe Base64 decoder inverts the encoder on every byte string, of
  any length and any content (padding is stripped by the encoder and restored by the decoder).\<close>

theorem base64_url_roundtrip: "base64_url_decode (base64_url_encode data) = Ok data"
  by (rule url64.dec_enc)

end
