(* ===== verification/Auth.thy ===== *)
theory Auth
  imports Base64_Codec
begin

text \<open>
  Authentication and authorisation of \<open>crates/rustlake-api/src/auth.rs\<close> (lines 164 to 815):
  signed tokens, glob patterns on table names, role permissions, row and column policies, the
  request middleware and the operations on the global auth state. The hash function, the JSON
  text of the claims, the clock and the Unicode lower-casing of the row filter, whose byte positions are
  used in the original text, are parameters.
\<close>

section \<open>State\<close>

datatype permission =
    ReadTable string
  | WriteTable string
  | ExecuteSql
  | ManagePipelines
  | ManageConnections
  | Admin

record role =
  role_name :: string
  role_permissions :: "permission list"

record user =
  user_id :: string
  user_name :: string
  email :: string
  user_roles :: "string list"
  created_at :: string

record table_policy =
  table_pattern :: string
  row_filter_sql :: "string option"
  column_mask :: "string list"

record auth_config =
  jwt_secret :: string
  token_expiry_hours :: u64
  auth_enabled :: bool

record claims =
  sub :: string
  claim_username :: string
  claim_roles :: "string list"
  exp_time :: u64
  iat :: u64

record auth_state =
  users :: "string \<rightharpoonup> user"
  roles :: "string \<rightharpoonup> role"
  policies :: "table_policy list"
  config :: auth_config

definition default_config :: auth_config where
  "default_config = \<lparr>jwt_secret = ''rustlake-default-secret-change-me'',
     token_expiry_hours = 24, auth_enabled = False\<rparr>"

definition anonymous_user :: "string \<Rightarrow> user" where
  "anonymous_user now = \<lparr>user_id = ''anonymous'', user_name = ''anonymous'',
     email = ''anonymous@localhost'', user_roles = [''admin''], created_at = now\<rparr>"

definition default_state :: "string \<Rightarrow> auth_state" where
  "default_state now =
     \<lparr>users = [''anonymous'' \<mapsto> anonymous_user now],
      roles = [''admin'' \<mapsto> \<lparr>role_name = ''admin'', role_permissions = [Admin]\<rparr>,
               ''analyst'' \<mapsto> \<lparr>role_name = ''analyst'',
                  role_permissions = [ReadTable ''*'', ExecuteSql]\<rparr>,
               ''engineer'' \<mapsto> \<lparr>role_name = ''engineer'',
                  role_permissions = [ReadTable ''*'', WriteTable ''*'', ExecuteSql,
                                      ManagePipelines, ManageConnections]\<rparr>,
               ''viewer'' \<mapsto> \<lparr>role_name = ''viewer'', role_permissions = [ReadTable ''*'']\<rparr>],
      policies = [], config = default_config\<rparr>"

section \<open>Tokens\<close>

definition map_err :: "string \<Rightarrow> string + 'a \<Rightarrow> 'a result" where
  "map_err msg x = (case x of Inl e \<Rightarrow> Err (msg @ e) | Inr y \<Rightarrow> Ok y)"

definition jwt_header :: string where
  "jwt_header = [CHR ''{'', CHR 0x22] @ ''alg'' @ [CHR 0x22, CHR '':'', CHR 0x22] @ ''HS256''
     @ [CHR 0x22, CHR '','', CHR 0x22] @ ''typ'' @ [CHR 0x22, CHR '':'', CHR 0x22] @ ''JWT''
     @ [CHR 0x22, CHR ''}'']"

definition new_claims :: "u64 \<Rightarrow> auth_config \<Rightarrow> user \<Rightarrow> claims" where
  "new_claims now cfg u =
     \<lparr>sub = user_id u, claim_username = user_name u, claim_roles = user_roles u,
      exp_time = now + token_expiry_hours cfg * 3600, iat = now\<rparr>"

definition sign :: "(u8 list \<Rightarrow> u8 list) \<Rightarrow> auth_config \<Rightarrow> string \<Rightarrow> string" where
  "sign sha256 cfg signing_input =
     base64_url_encode (hmac_sha256 sha256 (as_bytes (jwt_secret cfg)) (as_bytes signing_input))"

definition create_token ::
  "(u8 list \<Rightarrow> u8 list) \<Rightarrow> (claims \<Rightarrow> string + string) \<Rightarrow> string + u64 \<Rightarrow>
   auth_config \<Rightarrow> user \<Rightarrow> string result" where
  "create_token sha256 to_json clock cfg u =
     bind_result (map_err ''system time error: '' clock) (\<lambda>now.
       let header_b64 = base64_url_encode (as_bytes jwt_header)
       in bind_result (map_err ''failed to serialize claims: '' (to_json (new_claims now cfg u)))
            (\<lambda>claims_json.
              let claims_b64 = base64_url_encode (as_bytes claims_json);
                  signing_input = header_b64 @ ''.'' @ claims_b64
              in Ok (signing_input @ ''.'' @ sign sha256 cfg signing_input)))"

definition validate_token ::
  "(u8 list \<Rightarrow> u8 list) \<Rightarrow> (string \<Rightarrow> string + claims) \<Rightarrow> string + u64 \<Rightarrow>
   auth_config \<Rightarrow> string \<Rightarrow> claims result" where
  "validate_token sha256 from_json clock cfg token =
     (case split_char (CHR ''.'') token of
        [header_b64, claims_b64, sig_b64] \<Rightarrow>
          (let signing_input = header_b64 @ ''.'' @ claims_b64
           in if sig_b64 \<noteq> sign sha256 cfg signing_input then Err ''invalid token signature''
              else bind_result (base64_url_decode claims_b64) (\<lambda>claims_bytes.
                let claims_json = bytes_to_str claims_bytes
                in if \<not> valid_str claims_json then Err ''invalid UTF-8 in claims''
                   else bind_result (map_err ''failed to deserialize claims: '' (from_json claims_json))
                     (\<lambda>c. bind_result (map_err ''system time error: '' clock) (\<lambda>now.
                        if exp_time c < now then Err ''token has expired'' else Ok c))))
      | _ \<Rightarrow> Err ''invalid token format: expected 3 dot-separated parts'')"

section \<open>Permissions\<close>

text \<open>The loop of \<open>pattern_matches\<close> over the parts, with the index and the part count.\<close>

fun match_parts :: "nat \<Rightarrow> nat \<Rightarrow> string list \<Rightarrow> string \<Rightarrow> bool" where
  "match_parts i n [] remaining = True"
| "match_parts i n (part # parts) remaining =
     (if part = [] then match_parts (Suc i) n parts remaining
      else if i = 0 then
        (if \<not> starts_with remaining part then False
         else match_parts (Suc i) n parts (drop (length part) remaining))
      else if i = n - 1 then
        (if \<not> ends_with remaining part then False else match_parts (Suc i) n parts [])
      else (case find_str remaining part of
              Some pos \<Rightarrow> match_parts (Suc i) n parts (drop (pos + length part) remaining)
            | None \<Rightarrow> False))"

definition pattern_matches :: "string \<Rightarrow> string \<Rightarrow> bool" where
  "pattern_matches pattern table =
     (if pattern = ''*'' then True
      else let parts = split_char (CHR ''*'') pattern
           in if length parts = 1 then pattern = table
              else match_parts 0 (length parts) parts table)"

definition user_permissions :: "claims \<Rightarrow> role list \<Rightarrow> permission list" where
  "user_permissions c rs =
     concat (map role_permissions
       (List.map_filter (\<lambda>name. find (\<lambda>r. role_name r = name) rs) (claim_roles c)))"

definition check_permission :: "claims \<Rightarrow> permission \<Rightarrow> role list \<Rightarrow> bool" where
  "check_permission c required rs =
     (let ps = user_permissions c rs
      in if list_ex (\<lambda>p. p = Admin) ps then True
         else case required of
           ReadTable table \<Rightarrow>
             list_ex (\<lambda>p. case p of ReadTable pattern \<Rightarrow> pattern_matches pattern table
                          | Admin \<Rightarrow> True | _ \<Rightarrow> False) ps
         | WriteTable table \<Rightarrow>
             list_ex (\<lambda>p. case p of WriteTable pattern \<Rightarrow> pattern_matches pattern table
                          | Admin \<Rightarrow> True | _ \<Rightarrow> False) ps
         | ExecuteSql \<Rightarrow> list_ex (\<lambda>p. p = ExecuteSql) ps
         | ManagePipelines \<Rightarrow> list_ex (\<lambda>p. p = ManagePipelines) ps
         | ManageConnections \<Rightarrow> list_ex (\<lambda>p. p = ManageConnections) ps
         | Admin \<Rightarrow> False)"

section \<open>Row and column policies\<close>

definition boundary_keywords :: "string list" where
  "boundary_keywords = [''group by'', ''order by'', ''having'', ''limit'', ''union'', ''intersect'',
     ''except'']"

definition find_clause_boundary :: "string \<Rightarrow> nat" where
  "find_clause_boundary sql_lower =
     fold (\<lambda>kw earliest. case find_str sql_lower kw of
             Some pos \<Rightarrow> if pos < earliest then pos else earliest
           | None \<Rightarrow> earliest) boundary_keywords (length sql_lower)"

text \<open>One round of the loop of \<open>apply_row_filter\<close>; \<open>low\<close> is Unicode's lower-casing. Positions of the lower-cased text
  cut the text itself, which panics past its end or inside a character.\<close>

definition apply_policy :: "(string \<Rightarrow> string) \<Rightarrow> claims \<Rightarrow> table_policy \<Rightarrow> string \<Rightarrow> string result" where
  "apply_policy low c policy sql =
     (case row_filter_sql policy of
        None \<Rightarrow> Ok sql
      | Some flt \<Rightarrow>
          (let table_name = replace_char (CHR ''*'') '''' (table_pattern policy)
           in if table_name = [] then Ok sql
              else let sql_lower = low sql; table_lower = low table_name
                in if \<not> contains sql_lower table_lower then Ok sql
                   else let resolved = replace_str ''{username}'' (claim_username c) flt
                     in case rfind_str sql_lower ''where'' of
                          Some where_pos \<Rightarrow>
                            (let insert_pos = where_pos + 6
                             in bind_result (slice 0 insert_pos sql) (\<lambda>front.
                                bind_result (slice insert_pos (length sql) sql) (\<lambda>rest.
                                Ok (front @ '' ('' @ resolved @ '') AND '' @ rest))))
                        | None \<Rightarrow>
                            (let append_pos = find_clause_boundary sql_lower
                             in bind_result (slice 0 append_pos sql) (\<lambda>front.
                                bind_result (slice append_pos (length sql) sql) (\<lambda>rest.
                                Ok (front @ '' WHERE '' @ resolved @ rest))))))"

fun apply_policies :: "(string \<Rightarrow> string) \<Rightarrow> claims \<Rightarrow> table_policy list \<Rightarrow> string \<Rightarrow> string result" where
  "apply_policies low c [] sql = Ok sql"
| "apply_policies low c (p # ps) sql = bind_result (apply_policy low c p sql) (apply_policies low c ps)"

definition apply_row_filter :: "(string \<Rightarrow> string) \<Rightarrow> string \<Rightarrow> table_policy list \<Rightarrow> claims \<Rightarrow> string result" where
  "apply_row_filter low sql ps c =
     (if list_ex (\<lambda>r. r = ''admin'') (claim_roles c) then Ok sql else apply_policies low c ps sql)"

definition filter_columns ::
  "string list \<Rightarrow> table_policy list \<Rightarrow> string \<Rightarrow> claims \<Rightarrow> string list" where
  "filter_columns columns ps table c =
     (if list_ex (\<lambda>r. r = ''admin'') (claim_roles c) then columns
      else let masked = concat (map column_mask
                          (filter (\<lambda>p. pattern_matches (table_pattern p) table) ps))
           in filter (\<lambda>col. col \<notin> set masked) columns)"

section \<open>Middleware\<close>

datatype response = Forward claims user | Unauthorized | Forbidden

definition bearer_token :: "string option \<Rightarrow> string option" where
  "bearer_token auth_header =
     (case auth_header of
        Some header \<Rightarrow>
          if starts_with header ''Bearer '' then Some (drop 7 header)
          else if starts_with header ''bearer '' then Some (drop 7 header)
          else None
      | None \<Rightarrow> None)"

definition auth_middleware ::
  "(u8 list \<Rightarrow> u8 list) \<Rightarrow> (string \<Rightarrow> string + claims) \<Rightarrow> string + u64 \<Rightarrow> string \<Rightarrow>
   auth_state \<Rightarrow> string option \<Rightarrow> response" where
  "auth_middleware sha256 from_json clock now_text st auth_header =
     (if \<not> auth_enabled (config st) then
        (let anonymous = (case users st ''anonymous'' of
                            Some u \<Rightarrow> u | None \<Rightarrow> anonymous_user now_text)
         in Forward \<lparr>sub = user_id anonymous, claim_username = user_name anonymous,
              claim_roles = user_roles anonymous, exp_time = - 1, iat = 0\<rparr> anonymous)
      else case bearer_token auth_header of
        None \<Rightarrow> Unauthorized
      | Some token \<Rightarrow>
          (case validate_token sha256 from_json clock (config st) token of
             Ok c \<Rightarrow>
               (case users st (sub c) of
                  None \<Rightarrow> Unauthorized
                | Some u \<Rightarrow>
                    (let valid_roles = filter (\<lambda>r. r \<in> set (user_roles u)) (claim_roles c)
                     in if valid_roles = [] then Forbidden
                        else Forward (c\<lparr>claim_roles := valid_roles\<rparr>) u))
           | _ \<Rightarrow> Unauthorized))"

section \<open>Operations on the auth state\<close>

definition register_user :: "user \<Rightarrow> auth_state \<Rightarrow> unit result \<times> auth_state" where
  "register_user u st =
     (if users st (user_id u) \<noteq> None
      then (Err (''user '' @ quote (user_id u) @ '' already exists''), st)
      else (Ok (), st\<lparr>users := (users st)(user_id u \<mapsto> u)\<rparr>))"

definition remove_user :: "string \<Rightarrow> auth_state \<Rightarrow> user result \<times> auth_state" where
  "remove_user uid st =
     (case users st uid of
        Some u \<Rightarrow> (Ok u, st\<lparr>users := (users st)(uid := None)\<rparr>)
      | None \<Rightarrow> (Err (''user '' @ quote uid @ '' not found''), st))"

definition register_role :: "role \<Rightarrow> auth_state \<Rightarrow> auth_state" where
  "register_role r st = st\<lparr>roles := (roles st)(role_name r \<mapsto> r)\<rparr>"

definition add_policy :: "table_policy \<Rightarrow> auth_state \<Rightarrow> auth_state" where
  "add_policy p st = st\<lparr>policies := policies st @ [p]\<rparr>"

definition update_config :: "auth_config \<Rightarrow> auth_state \<Rightarrow> auth_state" where
  "update_config cfg st = st\<lparr>config := cfg\<rparr>"

text \<open>The lookup by name walks the values of a \<open>HashMap\<close>, in an order that is a parameter.\<close>

definition create_token_for_user ::
  "(u8 list \<Rightarrow> u8 list) \<Rightarrow> (claims \<Rightarrow> string + string) \<Rightarrow> string + u64 \<Rightarrow>
   user list \<Rightarrow> auth_state \<Rightarrow> string \<Rightarrow> string result" where
  "create_token_for_user sha256 to_json clock user_values st name =
     (case find (\<lambda>u. user_name u = name) user_values of
        None \<Rightarrow> Err (''user '' @ quote name @ '' not found'')
      | Some u \<Rightarrow> create_token sha256 to_json clock (config st) u)"

section \<open>Glob patterns\<close>

text \<open>The specification: a star stands for any text, every other character for itself.\<close>

fun glob :: "string \<Rightarrow> string \<Rightarrow> bool" where
  "glob [] t = (t = [])"
| "glob (c # p) t =
     (if c = CHR ''*'' then list_ex (\<lambda>k. glob p (drop k t)) [0..<Suc (length t)]
      else case t of [] \<Rightarrow> False | d # ts \<Rightarrow> c = d \<and> glob p ts)"

lemma glob_star [simp]: "glob (CHR ''*'' # p) t \<longleftrightarrow> (\<exists>k \<le> length t. glob p (drop k t))"
  by (auto simp: list_ex_iff less_Suc_eq_le simp del: upt_Suc)

lemma glob_char [simp]:
  "c \<noteq> CHR ''*'' \<Longrightarrow> glob (c # p) t \<longleftrightarrow> (\<exists>ts. t = c # ts \<and> glob p ts)"
  by (cases t) auto

declare glob.simps(2) [simp del]

lemma glob_any: "glob ''*'' t"
  by (auto intro: exI [of _ "length t"])

text \<open>What a list of parts that follow a star has to find in the rest of the text.\<close>

fun after_star :: "string list \<Rightarrow> string \<Rightarrow> bool" where
  "after_star [] r \<longleftrightarrow> r = []"
| "after_star (q # qs) r \<longleftrightarrow>
     (\<exists>k \<le> length r. prefix q (drop k r) \<and> after_star qs (drop (k + length q) r))"

lemma glob_split:
  "split_char (CHR ''*'') p = q # qs \<Longrightarrow>
     glob p t \<longleftrightarrow> prefix q t \<and> after_star qs (drop (length q) t)"
proof (induction p arbitrary: q qs t)
  case Nil
  then show ?case by auto
next
  case (Cons c p)
  obtain q' qs' where sp: "split_char (CHR ''*'') p = q' # qs'"
    by (cases "split_char (CHR ''*'') p") auto
  note IH = Cons.IH [OF sp]
  show ?case
  proof (cases "c = CHR ''*''")
    case True
    with Cons.prems sp have "q = []" "qs = q' # qs'" by auto
    with True show ?thesis by (simp add: IH add.commute)
  next
    case False
    with Cons.prems sp have "q = c # q'" "qs = qs'" by auto
    with False show ?thesis by (cases t) (auto simp: IH)
  qed
qed

lemma after_star_drop:
  assumes "qs \<noteq> []" "after_star qs (drop j r)"
  shows "after_star qs r"
proof -
  obtain q qs' where qs: "qs = q # qs'" using assms(1) by (cases qs) auto
  with assms(2) obtain k where k: "k \<le> length (drop j r)" "prefix q (drop (k + j) r)"
    "after_star qs' (drop (k + j + length q) r)"
    by (auto simp: ac_simps)
  show ?thesis
  proof (cases "j \<le> length r")
    case True
    with k show ?thesis unfolding qs by (auto intro!: exI [of _ "k + j"])
  next
    case False
    with k show ?thesis unfolding qs by (auto intro!: exI [of _ "length r"])
  qed
qed

lemma after_star_Nil_Cons:
  "qs \<noteq> [] \<Longrightarrow> after_star ([] # qs) r \<longleftrightarrow> after_star qs r"
  by (auto intro: after_star_drop exI [of _ "0::nat"])

lemma after_star_last: "after_star [q] r \<longleftrightarrow> ends_with r q"
proof
  assume "after_star [q] r"
  then obtain k where "prefix q (drop k r)" "length r \<le> k + length q" by auto
  then have "drop k r = q"
    by (metis (no_types) add.commute le_diff_conv length_drop not_equal_is_parallel parallelE
        prefix_length_le prefix_order.eq_iff le_antisym)
  then show "ends_with r q" by (metis ends_with_def suffix_drop)
next
  assume "ends_with r q"
  then obtain z where "r = z @ q" by (auto simp: ends_with_def suffix_def)
  then show "after_star [q] r" by (auto intro!: exI [of _ "length z"])
qed

text \<open>Taking the leftmost occurrence of a middle part never loses a match.\<close>

lemma after_star_leftmost:
  assumes "qs \<noteq> []"
  shows "after_star (q # qs) r \<longleftrightarrow>
    (\<exists>pos. find_str r q = Some pos \<and> after_star qs (drop (pos + length q) r))"
proof
  assume "after_star (q # qs) r"
  then obtain k where k: "k \<le> length r" "prefix q (drop k r)"
    "after_star qs (drop (k + length q) r)" by auto
  then obtain pos where pos: "find_str r q = Some pos"
    by (metis find_str_None not_Some_eq)
  with k have "pos \<le> k" by (metis find_str_first linorder_not_less)
  then have "drop (k + length q) r = drop (k - pos) (drop (pos + length q) r)"
    by (simp add: ac_simps)
  with k(3) assms have "after_star qs (drop (pos + length q) r)"
    by (metis after_star_drop)
  with pos show "\<exists>pos. find_str r q = Some pos \<and> after_star qs (drop (pos + length q) r)"
    by blast
qed (auto dest: find_str_prefix)

lemma match_parts_after_star:
  "0 < i \<Longrightarrow> parts \<noteq> [] \<Longrightarrow> n = i + length parts \<Longrightarrow>
     match_parts i n parts r \<longleftrightarrow> after_star parts r"
proof (induction parts arbitrary: i r)
  case Nil
  then show ?case by simp
next
  case (Cons q qs)
  show ?case
  proof (cases "qs = []")
    case True
    with Cons.prems show ?thesis
      by (simp add: after_star_last ends_with_def del: after_star.simps)
  next
    case False
    with Cons.prems have IH: "match_parts (Suc i) n qs r' \<longleftrightarrow> after_star qs r'" for r'
      by (intro Cons.IH) auto
    from False Cons.prems have "i \<noteq> n - 1" by (cases qs) auto
    show ?thesis
    proof (cases "q = []")
      case True
      with Cons.prems IH show ?thesis
        by (simp add: after_star_Nil_Cons [OF False] del: after_star.simps)
    next
      case nonempty: False
      with Cons.prems IH \<open>i \<noteq> n - 1\<close> show ?thesis
        by (simp add: after_star_leftmost [OF False] del: after_star.simps split: option.splits)
    qed
  qed
qed

lemma pattern_matches_glob: "pattern_matches p t \<longleftrightarrow> glob p t"
proof -
  obtain q qs where sp: "split_char (CHR ''*'') p = q # qs"
    by (cases "split_char (CHR ''*'') p") auto
  note g = glob_split [OF sp]
  consider "p = ''*''" | "qs = []" | "p \<noteq> ''*''" "qs \<noteq> []" by blast
  then show ?thesis
  proof cases
    case 1
    then show ?thesis by (auto simp: pattern_matches_def)
  next
    case 2
    with sp have "p = q" using join_split_char [of "CHR ''*''" p] by simp
    with 2 sp g show ?thesis
      by (auto simp: pattern_matches_def prefix_def)
  next
    case 3
    then have "match_parts (Suc 0) (Suc (length qs)) qs r \<longleftrightarrow> after_star qs r" for r
      by (intro match_parts_after_star) auto
    with 3 sp g show ?thesis
      by (cases "q = []") (auto simp: pattern_matches_def starts_with_def)
  qed
qed

text \<open>C21. The wildcard matcher of the permission checks (\<open>pattern_matches\<close>: split at the stars, a
  prefix, leftmost middle parts, a suffix) accepts exactly the tables the glob pattern
  describes: taking the leftmost occurrence of each middle part never misses a match.\<close>

theorem pattern_matches_is_glob: "pattern_matches pattern table \<longleftrightarrow> glob pattern table"
  by (rule pattern_matches_glob)

section \<open>Permission checks\<close>

definition grants :: "permission \<Rightarrow> permission \<Rightarrow> bool" where
  "grants held required \<longleftrightarrow>
     held = Admin \<or>
     (case required of
        ReadTable table \<Rightarrow> \<exists>pattern. held = ReadTable pattern \<and> glob pattern table
      | WriteTable table \<Rightarrow> \<exists>pattern. held = WriteTable pattern \<and> glob pattern table
      | _ \<Rightarrow> held = required)"

lemma find_Some_name:
  "distinct (map role_name rs) \<Longrightarrow> find (\<lambda>r. role_name r = n) rs = Some r \<longleftrightarrow> r \<in> set rs \<and> role_name r = n"
  by (induction rs) auto

lemma set_user_permissions:
  "distinct (map role_name rs) \<Longrightarrow>
     set (user_permissions c rs) =
       {p. \<exists>r \<in> set rs. role_name r \<in> set (claim_roles c) \<and> p \<in> set (role_permissions r)}"
  unfolding user_permissions_def by (auto simp: set_map_filter find_Some_name)

lemma held_read:
  "(case p of ReadTable pattern \<Rightarrow> pattern_matches pattern t | Admin \<Rightarrow> True | _ \<Rightarrow> False) \<longleftrightarrow>
     grants p (ReadTable t)"
  by (cases p) (auto simp: grants_def pattern_matches_glob)

lemma held_write:
  "(case p of WriteTable pattern \<Rightarrow> pattern_matches pattern t | Admin \<Rightarrow> True | _ \<Rightarrow> False) \<longleftrightarrow>
     grants p (WriteTable t)"
  by (cases p) (auto simp: grants_def pattern_matches_glob)

lemma check_permission_grants:
  "check_permission c required rs \<longleftrightarrow> (\<exists>held \<in> set (user_permissions c rs). grants held required)"
  unfolding check_permission_def Let_def list_ex_iff held_read held_write
  by (cases required) (auto simp: grants_def)

text \<open>C3. A permission check succeeds exactly when one of the roles named in the claims, as the
  role table defines it, holds \<open>Admin\<close>, the same permission, or a read/write glob that covers
  the table. Roles named in a token but absent from the role table grant nothing.\<close>

theorem check_permission_iff:
  assumes "distinct (map role_name rs)"
  shows "check_permission c required rs \<longleftrightarrow>
    (\<exists>r \<in> set rs. role_name r \<in> set (claim_roles c) \<and>
       (\<exists>held \<in> set (role_permissions r). grants held required))"
  using assms by (auto simp: check_permission_grants set_user_permissions)

definition example_claims :: claims where
  "example_claims = \<lparr>sub = ''user-1'', claim_username = ''alice'', claim_roles = [''analyst''],
     exp_time = - 1, iat = 0\<rparr>"

definition example_roles :: "role list" where
  "example_roles = [\<lparr>role_name = ''admin'', role_permissions = [Admin]\<rparr>,
     \<lparr>role_name = ''analyst'', role_permissions = [ReadTable ''*'', ExecuteSql]\<rparr>]"

theorem check_permission_iff_witness:
  "distinct (map role_name example_roles) \<and>
   check_permission example_claims (ReadTable ''pg.orders'') example_roles"
proof -
  have d: "distinct (map role_name example_roles)" by (simp add: example_roles_def)
  have "check_permission example_claims (ReadTable ''pg.orders'') example_roles"
    by (subst check_permission_iff [OF d])
      (simp add: example_roles_def example_claims_def grants_def glob_any del: glob_star)
  with d show ?thesis by simp
qed

section \<open>Tokens\<close>

lemma map_err_eq_Ok [simp]: "map_err m x = Ok y \<longleftrightarrow> x = Inr y"
  by (cases x) (simp_all add: map_err_def)

lemma split_three:
  "split_char (CHR ''.'') t = [h, p, s] \<Longrightarrow> t = h @ ''.'' @ p @ ''.'' @ s"
  using join_split_char [of "CHR ''.''" t] by simp

lemma validate_token_Ok:
  "validate_token sha from_json clock cfg token = Ok c \<longleftrightarrow>
    (\<exists>h p bytes now. split_char (CHR ''.'') token = [h, p, sign sha cfg (h @ ''.'' @ p)] \<and>
       base64_url_decode p = Ok bytes \<and> valid_str (bytes_to_str bytes) \<and>
       from_json (bytes_to_str bytes) = Inr c \<and> clock = Inr now \<and> now \<le> exp_time c)"
  unfolding validate_token_def Let_def
  by (auto split: list.splits if_splits simp: not_less)

text \<open>C1. A token is accepted only if it carries the HMAC of its own header and claims under the
  configured secret, its claims segment is the encoding of UTF-8 JSON for exactly the returned
  claims, and these have not expired.\<close>

theorem accepted_token_is_signed:
  assumes "validate_token sha from_json clock cfg token = Ok c"
  shows "\<exists>h p json now. token = h @ ''.'' @ p @ ''.'' @ sign sha cfg (h @ ''.'' @ p) \<and>
    base64_url_decode p = Ok json \<and> from_json (bytes_to_str json) = Inr c \<and>
    clock = Inr now \<and> now \<le> exp_time c"
proof -
  from assms obtain h p bytes now where
    "split_char (CHR ''.'') token = [h, p, sign sha cfg (h @ ''.'' @ p)]"
    "base64_url_decode p = Ok bytes" "from_json (bytes_to_str bytes) = Inr c"
    "clock = Inr now" "now \<le> exp_time c"
    by (auto simp: validate_token_Ok)
  then show ?thesis by (blast dest: split_three)
qed

definition zero_sha :: "u8 list \<Rightarrow> u8 list" where
  "zero_sha bs = replicate 32 0"

definition one_json :: "claims \<Rightarrow> string + string" where
  "one_json c = Inr ''claims''"

definition one_claims :: "u64 \<Rightarrow> auth_config \<Rightarrow> user \<Rightarrow> string \<Rightarrow> string + claims" where
  "one_claims now cfg u j = Inr (new_claims now cfg u)"

lemma create_token_simps:
  "to_json (new_claims t0 cfg u) = Inr j \<Longrightarrow>
   create_token sha to_json (Inr t0) cfg u =
     Ok ((base64_url_encode (as_bytes jwt_header) @ ''.'' @ base64_url_encode (as_bytes j)) @ ''.'' @
        sign sha cfg (base64_url_encode (as_bytes jwt_header) @ ''.'' @ base64_url_encode (as_bytes j)))"
  by (simp add: create_token_def map_err_def Let_def)

lemma create_token_Ok:
  "create_token sha to_json (Inr t0) cfg u = Ok token \<Longrightarrow>
     \<exists>j. to_json (new_claims t0 cfg u) = Inr j"
  by (auto simp: create_token_def map_err_def split: sum.splits)

lemma validate_created:
  assumes "to_json (new_claims t0 cfg u) = Inr j" "valid_str j"
    "from_json j = Inr (new_claims t0 cfg u)"
    "create_token sha to_json (Inr t0) cfg u = Ok token"
  shows "validate_token sha from_json (Inr t1) cfg token =
    (if exp_time (new_claims t0 cfg u) < t1 then Err ''token has expired''
     else Ok (new_claims t0 cfg u))"
proof -
  let ?h = "base64_url_encode (as_bytes jwt_header)"
  let ?p = "base64_url_encode (as_bytes j)"
  have tok: "token = (?h @ ''.'' @ ?p) @ ''.'' @ sign sha cfg (?h @ ''.'' @ ?p)"
    using assms(4) by (simp add: create_token_simps [of to_json, OF assms(1)])
  have "split_char (CHR ''.'') token = [?h, ?p, sign sha cfg (?h @ ''.'' @ ?p)]"
    unfolding tok sign_def by (rule url64.split_token)
  with assms(2,3) show ?thesis
    by (simp add: validate_token_def map_err_def url64.dec_enc)
qed

text \<open>A token created at time \<open>t0\<close> is accepted under the same secret, with exactly the
  claims of its user, up to and including \<open>t0 + 3600 * hours\<close>, and rejected as expired afterwards
  (for lifetimes that do not overflow 64 bits and JSON text that reads back).\<close>

theorem token_lifetime:
  assumes "create_token sha to_json (Inr t0) cfg u = Ok token"
    and "\<And>j. to_json (new_claims t0 cfg u) = Inr j \<Longrightarrow>
           valid_str j \<and> from_json j = Inr (new_claims t0 cfg u)"
    and "unat t0 + unat (token_expiry_hours cfg) * 3600 < 2 ^ 64"
  shows "validate_token sha from_json (Inr t1) cfg token =
    (if unat t1 \<le> unat t0 + unat (token_expiry_hours cfg) * 3600 then Ok (new_claims t0 cfg u)
     else Err ''token has expired'')"
proof -
  obtain j where j: "to_json (new_claims t0 cfg u) = Inr j" using create_token_Ok assms(1) by blast
  have "unat (exp_time (new_claims t0 cfg u)) = unat t0 + unat (token_expiry_hours cfg) * 3600"
    using assms(3) by (simp add: new_claims_def unat_word_ariths)
  with validate_created [OF j _ _ assms(1), of from_json t1] assms(2) [OF j] show ?thesis
    by (auto simp: word_less_nat_alt not_less)
qed

definition example_user :: user where
  "example_user = \<lparr>user_id = ''user-1'', user_name = ''alice'', email = ''alice@example.com'',
     user_roles = [''analyst''], created_at = ''''\<rparr>"

definition example_token :: string where
  "example_token =
     (case create_token zero_sha one_json (Inr 1000) default_config example_user of
        Ok t \<Rightarrow> t | _ \<Rightarrow> [])"

lemma example_token:
  "create_token zero_sha one_json (Inr 1000) default_config example_user = Ok example_token"
  by (simp add: example_token_def create_token_simps one_json_def)

lemma one_json_ok:
  "one_json (new_claims t0 cfg u) = Inr j \<Longrightarrow>
     valid_str j \<and> one_claims t0 cfg u j = Inr (new_claims t0 cfg u)"
  by (auto simp: one_json_def one_claims_def valid_str_def)

theorem token_lifetime_witness:
  "validate_token zero_sha (one_claims 1000 default_config example_user) (Inr 87400)
     default_config example_token = Ok (new_claims 1000 default_config example_user)"
proof -
  have "unat (1000 :: u64) + unat (token_expiry_hours default_config) * 3600 < 2 ^ 64"
    by (simp add: default_config_def)
  from token_lifetime [OF example_token one_json_ok this, of 87400] show ?thesis
    by (simp add: default_config_def)
qed

theorem accepted_token_is_signed_witness:
  "\<exists>h p json now. example_token = h @ ''.'' @ p @ ''.'' @ sign zero_sha default_config (h @ ''.'' @ p) \<and>
    base64_url_decode p = Ok json \<and>
    one_claims 1000 default_config example_user (bytes_to_str json) =
      Inr (new_claims 1000 default_config example_user) \<and>
    (Inr 2000 :: string + u64) = Inr now \<and> now \<le> exp_time (new_claims 1000 default_config example_user)"
proof (rule accepted_token_is_signed)
  show "validate_token zero_sha (one_claims 1000 default_config example_user) (Inr 2000)
     default_config example_token = Ok (new_claims 1000 default_config example_user)"
    using validate_created [OF _ _ _ example_token, of "''claims''"
        "one_claims 1000 default_config example_user" 2000]
    by (simp add: one_json_def one_claims_def valid_str_def new_claims_def default_config_def)
qed

section \<open>Middleware\<close>

lemma forward_enabled:
  assumes "auth_enabled (config st)"
  shows "auth_middleware sha from_json clock t st hdr = Forward c u \<longleftrightarrow>
    (\<exists>token c0. bearer_token hdr = Some token \<and>
       validate_token sha from_json clock (config st) token = Ok c0 \<and>
       users st (sub c0) = Some u \<and>
       c = c0\<lparr>claim_roles := filter (\<lambda>r. r \<in> set (user_roles u)) (claim_roles c0)\<rparr> \<and>
       claim_roles c \<noteq> [])"
  using assms unfolding auth_middleware_def Let_def
  by (auto split: option.splits result.splits if_splits)

text \<open>C2. With authentication on, a request reaches the handlers only with a bearer token that
  validates, for a user who is still registered, and only with roles that are both in the token
  and among the user's current roles (at least one of them): a revoked role is dropped from the
  claims the handlers see, and a user left with none is refused.\<close>

theorem forwarded_roles_are_current:
  assumes "auth_enabled (config st)"
    and "auth_middleware sha from_json clock t st hdr = Forward c u"
  shows "\<exists>token c0. bearer_token hdr = Some token \<and>
    validate_token sha from_json clock (config st) token = Ok c0 \<and>
    users st (sub c0) = Some u \<and> sub c = sub c0 \<and>
    set (claim_roles c) = set (claim_roles c0) \<inter> set (user_roles u) \<and> claim_roles c \<noteq> []"
  using assms(2) unfolding forward_enabled [OF assms(1)] by fastforce

definition example_state :: auth_state where
  "example_state = (default_state '''')\<lparr>users := [''user-1'' \<mapsto> example_user],
     config := default_config\<lparr>auth_enabled := True\<rparr>\<rparr>"

lemma sign_enabled: "sign sha (cfg\<lparr>auth_enabled := b\<rparr>) = sign sha cfg"
  by (rule ext) (simp add: sign_def)

lemma validate_enabled:
  "validate_token sha from_json clock (cfg\<lparr>auth_enabled := b\<rparr>) token =
     validate_token sha from_json clock cfg token"
  unfolding validate_token_def sign_enabled by (rule refl)

lemma example_forward:
  "auth_middleware zero_sha (one_claims 1000 default_config example_user) (Inr 2000) ''''
     example_state (Some (''Bearer '' @ example_token)) =
   Forward (new_claims 1000 default_config example_user) example_user"
proof -
  have "validate_token zero_sha (one_claims 1000 default_config example_user) (Inr 2000)
     (default_config\<lparr>auth_enabled := True\<rparr>) example_token =
     validate_token zero_sha (one_claims 1000 default_config example_user) (Inr 2000)
     default_config example_token"
    by (rule validate_enabled)
  also have "\<dots> = Ok (new_claims 1000 default_config example_user)"
    using validate_created [OF _ _ _ example_token, of "''claims''"
        "one_claims 1000 default_config example_user" 2000]
    by (simp add: one_json_def one_claims_def valid_str_def new_claims_def default_config_def)
  finally show ?thesis
    by (simp add: auth_middleware_def example_state_def bearer_token_def starts_with_def
        new_claims_def example_user_def Let_def)
qed

theorem forwarded_roles_are_current_witness:
  "\<exists>token c0. bearer_token (Some (''Bearer '' @ example_token)) = Some token \<and>
    validate_token zero_sha (one_claims 1000 default_config example_user) (Inr 2000)
      (config example_state) token = Ok c0 \<and>
    users example_state (sub c0) = Some example_user \<and>
    sub (new_claims 1000 default_config example_user) = sub c0 \<and>
    set (claim_roles (new_claims 1000 default_config example_user)) =
      set (claim_roles c0) \<inter> set (user_roles example_user) \<and>
    claim_roles (new_claims 1000 default_config example_user) \<noteq> []"
  by (rule forwarded_roles_are_current [OF _ example_forward])
    (simp add: example_state_def)

section \<open>Column masks and row filters\<close>

text \<open>Column security: a user without the \<open>admin\<close> role sees exactly the columns that no
  policy whose glob covers the table masks, in their original order; \<open>admin\<close> sees all.\<close>

theorem filter_columns_masks:
  "filter_columns columns ps table c =
    (if ''admin'' \<in> set (claim_roles c) then columns
     else filter (\<lambda>col. \<not> (\<exists>p \<in> set ps. glob (table_pattern p) table \<and> col \<in> set (column_mask p)))
            columns)"
  unfolding filter_columns_def Let_def
  by (auto simp: list_ex_iff pattern_matches_glob intro!: filter_cong)

text \<open>The boundary is the least position of a keyword, or the end.\<close>

lemma find_clause_boundary_least:
  "find_clause_boundary s \<le> length s \<and>
   (\<forall>k \<in> set boundary_keywords. \<forall>i. find_str s k = Some i \<longrightarrow> find_clause_boundary s \<le> i) \<and>
   (find_clause_boundary s = length s \<or> (\<exists>k \<in> set boundary_keywords. find_str s k = Some (find_clause_boundary s)))"
proof -
  have "fold (\<lambda>kw e. case find_str s kw of Some pos \<Rightarrow> if pos < e then pos else e | None \<Rightarrow> e) kws e = r \<Longrightarrow>
      r \<le> e \<and> (\<forall>k \<in> set kws. \<forall>i. find_str s k = Some i \<longrightarrow> r \<le> i) \<and> (r = e \<or> (\<exists>k \<in> set kws. find_str s k = Some r))"
    for kws e r
  proof (induction kws arbitrary: e)
    case (Cons kw kws)
    from Cons.IH [of "case find_str s kw of Some pos \<Rightarrow> if pos < e then pos else e | None \<Rightarrow> e"] Cons.prems
    show ?case by (auto split: option.splits if_splits)
  qed simp
  from this [OF refl, of boundary_keywords "length s"] show ?thesis unfolding find_clause_boundary_def .
qed

lemma clause_boundary_eq:
  assumes "\<forall>k \<in> set boundary_keywords. \<forall>n < length a. \<not> starts_with (drop n (a @ b)) k"
    and "b = [] \<or> (\<exists>k \<in> set boundary_keywords. starts_with b k)"
  shows "find_clause_boundary (a @ b) = length a"
proof -
  let ?r = "find_clause_boundary (a @ b)"
  note l = find_clause_boundary_least [of "a @ b"]
  have "length a \<le> ?r"
  proof (cases "?r = length (a @ b)")
    case False
    with l obtain k where "k \<in> set boundary_keywords" "find_str (a @ b) k = Some ?r" by blast
    with assms(1) find_str_prefix [of "a @ b" k ?r] show ?thesis by (meson not_le starts_with_def)
  qed simp
  moreover have "?r \<le> length a"
    using assms(2)
  proof
    assume "\<exists>k \<in> set boundary_keywords. starts_with b k"
    then obtain k c where k: "k \<in> set boundary_keywords" "b = k @ c" by (auto simp: starts_with_def prefix_def)
    then show ?thesis using find_str_append_ex [of a k c] l by (metis order_trans)
  qed (use l in simp)
  ultimately show ?thesis by simp
qed

lemma rfind_str_None: "rfind_str s p = None \<longleftrightarrow> \<not> contains s p"
  unfolding contains_def by (induction s) (auto split: option.splits)

lemma rfind_str_last:
  assumes "p \<noteq> []" and "\<not> contains (tl (p @ b)) p"
  shows "rfind_str (a @ p @ b) p = Some (length a)"
proof (induction a)
  case Nil
  obtain c cs where p: "p = c # cs" using assms(1) by (cases p) auto
  then have "rfind_str (cs @ b) p = None" using assms(2) rfind_str_None [of "cs @ b" p] by simp
  then show ?case using p by simp
qed simp

lemma lower_append [simp]: "to_lowercase (a @ b) = to_lowercase a @ to_lowercase b"
  and lower_Nil [simp]: "to_lowercase [] = []"
  by (simp_all add: to_lowercase_def)

text \<open>C18. Row security: what the rewriting does to an ASCII query of a user who is not \<open>admin\<close>, for a policy
  whose table name occurs in the query. After the last \<open>where\<close>, in any case and wherever it stands, and one
  more byte the filter is written in parentheses and joined by \<open>AND\<close> to the rest as it is; a query that ends
  in the word panics. Without that word the filter is written as a new condition right before the first
  of the seven clause keywords, or at the end.\<close>

theorem row_filter_rewrites:
  fixes sql :: string
  assumes "unicode_case ascii_lower low" and "ascii_str sql"
    and "''admin'' \<notin> set (claim_roles c)" and "row_filter_sql p = Some flt"
    and "replace_char (CHR ''*'') '''' (table_pattern p) \<noteq> []"
    and "contains (low sql) (low (replace_char (CHR ''*'') '''' (table_pattern p)))"
  defines "f \<equiv> replace_str ''{username}'' (claim_username c) flt"
    and "clauses \<equiv> {''group by'', ''order by'', ''having'', ''limit'', ''union'', ''intersect'', ''except''}"
  shows "(\<forall>pre w post. sql = pre @ w @ post \<and> to_lowercase w = ''where'' \<and> \<not> contains (to_lowercase (tl w @ post)) ''where'' \<longrightarrow>
      apply_row_filter low sql [p] c =
        (case post of [] \<Rightarrow> Panic | x # rest \<Rightarrow> Ok (pre @ w @ [x] @ '' ('' @ f @ '') AND '' @ rest))) \<and>
    (\<not> contains (to_lowercase sql) ''where'' \<longrightarrow>
      (\<forall>pre post. sql = pre @ post \<and>
         (\<forall>k \<in> clauses. \<forall>n < length pre. \<not> starts_with (drop n (to_lowercase sql)) k) \<and>
         (post = [] \<or> (\<exists>k \<in> clauses. starts_with (to_lowercase post) k)) \<longrightarrow>
         apply_row_filter low sql [p] c = Ok (pre @ '' WHERE '' @ f @ post)))"
proof -
  have low: "low sql = to_lowercase sql" by (rule to_lowercase_ascii [OF assms(1,2)])
  have k: "clauses = set boundary_keywords" by (simp add: clauses_def boundary_keywords_def)
  have "\<not> list_ex (\<lambda>r. r = ''admin'') (claim_roles c)" using assms(3) by (auto simp: list_ex_iff)
  then have "apply_row_filter low sql [p] c = apply_policy low c p sql"
    by (cases "apply_policy low c p sql") (simp_all add: apply_row_filter_def)
  then have run: "apply_row_filter low sql [p] c =
     (case rfind_str (to_lowercase sql) ''where'' of
        Some i \<Rightarrow> bind_result (slice 0 (i + 6) sql) (\<lambda>front. bind_result (slice (i + 6) (length sql) sql) (\<lambda>rest.
          Ok (front @ '' ('' @ f @ '') AND '' @ rest)))
      | None \<Rightarrow> bind_result (slice 0 (find_clause_boundary (to_lowercase sql)) sql) (\<lambda>front.
          bind_result (slice (find_clause_boundary (to_lowercase sql)) (length sql) sql) (\<lambda>rest. Ok (front @ '' WHERE '' @ f @ rest))))"
    using assms(4-6) unfolding f_def low [symmetric] by (simp add: apply_policy_def Let_def split: option.split)
  have "apply_row_filter low sql [p] c = (case post of [] \<Rightarrow> Panic | x # rest \<Rightarrow> Ok (pre @ w @ [x] @ '' ('' @ f @ '') AND '' @ rest))"
    if s: "sql = pre @ w @ post" and w: "to_lowercase w = ''where''" and n: "\<not> contains (to_lowercase (tl w @ post)) ''where''" for pre w post
  proof -
    have l: "length w = 5" using arg_cong [OF w, of length] by simp
    have "tl ''where'' = to_lowercase (tl w)" unfolding w [symmetric] by (simp add: to_lowercase_def map_tl)
    then have "\<not> contains (tl (''where'' @ to_lowercase post)) ''where''" using n by simp
    then have "rfind_str (to_lowercase pre @ ''where'' @ to_lowercase post) ''where'' = Some (length (to_lowercase pre))"
      by (intro rfind_str_last) simp_all
    then have "rfind_str (to_lowercase sql) ''where'' = Some (length pre)" by (simp add: s w)
    then show ?thesis unfolding run option.case ascii_slice [OF assms(2)] using s l by (cases post) simp_all
  qed
  moreover have "apply_row_filter low sql [p] c = Ok (pre @ '' WHERE '' @ f @ post)"
    if n: "\<not> contains (to_lowercase sql) ''where''" and s: "sql = pre @ post"
      and first: "\<forall>k \<in> clauses. \<forall>n < length pre. \<not> starts_with (drop n (to_lowercase sql)) k"
      and kw: "post = [] \<or> (\<exists>k \<in> clauses. starts_with (to_lowercase post) k)" for pre post
  proof -
    have "find_clause_boundary (to_lowercase pre @ to_lowercase post) = length (to_lowercase pre)"
      by (rule clause_boundary_eq) (use first kw s in \<open>auto simp: k\<close>)
    then have b: "find_clause_boundary (to_lowercase sql) = length pre" using s by simp
    have "rfind_str (to_lowercase sql) ''where'' = None" using n by (simp add: rfind_str_None)
    then show ?thesis unfolding run b ascii_slice [OF assms(2)] using s by simp
  qed
  ultimately show ?thesis by blast
qed

definition region_policy :: table_policy where
  "region_policy = \<lparr>table_pattern = ''pg.orders'', row_filter_sql = Some ''r = 1'', column_mask = []\<rparr>"

lemma row_filter_rewrites_witness:
  "apply_row_filter to_lowercase ''select * from pg.orders where a or b'' [region_policy] example_claims =
     Ok ''select * from pg.orders where  (r = 1) AND a or b''"
proof -
  let ?s = "''select * from pg.orders where a or b''"
  have s: "''admin'' \<notin> set (claim_roles example_claims)" "row_filter_sql region_policy = Some ''r = 1''"
    "replace_char (CHR ''*'') '''' (table_pattern region_policy) \<noteq> []"
    by (simp_all add: example_claims_def region_policy_def replace_char_def)
  have a: "ascii_str ?s" "contains (to_lowercase ?s) (to_lowercase (replace_char (CHR ''*'') '''' (table_pattern region_policy)))"
    and w: "to_lowercase ''where'' = ''where''" "\<not> contains (to_lowercase (tl ''where'' @ '' a or b'')) ''where''"
    and f: "replace_str ''{username}'' (claim_username example_claims) ''r = 1'' = ''r = 1''"
    by code_simp+
  have "?s = ''select * from pg.orders '' @ ''where'' @ '' a or b''" by simp
  note row_filter_rewrites [OF unicode_case_self(2) a(1) s a(2), THEN conjunct1, rule_format, OF conjI, OF this conjI, OF w, unfolded f]
  then show ?thesis by simp
qed

text \<open>A row filter attached to every table (the pattern \<open>*\<close>, or any pattern of stars only) is
  never applied, although the same policy masks columns of every table.\<close>

theorem star_row_filter_is_skipped:
  assumes "set (table_pattern p) \<subseteq> {CHR ''*''}" and "table_pattern p \<noteq> []"
  shows "apply_row_filter low sql [p] c = Ok sql \<and>
    (''admin'' \<notin> set (claim_roles c) \<longrightarrow>
       filter_columns columns [p] table c = filter (\<lambda>col. col \<notin> set (column_mask p)) columns)"
proof -
  have "replace_char (CHR ''*'') '''' s = []" if "set s \<subseteq> {CHR ''*''}" for s
    using that by (induction s) (auto simp: replace_char_def)
  with assms(1) have "apply_row_filter low sql [p] c = Ok sql"
    by (simp add: apply_row_filter_def apply_policy_def split: option.splits)
  moreover have "glob s table" if "set s \<subseteq> {CHR ''*''}" "s \<noteq> []" for s
    using that
  proof (induction s)
    case (Cons x s)
    then have x: "x = CHR ''*''" by simp
    show ?case
    proof (cases "s = []")
      case True
      with x show ?thesis using glob_any by simp
    next
      case False
      with Cons have "glob s (drop 0 table)" by simp
      with x show ?thesis unfolding x glob_star by (metis zero_le)
    qed
  qed simp
  ultimately show ?thesis using assms by (simp add: filter_columns_masks)
qed

theorem star_row_filter_is_skipped_witness:
  "apply_row_filter to_lowercase ''select 1'' [region_policy\<lparr>table_pattern := ''*''\<rparr>] example_claims =
     Ok ''select 1''"
  using star_row_filter_is_skipped [of "region_policy\<lparr>table_pattern := ''*''\<rparr>"] by simp

section \<open>The auth state under its operations\<close>

datatype auth_op =
    RegisterUser user
  | RemoveUser string
  | RegisterRole role
  | AddPolicy table_policy
  | UpdateConfig auth_config

fun auth_step :: "auth_op \<Rightarrow> auth_state \<Rightarrow> auth_state" where
  "auth_step (RegisterUser u) st = snd (register_user u st)"
| "auth_step (RemoveUser uid) st = snd (remove_user uid st)"
| "auth_step (RegisterRole r) st = register_role r st"
| "auth_step (AddPolicy p) st = add_policy p st"
| "auth_step (UpdateConfig cfg) st = update_config cfg st"

text \<open>Users are stored under their own id and roles under their own name.\<close>

definition keyed :: "auth_state \<Rightarrow> bool" where
  "keyed st \<longleftrightarrow> (\<forall>k u. users st k = Some u \<longrightarrow> user_id u = k) \<and>
     (\<forall>k r. roles st k = Some r \<longrightarrow> role_name r = k)"

lemma keyed_step: "keyed st \<Longrightarrow> keyed (auth_step op st)"
  by (cases op)
    (auto simp: keyed_def register_user_def remove_user_def register_role_def add_policy_def
      update_config_def split: option.splits if_splits)

lemma keyed_default: "keyed (default_state now)"
  by (auto simp: keyed_def default_state_def anonymous_user_def split: if_splits)

interpretation auth: state_invariant auth_step "default_state now" keyed for now
  by unfold_locales (rule keyed_default, rule keyed_step)

text \<open>In every state the auth operations can reach, a listing of the role table holds each
  role name once, so the first role a permission check finds under a name is the only one.\<close>

theorem reachable_role_names_distinct:
  assumes "st = fold auth_step ops (default_state now)"
    and "distinct rs" and "set rs = ran (roles st)"
  shows "distinct (map role_name rs)"
proof -
  have "keyed st" unfolding assms(1) by (rule auth.inv_run)
  then have "roles st (role_name r) = Some r" if "r \<in> set rs" for r
    using that assms(3) by (auto simp: keyed_def ran_def)
  then have "inj_on role_name (set rs)" by (metis inj_onI option.inject)
  with assms(2) show ?thesis by (simp add: distinct_map)
qed

theorem reachable_role_names_distinct_witness:
  "distinct (map role_name [\<lparr>role_name = ''admin'', role_permissions = [Admin]\<rparr>,
     \<lparr>role_name = ''analyst'', role_permissions = [ReadTable ''*'', ExecuteSql]\<rparr>,
     \<lparr>role_name = ''engineer'', role_permissions = [ReadTable ''*'', WriteTable ''*'', ExecuteSql,
        ManagePipelines, ManageConnections]\<rparr>,
     \<lparr>role_name = ''viewer'', role_permissions = [ReadTable ''*'']\<rparr>])"
  by (rule reachable_role_names_distinct [where ops = "[]" and now = "''''"])
    (auto simp: default_state_def)

text \<open>Removing a user revokes every token issued to it at once: with authentication on, no
  later request is forwarded with claims for that id, whatever token it carries.\<close>

theorem removed_user_is_refused:
  assumes "auth_enabled (config st)"
    and "auth_middleware sha from_json clock t (snd (remove_user uid st)) hdr = Forward c u"
  shows "sub c \<noteq> uid"
proof -
  have "auth_enabled (config (snd (remove_user uid st)))"
    using assms(1) by (simp add: remove_user_def split: option.splits)
  from forward_enabled [OF this] assms(2) have "users (snd (remove_user uid st)) (sub c) = Some u"
    by fastforce
  then show ?thesis by (auto simp: remove_user_def split: option.splits if_splits)
qed

theorem removed_user_is_refused_witness:
  "auth_middleware zero_sha (one_claims 1000 default_config example_user) (Inr 2000) ''''
     (snd (remove_user ''other'' example_state)) (Some (''Bearer '' @ example_token)) =
   Forward (new_claims 1000 default_config example_user) example_user \<and>
   sub (new_claims 1000 default_config example_user) \<noteq> ''other''"
proof -
  have same: "snd (remove_user ''other'' example_state) = example_state"
    by (simp add: remove_user_def example_state_def)
  have fwd: "auth_middleware zero_sha (one_claims 1000 default_config example_user) (Inr 2000) ''''
     (snd (remove_user ''other'' example_state)) (Some (''Bearer '' @ example_token)) =
   Forward (new_claims 1000 default_config example_user) example_user"
    unfolding same by (rule example_forward)
  moreover have "sub (new_claims 1000 default_config example_user) \<noteq> ''other''"
    by (rule removed_user_is_refused [OF _ fwd]) (simp add: example_state_def)
  ultimately show ?thesis by simp
qed

end
