(* ===== verification/Json.thy ===== *)
theory Json
  imports Prelude "HOL-Library.Finite_Map"
begin

text \<open>
  JSON documents (\<open>serde_json::Value\<close>) with the accessors and in-place updates that the
  table-metadata code uses, and the parts of an Arrow schema it reads. An object is a finite map,
  so two documents are equal when \<open>serde_json\<close> compares them equal. Numbers that are not
  integers are kept as their text.
\<close>

section \<open>Documents\<close>

datatype json =
    JNull
  | JBool bool
  | JInt int
  | JFloat string
  | JStr string
  | JArr "json list"
  | is_JObj: JObj "(string, json) fmap"

definition jobj :: "(string \<times> json) list \<Rightarrow> json" where
  "jobj kvs = JObj (fmap_of_list kvs)"

fun jget :: "string \<Rightarrow> json \<Rightarrow> json option" where
  "jget k (JObj m) = fmlookup m k"
| "jget k _ = None"

fun as_str :: "json \<Rightarrow> string option" where
  "as_str (JStr s) = Some s"
| "as_str _ = None"

fun as_i64 :: "json \<Rightarrow> int option" where
  "as_i64 (JInt i) = (if fits_i64 i then Some i else None)"
| "as_i64 _ = None"

fun as_bool :: "json \<Rightarrow> bool option" where
  "as_bool (JBool b) = Some b"
| "as_bool _ = None"

fun as_array :: "json \<Rightarrow> json list option" where
  "as_array (JArr xs) = Some xs"
| "as_array _ = None"

fun as_object :: "json \<Rightarrow> (string, json) fmap option" where
  "as_object (JObj m) = Some m"
| "as_object _ = None"

definition get_str :: "string \<Rightarrow> json \<Rightarrow> string option" where
  "get_str k j = Option.bind (jget k j) as_str"

definition get_i64 :: "string \<Rightarrow> json \<Rightarrow> int option" where
  "get_i64 k j = Option.bind (jget k j) as_i64"

definition get_bool :: "string \<Rightarrow> json \<Rightarrow> bool option" where
  "get_bool k j = Option.bind (jget k j) as_bool"

definition get_array :: "string \<Rightarrow> json \<Rightarrow> json list option" where
  "get_array k j = Option.bind (jget k j) as_array"

text \<open>\<open>j[k] = v\<close>: null becomes an object, anything else that is no object panics.\<close>

fun jset :: "string \<Rightarrow> json \<Rightarrow> json \<Rightarrow> json result" where
  "jset k v (JObj m) = Ok (JObj (fmupd k v m))"
| "jset k v JNull = Ok (JObj (fmupd k v fmempty))"
| "jset k v _ = Panic"

text \<open>\<open>if let Some(a) = j.get_mut(k).and_then(as_array_mut)\<close> with an update of the array.\<close>

definition jarray_mut :: "string \<Rightarrow> (json list \<Rightarrow> json list) \<Rightarrow> json \<Rightarrow> json" where
  "jarray_mut k f j =
     (case j of
        JObj m \<Rightarrow> (case fmlookup m k of Some (JArr xs) \<Rightarrow> JObj (fmupd k (JArr (f xs)) m) | _ \<Rightarrow> j)
      | _ \<Rightarrow> j)"

definition jpush :: "string \<Rightarrow> json \<Rightarrow> json \<Rightarrow> json" where
  "jpush k x = jarray_mut k (\<lambda>xs. xs @ [x])"

lemma jget_jobj [simp]: "jget k (jobj kvs) = map_of kvs k"
  by (simp add: jobj_def fmlookup_of_list)

lemma jset_get: "jset k v j = Ok j' \<Longrightarrow> jget k' j' = (if k' = k then Some v else jget k' j)"
  by (cases "(k, v, j)" rule: jset.cases) auto

lemma jget_jarray_mut:
  "jget k' (jarray_mut k f j) =
     (if k' = k then (case jget k j of Some (JArr xs) \<Rightarrow> Some (JArr (f xs)) | x \<Rightarrow> x)
      else jget k' j)"
  by (cases j) (auto simp: jarray_mut_def split: option.splits json.splits)

lemma get_array_jarray_mut:
  "get_array k' (jarray_mut k f j) =
     (if k' = k then map_option f (get_array k j) else get_array k' j)"
  by (auto simp: get_array_def jget_jarray_mut split: option.splits json.splits)

lemma jset_JObj_ex: "is_JObj j \<Longrightarrow> \<exists>j'. jset k v j = Ok j' \<and> is_JObj j'"
  by (cases j) auto

lemma is_JObj_jarray_mut [simp]: "is_JObj (jarray_mut k f j) = is_JObj j"
  by (cases j) (auto simp: jarray_mut_def split: option.splits json.splits)

section \<open>Arrow schemas\<close>

datatype arrow_type =
    Boolean | Int8 | Int16 | Int32 | Int64 | UInt8 | UInt16 | UInt32 | UInt64
  | Float16 | Float32 | Float64 | Utf8 | LargeUtf8 | Binary | LargeBinary | Date32 | Date64
  | Timestamp "string option" | Time32 | Time64 | Decimal128 nat int
  | OtherType string

record arrow_field =
  field_name :: string
  data_type :: arrow_type
  is_nullable :: bool

fun arrow_to_iceberg_type :: "arrow_type \<Rightarrow> string" where
  "arrow_to_iceberg_type Boolean = ''boolean''"
| "arrow_to_iceberg_type Int8 = ''int''"
| "arrow_to_iceberg_type Int16 = ''int''"
| "arrow_to_iceberg_type Int32 = ''int''"
| "arrow_to_iceberg_type Int64 = ''long''"
| "arrow_to_iceberg_type UInt8 = ''int''"
| "arrow_to_iceberg_type UInt16 = ''int''"
| "arrow_to_iceberg_type UInt32 = ''int''"
| "arrow_to_iceberg_type UInt64 = ''long''"
| "arrow_to_iceberg_type Float16 = ''float''"
| "arrow_to_iceberg_type Float32 = ''float''"
| "arrow_to_iceberg_type Float64 = ''double''"
| "arrow_to_iceberg_type Utf8 = ''string''"
| "arrow_to_iceberg_type LargeUtf8 = ''string''"
| "arrow_to_iceberg_type Binary = ''binary''"
| "arrow_to_iceberg_type LargeBinary = ''binary''"
| "arrow_to_iceberg_type Date32 = ''date''"
| "arrow_to_iceberg_type Date64 = ''date''"
| "arrow_to_iceberg_type (Timestamp (Some tz)) = ''timestamptz''"
| "arrow_to_iceberg_type (Timestamp None) = ''timestamp''"
| "arrow_to_iceberg_type Time32 = ''time''"
| "arrow_to_iceberg_type Time64 = ''time''"
| "arrow_to_iceberg_type (Decimal128 p s) = ''decimal(38,10)''"
| "arrow_to_iceberg_type (OtherType t) = ''string''"

end
