(* ===== verification/Iceberg_Metadata.thy ===== *)
theory Iceberg_Metadata
  imports Json
begin

text \<open>
  Iceberg table metadata: \<open>crates/rustlake-api/src/iceberg_metadata.rs\<close> (all of it) and the
  writer of the first version in \<open>iceberg_writer.rs\<close>. A table state is loaded from a metadata
  document in an object store; appends, schema changes and partition changes write the next
  numbered document. The object store and the JSON printer and parser are parameters (crates
  \<open>object_store\<close> and \<open>serde_json\<close>), as is the clock.
\<close>

section \<open>Environment and state\<close>

text \<open>
  \<open>store_get\<close> has two failure points, the request and the reading of the body. Paths are the
  strings the code passes to \<open>Path::from\<close>.
\<close>

record 's env =
  store_get :: "'s \<Rightarrow> string \<Rightarrow> string + (string + string)"
  store_put :: "'s \<Rightarrow> string \<Rightarrow> string \<Rightarrow> (string + unit) \<times> 's"
  store_list :: "'s \<Rightarrow> string \<Rightarrow> string + (string \<times> nat) list"
  store_delete :: "'s \<Rightarrow> string \<Rightarrow> bool \<times> 's"
  json_print :: "json \<Rightarrow> string + string"
  json_parse :: "string \<Rightarrow> string + json"

record data_file_info =
  file_path :: string
  file_size :: u64
  row_count :: u64

record snapshot_info =
  snapshot_id :: int
  parent_snapshot_id :: "int option"
  timestamp_ms :: int
  operation :: string
  summary :: "string \<rightharpoonup> string"
  manifest_list_path :: string
  data_files :: "data_file_info list"

record iceberg_field =
  field_id :: int
  name :: string
  required :: bool
  type_str :: string

record schema_version =
  schema_id :: int
  schema_fields :: "iceberg_field list"

record partition_field =
  source_id :: int
  part_field_id :: int
  part_name :: string
  transform :: string

record partition_spec_info =
  spec_id :: int
  spec_fields :: "partition_field list"

record table_state =
  metadata :: json
  table_uuid :: string
  location :: string
  snapshots :: "snapshot_info list"
  schemas :: "schema_version list"
  partition_specs :: "partition_spec_info list"
  current_snapshot_id :: "int option"
  current_schema_id :: int
  metadata_version :: int

datatype snapshot_ref = Latest | ById int | ByTimestamp int

datatype schema_change =
    AddColumn string string bool
  | DropColumn string
  | RenameColumn string string

section \<open>Loading\<close>

definition parse_snapshot :: "json \<Rightarrow> snapshot_info" where
  "parse_snapshot s =
     (let summ = (case Option.bind (jget ''summary'' s) as_object of
                    Some obj \<Rightarrow> (\<lambda>k. map_option (\<lambda>v. unwrap_or [] (as_str v)) (fmlookup obj k))
                  | None \<Rightarrow> Map.empty)
      in \<lparr>snapshot_id = unwrap_or 0 (get_i64 ''snapshot-id'' s),
          parent_snapshot_id = get_i64 ''parent-snapshot-id'' s,
          timestamp_ms = unwrap_or 0 (get_i64 ''timestamp-ms'' s),
          operation = unwrap_or ''append'' (summ ''operation''),
          summary = summ,
          manifest_list_path = unwrap_or [] (get_str ''manifest-list'' s),
          data_files = []\<rparr>)"

definition parse_snapshots :: "json \<Rightarrow> snapshot_info list" where
  "parse_snapshots m = map parse_snapshot (unwrap_or [] (get_array ''snapshots'' m))"

definition parse_field :: "json \<Rightarrow> iceberg_field" where
  "parse_field f =
     \<lparr>field_id = wrap_i32 (unwrap_or 0 (get_i64 ''id'' f)),
      name = unwrap_or [] (get_str ''name'' f),
      required = unwrap_or False (get_bool ''required'' f),
      type_str = unwrap_or ''string'' (get_str ''type'' f)\<rparr>"

definition parse_schema :: "json \<Rightarrow> schema_version" where
  "parse_schema s =
     \<lparr>schema_id = wrap_i32 (unwrap_or 0 (get_i64 ''schema-id'' s)),
      schema_fields = map parse_field (unwrap_or [] (get_array ''fields'' s))\<rparr>"

definition parse_schemas :: "json \<Rightarrow> schema_version list" where
  "parse_schemas m = map parse_schema (unwrap_or [] (get_array ''schemas'' m))"

definition parse_partition_field :: "json \<Rightarrow> partition_field" where
  "parse_partition_field f =
     \<lparr>source_id = wrap_i32 (unwrap_or 0 (get_i64 ''source-id'' f)),
      part_field_id = wrap_i32 (unwrap_or 0 (get_i64 ''field-id'' f)),
      part_name = unwrap_or [] (get_str ''name'' f),
      transform = unwrap_or ''identity'' (get_str ''transform'' f)\<rparr>"

definition parse_partition_spec :: "json \<Rightarrow> partition_spec_info" where
  "parse_partition_spec s =
     \<lparr>spec_id = wrap_i32 (unwrap_or 0 (get_i64 ''spec-id'' s)),
      spec_fields = map parse_partition_field (unwrap_or [] (get_array ''fields'' s))\<rparr>"

definition parse_partition_specs :: "json \<Rightarrow> partition_spec_info list" where
  "parse_partition_specs m = map parse_partition_spec (unwrap_or [] (get_array ''partition-specs'' m))"

definition path_file_name :: "string \<Rightarrow> string" where
  "path_file_name path = last (split_char (CHR ''/'') path)"

definition metadata_file_version :: "string \<Rightarrow> int option" where
  "metadata_file_version f =
     Option.bind (strip_prefix f ''v'') (\<lambda>f. Option.bind (strip_suffix f ''.metadata.json'') parse_i32)"

definition state_of_metadata :: "json \<Rightarrow> string \<Rightarrow> table_state" where
  "state_of_metadata m path =
     \<lparr>metadata = m,
      table_uuid = unwrap_or [] (get_str ''table-uuid'' m),
      location = unwrap_or [] (get_str ''location'' m),
      snapshots = parse_snapshots m,
      schemas = parse_schemas m,
      partition_specs = parse_partition_specs m,
      current_snapshot_id = get_i64 ''current-snapshot-id'' m,
      current_schema_id = wrap_i32 (unwrap_or 0 (get_i64 ''current-schema-id'' m)),
      metadata_version = unwrap_or 1 (metadata_file_version (path_file_name path))\<rparr>"

definition load_table_state :: "'s env \<Rightarrow> 's \<Rightarrow> string \<Rightarrow> table_state result" where
  "load_table_state E s path =
     (case store_get E s path of
        Inl e \<Rightarrow> Err (''Failed to read metadata at '' @ path @ '': '' @ e)
      | Inr (Inl e) \<Rightarrow> Err (''Failed to read metadata bytes: '' @ e)
      | Inr (Inr bytes) \<Rightarrow>
          (case json_parse E bytes of
             Inl e \<Rightarrow> Err (''Invalid metadata JSON: '' @ e)
           | Inr m \<Rightarrow> Ok (state_of_metadata m path)))"

section \<open>Paths\<close>

definition strip_s3_prefix :: "string \<Rightarrow> string" where
  "strip_s3_prefix loc =
     (case strip_prefix loc ''s3://'' of
        Some rest \<Rightarrow> (case find_str rest ''/'' of Some slash \<Rightarrow> drop (slash + 1) rest | None \<Rightarrow> loc)
      | None \<Rightarrow> loc)"

definition metadata_path :: "string \<Rightarrow> int \<Rightarrow> string" where
  "metadata_path pfx version = pfx @ ''/metadata/v'' @ show_int version @ ''.metadata.json''"

definition manifest_list_file :: "string \<Rightarrow> int \<Rightarrow> string" where
  "manifest_list_file pfx sid = pfx @ ''/metadata/snap-'' @ show_int sid @ ''-manifest-list.json''"

section \<open>Appending a snapshot\<close>

definition manifest_entry :: "string \<Rightarrow> int \<Rightarrow> data_file_info \<Rightarrow> json" where
  "manifest_entry loc sid df = jobj
     [(''manifest_path'', JStr (loc @ ''/'' @ file_path df)),
      (''manifest_length'', JInt (uint (file_size df))),
      (''partition_spec_id'', JInt 0),
      (''added_snapshot_id'', JInt sid),
      (''added_data_files_count'', JInt 1),
      (''added_rows_count'', JInt (uint (row_count df))),
      (''existing_data_files_count'', JInt 0),
      (''existing_rows_count'', JInt 0),
      (''deleted_data_files_count'', JInt 0),
      (''deleted_rows_count'', JInt 0)]"

definition manifest_list_json :: "string \<Rightarrow> int \<Rightarrow> data_file_info list \<Rightarrow> json" where
  "manifest_list_json loc sid files = jobj
     [(''format-version'', JInt 2), (''manifests'', JArr (map (manifest_entry loc sid) files))]"

definition total_records :: "data_file_info list \<Rightarrow> u64" where
  "total_records files = sum_list (map row_count files)"

definition total_size :: "data_file_info list \<Rightarrow> u64" where
  "total_size files = sum_list (map file_size files)"

definition show_u64 :: "u64 \<Rightarrow> string" where
  "show_u64 w = show_nat (unat w)"

text \<open>A running total in the summary of the current snapshot, 0 when it is missing.\<close>

definition prev_total :: "string \<Rightarrow> table_state \<Rightarrow> u64" where
  "prev_total key st =
     unwrap_or 0
       (Option.bind (current_snapshot_id st) (\<lambda>cid.
        Option.bind (find (\<lambda>s. snapshot_id s = cid) (snapshots st)) (\<lambda>s.
        Option.bind (summary s key) parse_u64)))"

definition summary_json :: "string \<Rightarrow> u64 \<Rightarrow> u64 \<Rightarrow> u64 \<Rightarrow> data_file_info list \<Rightarrow> json" where
  "summary_json op prev_records prev_files prev_size files = jobj
     [(''operation'', JStr op),
      (''total-records'', JStr (show_u64 (prev_records + total_records files))),
      (''total-data-files'', JStr (show_u64 (prev_files + of_nat (length files)))),
      (''total-files-size'', JStr (show_u64 (prev_size + total_size files))),
      (''added-records'', JStr (show_u64 (total_records files))),
      (''added-data-files'', JStr (show_nat (length files))),
      (''added-files-size'', JStr (show_u64 (total_size files)))]"

definition new_snapshot_json ::
  "table_state \<Rightarrow> int \<Rightarrow> string \<Rightarrow> data_file_info list \<Rightarrow> json" where
  "new_snapshot_json st now op files = jobj
     [(''snapshot-id'', JInt now),
      (''parent-snapshot-id'', case current_snapshot_id st of Some i \<Rightarrow> JInt i | None \<Rightarrow> JNull),
      (''sequence-number'', JInt (int (length (snapshots st)) + 1)),
      (''timestamp-ms'', JInt now),
      (''summary'', summary_json op (prev_total ''total-records'' st)
         (prev_total ''total-data-files'' st) (prev_total ''total-files-size'' st) files),
      (''manifest-list'', JStr (manifest_list_file (location st) now))]"

definition metadata_log_entry :: "table_state \<Rightarrow> int \<Rightarrow> json" where
  "metadata_log_entry st now = jobj
     [(''timestamp-ms'', JInt (unwrap_or now (get_i64 ''last-updated-ms'' (metadata st)))),
      (''metadata-file'', JStr (metadata_path (location st) (metadata_version st)))]"

text \<open>\<open>refs["main"]["snapshot-id"] = id\<close>, if there is a \<open>refs\<close> value.\<close>

definition set_main_ref :: "int \<Rightarrow> json \<Rightarrow> json result" where
  "set_main_ref sid m =
     (case jget ''refs'' m of
        None \<Rightarrow> Ok m
      | Some refs \<Rightarrow>
          (case refs of
             JObj _ \<Rightarrow>
               bind_result (jset ''snapshot-id'' (JInt sid) (unwrap_or JNull (jget ''main'' refs)))
                 (\<lambda>main. bind_result (jset ''main'' main refs) (\<lambda>refs'. jset ''refs'' refs' m))
           | JNull \<Rightarrow>
               bind_result (jset ''snapshot-id'' (JInt sid) JNull)
                 (\<lambda>main. bind_result (jset ''main'' main refs) (\<lambda>refs'. jset ''refs'' refs' m))
           | _ \<Rightarrow> Panic))"

definition arrow_field_json :: "nat \<Rightarrow> arrow_field \<Rightarrow> json" where
  "arrow_field_json i f = jobj
     [(''id'', JInt (int i + 1)), (''name'', JStr (field_name f)),
      (''required'', JBool (\<not> is_nullable f)),
      (''type'', JStr (arrow_to_iceberg_type (data_type f)))]"

definition arrow_fields_json :: "arrow_field list \<Rightarrow> json list" where
  "arrow_fields_json schema = map (\<lambda>(i, f). arrow_field_json i f) (enumerate 0 schema)"

definition schema_json :: "int \<Rightarrow> json list \<Rightarrow> json" where
  "schema_json sid fs = jobj
     [(''type'', JStr ''struct''), (''schema-id'', JInt sid), (''fields'', JArr fs)]"

definition add_schema_if_changed :: "table_state \<Rightarrow> arrow_field list \<Rightarrow> json \<Rightarrow> json result" where
  "add_schema_if_changed st schema m =
     (let iceberg_fields = arrow_fields_json schema;
          current_fields = (case find (\<lambda>s. schema_id s = current_schema_id st) (schemas st) of
                              Some s \<Rightarrow> length (schema_fields s) | None \<Rightarrow> 0)
      in if length iceberg_fields \<noteq> current_fields then
           let new_schema_id = wrap_i32 (current_schema_id st + 1);
               m1 = jpush ''schemas'' (schema_json new_schema_id iceberg_fields) m
           in bind_result (jset ''current-schema-id'' (JInt new_schema_id) m1)
                (jset ''last-column-id'' (JInt (int (length schema))))
         else Ok m)"

text \<open>The document that an append writes.\<close>

definition appended_metadata ::
  "table_state \<Rightarrow> int \<Rightarrow> string \<Rightarrow> data_file_info list \<Rightarrow> arrow_field list \<Rightarrow> json result" where
  "appended_metadata st now op files schema =
     (let m1 = jpush ''snapshots'' (new_snapshot_json st now op files) (metadata st);
          m2 = jpush ''snapshot-log''
                 (jobj [(''timestamp-ms'', JInt now), (''snapshot-id'', JInt now)]) m1;
          m3 = jpush ''metadata-log'' (metadata_log_entry st now) m2
      in bind_result (jset ''current-snapshot-id'' (JInt now) m3) (\<lambda>m4.
         bind_result (jset ''last-updated-ms'' (JInt now) m4) (\<lambda>m5.
         bind_result (jset ''last-sequence-number''
              (JInt (int (length (snapshots st)) + int (length files))) m5) (\<lambda>m6.
         bind_result (set_main_ref now m6) (add_schema_if_changed st schema)))))"

text \<open>Writing a document under a path: printing may fail, storing may fail.\<close>

definition put_json ::
  "'s env \<Rightarrow> string \<Rightarrow> string \<Rightarrow> string \<Rightarrow> json \<Rightarrow> 's \<Rightarrow> unit result \<times> 's" where
  "put_json E json_msg put_msg path j s =
     (case json_print E j of
        Inl e \<Rightarrow> (Err (json_msg @ e), s)
      | Inr text \<Rightarrow>
          (case store_put E s path text of
             (Inl e, s') \<Rightarrow> (Err (put_msg @ e), s')
           | (Inr _, s') \<Rightarrow> (Ok (), s')))"

text \<open>The next numbered metadata document, written under the key of the table.\<close>

definition write_version :: "'s env \<Rightarrow> table_state \<Rightarrow> json \<Rightarrow> 's \<Rightarrow> string result \<times> 's" where
  "write_version E st m s =
     (let path = metadata_path (strip_s3_prefix (location st)) (wrap_i32 (metadata_version st + 1))
      in case put_json E ''Metadata JSON: '' ''S3 PUT metadata: '' path m s of
           (Ok _, s') \<Rightarrow> (Ok path, s')
         | (Err e, s') \<Rightarrow> (Err e, s')
         | (Panic, s') \<Rightarrow> (Panic, s'))"

definition append_snapshot ::
  "'s env \<Rightarrow> int \<Rightarrow> table_state \<Rightarrow> data_file_info list \<Rightarrow> arrow_field list \<Rightarrow> string \<Rightarrow> 's \<Rightarrow>
   string result \<times> 's" where
  "append_snapshot E now st files schema op s =
     (if files = [] then (Err ''No data files for new snapshot'', s)
      else let pfx = strip_s3_prefix (location st)
        in case put_json E ''Manifest JSON: '' ''S3 PUT manifest: ''
                  (manifest_list_file pfx now) (manifest_list_json (location st) now files) s of
             (Ok _, s1) \<Rightarrow>
               (case appended_metadata st now op files schema of
                  Ok m \<Rightarrow> write_version E st m s1
                | Err e \<Rightarrow> (Err e, s1)
                | Panic \<Rightarrow> (Panic, s1))
           | (Err e, s1) \<Rightarrow> (Err e, s1)
           | (Panic, s1) \<Rightarrow> (Panic, s1))"

section \<open>Creating a table\<close>

definition first_metadata ::
  "int \<Rightarrow> string \<Rightarrow> string \<Rightarrow> arrow_field list \<Rightarrow> data_file_info list \<Rightarrow> json" where
  "first_metadata now uuid loc schema files = jobj
     [(''format-version'', JInt 2),
      (''table-uuid'', JStr uuid),
      (''location'', JStr loc),
      (''last-sequence-number'', JInt (int (length files))),
      (''last-updated-ms'', JInt now),
      (''last-column-id'', JInt (int (length schema))),
      (''current-schema-id'', JInt 0),
      (''schemas'', JArr [schema_json 0 (arrow_fields_json schema)]),
      (''default-spec-id'', JInt 0),
      (''partition-specs'', JArr [jobj [(''spec-id'', JInt 0), (''fields'', JArr [])]]),
      (''last-partition-id'', JInt 0),
      (''default-sort-order-id'', JInt 0),
      (''sort-orders'', JArr [jobj [(''order-id'', JInt 0), (''fields'', JArr [])]]),
      (''properties'', jobj
         [(''write.format.default'', JStr ''parquet''),
          (''write.parquet.compression-codec'', JStr ''snappy''),
          (''created-by'', JStr ''RustLake CDC Pipeline'')]),
      (''current-snapshot-id'', JInt now),
      (''snapshots'', JArr [jobj
         [(''snapshot-id'', JInt now),
          (''sequence-number'', JInt 1),
          (''timestamp-ms'', JInt now),
          (''summary'', summary_json ''append'' 0 0 0 files),
          (''manifest-list'', JStr (manifest_list_file loc now))]]),
      (''snapshot-log'', JArr [jobj [(''timestamp-ms'', JInt now), (''snapshot-id'', JInt now)]]),
      (''metadata-log'', JArr []),
      (''refs'', jobj [(''main'', jobj
         [(''snapshot-id'', JInt now), (''type'', JStr ''branch'')])])]"

definition write_iceberg_metadata ::
  "'s env \<Rightarrow> int \<Rightarrow> string \<Rightarrow> arrow_field list \<Rightarrow> data_file_info list \<Rightarrow> string \<Rightarrow> string \<Rightarrow> 's \<Rightarrow>
   string result \<times> 's" where
  "write_iceberg_metadata E now table_prefix schema files uuid bucket s =
     (if files = [] then (Err ''No data files to create Iceberg metadata for'', s)
      else
        let loc = ''s3://'' @ bucket @ ''/'' @ table_prefix;
            path = table_prefix @ ''/metadata/v1.metadata.json''
        in case put_json E ''Metadata JSON: '' ''S3 PUT metadata: '' path
                  (first_metadata now uuid loc schema files) s of
             (Ok _, s1) \<Rightarrow>
               (case put_json E ''Manifest JSON: '' ''S3 PUT manifest: ''
                       (manifest_list_file table_prefix now) (manifest_list_json loc now files) s1 of
                  (Ok _, s2) \<Rightarrow> (Ok path, s2)
                | (Err e, s2) \<Rightarrow> (Err e, s2)
                | (Panic, s2) \<Rightarrow> (Panic, s2))
           | (Err e, s1) \<Rightarrow> (Err e, s1)
           | (Panic, s1) \<Rightarrow> (Panic, s1))"

definition create_table ::
  "'s env \<Rightarrow> int \<Rightarrow> string \<Rightarrow> arrow_field list \<Rightarrow> data_file_info list \<Rightarrow> string \<Rightarrow> string \<Rightarrow> 's \<Rightarrow>
   (string \<times> table_state) result \<times> 's" where
  "create_table E now table_prefix schema files uuid bucket s =
     (case write_iceberg_metadata E now table_prefix schema files uuid bucket s of
        (Ok path, s') \<Rightarrow>
          (bind_result (load_table_state E s' path) (\<lambda>st. Ok (path, st)), s')
      | (Err e, s') \<Rightarrow> (Err e, s')
      | (Panic, s') \<Rightarrow> (Panic, s'))"

section \<open>Resolving snapshots\<close>

definition find_snapshot :: "int \<Rightarrow> snapshot_info list \<Rightarrow> snapshot_info option" where
  "find_snapshot i snaps = find (\<lambda>s. snapshot_id s = i) snaps"

text \<open>\<open>Iterator::max_by_key\<close>: of several maxima it returns the last one.\<close>

fun max_by_key :: "('a \<Rightarrow> int) \<Rightarrow> 'a list \<Rightarrow> 'a option" where
  "max_by_key f [] = None"
| "max_by_key f (x # xs) =
     (case max_by_key f xs of
        None \<Rightarrow> Some x
      | Some y \<Rightarrow> Some (if f y < f x then x else y))"

fun resolve_snapshot :: "table_state \<Rightarrow> snapshot_ref \<Rightarrow> snapshot_info result" where
  "resolve_snapshot st Latest =
     (case current_snapshot_id st of
        None \<Rightarrow> Err ''Table has no snapshots''
      | Some cid \<Rightarrow> ok_or (''Current snapshot '' @ show_int cid @ '' not found in metadata'')
                      (find_snapshot cid (snapshots st)))"
| "resolve_snapshot st (ById i) =
     ok_or (''Snapshot '' @ show_int i @ '' not found'') (find_snapshot i (snapshots st))"
| "resolve_snapshot st (ByTimestamp ts) =
     ok_or (''No snapshot found at or before timestamp '' @ show_int ts)
       (max_by_key timestamp_ms (filter (\<lambda>s. timestamp_ms s \<le> ts) (snapshots st)))"

text \<open>The walk along the parents, with \<open>None\<close> when it never ends.\<close>

partial_function (option) walk_files :: "snapshot_info list \<Rightarrow> int option \<Rightarrow> string list option"
  where
  "walk_files snaps cur =
     (case cur of
        None \<Rightarrow> Some []
      | Some i \<Rightarrow>
          (case find_snapshot i snaps of
             None \<Rightarrow> Some []
           | Some sn \<Rightarrow>
               Option.bind (walk_files snaps (parent_snapshot_id sn))
                 (\<lambda>fs. Some (map file_path (data_files sn) @ fs))))"

definition get_data_files_for_snapshot :: "table_state \<Rightarrow> int \<Rightarrow> string list option" where
  "get_data_files_for_snapshot st sid = walk_files (snapshots st) (Some sid)"

section \<open>Schema and partition evolution\<close>

definition list_max :: "int list \<Rightarrow> int option" where
  "list_max xs = (if xs = [] then None else Some (Max (set xs)))"

text \<open>\<open>iter_mut().find(..)\<close>: the first field of that name.\<close>

fun rename_first :: "string \<Rightarrow> string \<Rightarrow> iceberg_field list \<Rightarrow> iceberg_field list option" where
  "rename_first old new [] = None"
| "rename_first old new (f # fs) =
     (if name f = old then Some (f\<lparr>name := new\<rparr> # fs)
      else map_option ((#) f) (rename_first old new fs))"

fun apply_change ::
  "schema_change \<Rightarrow> iceberg_field list \<times> int \<Rightarrow> (iceberg_field list \<times> int) result" where
  "apply_change (AddColumn n ty nullable) (fs, max_id) =
     (if list_ex (\<lambda>f. name f = n) fs then Err (''Column '' @ quote n @ '' already exists'')
      else let i = wrap_i32 (max_id + 1)
           in Ok (fs @ [\<lparr>field_id = i, name = n, required = \<not> nullable, type_str = ty\<rparr>], i))"
| "apply_change (DropColumn n) (fs, max_id) =
     (let fs' = filter (\<lambda>f. name f \<noteq> n) fs
      in if length fs' = length fs then Err (''Column '' @ quote n @ '' not found'')
         else Ok (fs', max_id))"
| "apply_change (RenameColumn old new) (fs, max_id) =
     (case rename_first old new fs of
        None \<Rightarrow> Err (''Column '' @ quote old @ '' not found'')
      | Some fs' \<Rightarrow> Ok (fs', max_id))"

fun apply_changes ::
  "schema_change list \<Rightarrow> iceberg_field list \<times> int \<Rightarrow> (iceberg_field list \<times> int) result" where
  "apply_changes [] acc = Ok acc"
| "apply_changes (c # cs) acc = bind_result (apply_change c acc) (apply_changes cs)"

definition iceberg_field_json :: "iceberg_field \<Rightarrow> json" where
  "iceberg_field_json f = jobj
     [(''id'', JInt (field_id f)), (''name'', JStr (name f)), (''required'', JBool (required f)),
      (''type'', JStr (type_str f))]"

definition evolved_metadata ::
  "table_state \<Rightarrow> int \<Rightarrow> iceberg_field list \<Rightarrow> int \<Rightarrow> json result" where
  "evolved_metadata st now fs max_id =
     (let sid = wrap_i32 (current_schema_id st + 1);
          m1 = jpush ''schemas'' (schema_json sid (map iceberg_field_json fs)) (metadata st)
      in bind_result (jset ''current-schema-id'' (JInt sid) m1) (\<lambda>m2.
         bind_result (jset ''last-column-id'' (JInt max_id) m2) (\<lambda>m3.
         bind_result (jset ''last-updated-ms'' (JInt now) m3) (\<lambda>m4.
         Ok (jpush ''metadata-log'' (metadata_log_entry st now) m4)))))"

definition evolve_schema ::
  "'s env \<Rightarrow> int \<Rightarrow> table_state \<Rightarrow> schema_change list \<Rightarrow> 's \<Rightarrow> string result \<times> 's" where
  "evolve_schema E now st changes s =
     (if changes = [] then (Err ''No schema changes provided'', s)
      else case find (\<lambda>sv. schema_id sv = current_schema_id st) (schemas st) of
             None \<Rightarrow> (Err ''Current schema not found'', s)
           | Some sv \<Rightarrow>
               (case apply_changes changes
                       (schema_fields sv, unwrap_or 0 (list_max (map field_id (schema_fields sv)))) of
                  Ok (fs, max_id) \<Rightarrow>
                    (case evolved_metadata st now fs max_id of
                       Ok m \<Rightarrow> write_version E st m s
                     | Err e \<Rightarrow> (Err e, s)
                     | Panic \<Rightarrow> (Panic, s))
                | Err e \<Rightarrow> (Err e, s)
                | Panic \<Rightarrow> (Panic, s)))"

definition partition_field_json :: "partition_field \<Rightarrow> json" where
  "partition_field_json f = jobj
     [(''source-id'', JInt (source_id f)), (''field-id'', JInt (part_field_id f)),
      (''name'', JStr (part_name f)), (''transform'', JStr (transform f))]"

definition evolve_partition ::
  "'s env \<Rightarrow> int \<Rightarrow> table_state \<Rightarrow> partition_field list \<Rightarrow> 's \<Rightarrow> string result \<times> 's" where
  "evolve_partition E now st new_fields s =
     (let sid = wrap_i32 (unwrap_or 0 (list_max (map spec_id (partition_specs st))) + 1);
          m1 = jpush ''partition-specs''
                 (jobj [(''spec-id'', JInt sid),
                        (''fields'', JArr (map partition_field_json new_fields))]) (metadata st);
          last_id = unwrap_or sid (list_max (map part_field_id new_fields))
      in case bind_result (jset ''default-spec-id'' (JInt sid) m1) (\<lambda>m2.
              bind_result (jset ''last-partition-id'' (JInt last_id) m2) (\<lambda>m3.
              bind_result (jset ''last-updated-ms'' (JInt now) m3) (\<lambda>m4.
              Ok (jpush ''metadata-log'' (metadata_log_entry st now) m4)))) of
           Ok m \<Rightarrow> write_version E st m s
         | Err e \<Rightarrow> (Err e, s)
         | Panic \<Rightarrow> (Panic, s))"

section \<open>Finding the latest version\<close>

fun latest_of :: "(string \<times> nat) list \<Rightarrow> int \<Rightarrow> string option \<Rightarrow> string option" where
  "latest_of [] max_version max_path = max_path"
| "latest_of ((p, sz) # items) max_version max_path =
     (case metadata_file_version (path_file_name p) of
        None \<Rightarrow> latest_of items max_version max_path
      | Some ver \<Rightarrow>
          if max_version < ver then latest_of items ver (Some p)
          else latest_of items max_version max_path)"

definition find_latest_metadata :: "'s env \<Rightarrow> 's \<Rightarrow> string \<Rightarrow> string option result" where
  "find_latest_metadata E s table_prefix =
     (case store_list E s (table_prefix @ ''/metadata/'') of
        Inl e \<Rightarrow> Err (''Failed to list metadata: '' @ e)
      | Inr items \<Rightarrow> Ok (latest_of items 0 None))"

end
