(* ===== verification/Iceberg_History.thy ===== *)
theory Iceberg_History
  imports Iceberg_Metadata
begin

text \<open>
  The history of an Iceberg table: time travel, the walk over the parents, and what is read back
  after an append, a schema evolution and the creation of a table. The definitions are those of
  \<open>Iceberg_Metadata\<close>; the store and the JSON printer enter through the laws \<open>env_ok\<close>.
\<close>

section \<open>Facts about resolution\<close>

lemma max_by_key_None [simp]: "max_by_key f xs = None \<longleftrightarrow> xs = []"
  by (cases xs) (auto split: option.splits)

lemma max_by_key_Some:
  "max_by_key f xs = Some y \<longleftrightarrow>
     (\<exists>a b. xs = a @ y # b \<and> (\<forall>x \<in> set a. f x \<le> f y) \<and> (\<forall>x \<in> set b. f x < f y))"
  (is "_ \<longleftrightarrow> ?R xs y")
proof (induction xs arbitrary: y)
  case Nil
  then show ?case by simp
next
  case (Cons x xs)
  show ?case
  proof
    assume m: "max_by_key f (x # xs) = Some y"
    show "?R (x # xs) y"
    proof (cases "max_by_key f xs")
      case None
      with m show ?thesis by (intro exI [of _ "[]"]) simp
    next
      case (Some z)
      with Cons.IH obtain a b where z: "xs = a @ z # b" "\<forall>x \<in> set a. f x \<le> f z" "\<forall>x \<in> set b. f x < f z"
        by blast
      show ?thesis
      proof (cases "f z < f x")
        case True
        with m Some have "y = x" by simp
        moreover have "\<forall>u \<in> set xs. f u < f x" using z True by fastforce
        ultimately show ?thesis by (intro exI [of _ "[]"] exI [of _ xs]) simp
      next
        case False
        with m Some have "y = z" by simp
        with z False show ?thesis by (intro exI [of _ "x # a"] exI [of _ b]) auto
      qed
    qed
  next
    assume "?R (x # xs) y"
    then obtain a b where ab: "x # xs = a @ y # b" "\<forall>x \<in> set a. f x \<le> f y" "\<forall>x \<in> set b. f x < f y"
      by blast
    show "max_by_key f (x # xs) = Some y"
    proof (cases a)
      case Nil
      with ab have "y = x" "xs = b" by auto
      moreover have "f z < f x" if "max_by_key f b = Some z" for z
        using that ab \<open>xs = b\<close> \<open>y = x\<close> Cons.IH [of z] by auto
      ultimately show ?thesis by (auto split: option.splits)
    next
      case (Cons u a')
      with ab have xs: "xs = a' @ y # b" "x = u" by auto
      have "\<forall>x \<in> set a'. f x \<le> f y" using ab Cons by simp
      with xs ab(3) Cons.IH [of y] have "max_by_key f xs = Some y" by blast
      with ab Cons xs show ?thesis by auto
    qed
  qed
qed

lemma filter_eq_split:
  "filter P xs = a @ y # b \<Longrightarrow>
     \<exists>a' b'. xs = a' @ y # b' \<and> P y \<and> filter P a' = a \<and> filter P b' = b"
proof (induction xs arbitrary: a)
  case Nil
  then show ?case by simp
next
  case (Cons x xs)
  show ?case
  proof (cases "P x \<and> a = []")
    case True
    with Cons.prems show ?thesis by (intro exI [of _ "[]"] exI [of _ xs]) auto
  next
    case False
    then have "\<exists>a2. filter P xs = a2 @ y # b \<and> a = (if P x then x # a2 else a2)"
      using Cons.prems by (cases a) (auto split: if_splits)
    then obtain a2 where a2: "filter P xs = a2 @ y # b" "a = (if P x then x # a2 else a2)" by blast
    from Cons.IH [OF a2(1)] obtain a' b' where
      "xs = a' @ y # b' \<and> P y \<and> filter P a' = a2 \<and> filter P b' = b" by blast
    with a2(2) show ?thesis by (intro exI [of _ "x # a'"] exI [of _ b']) auto
  qed
qed

text \<open>C27. Time travel returns the snapshot that was current at the time: the one with the greatest
  timestamp not after it, the last one in the document among equals; it fails exactly when every
  snapshot is younger.\<close>

theorem time_travel_is_latest_before:
  "(resolve_snapshot st (ByTimestamp ts) = Ok s \<longleftrightarrow>
      (\<exists>a b. snapshots st = a @ s # b \<and> timestamp_ms s \<le> ts \<and>
         (\<forall>x \<in> set a. timestamp_ms x \<le> ts \<longrightarrow> timestamp_ms x \<le> timestamp_ms s) \<and>
         (\<forall>x \<in> set b. timestamp_ms x \<le> ts \<longrightarrow> timestamp_ms x < timestamp_ms s))) \<and>
   (is_ok (resolve_snapshot st (ByTimestamp ts)) \<longleftrightarrow>
      (\<exists>x \<in> set (snapshots st). timestamp_ms x \<le> ts))"
proof
  let ?P = "\<lambda>s. timestamp_ms s \<le> ts"
  have *: "resolve_snapshot st (ByTimestamp ts) = Ok s \<longleftrightarrow>
      (\<exists>a b. filter ?P (snapshots st) = a @ s # b \<and>
         (\<forall>x \<in> set a. timestamp_ms x \<le> timestamp_ms s) \<and> (\<forall>x \<in> set b. timestamp_ms x < timestamp_ms s))"
    by (simp add: max_by_key_Some)
  show "resolve_snapshot st (ByTimestamp ts) = Ok s \<longleftrightarrow>
      (\<exists>a b. snapshots st = a @ s # b \<and> timestamp_ms s \<le> ts \<and>
         (\<forall>x \<in> set a. timestamp_ms x \<le> ts \<longrightarrow> timestamp_ms x \<le> timestamp_ms s) \<and>
         (\<forall>x \<in> set b. timestamp_ms x \<le> ts \<longrightarrow> timestamp_ms x < timestamp_ms s))"
    (is "_ = ?R")
  proof
    assume "resolve_snapshot st (ByTimestamp ts) = Ok s"
    then obtain a b where ab: "filter ?P (snapshots st) = a @ s # b"
      "\<forall>x \<in> set a. timestamp_ms x \<le> timestamp_ms s" "\<forall>x \<in> set b. timestamp_ms x < timestamp_ms s"
      using * by blast
    from filter_eq_split [OF ab(1)] obtain a' b' where "snapshots st = a' @ s # b'" "?P s"
      and f: "filter ?P a' = a" "filter ?P b' = b" by blast
    moreover have "\<forall>x \<in> set a'. ?P x \<longrightarrow> timestamp_ms x \<le> timestamp_ms s"
      using ab(2) unfolding f(1) [symmetric] by simp
    moreover have "\<forall>x \<in> set b'. ?P x \<longrightarrow> timestamp_ms x < timestamp_ms s"
      using ab(3) unfolding f(2) [symmetric] by simp
    ultimately show ?R by blast
  next
    assume ?R
    then obtain a b where ab: "snapshots st = a @ s # b" "?P s"
      "\<forall>x \<in> set a. ?P x \<longrightarrow> timestamp_ms x \<le> timestamp_ms s"
      "\<forall>x \<in> set b. ?P x \<longrightarrow> timestamp_ms x < timestamp_ms s" by blast
    then show "resolve_snapshot st (ByTimestamp ts) = Ok s"
      unfolding * by (intro exI [of _ "filter ?P a"] exI [of _ "filter ?P b"]) simp
  qed
  have "is_ok (resolve_snapshot st (ByTimestamp ts)) \<longleftrightarrow> filter ?P (snapshots st) \<noteq> []"
    using max_by_key_None [of timestamp_ms "filter ?P (snapshots st)"]
    by (cases "max_by_key timestamp_ms (filter ?P (snapshots st))") simp_all
  then show "is_ok (resolve_snapshot st (ByTimestamp ts)) \<longleftrightarrow> (\<exists>x \<in> set (snapshots st). ?P x)"
    by (simp add: filter_empty_conv)
qed

section \<open>Facts about the walk\<close>

text \<open>Every parent id is smaller than the id of its snapshot.\<close>

definition parents_older :: "snapshot_info list \<Rightarrow> bool" where
  "parents_older snaps \<longleftrightarrow>
     list_all (\<lambda>s. case parent_snapshot_id s of None \<Rightarrow> True | Some p \<Rightarrow> p < snapshot_id s) snaps"

lemma find_snapshot_Some [dest]:
  "find_snapshot i snaps = Some s \<Longrightarrow> s \<in> set snaps \<and> snapshot_id s = i"
  by (auto simp: find_snapshot_def find_Some_iff)

lemma walk_files_total:
  assumes "parents_older snaps"
  shows "\<exists>fs. walk_files snaps cur = Some fs"
proof (induction "case cur of None \<Rightarrow> 0 | Some i \<Rightarrow>
      Suc (card {j \<in> set (map snapshot_id snaps). j < i})" arbitrary: cur rule: less_induct)
  case less
  show ?case
  proof (cases cur)
    case None
    then show ?thesis by (subst walk_files.simps) simp
  next
    case (Some i)
    show ?thesis
    proof (cases "find_snapshot i snaps")
      case None
      with Some show ?thesis by (subst walk_files.simps) simp
    next
      case s: (Some s)
      have "\<exists>fs. walk_files snaps (parent_snapshot_id s) = Some fs"
      proof (cases "parent_snapshot_id s")
        case None
        then show ?thesis by (subst walk_files.simps) simp
      next
        case p: (Some p)
        with assms s have "p < i" by (auto simp: parents_older_def list_all_iff dest!: find_snapshot_Some)
        show ?thesis
        proof (cases "find_snapshot p snaps")
          case None
          with p show ?thesis by (subst walk_files.simps) simp
        next
          case (Some sp)
          then have "p \<in> set (map snapshot_id snaps)" by auto
          with \<open>p < i\<close> have "{j \<in> set (map snapshot_id snaps). j < p} \<subset> {j \<in> set (map snapshot_id snaps). j < i}"
            by auto
          then have "card {j \<in> set (map snapshot_id snaps). j < p} < card {j \<in> set (map snapshot_id snaps). j < i}"
            by (intro psubset_card_mono) auto
          then show ?thesis using p \<open>cur = Some i\<close> by (intro less) simp
        qed
      qed
      with Some s show ?thesis by (subst walk_files.simps) auto
    qed
  qed
qed

lemma walk_files_diverges:
  assumes "find_snapshot i snaps = Some s" and "parent_snapshot_id s = Some i"
  shows "walk_files snaps (Some i) = None"
proof -
  have "snaps' = snaps \<longrightarrow> c = Some i \<longrightarrow> False" if "walk_files snaps' c = Some fs" for snaps' c fs
  proof (rule walk_files.raw_induct [OF _ that], goal_cases)
    case (1 walk sn c' fs')
    then show ?case using assms by (fastforce split: option.splits bind_splits)
  qed
  then show ?thesis by (cases "walk_files snaps (Some i)") auto
qed

text \<open>Collecting the files of a snapshot ends whenever every parent id is smaller than the id of
  its snapshot, and never ends on a snapshot that is its own parent, which is what an append with
  the clock still at the id of the current snapshot writes.\<close>

theorem snapshot_walk_ends:
  "(parents_older (snapshots st) \<longrightarrow> get_data_files_for_snapshot st sid \<noteq> None) \<and>
   ((\<exists>s. find_snapshot sid (snapshots st) = Some s \<and> parent_snapshot_id s = Some sid) \<longrightarrow>
      get_data_files_for_snapshot st sid = None)"
  using walk_files_total walk_files_diverges by (fastforce simp: get_data_files_for_snapshot_def)

definition snap_at :: "int \<Rightarrow> int option \<Rightarrow> data_file_info list \<Rightarrow> snapshot_info" where
  "snap_at i p files =
     \<lparr>snapshot_id = i, parent_snapshot_id = p, timestamp_ms = i, operation = ''append'',
      summary = Map.empty, manifest_list_path = [], data_files = files\<rparr>"

definition state_with :: "snapshot_info list \<Rightarrow> table_state" where
  "state_with snaps =
     \<lparr>metadata = JNull, table_uuid = [], location = [], snapshots = snaps, schemas = [],
      partition_specs = [], current_snapshot_id = None, current_schema_id = 0,
      metadata_version = 1\<rparr>"

lemma time_travel_is_latest_before_witness:
  "resolve_snapshot (state_with [snap_at 5 None [], snap_at 9 (Some 5) []]) (ByTimestamp 7) =
     Ok (snap_at 5 None [])"
  by (subst time_travel_is_latest_before [THEN conjunct1], rule exI [of _ "[]"])
     (simp add: state_with_def snap_at_def)

lemma snapshot_walk_ends_witness:
  "get_data_files_for_snapshot (state_with [snap_at 5 None [], snap_at 9 (Some 5) []]) 9 \<noteq> None \<and>
   get_data_files_for_snapshot (state_with [snap_at 5 (Some 5) []]) 5 = None"
  using snapshot_walk_ends [of "state_with [snap_at 5 None [], snap_at 9 (Some 5) []]" 9]
    snapshot_walk_ends [of "state_with [snap_at 5 (Some 5) []]" 5]
  by (simp add: state_with_def snap_at_def parents_older_def find_snapshot_def)

section \<open>Facts about schema evolution\<close>

definition ids_ok :: "iceberg_field list \<Rightarrow> int \<Rightarrow> bool" where
  "ids_ok fs max_id \<longleftrightarrow> distinct (map field_id fs) \<and> list_all (\<lambda>f. field_id f \<le> max_id) fs"

fun is_add :: "schema_change \<Rightarrow> bool" where
  "is_add (AddColumn _ _ _) = True"
| "is_add _ = False"

lemma rename_first_Some:
  "rename_first old new fs = Some fs' \<Longrightarrow>
     \<exists>a f b. fs = a @ f # b \<and> name f = old \<and> (\<forall>x \<in> set a. name x \<noteq> old) \<and>
        fs' = a @ f\<lparr>name := new\<rparr> # b"
proof (induction fs arbitrary: fs')
  case Nil
  then show ?case by simp
next
  case (Cons g fs)
  show ?case
  proof (cases "name g = old")
    case True
    with Cons.prems have "fs' = g\<lparr>name := new\<rparr> # fs" by simp
    with True show ?thesis by (intro exI [of _ "[]"] exI [of _ g] exI [of _ fs]) simp
  next
    case False
    with Cons.prems obtain t where t: "rename_first old new fs = Some t" "fs' = g # t" by auto
    from Cons.IH [OF t(1)] obtain a f b where "fs = a @ f # b" "name f = old"
      "\<forall>x \<in> set a. name x \<noteq> old" "t = a @ f\<lparr>name := new\<rparr> # b" by blast
    with t(2) False show ?thesis by (intro exI [of _ "g # a"] exI [of _ f] exI [of _ b]) simp
  qed
qed

lemma rename_first_ids: "rename_first old new fs = Some fs' \<Longrightarrow> map field_id fs' = map field_id fs"
  by (auto dest!: rename_first_Some)

lemma apply_change_ids:
  assumes "apply_change c (fs, m) = Ok (fs', m')" and "ids_ok fs m"
    and "is_add c \<longrightarrow> fits_i32 (m + 1)"
  shows "ids_ok fs' m' \<and> m \<le> m' \<and> m' \<le> m + (if is_add c then 1 else 0) \<and>
    (\<forall>f \<in> set fs'. field_id f \<le> m \<longrightarrow> (\<exists>g \<in> set fs. field_id g = field_id f \<and> type_str g = type_str f))"
proof (cases c)
  case (AddColumn n ty nullable)
  with assms have "fs' = fs @ [\<lparr>field_id = m + 1, name = n, required = \<not> nullable, type_str = ty\<rparr>]"
    and "m' = m + 1" by (auto simp: wrap_i32_id Let_def split: if_splits)
  with assms AddColumn show ?thesis by (force simp: ids_ok_def list_all_iff)
next
  case (DropColumn n)
  with assms have "fs' = filter (\<lambda>f. name f \<noteq> n) fs" "m' = m" by (auto simp: Let_def split: if_splits)
  with assms DropColumn show ?thesis by (auto simp: ids_ok_def list_all_iff distinct_map_filter)
next
  case (RenameColumn old new)
  with assms obtain t where r: "rename_first old new fs = Some fs'" and m: "m' = m"
    by (auto split: option.splits)
  from rename_first_ids [OF r] have i: "map field_id fs' = map field_id fs" .
  then have "field_id ` set fs' = field_id ` set fs" by (metis set_map)
  then have "list_all (\<lambda>f. field_id f \<le> m) fs'"
    using assms(2) unfolding ids_ok_def list_all_iff by (metis image_iff)
  moreover have "\<forall>f \<in> set fs'. \<exists>g \<in> set fs. field_id g = field_id f \<and> type_str g = type_str f"
    using rename_first_Some [OF r] by fastforce
  ultimately show ?thesis using assms(2) i m RenameColumn by (auto simp: ids_ok_def)
qed

lemma apply_changes_ids:
  assumes "apply_changes cs (fs, m) = Ok (fs', m')" and "ids_ok fs m"
    and "fits_i32 m" and "fits_i32 (m + int (length (filter is_add cs)))"
  shows "ids_ok fs' m' \<and> m \<le> m' \<and> m' \<le> m + int (length (filter is_add cs)) \<and>
    (\<forall>f \<in> set fs'. field_id f \<le> m \<longrightarrow> (\<exists>g \<in> set fs. field_id g = field_id f \<and> type_str g = type_str f))"
  using assms
proof (induction cs arbitrary: fs m)
  case Nil
  then show ?case by auto
next
  case (Cons c cs)
  then obtain fs1 m1 where 1: "apply_change c (fs, m) = Ok (fs1, m1)"
    and 2: "apply_changes cs (fs1, m1) = Ok (fs', m')" by auto
  have a: "ids_ok fs1 m1 \<and> m \<le> m1 \<and> m1 \<le> m + (if is_add c then 1 else 0) \<and>
    (\<forall>f \<in> set fs1. field_id f \<le> m \<longrightarrow> (\<exists>g \<in> set fs. field_id g = field_id f \<and> type_str g = type_str f))"
    using Cons.prems by (intro apply_change_ids [OF 1]) (auto simp: fits_i32_def)
  have b: "ids_ok fs' m' \<and> m1 \<le> m' \<and> m' \<le> m1 + int (length (filter is_add cs)) \<and>
    (\<forall>f \<in> set fs'. field_id f \<le> m1 \<longrightarrow> (\<exists>g \<in> set fs1. field_id g = field_id f \<and> type_str g = type_str f))"
    using Cons.prems a by (intro Cons.IH [OF 2]) (auto simp: fits_i32_def split: if_splits)
  have "m' \<le> m + int (length (filter is_add (c # cs)))"
    using a b by (auto split: if_splits)
  with a b show ?case by (smt (verit, ccfv_threshold))
qed

lemma list_max_ge: "x \<in> set xs \<Longrightarrow> x \<le> unwrap_or 0 (list_max xs)"
  by (auto simp: list_max_def)

section \<open>Facts about writing and reading back\<close>

text \<open>
  What the code relies on from the store and from \<open>serde_json\<close>: a stored text is what the next
  read of that path returns, other paths keep their text whether or not the write succeeds (paths
  with the same segments are the same path), and a printed document parses back to itself.
\<close>

definition path_segments :: "string \<Rightarrow> string list" where
  "path_segments p = filter (\<lambda>s. s \<noteq> []) (split_char (CHR ''/'') p)"

definition env_ok :: "'s env \<Rightarrow> bool" where
  "env_ok E \<longleftrightarrow>
     (\<forall>s p t r s'. store_put E s p t = (r, s') \<longrightarrow>
        (r = Inr () \<longrightarrow> store_get E s' p = Inr (Inr t)) \<and>
        (\<forall>q. path_segments q \<noteq> path_segments p \<longrightarrow> store_get E s' q = store_get E s q)) \<and>
     (\<forall>j t. json_print E j = Inr t \<longrightarrow> json_parse E t = Inr j)"

lemma digits_no_char: "(of_char c :: nat) < 48 \<or> 57 < (of_char c :: nat) \<Longrightarrow> c \<notin> set (show_nat n)"
proof (induction n rule: show_nat.induct)
  case (1 n)
  have d: "digit_char k \<noteq> c" if "k < 10" for k
    using 1(2) of_char_digit_char [OF that] that by auto
  show ?case
  proof (cases "n < 10")
    case True
    then show ?thesis using d [of n] by (subst show_nat.simps) auto
  next
    case False
    then show ?thesis using 1 d [of "n mod 10"] by (subst show_nat.simps) auto
  qed
qed

lemma last_split_char: "last (split_char c (a @ c # b)) = last (split_char c b)"
proof (induction a)
  case Nil
  then show ?case by simp
next
  case (Cons x a)
  obtain y ys where yz: "split_char c (a @ c # b) = y # ys" by (cases "split_char c (a @ c # b)") auto
  have "length (split_char c (a @ c # b)) \<ge> 2" by (simp add: length_split_char)
  with yz have "ys \<noteq> []" by auto
  with yz Cons show ?case by auto
qed

lemma metadata_path_version:
  assumes "0 \<le> v" and "fits_i32 v"
  shows "metadata_file_version (path_file_name (metadata_path pfx v)) = Some v"
proof -
  let ?f = "''v'' @ show_int v @ ''.metadata.json''"
  have "metadata_path pfx v = (pfx @ ''/metadata'') @ CHR ''/'' # ?f"
    by (simp add: metadata_path_def)
  moreover have "CHR ''/'' \<notin> set ?f"
    using assms digits_no_char [of "CHR ''/''" "nat v"] by (simp add: show_int_def)
  then have s: "split_char (CHR ''/'') ?f = [?f]" by (rule split_char_no_sep)
  ultimately have "path_file_name (metadata_path pfx v) = ?f"
    by (simp only: path_file_name_def last_split_char s last.simps simp_thms if_True)
  then show ?thesis
    using strip_prefix_append [of "''v''"] assms
    by (simp add: metadata_file_version_def parse_i32_show del: append_Cons)
qed

lemma put_json_load:
  assumes "env_ok E" and "put_json E jm pm path j s = (Ok (), s')"
  shows "load_table_state E s' path = Ok (state_of_metadata j path)"
proof -
  from assms(2) obtain t where t: "json_print E j = Inr t" "store_put E s path t = (Inr (), s')"
    by (auto simp: put_json_def split: sum.splits prod.splits)
  with assms(1) have "store_get E s' path = Inr (Inr t)" "json_parse E t = Inr j"
    by (auto simp: env_ok_def)
  then show ?thesis by (simp add: load_table_state_def)
qed

lemma put_json_Panic [simp]: "put_json E jm pm path j s \<noteq> (Panic, s')"
  by (auto simp: put_json_def split: sum.splits prod.splits)

lemma write_version_load:
  assumes "env_ok E" and "write_version E st m s = (Ok path, s')"
  shows "load_table_state E s' path = Ok (state_of_metadata m path) \<and>
    path = metadata_path (strip_s3_prefix (location st)) (wrap_i32 (metadata_version st + 1))"
proof -
  let ?path = "metadata_path (strip_s3_prefix (location st)) (wrap_i32 (metadata_version st + 1))"
  obtain r s1 where r: "put_json E ''Metadata JSON: '' ''S3 PUT metadata: '' ?path m s = (r, s1)"
    by fastforce
  with assms(2) have "r = Ok () \<and> path = ?path \<and> s1 = s'"
    unfolding write_version_def Let_def r by (cases r) simp_all
  with r put_json_load [OF assms(1)] show ?thesis by blast
qed

lemma load_table_state_Ok:
  "load_table_state E s p = Ok st \<Longrightarrow> st = state_of_metadata (metadata st) p"
proof -
  assume "load_table_state E s p = Ok st"
  then obtain m where "st = state_of_metadata m p"
    unfolding load_table_state_def by (fastforce split: sum.splits)
  moreover have "metadata (state_of_metadata m p) = m" by (simp add: state_of_metadata_def)
  ultimately show ?thesis by simp
qed

lemma strip_s3_prefix_location:
  "CHR ''/'' \<notin> set bucket \<Longrightarrow> strip_s3_prefix (''s3://'' @ bucket @ ''/'' @ key) = key"
proof -
  assume b: "CHR ''/'' \<notin> set bucket"
  have "find_str (bucket @ ''/'' @ key) ''/'' = Some (length bucket)"
    using b by (induction bucket) auto
  then show ?thesis by (simp only: strip_s3_prefix_def strip_prefix_append option.case) simp
qed

section \<open>Facts about the documents that are written\<close>

lemma jget_jpush_other: "k \<noteq> k' \<Longrightarrow> jget k (jpush k' x j) = jget k j"
  by (simp add: jpush_def jget_jarray_mut)

lemma get_array_jpush: "get_array k (jpush k x j) = map_option (\<lambda>xs. xs @ [x]) (get_array k j)"
  by (simp add: jpush_def get_array_jarray_mut)

lemma set_main_ref_get: "set_main_ref i m = Ok m' \<Longrightarrow> k \<noteq> ''refs'' \<Longrightarrow> jget k m' = jget k m"
  by (auto simp: set_main_ref_def split: option.splits json.splits dest: jset_get [where k' = k])

lemma add_schema_get:
  assumes "add_schema_if_changed st schema m = Ok m'"
    and "k \<notin> {''schemas'', ''current-schema-id'', ''last-column-id''}"
  shows "jget k m' = jget k m"
  using assms
  by (auto simp: add_schema_if_changed_def Let_def jget_jpush_other split: if_splits
      dest!: jset_get [where k' = k])

lemma appended_metadata_get:
  assumes "appended_metadata st now op files schema = Ok m"
  shows "get_array ''snapshots'' m =
      map_option (\<lambda>xs. xs @ [new_snapshot_json st now op files]) (get_array ''snapshots'' (metadata st))"
    and "jget ''current-snapshot-id'' m = Some (JInt now)"
    and "jget ''location'' m = jget ''location'' (metadata st)"
    and "jget ''table-uuid'' m = jget ''table-uuid'' (metadata st)"
    and "jget ''partition-specs'' m = jget ''partition-specs'' (metadata st)"
proof -
  let ?m1 = "jpush ''snapshots'' (new_snapshot_json st now op files) (metadata st)"
  let ?m3 = "jpush ''metadata-log'' (metadata_log_entry st now) (jpush ''snapshot-log''
                 (jobj [(''timestamp-ms'', JInt now), (''snapshot-id'', JInt now)]) ?m1)"
  from assms obtain m4 m5 m6 m7 where m: "jset ''current-snapshot-id'' (JInt now) ?m3 = Ok m4"
    "jset ''last-updated-ms'' (JInt now) m4 = Ok m5"
    "jset ''last-sequence-number'' (JInt (int (length (snapshots st)) + int (length files))) m5 = Ok m6"
    "set_main_ref now m6 = Ok m7" "add_schema_if_changed st schema m7 = Ok m"
    by (auto simp: appended_metadata_def Let_def)
  have g: "jget k m = (if k = ''current-snapshot-id'' then Some (JInt now) else jget k ?m3)"
    if "k \<notin> {''schemas'', ''current-schema-id'', ''last-column-id'', ''refs'', ''last-updated-ms'',
      ''last-sequence-number''}" for k
    using that add_schema_get [OF m(5), of k] set_main_ref_get [OF m(4), of k] jset_get [OF m(3), of k]
      jset_get [OF m(2), of k] jset_get [OF m(1), of k] by simp
  have g3: "jget k ?m3 = jget k ?m1" if "k \<notin> {''snapshot-log'', ''metadata-log''}" for k
    using that by (simp add: jget_jpush_other)
  have "jget ''snapshots'' m = jget ''snapshots'' ?m1" by (simp add: g g3)
  then show "get_array ''snapshots'' m =
      map_option (\<lambda>xs. xs @ [new_snapshot_json st now op files]) (get_array ''snapshots'' (metadata st))"
    using get_array_jpush [of "''snapshots''" "new_snapshot_json st now op files" "metadata st"]
    by (simp add: get_array_def)
  show "jget ''current-snapshot-id'' m = Some (JInt now)" by (simp add: g)
  show "jget ''location'' m = jget ''location'' (metadata st)"
    "jget ''table-uuid'' m = jget ''table-uuid'' (metadata st)"
    "jget ''partition-specs'' m = jget ''partition-specs'' (metadata st)"
    by (simp_all add: g g3 jget_jpush_other)
qed

section \<open>Facts about what is read back\<close>

lemma get_opt_i64_fits: "get_i64 k m = Some i \<Longrightarrow> fits_i64 i"
proof -
  assume "get_i64 k m = Some i"
  then obtain v where "as_i64 v = Some i" by (auto simp: get_i64_def split: bind_splits)
  then show ?thesis by (cases v) (auto split: if_splits)
qed

lemma state_of_metadata_sel [simp]:
  "metadata (state_of_metadata m p) = m"
  "table_uuid (state_of_metadata m p) = unwrap_or [] (get_str ''table-uuid'' m)"
  "location (state_of_metadata m p) = unwrap_or [] (get_str ''location'' m)"
  "snapshots (state_of_metadata m p) = parse_snapshots m"
  "schemas (state_of_metadata m p) = parse_schemas m"
  "partition_specs (state_of_metadata m p) = parse_partition_specs m"
  "current_snapshot_id (state_of_metadata m p) = get_i64 ''current-snapshot-id'' m"
  "current_schema_id (state_of_metadata m p) =
     wrap_i32 (unwrap_or 0 (get_i64 ''current-schema-id'' m))"
  "metadata_version (state_of_metadata m p) =
     unwrap_or 1 (metadata_file_version (path_file_name p))"
  by (simp_all add: state_of_metadata_def)

text \<open>The totals a summary records.\<close>

definition summary_total :: "string \<Rightarrow> snapshot_info \<Rightarrow> u64" where
  "summary_total key s = unwrap_or 0 (Option.bind (summary s key) parse_u64)"

definition new_snapshot :: "table_state \<Rightarrow> int \<Rightarrow> string \<Rightarrow> data_file_info list \<Rightarrow> snapshot_info" where
  "new_snapshot st now op files = parse_snapshot (new_snapshot_json st now op files)"

lemma new_snapshot_sel:
  assumes "fits_i64 now" and "\<And>i. current_snapshot_id st = Some i \<Longrightarrow> fits_i64 i"
  shows "snapshot_id (new_snapshot st now op files) = now"
    and "parent_snapshot_id (new_snapshot st now op files) = current_snapshot_id st"
    and "timestamp_ms (new_snapshot st now op files) = now"
    and "operation (new_snapshot st now op files) = op"
    and "data_files (new_snapshot st now op files) = []"
    and "manifest_list_path (new_snapshot st now op files) = manifest_list_file (location st) now"
  using assms
  by (auto simp: new_snapshot_def parse_snapshot_def new_snapshot_json_def summary_json_def
      get_i64_def get_str_def Let_def jobj_def fmlookup_of_list split: option.splits)

lemma new_snapshot_totals:
  "summary_total ''total-records'' (new_snapshot st now op files) =
     prev_total ''total-records'' st + total_records files"
  "summary_total ''total-data-files'' (new_snapshot st now op files) =
     prev_total ''total-data-files'' st + of_nat (length files)"
  "summary_total ''total-files-size'' (new_snapshot st now op files) =
     prev_total ''total-files-size'' st + total_size files"
  by (simp_all add: summary_total_def new_snapshot_def parse_snapshot_def new_snapshot_json_def
      summary_json_def Let_def jobj_def fmlookup_of_list show_u64_def parse_u64_show_word)

lemma prev_total_eq:
  "prev_total key st =
     (case current_snapshot_id st of None \<Rightarrow> 0
      | Some i \<Rightarrow> (case find_snapshot i (snapshots st) of None \<Rightarrow> 0 | Some s \<Rightarrow> summary_total key s))"
  by (auto simp: prev_total_def summary_total_def find_snapshot_def split: option.splits)

lemma parse_snapshots_append:
  "get_array ''snapshots'' m' = map_option (\<lambda>xs. xs @ [j]) (get_array ''snapshots'' m) \<Longrightarrow>
   get_array ''snapshots'' m \<noteq> None \<Longrightarrow> parse_snapshots m' = parse_snapshots m @ [parse_snapshot j]"
  by (auto simp: parse_snapshots_def)

lemma find_snapshot_append:
  "find_snapshot i xs = None \<Longrightarrow> find_snapshot i (xs @ [n]) = (if snapshot_id n = i then Some n else None)"
  by (induction xs) (auto simp: find_snapshot_def split: if_splits)

lemma append_snapshot_Ok:
  assumes "append_snapshot E now st files schema op s = (Ok path, s')"
  shows "\<exists>m s1. files \<noteq> [] \<and> appended_metadata st now op files schema = Ok m \<and>
    write_version E st m s1 = (Ok path, s')"
proof -
  let ?put = "put_json E ''Manifest JSON: '' ''S3 PUT manifest: ''
     (manifest_list_file (strip_s3_prefix (location st)) now)
     (manifest_list_json (location st) now files) s"
  obtain r s1 where r: "?put = (r, s1)" by fastforce
  from assms have "files \<noteq> []" by (auto simp: append_snapshot_def)
  moreover obtain m where "appended_metadata st now op files schema = Ok m"
      "write_version E st m s1 = (Ok path, s')"
    using assms \<open>files \<noteq> []\<close> unfolding append_snapshot_def Let_def r
    by (cases r; cases "appended_metadata st now op files schema") simp_all
  ultimately show ?thesis by blast
qed

text \<open>C5. An append that succeeds on a loaded table adds one snapshot and keeps the others: what is
  loaded back has the new snapshot last, with the old current snapshot as its parent, is one version
  further, and keeps the table's identity. If the clock's reading is not the id of an old snapshot,
  the new snapshot is the one that \<open>Latest\<close> resolves to, and its running totals are those of
  the old current snapshot plus what was added (in 64-bit arithmetic).\<close>

theorem append_extends_history:
  assumes "env_ok E" and "load_table_state E s0 p0 = Ok st"
    and "get_array ''snapshots'' (metadata st) \<noteq> None"
    and "fits_i64 now" and "0 \<le> metadata_version st" and "fits_i32 (metadata_version st + 1)"
    and "append_snapshot E now st files schema op s = (Ok path, s')"
  shows "\<exists>st' n. load_table_state E s' path = Ok st' \<and>
     snapshots st' = snapshots st @ [n] \<and> snapshot_id n = now \<and> timestamp_ms n = now \<and>
     parent_snapshot_id n = current_snapshot_id st \<and> operation n = op \<and>
     current_snapshot_id st' = Some now \<and> metadata_version st' = metadata_version st + 1 \<and>
     location st' = location st \<and> table_uuid st' = table_uuid st \<and>
     (find_snapshot now (snapshots st) = None \<longrightarrow>
        resolve_snapshot st' Latest = Ok n \<and>
        prev_total ''total-records'' st' = prev_total ''total-records'' st + total_records files \<and>
        prev_total ''total-data-files'' st' =
          prev_total ''total-data-files'' st + of_nat (length files) \<and>
        prev_total ''total-files-size'' st' = prev_total ''total-files-size'' st + total_size files)"
proof -
  from append_snapshot_Ok [OF assms(7)] obtain m s1 where m:
    "appended_metadata st now op files schema = Ok m" "write_version E st m s1 = (Ok path, s')"
    by blast
  let ?n = "new_snapshot st now op files" and ?st' = "state_of_metadata m path"
  have st: "st = state_of_metadata (metadata st) p0" using assms(2) by (rule load_table_state_Ok)
  have load: "load_table_state E s' path = Ok ?st'"
    and path: "path = metadata_path (strip_s3_prefix (location st)) (metadata_version st + 1)"
    using write_version_load [OF assms(1) m(2)] unfolding wrap_i32_id [OF assms(6)] by blast+
  note get = appended_metadata_get [OF m(1)]
  have "current_snapshot_id st = get_i64 ''current-snapshot-id'' (metadata st)"
    using arg_cong [OF st, of current_snapshot_id] by simp
  then have "\<And>i. current_snapshot_id st = Some i \<Longrightarrow> fits_i64 i" by (simp add: get_opt_i64_fits)
  note n = new_snapshot_sel [OF assms(4) this]
  have snaps: "snapshots ?st' = snapshots st @ [?n]"
    using parse_snapshots_append [OF get(1) assms(3)] arg_cong [OF st, of snapshots]
    by (simp add: new_snapshot_def)
  have cur: "current_snapshot_id ?st' = Some now" using get(2) assms(4) by (simp add: get_i64_def)
  have "location ?st' = location st" "table_uuid ?st' = table_uuid st"
    using get(3,4) arg_cong [OF st, of location] arg_cong [OF st, of table_uuid]
    by (simp_all add: get_str_def)
  moreover have "metadata_version ?st' = metadata_version st + 1"
    using metadata_path_version [of "metadata_version st + 1"] assms(5,6) path by simp
  moreover have find: "find_snapshot now (snapshots ?st') = Some ?n"
    if "find_snapshot now (snapshots st) = None"
    using find_snapshot_append [OF that, of ?n] n(1) unfolding snaps by simp
  moreover from find have "resolve_snapshot ?st' Latest = Ok ?n"
    if "find_snapshot now (snapshots st) = None" using that cur by simp
  moreover have "prev_total k ?st' = summary_total k ?n"
    if "find_snapshot now (snapshots st) = None" for k
    using find [OF that] cur by (simp add: prev_total_eq del: state_of_metadata_sel)
  ultimately show ?thesis
    using load snaps cur n new_snapshot_totals by (intro exI [of _ ?st'] exI [of _ ?n]) simp
qed

text \<open>
  An in-memory store with a fixed set of printable documents: the instance of the environment at
  which the theorems about it are applied.
\<close>

definition docs_print :: "(string \<times> json) list \<Rightarrow> json \<Rightarrow> string + string" where
  "docs_print docs j =
     (case find (\<lambda>(t, d). d = j) docs of Some (t, d) \<Rightarrow> Inr t | None \<Rightarrow> Inl ''not printable'')"

definition docs_parse :: "(string \<times> json) list \<Rightarrow> string \<Rightarrow> string + json" where
  "docs_parse docs t = (case map_of docs t of Some d \<Rightarrow> Inr d | None \<Rightarrow> Inl ''not a document'')"

definition mem_env :: "(string \<times> json) list \<Rightarrow> (string \<times> string) list env" where
  "mem_env docs =
     \<lparr>store_get = \<lambda>s p. (case map_of s p of Some t \<Rightarrow> Inr (Inr t) | None \<Rightarrow> Inl ''not found''),
      store_put = \<lambda>s p t. (Inr (), (p, t) # filter (\<lambda>e. fst e \<noteq> p) s),
      store_list = \<lambda>s p. Inr (map (\<lambda>(q, t). (q, length t)) (filter (\<lambda>e. starts_with (fst e) p) s)),
      store_delete = \<lambda>s p. (True, filter (\<lambda>e. fst e \<noteq> p) s),
      json_print = docs_print docs,
      json_parse = docs_parse docs\<rparr>"

lemma docs_print_parse:
  "distinct (map fst docs) \<Longrightarrow> docs_print docs j = Inr t \<Longrightarrow> docs_parse docs t = Inr j"
  by (auto simp: docs_print_def docs_parse_def find_Some_iff split: option.splits)
     (metis map_of_eq_Some_iff nth_mem option.inject option.distinct(1))+

lemma map_of_filter_fst: "q \<noteq> p \<Longrightarrow> map_of (filter (\<lambda>e. fst e \<noteq> p) s) q = map_of s q"
  by (induction s) auto

lemma mem_env_ok: "distinct (map fst docs) \<Longrightarrow> env_ok (mem_env docs)"
proof -
  assume d: "distinct (map fst docs)"
  have "q \<noteq> p" if "path_segments q \<noteq> path_segments p" for p q using that by auto
  then show ?thesis using docs_print_parse [OF d]
    by (auto simp: env_ok_def mem_env_def map_of_filter_fst)
qed

definition demo_metadata :: json where
  "demo_metadata = jobj
     [(''location'', JStr ''s3://b/t''),
      (''snapshots'', JArr [jobj [(''snapshot-id'', JInt 5)]]),
      (''current-snapshot-id'', JInt 5)]"

definition demo_state :: table_state where
  "demo_state = state_of_metadata demo_metadata (metadata_path ''t'' 1)"

definition demo_files :: "data_file_info list" where
  "demo_files = [\<lparr>file_path = ''f'', file_size = 10, row_count = 3\<rparr>]"

definition demo_docs :: "(string \<times> json) list" where
  "demo_docs =
     [(''0'', demo_metadata),
      (''1'', manifest_list_json (location demo_state) 9 demo_files),
      (''2'', ok_val (appended_metadata demo_state 9 ''append'' demo_files []))]"

definition demo_store :: "(string \<times> string) list" where
  "demo_store = [(metadata_path ''t'' 1, ''0'')]"

lemma demo_load: "load_table_state (mem_env demo_docs) demo_store (metadata_path ''t'' 1) = Ok demo_state"
  by (simp add: load_table_state_def mem_env_def demo_store_def docs_parse_def demo_docs_def demo_state_def)

lemma demo_state_sel:
  "location demo_state = ''s3://b/t''" "metadata demo_state = demo_metadata"
  "metadata_version demo_state = 1" "current_snapshot_id demo_state = Some 5"
  "current_schema_id demo_state = 0" "schemas demo_state = []" "snapshots demo_state = [parse_snapshot (jobj [(''snapshot-id'', JInt 5)])]"
  by (simp_all add: demo_state_def demo_metadata_def get_str_def get_i64_def fits_i64_def
      metadata_path_version fits_i32_def wrap_i32_def parse_schemas_def parse_snapshots_def get_array_def)

lemma json_neq: "jget k a \<noteq> jget k b \<Longrightarrow> a \<noteq> b"
  by auto

lemma demo_appended:
  "\<exists>m. appended_metadata demo_state 9 ''append'' demo_files [] = Ok m \<and> jget ''manifests'' m = None \<and>
     jget ''last-updated-ms'' m = Some (JInt 9)"
  by (simp add: appended_metadata_def demo_state_sel demo_metadata_def jpush_def jarray_mut_def
      add_schema_if_changed_def arrow_fields_json_def jobj_def fmlookup_of_list set_main_ref_def)

lemma demo_append:
  "append_snapshot (mem_env demo_docs) 9 demo_state demo_files [] ''append'' demo_store =
     (Ok (metadata_path ''t'' 2),
      [(metadata_path ''t'' 2, ''2''), (manifest_list_file ''t'' 9, ''1''), (metadata_path ''t'' 1, ''0'')])"
proof -
  from demo_appended obtain m where m: "appended_metadata demo_state 9 ''append'' demo_files [] = Ok m"
    "jget ''manifests'' m = None" "jget ''last-updated-ms'' m = Some (JInt 9)" by blast
  let ?ml = "manifest_list_json (location demo_state) 9 demo_files"
  have pfx: "strip_s3_prefix ''s3://b/t'' = ''t''"
    using strip_s3_prefix_location [of "''b''" "''t''"] by simp
  have "demo_metadata \<noteq> ?ml"
    by (rule json_neq [of "''manifests''"]) (simp add: demo_metadata_def manifest_list_json_def)
  moreover have "demo_metadata \<noteq> m"
    by (rule json_neq [of "''last-updated-ms''"]) (simp add: demo_metadata_def m(3))
  moreover have "?ml \<noteq> m"
    by (rule json_neq [of "''manifests''"]) (simp add: manifest_list_json_def m(2))
  moreover have "metadata_path ''t'' 1 \<noteq> metadata_path ''t'' 2"
    using metadata_path_version [of 1 "''t''"] metadata_path_version [of 2 "''t''"]
    by (auto simp: fits_i32_def)
  moreover have "metadata_path ''t'' v \<noteq> manifest_list_file ''t'' 9 \<and>
      manifest_list_file ''t'' 9 \<noteq> metadata_path ''t'' v" for v
    by (simp add: metadata_path_def manifest_list_file_def)
  moreover have "demo_files \<noteq> []" by (simp add: demo_files_def)
  ultimately show ?thesis
    using m(1) pfx by (simp add: append_snapshot_def write_version_def put_json_def mem_env_def docs_print_def
        demo_docs_def demo_state_sel(1,3) demo_store_def wrap_i32_def Let_def)
qed

lemma append_extends_history_witness:
  "\<exists>st'. load_table_state (mem_env demo_docs)
       [(metadata_path ''t'' 2, ''2''), (manifest_list_file ''t'' 9, ''1''), (metadata_path ''t'' 1, ''0'')]
       (metadata_path ''t'' 2) = Ok st' \<and>
     current_snapshot_id st' = Some 9 \<and> length (snapshots st') = 2 \<and> metadata_version st' = 2"
  using append_extends_history [OF mem_env_ok demo_load _ _ _ _ demo_append]
  by (force simp: demo_docs_def demo_state_sel demo_metadata_def get_array_def fits_i64_def fits_i32_def)

section \<open>Schema evolution, table creation and the latest version\<close>

lemma parse_field_roundtrip: "fits_i32 (field_id f) \<Longrightarrow> parse_field (iceberg_field_json f) = f"
  by (simp add: parse_field_def iceberg_field_json_def get_i64_def get_str_def get_bool_def
      fits_i64_def fits_i32_def wrap_i32_id)

lemma parse_schema_roundtrip:
  assumes "fits_i32 sid" and "\<forall>f \<in> set fs. fits_i32 (field_id f)"
  shows "parse_schema (schema_json sid (map iceberg_field_json fs)) = \<lparr>schema_id = sid, schema_fields = fs\<rparr>"
proof -
  have "map (\<lambda>f. parse_field (iceberg_field_json f)) fs = fs"
    using assms(2) by (simp add: parse_field_roundtrip map_idI)
  moreover have "fits_i64 sid" using assms(1) by (simp add: fits_i32_def fits_i64_def)
  ultimately show ?thesis
    using assms(1) by (simp add: parse_schema_def schema_json_def get_i64_def get_array_def wrap_i32_id comp_def)
qed

lemma evolved_metadata_get:
  assumes "evolved_metadata st now fs max_id = Ok m"
  shows "get_array ''schemas'' m = map_option
      (\<lambda>xs. xs @ [schema_json (wrap_i32 (current_schema_id st + 1)) (map iceberg_field_json fs)])
      (get_array ''schemas'' (metadata st))"
    and "jget ''current-schema-id'' m = Some (JInt (wrap_i32 (current_schema_id st + 1)))"
    and "jget ''last-column-id'' m = Some (JInt max_id)"
    and "k \<notin> {''schemas'', ''current-schema-id'', ''last-column-id'', ''last-updated-ms'', ''metadata-log''} \<Longrightarrow>
      jget k m = jget k (metadata st)"
proof -
  let ?s = "schema_json (wrap_i32 (current_schema_id st + 1)) (map iceberg_field_json fs)"
  let ?m1 = "jpush ''schemas'' ?s (metadata st)"
  from assms obtain m2 m3 m4 where m:
    "jset ''current-schema-id'' (JInt (wrap_i32 (current_schema_id st + 1))) ?m1 = Ok m2"
    "jset ''last-column-id'' (JInt max_id) m2 = Ok m3" "jset ''last-updated-ms'' (JInt now) m3 = Ok m4"
    "m = jpush ''metadata-log'' (metadata_log_entry st now) m4"
    by (auto simp: evolved_metadata_def Let_def)
  have g: "k \<noteq> ''metadata-log'' \<Longrightarrow> jget k m = (if k = ''last-updated-ms'' then Some (JInt now)
      else if k = ''last-column-id'' then Some (JInt max_id)
      else if k = ''current-schema-id'' then Some (JInt (wrap_i32 (current_schema_id st + 1)))
      else jget k ?m1)" for k
    using jset_get [OF m(3), of k] jset_get [OF m(2), of k] jset_get [OF m(1), of k] m(4)
    by (simp add: jget_jpush_other)
  have "jget ''schemas'' m = jget ''schemas'' ?m1" by (simp add: g)
  then show "get_array ''schemas'' m = map_option (\<lambda>xs. xs @ [?s]) (get_array ''schemas'' (metadata st))"
    using get_array_jpush [of "''schemas''" ?s "metadata st"] by (simp add: get_array_def)
  show "jget ''current-schema-id'' m = Some (JInt (wrap_i32 (current_schema_id st + 1)))"
    "jget ''last-column-id'' m = Some (JInt max_id)" by (simp_all add: g)
  show "k \<notin> {''schemas'', ''current-schema-id'', ''last-column-id'', ''last-updated-ms'', ''metadata-log''} \<Longrightarrow>
      jget k m = jget k (metadata st)"
    by (simp add: g jget_jpush_other)
qed

lemma evolve_schema_Ok:
  assumes "evolve_schema E now st changes s = (Ok path, s')"
  shows "\<exists>sv fs max_id m. changes \<noteq> [] \<and>
    find (\<lambda>sv. schema_id sv = current_schema_id st) (schemas st) = Some sv \<and>
    apply_changes changes (schema_fields sv, unwrap_or 0 (list_max (map field_id (schema_fields sv)))) =
      Ok (fs, max_id) \<and>
    evolved_metadata st now fs max_id = Ok m \<and> write_version E st m s = (Ok path, s')"
  using assms by (auto simp: evolve_schema_def split: if_splits option.splits result.splits)

definition field_ids_fit :: "schema_version \<Rightarrow> bool" where
  "field_ids_fit sv \<longleftrightarrow> list_all (\<lambda>f. fits_i32 (field_id f)) (schema_fields sv)"

lemma parse_schemas_fit: "sv \<in> set (parse_schemas m) \<Longrightarrow> field_ids_fit sv"
  by (auto simp: parse_schemas_def parse_schema_def parse_field_def field_ids_fit_def list_all_iff)

lemma fits_between: "fits_i32 a \<Longrightarrow> fits_i32 b \<Longrightarrow> a \<le> x \<Longrightarrow> x \<le> b \<Longrightarrow> fits_i32 x"
  by (simp add: fits_i32_def)

text \<open>C7. A schema evolution that succeeds on a loaded table appends the changed schema as a new
  version and makes it current; the fields read back are exactly the result of the changes in order,
  their ids are distinct, a column that kept its id kept its type, every added column has an id above
  all ids of the old current schema, and the snapshots are as before.\<close>

theorem evolve_schema_adds_version:
  assumes "env_ok E" and "load_table_state E s0 p0 = Ok st"
    and "get_array ''schemas'' (metadata st) \<noteq> None"
    and "find (\<lambda>sv. schema_id sv = current_schema_id st) (schemas st) = Some sv"
    and "distinct (map field_id (schema_fields sv))"
    and "hi = unwrap_or 0 (list_max (map field_id (schema_fields sv)))"
    and "fits_i32 (hi + int (length (filter is_add changes)))"
    and "fits_i32 (current_schema_id st + 1)"
    and "evolve_schema E now st changes s = (Ok path, s')"
  shows "\<exists>st' new last_id. load_table_state E s' path = Ok st' \<and>
     schemas st' = schemas st @ [new] \<and> schema_id new = current_schema_id st + 1 \<and>
     current_schema_id st' = current_schema_id st + 1 \<and>
     apply_changes changes (schema_fields sv, hi) = Ok (schema_fields new, last_id) \<and>
     distinct (map field_id (schema_fields new)) \<and>
     (\<forall>f \<in> set (schema_fields new). field_id f \<le> last_id \<and>
        (hi < field_id f \<or> (\<exists>g \<in> set (schema_fields sv). field_id g = field_id f \<and> type_str g = type_str f))) \<and>
     snapshots st' = snapshots st \<and> current_snapshot_id st' = current_snapshot_id st"
proof -
  from evolve_schema_Ok [OF assms(9)] assms(4,6) obtain fs last_id m where
    ch: "apply_changes changes (schema_fields sv, hi) = Ok (fs, last_id)"
    and m: "evolved_metadata st now fs last_id = Ok m" "write_version E st m s = (Ok path, s')"
    by auto
  let ?st' = "state_of_metadata m path" and ?sid = "current_schema_id st + 1"
  have st: "st = state_of_metadata (metadata st) p0" using assms(2) by (rule load_table_state_Ok)
  have "sv \<in> set (schemas st)" using assms(4) by (auto simp: find_Some_iff)
  then have "field_ids_fit sv" using arg_cong [OF st, of schemas] by (auto intro: parse_schemas_fit)
  then have fit: "\<forall>f \<in> set (schema_fields sv). fits_i32 (field_id f)"
    by (simp add: field_ids_fit_def list_all_iff)
  have ids: "ids_ok (schema_fields sv) hi"
    using assms(5,6) by (auto simp: ids_ok_def list_all_iff intro: list_max_ge)
  have "hi = 0 \<or> hi \<in> field_id ` set (schema_fields sv)"
    unfolding assms(6) list_max_def using Max_in [of "field_id ` set (schema_fields sv)"] by auto
  then have hi: "fits_i32 hi" using fit by (auto simp: fits_i32_def)
  note ch' = apply_changes_ids [OF ch ids hi assms(7)]
  have "fits_i32 (field_id f)" if "f \<in> set fs" for f
  proof (cases "field_id f \<le> hi")
    case True
    with ch' that fit show ?thesis by metis
  next
    case False
    with ch' that have "field_id f \<le> hi + int (length (filter is_add changes))"
      by (fastforce simp: ids_ok_def list_all_iff)
    moreover have "hi \<le> field_id f" using False by simp
    ultimately show ?thesis using hi assms(7) by (metis fits_between)
  qed
  then have rt: "parse_schema (schema_json ?sid (map iceberg_field_json fs)) =
      \<lparr>schema_id = ?sid, schema_fields = fs\<rparr>" using assms(8) by (intro parse_schema_roundtrip) auto
  note get = evolved_metadata_get [OF m(1)]
  have "schemas ?st' = schemas st @ [\<lparr>schema_id = ?sid, schema_fields = fs\<rparr>]"
    using get(1) assms(3,8) rt arg_cong [OF st, of schemas]
    by (auto simp: parse_schemas_def wrap_i32_id)
  moreover have "current_schema_id ?st' = ?sid"
    using get(2) assms(8) by (simp add: get_i64_def wrap_i32_id fits_i64_def fits_i32_def)
  moreover have "snapshots ?st' = snapshots st" "current_snapshot_id ?st' = current_snapshot_id st"
    using get(4) arg_cong [OF st, of snapshots] arg_cong [OF st, of current_snapshot_id]
    by (simp_all add: parse_snapshots_def get_array_def get_i64_def)
  moreover have "load_table_state E s' path = Ok ?st'"
    using write_version_load [OF assms(1) m(2)] by blast
  moreover have "field_id f \<le> last_id \<and> (hi < field_id f \<or>
      (\<exists>g \<in> set (schema_fields sv). field_id g = field_id f \<and> type_str g = type_str f))"
    if "f \<in> set fs" for f
    using ch' that by (auto simp: ids_ok_def list_all_iff not_less)
  ultimately show ?thesis
    using ch ch' by (intro exI [of _ ?st'] exI [of _ "\<lparr>schema_id = ?sid, schema_fields = fs\<rparr>"] exI [of _ last_id])
      (simp add: ids_ok_def)
qed

definition schema_metadata :: json where
  "schema_metadata = jobj
     [(''location'', JStr ''s3://b/t''),
      (''schemas'', JArr [schema_json 0 (map iceberg_field_json
         [\<lparr>field_id = 1, name = ''a'', required = True, type_str = ''int''\<rparr>])]),
      (''current-schema-id'', JInt 0)]"

definition schema_state :: table_state where
  "schema_state = state_of_metadata schema_metadata (metadata_path ''t'' 1)"

definition evolved_fields :: "iceberg_field list" where
  "evolved_fields =
     [\<lparr>field_id = 1, name = ''x'', required = True, type_str = ''int''\<rparr>,
      \<lparr>field_id = 2, name = ''b'', required = False, type_str = ''long''\<rparr>]"

definition schema_docs :: "(string \<times> json) list" where
  "schema_docs = [(''0'', schema_metadata), (''1'', ok_val (evolved_metadata schema_state 9 evolved_fields 2))]"

definition demo_changes :: "schema_change list" where
  "demo_changes = [AddColumn ''b'' ''long'' True, RenameColumn ''a'' ''x'']"

lemma schema_load:
  "load_table_state (mem_env schema_docs) demo_store (metadata_path ''t'' 1) = Ok schema_state"
  by (simp add: load_table_state_def mem_env_def demo_store_def docs_parse_def schema_docs_def schema_state_def)

lemma schema_state_sel:
  "location schema_state = ''s3://b/t''" "metadata schema_state = schema_metadata"
  "metadata_version schema_state = 1" "current_schema_id schema_state = 0"
  "schemas schema_state =
     [\<lparr>schema_id = 0, schema_fields = [\<lparr>field_id = 1, name = ''a'', required = True, type_str = ''int''\<rparr>]\<rparr>]"
  using parse_schema_roundtrip [of 0 "[\<lparr>field_id = 1, name = ''a'', required = True, type_str = ''int''\<rparr>]"]
  by (simp_all add: schema_state_def schema_metadata_def get_str_def get_i64_def fits_i64_def
      metadata_path_version fits_i32_def wrap_i32_def parse_schemas_def get_array_def)

lemma demo_evolve:
  "evolve_schema (mem_env schema_docs) 9 schema_state demo_changes demo_store =
     (Ok (metadata_path ''t'' 2), [(metadata_path ''t'' 2, ''1''), (metadata_path ''t'' 1, ''0'')])"
proof -
  have "\<exists>m. evolved_metadata schema_state 9 evolved_fields 2 = Ok m"
    by (simp add: evolved_metadata_def schema_state_sel schema_metadata_def jpush_def jarray_mut_def
        jobj_def fmlookup_of_list Let_def)
  then obtain m where m: "evolved_metadata schema_state 9 evolved_fields 2 = Ok m" by blast
  have "schema_metadata \<noteq> m"
    by (rule json_neq [of "''last-column-id''"])
      (simp add: schema_metadata_def evolved_metadata_get(3) [OF m])
  moreover have "metadata_path ''t'' 1 \<noteq> metadata_path ''t'' 2"
    using metadata_path_version [of 1 "''t''"] metadata_path_version [of 2 "''t''"]
    by (auto simp: fits_i32_def)
  moreover have "strip_s3_prefix ''s3://b/t'' = ''t''"
    using strip_s3_prefix_location [of "''b''" "''t''"] by simp
  moreover have "apply_changes demo_changes ([\<lparr>field_id = 1, name = ''a'', required = True, type_str = ''int''\<rparr>], 1) =
      Ok (evolved_fields, 2)"
    by (simp add: demo_changes_def evolved_fields_def wrap_i32_def)
  ultimately show ?thesis
    using m by (simp add: evolve_schema_def schema_state_sel demo_changes_def [THEN arg_cong [where f = "\<lambda>c. c = []"]]
        list_max_def write_version_def Let_def put_json_def mem_env_def docs_print_def schema_docs_def demo_store_def wrap_i32_def)
qed

lemma evolve_schema_adds_version_witness:
  "\<exists>st'. load_table_state (mem_env schema_docs) [(metadata_path ''t'' 2, ''1''), (metadata_path ''t'' 1, ''0'')]
       (metadata_path ''t'' 2) = Ok st' \<and> current_schema_id st' = 1 \<and> length (schemas st') = 2"
proof -
  have "\<exists>st' new last_id. load_table_state (mem_env schema_docs)
      [(metadata_path ''t'' 2, ''1''), (metadata_path ''t'' 1, ''0'')] (metadata_path ''t'' 2) = Ok st' \<and>
     schemas st' = schemas schema_state @ [new] \<and> schema_id new = current_schema_id schema_state + 1 \<and>
     current_schema_id st' = current_schema_id schema_state + 1"
    using evolve_schema_adds_version [OF mem_env_ok schema_load _ _ _ refl _ _ demo_evolve,
        of "\<lparr>schema_id = 0, schema_fields = [\<lparr>field_id = 1, name = ''a'', required = True, type_str = ''int''\<rparr>]\<rparr>"]
    by (force simp: schema_docs_def schema_state_sel schema_metadata_def get_array_def fits_i32_def list_max_def
        demo_changes_def)
  then show ?thesis by (auto simp: schema_state_sel)
qed

text \<open>The listed files that are metadata documents, with their versions.\<close>

definition listed_versions :: "(string \<times> nat) list \<Rightarrow> (string \<times> int) list" where
  "listed_versions items = List.map_filter
     (\<lambda>(f, n). map_option (Pair f) (metadata_file_version (path_file_name f))) items"

definition keep_newer :: "string \<times> int \<Rightarrow> int \<times> string option \<Rightarrow> int \<times> string option" where
  "keep_newer fw vp = (if fst vp < snd fw then (snd fw, Some (fst fw)) else vp)"

lemma latest_of_fold: "latest_of items v p = snd (fold keep_newer (listed_versions items) (v, p))"
  by (induction items v p rule: latest_of.induct)
     (simp_all add: listed_versions_def keep_newer_def List.map_filter_def split: option.splits)

lemma fold_keep_newer:
  "fold keep_newer vs vp = vp' \<Longrightarrow>
     fst vp \<le> fst vp' \<and> (\<forall>fw \<in> set vs. snd fw \<le> fst vp') \<and>
     (vp' = vp \<or> (fst vp < fst vp' \<and> (\<exists>fw \<in> set vs. vp' = (snd fw, Some (fst fw)))))"
proof (induction vs arbitrary: vp)
  case Nil
  then show ?case by simp
next
  case (Cons fw vs)
  let ?vp1 = "keep_newer fw vp"
  have IH: "fst ?vp1 \<le> fst vp' \<and> (\<forall>fw \<in> set vs. snd fw \<le> fst vp') \<and>
     (vp' = ?vp1 \<or> (fst ?vp1 < fst vp' \<and> (\<exists>fw \<in> set vs. vp' = (snd fw, Some (fst fw)))))"
    using Cons.prems by (intro Cons.IH) simp
  show ?case
  proof (cases "fst vp < snd fw")
    case True
    then have "?vp1 = (snd fw, Some (fst fw))" by (simp add: keep_newer_def)
    with IH True show ?thesis by auto
  next
    case False
    then have "?vp1 = vp" by (simp add: keep_newer_def)
    with IH False show ?thesis by auto
  qed
qed

text \<open>The latest metadata document is found: what is returned is a listed document of the highest
  version number, and nothing is returned exactly when no listed document has a positive version.\<close>

theorem find_latest_is_highest:
  assumes "store_list E s (table_prefix @ ''/metadata/'') = Inr items"
  shows "\<exists>found. find_latest_metadata E s table_prefix = Ok found \<and>
    (found = None \<longleftrightarrow> (\<forall>(f, w) \<in> set (listed_versions items). w \<le> 0)) \<and>
    (\<forall>f. found = Some f \<longrightarrow>
       (\<exists>w. (f, w) \<in> set (listed_versions items) \<and> 0 < w \<and> (\<forall>(f', w') \<in> set (listed_versions items). w' \<le> w)))"
proof -
  obtain v p where vp: "fold keep_newer (listed_versions items) (0, None) = (v, p)" by fastforce
  have "find_latest_metadata E s table_prefix = Ok p"
    using assms vp by (simp add: find_latest_metadata_def latest_of_fold)
  moreover note fold_keep_newer [OF vp]
  ultimately show ?thesis by (intro exI [of _ p]) fastforce
qed

lemma find_latest_is_highest_witness:
  "\<exists>found. find_latest_metadata (mem_env []) demo_store ''t'' = Ok found \<and> found \<noteq> None"
proof -
  let ?items = "[(metadata_path ''t'' 1, 1)]"
  have l: "store_list (mem_env []) demo_store (''t'' @ ''/metadata/'') = Inr ?items"
    by (simp add: mem_env_def demo_store_def metadata_path_def starts_with_def)
  have v: "listed_versions ?items = [(metadata_path ''t'' 1, 1)]"
    by (simp add: listed_versions_def List.map_filter_def metadata_path_version fits_i32_def)
  from find_latest_is_highest [OF l] show ?thesis unfolding v by auto
qed

lemma path_segments_last:
  assumes "CHR ''/'' \<notin> set f" and "f \<noteq> []"
  shows "last (path_segments (d @ CHR ''/'' # f)) = f"
proof -
  have l: "last (split_char (CHR ''/'') (d @ CHR ''/'' # f)) = f"
    by (simp only: last_split_char split_char_no_sep [OF assms(1)] last.simps simp_thms if_True)
  have "split_char (CHR ''/'') (d @ CHR ''/'' # f) =
      butlast (split_char (CHR ''/'') (d @ CHR ''/'' # f)) @ [f]"
    using l by (metis append_butlast_last_id split_char_not_Nil)
  then have "path_segments (d @ CHR ''/'' # f) =
      filter (\<lambda>s. s \<noteq> []) (butlast (split_char (CHR ''/'') (d @ CHR ''/'' # f)) @ [f])"
    unfolding path_segments_def by (rule arg_cong)
  with assms(2) show ?thesis by simp
qed

lemma manifest_not_metadata:
  "path_segments (manifest_list_file d i) \<noteq> path_segments (metadata_path e 1)"
proof -
  have "CHR ''/'' \<notin> set (show_int i)"
    using digits_no_char [of "CHR ''/''"] by (simp add: show_int_def)
  then have "last (path_segments ((d @ ''/metadata'') @ CHR ''/'' # (''snap-'' @ show_int i @ ''-manifest-list.json''))) =
      ''snap-'' @ show_int i @ ''-manifest-list.json''"
    by (intro path_segments_last) auto
  moreover have "last (path_segments ((e @ ''/metadata'') @ CHR ''/'' # (''v'' @ show_int 1 @ ''.metadata.json''))) =
      ''v'' @ show_int 1 @ ''.metadata.json''"
    using digits_no_char [of "CHR ''/''"] by (intro path_segments_last) (auto simp: show_int_def)
  ultimately have "last (path_segments (manifest_list_file d i)) \<noteq> last (path_segments (metadata_path e 1))"
    by (simp add: manifest_list_file_def metadata_path_def)
  then show ?thesis by auto
qed

lemma put_json_frame:
  assumes "env_ok E" and "put_json E jm pm p j s = (Ok (), s')" and "path_segments q \<noteq> path_segments p"
  shows "load_table_state E s' q = load_table_state E s q"
proof -
  from assms(2) obtain t where "store_put E s p t = (Inr (), s')"
    by (auto simp: put_json_def split: sum.splits prod.splits)
  with assms(1,3) have "store_get E s' q = store_get E s q" unfolding env_ok_def by blast
  then show ?thesis by (simp add: load_table_state_def)
qed

lemma first_path: "d @ ''/metadata/v1.metadata.json'' = metadata_path d 1"
proof -
  have "show_int 1 = ''1''" by code_simp
  then show ?thesis by (simp add: metadata_path_def)
qed

lemma write_iceberg_metadata_Ok:
  assumes "env_ok E" and "write_iceberg_metadata E now pfx schema files uuid bucket s = (Ok path, s')"
  shows "files \<noteq> [] \<and> path = metadata_path pfx 1 \<and>
    load_table_state E s' path =
      Ok (state_of_metadata (first_metadata now uuid (''s3://'' @ bucket @ ''/'' @ pfx) schema files) path)"
proof -
  let ?loc = "''s3://'' @ bucket @ ''/'' @ pfx" and ?path = "metadata_path pfx 1"
  let ?m = "first_metadata now uuid ?loc schema files" and ?ml = "manifest_list_json ?loc now files"
  have files: "files \<noteq> []" using assms(2) by (auto simp: write_iceberg_metadata_def)
  obtain r s1 where r: "put_json E ''Metadata JSON: '' ''S3 PUT metadata: '' ?path ?m s = (r, s1)"
    by fastforce
  obtain r2 s2 where r2: "put_json E ''Manifest JSON: '' ''S3 PUT manifest: ''
      (manifest_list_file pfx now) ?ml s1 = (r2, s2)" by fastforce
  have "r = Ok () \<and> r2 = Ok () \<and> path = ?path \<and> s' = s2"
    using assms(2) files unfolding write_iceberg_metadata_def Let_def first_path r if_not_P [OF files]
    by (cases r; cases r2) (simp_all add: r2 del: append_Cons append_Nil)
  then have e: "r = Ok ()" "r2 = Ok ()" "path = ?path" "s' = s2" by blast+
  from put_json_frame [OF assms(1) r2 [unfolded e(2)] manifest_not_metadata [symmetric]]
  have "load_table_state E s' path = load_table_state E s1 ?path" unfolding e(3,4) .
  with put_json_load [OF assms(1) r [unfolded e(1)]] files e(3) show ?thesis by simp
qed

lemma parse_arrow_field:
  "int i + 1 < 2 ^ 31 \<Longrightarrow> parse_field (arrow_field_json i f) =
     \<lparr>field_id = int i + 1, name = field_name f, required = \<not> is_nullable f,
      type_str = arrow_to_iceberg_type (data_type f)\<rparr>"
  by (simp add: parse_field_def arrow_field_json_def get_i64_def get_str_def get_bool_def
      fits_i64_def fits_i32_def wrap_i32_id)

lemma state_of_first_metadata:
  assumes "fits_i64 now" and "int (length schema) < 2 ^ 31"
    and st_def: "st = state_of_metadata (first_metadata now uuid loc schema files) (metadata_path pfx 1)"
  shows "location st = loc" and "table_uuid st = uuid" and "metadata_version st = 1"
    and "current_snapshot_id st = Some now"
    and "partition_specs st = [\<lparr>spec_id = 0, spec_fields = []\<rparr>]"
    and "schemas st = [\<lparr>schema_id = 0, schema_fields = map (\<lambda>(i, f).
          \<lparr>field_id = int i + 1, name = field_name f, required = \<not> is_nullable f,
           type_str = arrow_to_iceberg_type (data_type f)\<rparr>) (enumerate 0 schema)\<rparr>]"
    and "\<exists>n. snapshots st = [n] \<and> snapshot_id n = now \<and> parent_snapshot_id n = None \<and>
          summary_total ''total-records'' n = total_records files"
proof -
  show "location st = loc" "table_uuid st = uuid" "metadata_version st = 1"
    "current_snapshot_id st = Some now" "partition_specs st = [\<lparr>spec_id = 0, spec_fields = []\<rparr>]"
    using assms(1) by (simp_all add: st_def first_metadata_def get_str_def get_i64_def get_array_def
        metadata_path_version fits_i32_def fits_i64_def wrap_i32_def parse_partition_specs_def parse_partition_spec_def)
  have "map parse_field (arrow_fields_json schema) = map (\<lambda>(i, f).
      \<lparr>field_id = int i + 1, name = field_name f, required = \<not> is_nullable f,
       type_str = arrow_to_iceberg_type (data_type f)\<rparr>) (enumerate 0 schema)"
    using assms(2) by (auto simp: arrow_fields_json_def parse_arrow_field in_set_enumerate_eq)
  then show "schemas st = [\<lparr>schema_id = 0, schema_fields = map (\<lambda>(i, f).
          \<lparr>field_id = int i + 1, name = field_name f, required = \<not> is_nullable f,
           type_str = arrow_to_iceberg_type (data_type f)\<rparr>) (enumerate 0 schema)\<rparr>]"
    by (simp add: st_def first_metadata_def schema_json_def parse_schemas_def parse_schema_def get_array_def
        get_i64_def fits_i64_def wrap_i32_def)
  show "\<exists>n. snapshots st = [n] \<and> snapshot_id n = now \<and> parent_snapshot_id n = None \<and>
          summary_total ''total-records'' n = total_records files"
    using assms(1) by (simp add: st_def first_metadata_def parse_snapshots_def get_array_def parse_snapshot_def
        get_i64_def summary_json_def summary_total_def jobj_def fmlookup_of_list show_u64_def parse_u64_show_word)
qed

text \<open>A created table reads back as asked for: one snapshot without parent that is the current one
  and counts the given rows, one schema whose fields are the Arrow fields numbered from 1, and a
  location whose key is the table prefix, so that the next append writes
  \<open>v2.metadata.json\<close> beside the first document.\<close>

theorem created_table_reads_back:
  assumes "env_ok E" and "fits_i64 now" and "int (length schema) < 2 ^ 31"
    and "CHR ''/'' \<notin> set bucket"
    and "create_table E now pfx schema files uuid bucket s = (Ok (path, st), s')"
  shows "path = metadata_path pfx 1 \<and> load_table_state E s' path = Ok st \<and>
    table_uuid st = uuid \<and> strip_s3_prefix (location st) = pfx \<and> metadata_version st = 1 \<and>
    schemas st = [\<lparr>schema_id = 0, schema_fields = map (\<lambda>(i, f).
          \<lparr>field_id = int i + 1, name = field_name f, required = \<not> is_nullable f,
           type_str = arrow_to_iceberg_type (data_type f)\<rparr>) (enumerate 0 schema)\<rparr>] \<and>
    partition_specs st = [\<lparr>spec_id = 0, spec_fields = []\<rparr>] \<and>
    (\<exists>n. snapshots st = [n] \<and> resolve_snapshot st Latest = Ok n \<and> snapshot_id n = now \<and>
       parent_snapshot_id n = None) \<and>
    prev_total ''total-records'' st = total_records files \<and>
    (\<forall>path' s'' now' files' op. append_snapshot E now' st files' schema op s' = (Ok path', s'') \<longrightarrow>
       path' = metadata_path pfx 2)"
proof -
  let ?loc = "''s3://'' @ bucket @ ''/'' @ pfx"
  let ?st = "state_of_metadata (first_metadata now uuid ?loc schema files) (metadata_path pfx 1)"
  obtain r s1 where r: "write_iceberg_metadata E now pfx schema files uuid bucket s = (r, s1)" by fastforce
  with assms(5) have w: "write_iceberg_metadata E now pfx schema files uuid bucket s = (Ok path, s')"
    and load: "load_table_state E s' path = Ok st"
    by (cases r; auto simp: create_table_def)+
  from write_iceberg_metadata_Ok [OF assms(1) w] load have path: "path = metadata_path pfx 1" and st: "st = ?st"
    by auto
  note sel = state_of_first_metadata [OF assms(2,3) st]
  obtain n where n: "snapshots st = [n]" "snapshot_id n = now" "parent_snapshot_id n = None"
      "summary_total ''total-records'' n = total_records files" using sel(7) by blast
  have strip: "strip_s3_prefix (location st) = pfx"
    unfolding sel(1) by (rule strip_s3_prefix_location) (rule assms(4))
  have "path' = metadata_path pfx 2"
    if "append_snapshot E now' st files' schema op s' = (Ok path', s'')" for path' s'' now' files' op
  proof -
    from append_snapshot_Ok [OF that] obtain m s2 where "write_version E st m s2 = (Ok path', s'')" by blast
    from write_version_load [OF assms(1) this] strip sel(3) show ?thesis by (simp add: wrap_i32_def)
  qed
  moreover have "resolve_snapshot st Latest = Ok n" using n sel(4) by (simp add: find_snapshot_def)
  moreover have "prev_total ''total-records'' st = total_records files"
    using n sel(4) by (simp add: prev_total_eq find_snapshot_def)
  ultimately show ?thesis using path load strip sel n by auto
qed

definition create_docs :: "(string \<times> json) list" where
  "create_docs =
     [(''0'', first_metadata 9 ''u'' ''s3://b/t'' [] demo_files),
      (''1'', manifest_list_json ''s3://b/t'' 9 demo_files)]"

lemma demo_create:
  "\<exists>st. create_table (mem_env create_docs) 9 ''t'' [] demo_files ''u'' ''b'' [] =
     (Ok (metadata_path ''t'' 1, st), [(manifest_list_file ''t'' 9, ''1''), (metadata_path ''t'' 1, ''0'')])"
proof -
  let ?m = "first_metadata 9 ''u'' ''s3://b/t'' [] demo_files" and ?ml = "manifest_list_json ''s3://b/t'' 9 demo_files"
  let ?E = "mem_env create_docs"
  have ne: "?m \<noteq> ?ml"
    by (rule json_neq [of "''manifests''"]) (simp add: first_metadata_def manifest_list_json_def)
  have loc: "''s3://'' @ ''b'' @ ''/'' @ ''t'' = ''s3://b/t''" by simp
  have "metadata_path ''t'' 1 \<noteq> manifest_list_file ''t'' 9"
    by (simp add: metadata_path_def manifest_list_file_def)
  with ne have 1: "put_json ?E ''Metadata JSON: '' ''S3 PUT metadata: '' (metadata_path ''t'' 1) ?m [] =
      (Ok (), [(metadata_path ''t'' 1, ''0'')])"
    and 2: "put_json ?E ''Manifest JSON: '' ''S3 PUT manifest: '' (manifest_list_file ''t'' 9) ?ml
      [(metadata_path ''t'' 1, ''0'')] =
      (Ok (), [(manifest_list_file ''t'' 9, ''1''), (metadata_path ''t'' 1, ''0'')])"
    by (simp_all add: put_json_def mem_env_def docs_print_def create_docs_def)
  have 3: "demo_files \<noteq> []" by (simp add: demo_files_def)
  have w: "write_iceberg_metadata ?E 9 ''t'' [] demo_files ''u'' ''b'' [] =
      (Ok (metadata_path ''t'' 1), [(manifest_list_file ''t'' 9, ''1''), (metadata_path ''t'' 1, ''0'')])"
    unfolding write_iceberg_metadata_def if_not_P [OF 3] Let_def first_path loc 1 prod.case result.case 2 ..
  have "distinct (map fst create_docs)" by (simp add: create_docs_def)
  from write_iceberg_metadata_Ok [OF mem_env_ok [OF this] w] show ?thesis
    by (auto simp: create_table_def w)
qed

lemma created_table_reads_back_witness:
  "\<exists>st. load_table_state (mem_env create_docs)
       [(manifest_list_file ''t'' 9, ''1''), (metadata_path ''t'' 1, ''0'')] (metadata_path ''t'' 1) = Ok st \<and>
     strip_s3_prefix (location st) = ''t'' \<and> prev_total ''total-records'' st = 3"
proof -
  obtain st where st: "create_table (mem_env create_docs) 9 ''t'' [] demo_files ''u'' ''b'' [] =
     (Ok (metadata_path ''t'' 1, st), [(manifest_list_file ''t'' 9, ''1''), (metadata_path ''t'' 1, ''0'')])"
    using demo_create by blast
  have "distinct (map fst create_docs)" by (simp add: create_docs_def)
  from created_table_reads_back [OF mem_env_ok [OF this] _ _ _ st]
  show ?thesis by (auto simp: fits_i64_def total_records_def demo_files_def)
qed

end
