(* ===== verification/Iceberg_Maintenance.thy ===== *)
theory Iceberg_Maintenance
  imports Iceberg_History "HOL-Library.Multiset"
begin

text \<open>
  Table maintenance: \<open>crates/rustlake-api/src/iceberg_maintenance.rs\<close>. Health report, compaction,
  snapshot expiry and orphan clean-up over a table state. The Parquet reader and writer (crate
  \<open>parquet\<close>) are parameters; the fragmentation score, a quotient of two counts below
  \<open>2 ^ 53\<close>, is kept as the pair of counts.
\<close>

section \<open>Status\<close>

record maintenance_status =
  total_files :: nat
  avg_file_size_bytes :: u64
  small_file_count :: nat
  fragmentation_score :: "nat \<times> nat"
  snapshot_count :: nat
  oldest_snapshot_ms :: "int option"
  recommendations :: "string list"

definition all_data_files :: "table_state \<Rightarrow> data_file_info list" where
  "all_data_files st = concat (map data_files (snapshots st))"

definition list_min :: "int list \<Rightarrow> int option" where
  "list_min xs = (if xs = [] then None else Some (Min (set xs)))"

definition compute_maintenance_status :: "table_state \<Rightarrow> u64 \<Rightarrow> maintenance_status" where
  "compute_maintenance_status st target =
     (let all_files = all_data_files st;
          n = length all_files;
          avg = (if 0 < n then total_size all_files div of_nat n else 0);
          small = length (filter (\<lambda>f. file_size f < target div 2) all_files);
          score = (if 0 < n then (min small n, n) else (0, 1));
          snaps = length (snapshots st)
      in \<lparr>total_files = n,
          avg_file_size_bytes = avg,
          small_file_count = small,
          fragmentation_score = score,
          snapshot_count = snaps,
          oldest_snapshot_ms = list_min (map timestamp_ms (snapshots st)),
          recommendations =
            (if snd score < 2 * fst score
             then [''High fragmentation '' @ em_dash @
                   '' run compaction to merge small files''] else []) @
            (if 100 < snaps
             then [show_nat snaps @ '' snapshots '' @ em_dash @
                   '' consider expiring old snapshots''] else []) @
            (if 10 < small
             then [show_nat small @ '' files below target size '' @ em_dash @
                   '' compaction recommended''] else [])\<rparr>)"

section \<open>Compaction\<close>

record ('b, 'r, 'w) parquet =
  pq_open :: "string \<Rightarrow> string + 'r"
  pq_build :: "'r \<Rightarrow> string + (string + 'b) list"
  pq_init :: "arrow_field list \<Rightarrow> string + 'w"
  pq_write :: "'w \<Rightarrow> 'b \<Rightarrow> string + 'w"
  pq_close :: "'w \<Rightarrow> string + string"
  num_rows :: "'b \<Rightarrow> nat"

record compaction_result =
  input_files :: nat
  output_files :: nat
  rows_rewritten :: u64
  result_path :: string

fun dedup_paths :: "string list \<Rightarrow> string set \<Rightarrow> string list" where
  "dedup_paths [] seen = []"
| "dedup_paths (p # ps) seen =
     (if p \<in> seen then dedup_paths ps seen else p # dedup_paths ps (insert p seen))"

fun collect_batches :: "(string + 'b) list \<Rightarrow> 'b list result" where
  "collect_batches [] = Ok []"
| "collect_batches (Inl e # rs) = Err (''Batch read error: '' @ e)"
| "collect_batches (Inr b # rs) = bind_result (collect_batches rs) (\<lambda>bs. Ok (b # bs))"

definition read_file :: "'s env \<Rightarrow> ('b, 'r, 'w) parquet \<Rightarrow> 's \<Rightarrow> string \<Rightarrow> 'b list result" where
  "read_file E P s path =
     (case store_get E s path of
        Inl e \<Rightarrow> Err (''Failed to read '' @ path @ '': '' @ e)
      | Inr (Inl e) \<Rightarrow> Err (''Failed to read bytes from '' @ path @ '': '' @ e)
      | Inr (Inr bytes) \<Rightarrow>
          (case pq_open P bytes of
             Inl e \<Rightarrow> Err (''Parquet reader error for '' @ path @ '': '' @ e)
           | Inr r \<Rightarrow>
               (case pq_build P r of
                  Inl e \<Rightarrow> Err (''Parquet build error for '' @ path @ '': '' @ e)
                | Inr rs \<Rightarrow> collect_batches rs)))"

definition read_files :: "'s env \<Rightarrow> ('b, 'r, 'w) parquet \<Rightarrow> 's \<Rightarrow> string list \<Rightarrow> 'b list result" where
  "read_files E P s paths = bind_result (map_result_list (read_file E P s) paths) (\<lambda>bss. Ok (concat bss))"

text \<open>The \<open>u64\<close> row counter of a list of batches.\<close>

definition row_total :: "('b, 'r, 'w) parquet \<Rightarrow> 'b list \<Rightarrow> u64" where
  "row_total P bs = sum_list (map (\<lambda>b. of_nat (num_rows P b)) bs)"

fun write_batches :: "('b, 'r, 'w) parquet \<Rightarrow> 'w \<Rightarrow> 'b list \<Rightarrow> 'w result" where
  "write_batches P w [] = Ok w"
| "write_batches P w (b # bs) =
     (case pq_write P w b of
        Inl e \<Rightarrow> Err (''Parquet write: '' @ e)
      | Inr w' \<Rightarrow> write_batches P w' bs)"

definition write_compacted_file ::
  "'s env \<Rightarrow> ('b, 'r, 'w) parquet \<Rightarrow> string \<Rightarrow> string \<Rightarrow> u32 \<Rightarrow> 'b list \<Rightarrow> arrow_field list \<Rightarrow> 's \<Rightarrow>
   data_file_info result \<times> 's" where
  "write_compacted_file E P dir date_part counter batches schema s =
     (case pq_init P schema of
        Inl e \<Rightarrow> (Err (''Parquet writer init: '' @ e), s)
      | Inr w \<Rightarrow>
          (case write_batches P w batches of
             Ok w' \<Rightarrow>
               (case pq_close P w' of
                  Inl e \<Rightarrow> (Err (''Parquet close: '' @ e), s)
                | Inr bytes \<Rightarrow>
                    (let file_name = dir @ ''/'' @ date_part @ ''/compacted-'' @ pad4 (unat counter) @ ''.parquet''
                     in case store_put E s file_name bytes of
                          (Inl e, s') \<Rightarrow> (Err (''S3 PUT compacted file: '' @ e), s')
                        | (Inr _, s') \<Rightarrow>
                            (Ok \<lparr>file_path = file_name, file_size = of_nat (length bytes),
                                 row_count = row_total P batches\<rparr>, s')))
           | Err e \<Rightarrow> (Err e, s)
           | Panic \<Rightarrow> (Panic, s)))"

text \<open>
  The loop over the batches: the buffer, its rows and the file counter are the loop's variables;
  the buffer is written when its estimated size (100 bytes a row) reaches the target, and once more
  at the end if it is not empty.
\<close>

fun compact_loop ::
  "'s env \<Rightarrow> ('b, 'r, 'w) parquet \<Rightarrow> string \<Rightarrow> string \<Rightarrow> arrow_field list \<Rightarrow> u64 \<Rightarrow> 'b list \<Rightarrow>
   'b list \<Rightarrow> u64 \<Rightarrow> u32 \<Rightarrow> data_file_info list \<Rightarrow> 's \<Rightarrow> data_file_info list result \<times> 's" where
  "compact_loop E P dir date schema target [] buf rows counter files s =
     (if buf = [] then (Ok files, s)
      else case write_compacted_file E P dir date (counter + 1) buf schema s of
             (Ok df, s') \<Rightarrow> (Ok (files @ [df]), s')
           | (Err e, s') \<Rightarrow> (Err e, s')
           | (Panic, s') \<Rightarrow> (Panic, s'))"
| "compact_loop E P dir date schema target (b # bs) buf rows counter files s =
     (let buf' = buf @ [b]; rows' = rows + of_nat (num_rows P b)
      in if target \<le> rows' * 100 then
           (case write_compacted_file E P dir date (counter + 1) buf' schema s of
              (Ok df, s') \<Rightarrow> compact_loop E P dir date schema target bs [] 0 (counter + 1) (files @ [df]) s'
            | (Err e, s') \<Rightarrow> (Err e, s')
            | (Panic, s') \<Rightarrow> (Panic, s'))
         else compact_loop E P dir date schema target bs buf' rows' counter files s)"

definition compact_table ::
  "'s env \<Rightarrow> ('b, 'r, 'w) parquet \<Rightarrow> int \<Rightarrow> string \<Rightarrow> table_state \<Rightarrow> u64 \<Rightarrow> arrow_field list \<Rightarrow> 's \<Rightarrow>
   compaction_result result \<times> 's" where
  "compact_table E P now date_part st target_mb schema s =
     (let target = target_mb * 1024 * 1024;
          paths = dedup_paths (map file_path (all_data_files st)) {}
      in if paths = [] then (Err ''No data files to compact'', s)
         else case read_files E P s paths of
                Ok batches \<Rightarrow>
                  (if batches = [] then (Err ''No data found in files to compact'', s)
                   else case compact_loop E P (strip_s3_prefix (location st)) date_part schema target
                               batches [] 0 0 [] s of
                          (Ok new_files, s1) \<Rightarrow>
                            (case append_snapshot E now st new_files schema ''replace'' s1 of
                               (Ok path, s2) \<Rightarrow>
                                 (Ok \<lparr>input_files = length paths, output_files = length new_files,
                                      rows_rewritten = row_total P batches, result_path = path\<rparr>, s2)
                             | (Err e, s2) \<Rightarrow> (Err e, s2)
                             | (Panic, s2) \<Rightarrow> (Panic, s2))
                        | (Err e, s1) \<Rightarrow> (Err e, s1)
                        | (Panic, s1) \<Rightarrow> (Panic, s1))
              | Err e \<Rightarrow> (Err e, s)
              | Panic \<Rightarrow> (Panic, s))"

section \<open>Expiry\<close>




definition json_snapshot_id :: "json \<Rightarrow> int" where
  "json_snapshot_id j = unwrap_or 0 (get_i64 ''snapshot-id'' j)"

definition expired_metadata :: "table_state \<Rightarrow> int \<Rightarrow> int list \<Rightarrow> json result" where
  "expired_metadata st now ids =
     (let keep = filter (\<lambda>j. json_snapshot_id j \<notin> set ids);
          m1 = jarray_mut ''snapshots'' keep (metadata st);
          m2 = jarray_mut ''snapshot-log'' keep m1
      in bind_result (jset ''last-updated-ms'' (JInt now) m2) (\<lambda>m3.
         Ok (jpush ''metadata-log'' (metadata_log_entry st now) m3)))"




section \<open>Orphan files\<close>

record orphan_result =
  orphan_files_found :: nat
  orphan_files_deleted :: nat
  bytes_reclaimed :: u64

definition referenced_paths :: "table_state \<Rightarrow> string set" where
  "referenced_paths st =
     file_path ` set (all_data_files st) \<union>
     {p \<in> manifest_list_path ` set (snapshots st). p \<noteq> []}"

definition is_orphan :: "table_state \<Rightarrow> string \<Rightarrow> bool" where
  "is_orphan st p \<longleftrightarrow>
     \<not> contains p ''/metadata/'' \<and> ends_with p ''.parquet'' \<and> p \<notin> referenced_paths st"

fun delete_orphans ::
  "'s env \<Rightarrow> table_state \<Rightarrow> (string \<times> nat) list \<Rightarrow> orphan_result \<Rightarrow> 's \<Rightarrow> orphan_result \<times> 's" where
  "delete_orphans E st [] r s = (r, s)"
| "delete_orphans E st ((p, sz) # items) r s =
     (if \<not> is_orphan st p then delete_orphans E st items r s
      else let r1 = r\<lparr>orphan_files_found := orphan_files_found r + 1\<rparr>;
               (ok, s1) = store_delete E s p;
               r2 = (if ok then r1\<lparr>orphan_files_deleted := orphan_files_deleted r1 + 1,
                                  bytes_reclaimed := bytes_reclaimed r1 + of_nat sz\<rparr> else r1)
           in delete_orphans E st items r2 s1)"

definition remove_orphan_files ::
  "'s env \<Rightarrow> table_state \<Rightarrow> string \<Rightarrow> 's \<Rightarrow> orphan_result result \<times> 's" where
  "remove_orphan_files E st data_prefix s =
     (case store_list E s data_prefix of
        Inl e \<Rightarrow> (Err (''Failed to list files under '' @ data_prefix @ '': '' @ e), s)
      | Inr items \<Rightarrow>
          (let (r, s') = delete_orphans E st items
                 \<lparr>orphan_files_found = 0, orphan_files_deleted = 0, bytes_reclaimed = 0\<rparr> s
           in (Ok r, s')))"

section \<open>Facts about expiry\<close>

lemma snapshot_id_parse [simp]: "snapshot_id (parse_snapshot j) = json_snapshot_id j"
  by (simp add: parse_snapshot_def json_snapshot_id_def Let_def)

lemma map_filter_comm: "(\<And>x. P x = Q (f x)) \<Longrightarrow> map f (filter P xs) = filter Q (map f xs)"
  by (induction xs) auto






section \<open>Facts about orphan files\<close>

definition orphans_in :: "table_state \<Rightarrow> (string \<times> nat) list \<Rightarrow> (string \<times> nat) list" where
  "orphans_in st items = filter (\<lambda>(p, sz). is_orphan st p) items"

lemma delete_orphans_closed:
  "delete_orphans E st items r s = (r', s') \<Longrightarrow>
     s' = fold (\<lambda>(p, sz) s. snd (store_delete E s p)) (orphans_in st items) s \<and>
     orphan_files_found r' = orphan_files_found r + length (orphans_in st items) \<and>
     orphan_files_deleted r' \<le> orphan_files_deleted r + length (orphans_in st items)"
proof (induction E st items r s rule: delete_orphans.induct)
  case (1 E st r s)
  then show ?case by (simp add: orphans_in_def)
next
  case (2 E st p sz items r s)
  show ?case
  proof (cases "is_orphan st p")
    case False
    with 2 show ?thesis by (simp add: orphans_in_def)
  next
    case True
    obtain ok s1 where d: "store_delete E s p = (ok, s1)" by fastforce
    show ?thesis
    proof (cases ok)
      case True
      with 2(2)[OF _ refl d [symmetric] refl refl] 2(3) \<open>is_orphan st p\<close> d show ?thesis
        by (auto simp: orphans_in_def Let_def)
    next
      case False
      with 2(2)[OF _ refl d [symmetric] refl refl] 2(3) \<open>is_orphan st p\<close> d show ?thesis
        by (auto simp: orphans_in_def Let_def)
    qed
  qed
qed

lemma loaded_data_files: "load_table_state E s p = Ok st \<Longrightarrow> all_data_files st = []"
proof -
  assume "load_table_state E s p = Ok st"
  then have "st = state_of_metadata (metadata st) p" by (rule load_table_state_Ok)
  from arg_cong [OF this, of snapshots] show ?thesis
    by (simp add: all_data_files_def parse_snapshots_def parse_snapshot_def Let_def comp_def)
qed

text \<open>C22. On a loaded table the orphan clean-up asks the store to delete, in listing order, every
  Parquet file outside the metadata directory whose path is not that of a manifest list: files that
  live snapshots refer to are not spared, because loading does not restore the data files.\<close>

theorem orphan_cleanup_deletes_all_parquet:
  assumes "load_table_state E s0 p0 = Ok st" and "store_list E s data_prefix = Inr items"
    and "remove_orphan_files E st data_prefix s = (Ok r, s')"
  defines "targets \<equiv> filter (\<lambda>p. \<not> contains p ''/metadata/'' \<and> ends_with p ''.parquet'' \<and>
        p \<notin> manifest_list_path ` set (snapshots st)) (map fst items)"
  shows "s' = fold (\<lambda>p s. snd (store_delete E s p)) targets s \<and>
    orphan_files_found r = length targets \<and> orphan_files_deleted r \<le> length targets"
proof -
  have ne: "\<not> ends_with [] ''.parquet''" by (simp add: ends_with_def)
  have orph: "is_orphan st p \<longleftrightarrow> \<not> contains p ''/metadata/'' \<and> ends_with p ''.parquet'' \<and>
        p \<notin> manifest_list_path ` set (snapshots st)" for p
    using loaded_data_files [OF assms(1)] ne by (auto simp: is_orphan_def referenced_paths_def)
  have t: "map fst (orphans_in st items) = targets"
    unfolding orphans_in_def targets_def by (rule map_filter_comm) (auto simp: orph split: prod.splits)
  have f: "fold (\<lambda>(p, sz) s. snd (store_delete E s p)) xs t = fold (\<lambda>p s. snd (store_delete E s p)) (map fst xs) t"
    for xs t by (induction xs arbitrary: t) auto
  have "delete_orphans E st items \<lparr>orphan_files_found = 0, orphan_files_deleted = 0, bytes_reclaimed = 0\<rparr> s = (r, s')"
    using assms(2,3) by (simp add: remove_orphan_files_def split: prod.splits)
  note closed = delete_orphans_closed [OF this]
  have "length (orphans_in st items) = length targets" using arg_cong [OF t, of length] by simp
  with closed show ?thesis by (simp add: f t)
qed

definition two_snapshots :: json where
  "two_snapshots = jobj
     [(''location'', JStr ''s3://b/t''),
      (''snapshots'', JArr [jobj [(''snapshot-id'', JInt 1), (''timestamp-ms'', JInt 1)],
                           jobj [(''snapshot-id'', JInt 2), (''timestamp-ms'', JInt 2)]]),
      (''current-snapshot-id'', JInt 1)]"

definition two_state :: table_state where
  "two_state = state_of_metadata two_snapshots (metadata_path ''t'' 1)"

definition expire_docs :: "(string \<times> json) list" where
  "expire_docs = [(''0'', two_snapshots), (''1'', ok_val (expired_metadata two_state 9 [1]))]"

lemma two_load: "load_table_state (mem_env expire_docs) demo_store (metadata_path ''t'' 1) = Ok two_state"
  by (simp add: load_table_state_def mem_env_def demo_store_def docs_parse_def expire_docs_def two_state_def)





definition orphan_store :: "(string \<times> string) list" where
  "orphan_store = [(''t/f.parquet'', ''x'')]"

lemma orphan_cleanup_deletes_all_parquet_witness:
  "\<exists>r. remove_orphan_files (mem_env expire_docs) two_state ''t/'' orphan_store = (Ok r, []) \<and>
     orphan_files_found r = 1"
proof -
  let ?E = "mem_env expire_docs" and ?items = "[(''t/f.parquet'', 1)]"
  have l: "store_list ?E orphan_store ''t/'' = Inr ?items"
    by (simp add: mem_env_def orphan_store_def starts_with_def)
  obtain r s' where r: "remove_orphan_files ?E two_state ''t/'' orphan_store = (Ok r, s')"
    unfolding remove_orphan_files_def l by (fastforce split: prod.splits)
  have "manifest_list_path ` set (snapshots two_state) = {[]}"
    by (simp add: two_state_def two_snapshots_def parse_snapshots_def get_array_def parse_snapshot_def Let_def get_str_def)
  then have t: "filter (\<lambda>p. \<not> contains p ''/metadata/'' \<and> ends_with p ''.parquet'' \<and>
        p \<notin> manifest_list_path ` set (snapshots two_state)) (map fst ?items) = [''t/f.parquet'']"
    by (simp add: contains_def ends_with_def suffix_to_prefix)
  have "s' = []" "orphan_files_found r = 1"
    using orphan_cleanup_deletes_all_parquet [OF two_load l r]
    unfolding t by (simp_all add: mem_env_def orphan_store_def)
  with r show ?thesis by blast
qed

section \<open>Facts about compaction\<close>

lemma write_compacted_file_rows:
  "write_compacted_file E P dir date c bs schema s = (Ok df, s') \<Longrightarrow> row_count df = row_total P bs"
  by (auto simp: write_compacted_file_def Let_def split: sum.splits result.splits prod.splits)

lemma row_total_append [simp]: "row_total P (a @ b) = row_total P a + row_total P b"
  by (simp add: row_total_def)

lemma row_total_simps [simp]:
  "row_total P [] = 0" "row_total P (b # bs) = of_nat (num_rows P b) + row_total P bs"
  by (simp_all add: row_total_def)

lemma compact_loop_groups:
  assumes "compact_loop E P dir date schema target bs buf rows c files s = (Ok files', s')"
    and "rows = row_total P buf"
  shows "\<exists>groups. concat groups = buf @ bs \<and> [] \<notin> set groups \<and>
    map row_count files' = map row_count files @ map (row_total P) groups \<and>
    (\<forall>g \<in> set (butlast groups). target \<le> row_total P g * 100)"
  using assms
proof (induction E P dir date schema target bs buf rows c files s rule: compact_loop.induct)
  case (1 E P dir date schema target buf rows c files s)
  show ?case
  proof (cases "buf = []")
    case True
    with 1 show ?thesis by (intro exI [of _ "[]"]) simp
  next
    case False
    obtain r s1 where w: "write_compacted_file E P dir date (c + 1) buf schema s = (r, s1)" by fastforce
    with 1 False obtain df where "r = Ok df" "files' = files @ [df]" by (cases r) auto
    with w False show ?thesis
      by (intro exI [of _ "[buf]"]) (simp add: write_compacted_file_rows)
  qed
next
  case (2 E P dir date schema target b bs buf rows c files s)
  let ?rows = "rows + of_nat (num_rows P b)"
  have rows: "?rows = row_total P (buf @ [b])" using "2.prems" by simp
  show ?case
  proof (cases "target \<le> ?rows * 100")
    case True
    obtain r s1 where w: "write_compacted_file E P dir date (c + 1) (buf @ [b]) schema s = (r, s1)" by fastforce
    with 2(3) True obtain df where df: "r = Ok df" and
      l: "compact_loop E P dir date schema target bs [] 0 (c + 1) (files @ [df]) s1 = (Ok files', s')"
      by (cases r) (auto simp: Let_def)
    from 2(1)[OF refl refl True _ refl l] w df obtain groups where g:
      "concat groups = [] @ bs" "[] \<notin> set groups"
      "map row_count files' = map row_count (files @ [df]) @ map (row_total P) groups"
      "\<forall>g \<in> set (butlast groups). target \<le> row_total P g * 100" by auto
    with w df True rows show ?thesis
      by (intro exI [of _ "(buf @ [b]) # groups"]) (auto simp: write_compacted_file_rows)
  next
    case False
    with 2 rows show ?thesis by (auto simp: Let_def)
  qed
qed

text \<open>Compaction rewrites every batch once and in order: the files it reports are those of a
  partition of the batches into non-empty groups, with the rows of each group as its row count, and
  every file but the last was written because its estimated size (100 bytes a row) had reached the
  target.\<close>

theorem compaction_partitions_batches:
  assumes "compact_loop E P dir date schema target batches [] 0 0 [] s = (Ok files, s')"
  shows "\<exists>groups. concat groups = batches \<and> [] \<notin> set groups \<and>
    map row_count files = map (row_total P) groups \<and>
    sum_list (map row_count files) = row_total P batches \<and>
    (\<forall>g \<in> set (butlast groups). target \<le> row_total P g * 100)"
proof -
  have "row_total P (concat gs) = sum_list (map (row_total P) gs)" for gs
    by (induction gs) simp_all
  with compact_loop_groups [OF assms] show ?thesis by fastforce
qed

definition list_parquet :: "(nat, string, string) parquet" where
  "list_parquet =
     \<lparr>pq_open = Inr, pq_build = \<lambda>r. Inr (map Inr (map of_char r)), pq_init = \<lambda>_. Inr [],
      pq_write = \<lambda>w b. Inr (w @ [char_of b]), pq_close = Inr, num_rows = id\<rparr>"

lemma compaction_partitions_batches_witness:
  "\<exists>files s'. compact_loop (mem_env []) list_parquet ''t'' ''d'' [] 500 [3, 4, 1] [] 0 0 [] [] = (Ok files, s') \<and>
     sum_list (map row_count files) = 8"
proof -
  have "\<exists>files s'. compact_loop (mem_env []) list_parquet ''t'' ''d'' [] 500 [3, 4, 1] [] 0 0 [] [] = (Ok files, s')"
    by (simp add: write_compacted_file_def mem_env_def list_parquet_def Let_def)
  then obtain files s' where
    l: "compact_loop (mem_env []) list_parquet ''t'' ''d'' [] 500 [3, 4, 1] [] 0 0 [] [] = (Ok files, s')" by blast
  from compaction_partitions_batches [OF l] have "sum_list (map row_count files) = 8"
    by (auto simp: list_parquet_def)
  with l show ?thesis by blast
qed

text \<open>A table state that was loaded from its document is never compacted: the call fails for
  lack of data files and changes nothing.\<close>

theorem loaded_table_is_not_compacted:
  assumes "load_table_state E s0 p0 = Ok st"
  shows "compact_table E P now date st target schema s = (Err ''No data files to compact'', s)"
  using loaded_data_files [OF assms] by (simp add: compact_table_def)

lemma loaded_table_is_not_compacted_witness:
  "compact_table (mem_env expire_docs) list_parquet 9 ''d'' two_state 128 [] demo_store =
     (Err ''No data files to compact'', demo_store)"
  by (rule loaded_table_is_not_compacted) (rule two_load)

end
