(* ===== verification/Iceberg_Versions.thy ===== *)
theory Iceberg_Versions
  imports Iceberg_History
begin

text \<open>
  What the three updates of a table have in common (appends, schema evolution, partition evolution):
  each writes the document of the next version and nothing over an old one. The contract is a locale,
  interpreted on each update and on runs that mix them; the last section shows what the missing
  concurrency control costs.
\<close>


section \<open>Operations that write the next version\<close>

text \<open>
  The contract shared by appends, schema evolutions and partition evolutions: an update that
  succeeds has written the document of the next version, which keeps the identity of the table; and
  whatever happens, an update leaves every other metadata document as it was.
\<close>

definition is_document :: "string \<Rightarrow> bool" where
  "is_document q \<longleftrightarrow> metadata_file_version (path_file_name q) \<noteq> None"

definition next_path :: "table_state \<Rightarrow> string" where
  "next_path st = metadata_path (strip_s3_prefix (location st)) (wrap_i32 (metadata_version st + 1))"

definition same_identity :: "json \<Rightarrow> json \<Rightarrow> bool" where
  "same_identity a b \<longleftrightarrow>
     get_str ''location'' a = get_str ''location'' b \<and> get_str ''table-uuid'' a = get_str ''table-uuid'' b"

lemma same_identity_state:
  "same_identity m (metadata st) \<Longrightarrow> st = state_of_metadata (metadata st) p \<Longrightarrow>
     location (state_of_metadata m q) = location st \<and> table_uuid (state_of_metadata m q) = table_uuid st"
proof
  assume i: "same_identity m (metadata st)" and st: "st = state_of_metadata (metadata st) p"
  show "location (state_of_metadata m q) = location st"
    using i arg_cong [OF st, of location] by (simp add: same_identity_def)
  show "table_uuid (state_of_metadata m q) = table_uuid st"
    using i arg_cong [OF st, of table_uuid] by (simp add: same_identity_def)
qed

locale table_update =
  fixes E :: "'s env" and update :: "'a \<Rightarrow> table_state \<Rightarrow> 's \<Rightarrow> string result \<times> 's"
  assumes update_writes: "update a st s = (Ok path, s') \<Longrightarrow>
      \<exists>m s1. same_identity m (metadata st) \<and> write_version E st m s1 = (Ok path, s')"
    and update_frame: "env_ok E \<Longrightarrow> update a st s = (r, s') \<Longrightarrow> is_document q \<Longrightarrow>
      path_segments q \<noteq> path_segments (next_path st) \<Longrightarrow> store_get E s' q = store_get E s q"
begin

lemma update_result:
  assumes "env_ok E" and "load_table_state E s (metadata_path pfx v) = Ok st"
    and "strip_s3_prefix (location st) = pfx" and "0 \<le> v" and "fits_i32 (v + 1)"
    and "update a st s = (Ok path, s')"
  shows "path = metadata_path pfx (v + 1) \<and>
    (\<exists>st'. load_table_state E s' path = Ok st' \<and> table_uuid st' = table_uuid st \<and>
       location st' = location st \<and> metadata_version st' = v + 1)"
proof -
  from update_writes [OF assms(6)] obtain m s1 where m: "same_identity m (metadata st)"
    "write_version E st m s1 = (Ok path, s')" by blast
  have st: "st = state_of_metadata (metadata st) (metadata_path pfx v)"
    using assms(2) by (rule load_table_state_Ok)
  have "fits_i32 v" using assms(4,5) by (simp add: fits_i32_def)
  then have v: "metadata_version st = v"
    using arg_cong [OF st, of metadata_version] metadata_path_version [OF assms(4)] by simp
  from write_version_load [OF assms(1) m(2)] have
    load: "load_table_state E s' path = Ok (state_of_metadata m path)"
    and path: "path = metadata_path pfx (v + 1)"
    using assms(3) v wrap_i32_id [OF assms(5)] by auto
  have "metadata_version (state_of_metadata m path) = v + 1"
    using path metadata_path_version [of "v + 1"] assms(4,5) by simp
  with load path same_identity_state [OF m(1) st] show ?thesis by blast
qed

end

lemma path_segments_file:
  assumes "path_file_name q \<noteq> []"
  shows "last (path_segments q) = path_file_name q"
proof -
  have "split_char (CHR ''/'') q = butlast (split_char (CHR ''/'') q) @ [path_file_name q]"
    unfolding path_file_name_def by simp
  then have "path_segments q = filter (\<lambda>s. s \<noteq> []) (butlast (split_char (CHR ''/'') q) @ [path_file_name q])"
    unfolding path_segments_def by (rule arg_cong)
  with assms show ?thesis by simp
qed

lemma document_file_name: "is_document q \<Longrightarrow> \<exists>r. path_file_name q = CHR ''v'' # r"
  by (auto simp: is_document_def metadata_file_version_def split: bind_splits dest!: strip_prefix_Some)

lemma manifest_no_document: "is_document q \<Longrightarrow> path_segments q \<noteq> path_segments (manifest_list_file d i)"
proof
  assume q: "is_document q" and eq: "path_segments q = path_segments (manifest_list_file d i)"
  obtain r where r: "path_file_name q = CHR ''v'' # r" using document_file_name [OF q] by blast
  have "CHR ''/'' \<notin> set (show_int i)"
    using digits_no_char [of "CHR ''/''"] by (simp add: show_int_def)
  then have "last (path_segments ((d @ ''/metadata'') @ CHR ''/'' # (''snap-'' @ show_int i @ ''-manifest-list.json''))) =
      ''snap-'' @ show_int i @ ''-manifest-list.json''"
    by (intro path_segments_last) auto
  then have "last (path_segments q) = ''snap-'' @ show_int i @ ''-manifest-list.json''"
    unfolding eq by (simp add: manifest_list_file_def)
  with path_segments_file [of q] r show False by simp
qed

lemma put_json_get_frame:
  assumes "env_ok E" and "put_json E jm pm p j s = (r, s')" and "path_segments q \<noteq> path_segments p"
  shows "store_get E s' q = store_get E s q"
proof (cases "json_print E j")
  case (Inl e)
  with assms(2) show ?thesis by (simp add: put_json_def)
next
  case (Inr t)
  obtain r1 s1 where "store_put E s p t = (r1, s1)" by fastforce
  moreover from this have "s' = s1" using assms(2) Inr by (cases r1) (auto simp: put_json_def)
  ultimately show ?thesis using assms(1,3) unfolding env_ok_def by blast
qed

lemma write_version_frame:
  assumes "env_ok E" and "write_version E st m s = (r, s')" and "path_segments q \<noteq> path_segments (next_path st)"
  shows "store_get E s' q = store_get E s q"
proof -
  obtain r1 s1 where p: "put_json E ''Metadata JSON: '' ''S3 PUT metadata: '' (next_path st) m s = (r1, s1)"
    by fastforce
  have "s' = s1" using assms(2) p by (cases r1) (auto simp: write_version_def next_path_def)
  with put_json_get_frame [OF assms(1) p assms(3)] show ?thesis by simp
qed

lemma evolve_partition_Ok:
  assumes "evolve_partition E now st fs s = (r, s')"
  shows "\<exists>m. (\<forall>k. k \<in> {''location'', ''table-uuid'', ''snapshots'', ''current-snapshot-id''} \<longrightarrow>
        jget k m = jget k (metadata st)) \<and>
      (s' = s \<and> \<not> is_ok r \<or> write_version E st m s = (r, s'))"
proof -
  let ?sid = "wrap_i32 (unwrap_or 0 (list_max (map spec_id (partition_specs st))) + 1)"
  let ?m1 = "jpush ''partition-specs'' (jobj [(''spec-id'', JInt ?sid),
      (''fields'', JArr (map partition_field_json fs))]) (metadata st)"
  let ?last = "unwrap_or ?sid (list_max (map part_field_id fs))"
  let ?doc = "bind_result (jset ''default-spec-id'' (JInt ?sid) ?m1) (\<lambda>m2.
              bind_result (jset ''last-partition-id'' (JInt ?last) m2) (\<lambda>m3.
              bind_result (jset ''last-updated-ms'' (JInt now) m3) (\<lambda>m4.
              Ok (jpush ''metadata-log'' (metadata_log_entry st now) m4))))"
  show ?thesis
  proof (cases ?doc)
    case (Ok m)
    then obtain m2 m3 m4 where m: "jset ''default-spec-id'' (JInt ?sid) ?m1 = Ok m2"
      "jset ''last-partition-id'' (JInt ?last) m2 = Ok m3" "jset ''last-updated-ms'' (JInt now) m3 = Ok m4"
      "m = jpush ''metadata-log'' (metadata_log_entry st now) m4" by auto
    have "jget k m = jget k (metadata st)"
      if "k \<in> {''location'', ''table-uuid'', ''snapshots'', ''current-snapshot-id''}" for k
      using that jset_get [OF m(1), of k] jset_get [OF m(2), of k] jset_get [OF m(3), of k] m(4)
      by (auto simp: jget_jpush_other)
    moreover have "write_version E st m s = (r, s')"
      using assms Ok unfolding evolve_partition_def Let_def by simp
    ultimately show ?thesis by blast
  next
    case (Err e)
    with assms show ?thesis unfolding evolve_partition_def Let_def
      by (intro exI [of _ "metadata st"]) auto
  next
    case Panic
    with assms show ?thesis unfolding evolve_partition_def Let_def
      by (intro exI [of _ "metadata st"]) auto
  qed
qed

lemma append_snapshot_frame:
  assumes "env_ok E" and "append_snapshot E now st files schema op s = (r, s')" and "is_document q"
    and "path_segments q \<noteq> path_segments (next_path st)"
  shows "store_get E s' q = store_get E s q"
proof (cases "files = []")
  case True
  with assms(2) show ?thesis by (simp add: append_snapshot_def)
next
  case False
  obtain r1 s1 where p: "put_json E ''Manifest JSON: '' ''S3 PUT manifest: ''
     (manifest_list_file (strip_s3_prefix (location st)) now)
     (manifest_list_json (location st) now files) s = (r1, s1)" by fastforce
  have f: "store_get E s1 q = store_get E s q"
    by (rule put_json_get_frame [OF assms(1) p manifest_no_document [OF assms(3)]])
  have "s' = s1 \<or> (\<exists>m. write_version E st m s1 = (r, s'))"
    using assms(2) unfolding append_snapshot_def if_not_P [OF False] Let_def p
    by (cases r1; cases "appended_metadata st now op files schema") auto
  with f write_version_frame [OF assms(1) _ assms(4)] show ?thesis by metis
qed

lemma evolve_schema_frame:
  assumes "env_ok E" and "evolve_schema E now st changes s = (r, s')"
    and "path_segments q \<noteq> path_segments (next_path st)"
  shows "store_get E s' q = store_get E s q"
proof -
  have "s' = s \<or> (\<exists>m. write_version E st m s = (r, s'))"
    using assms(2) unfolding evolve_schema_def by (auto split: if_splits option.splits result.splits)
  with write_version_frame [OF assms(1) _ assms(3)] show ?thesis by metis
qed

definition append_op ::
  "'s env \<Rightarrow> int \<times> data_file_info list \<times> arrow_field list \<times> string \<Rightarrow> table_state \<Rightarrow> 's \<Rightarrow> string result \<times> 's"
  where
  "append_op E a st s = (case a of (now, files, schema, op) \<Rightarrow> append_snapshot E now st files schema op s)"

definition evolve_op ::
  "'s env \<Rightarrow> int \<times> schema_change list \<Rightarrow> table_state \<Rightarrow> 's \<Rightarrow> string result \<times> 's" where
  "evolve_op E a st s = (case a of (now, changes) \<Rightarrow> evolve_schema E now st changes s)"

definition partition_op ::
  "'s env \<Rightarrow> int \<times> Iceberg_Metadata.partition_field list \<Rightarrow> table_state \<Rightarrow> 's \<Rightarrow> string result \<times> 's" where
  "partition_op E a st s = (case a of (now, fs) \<Rightarrow> evolve_partition E now st fs s)"

interpretation append_update: table_update E "append_op E" for E :: "'s env"
proof
  fix a st s path s'
  assume a: "append_op E a st s = (Ok path, s')"
  obtain now files schema op where a': "a = (now, files, schema, op)" by (cases a) auto
  with a append_snapshot_Ok [of E now st files schema op s path s'] obtain m s1 where
    m: "appended_metadata st now op files schema = Ok m" "write_version E st m s1 = (Ok path, s')"
    by (auto simp: append_op_def)
  have "same_identity m (metadata st)"
    using appended_metadata_get(3,4) [OF m(1)] by (simp add: same_identity_def get_str_def)
  with m(2) show "\<exists>m s1. same_identity m (metadata st) \<and> write_version E st m s1 = (Ok path, s')" by blast
next
  fix a st s r s' q
  assume "env_ok E" "append_op E a st s = (r, s')" "is_document q"
    "path_segments q \<noteq> path_segments (next_path st)"
  then show "store_get E s' q = store_get E s q"
    by (auto simp: append_op_def split: prod.splits intro: append_snapshot_frame)
qed

interpretation evolve_update: table_update E "evolve_op E" for E :: "'s env"
proof
  fix a st s path s'
  assume a: "evolve_op E a st s = (Ok path, s')"
  obtain now changes where a': "a = (now, changes)" by (cases a) auto
  with a evolve_schema_Ok [of E now st changes s path s'] obtain fs mx m where
    m: "evolved_metadata st now fs mx = Ok m" "write_version E st m s = (Ok path, s')"
    by (auto simp: evolve_op_def)
  have "same_identity m (metadata st)"
    using evolved_metadata_get(4) [OF m(1)] by (simp add: same_identity_def get_str_def)
  with m(2) show "\<exists>m s1. same_identity m (metadata st) \<and> write_version E st m s1 = (Ok path, s')" by blast
next
  fix a st s r s' q
  assume "env_ok E" "evolve_op E a st s = (r, s')" "is_document q"
    "path_segments q \<noteq> path_segments (next_path st)"
  then show "store_get E s' q = store_get E s q"
    by (auto simp: evolve_op_def split: prod.splits intro: evolve_schema_frame)
qed

interpretation partition_update: table_update E "partition_op E" for E :: "'s env"
proof
  fix a st s path s'
  assume a: "partition_op E a st s = (Ok path, s')"
  obtain now fs where a': "a = (now, fs)" by (cases a) auto
  with a evolve_partition_Ok [of E now st fs s "Ok path" s'] obtain m where
    m: "\<forall>k. k \<in> {''location'', ''table-uuid'', ''snapshots'', ''current-snapshot-id''} \<longrightarrow>
        jget k m = jget k (metadata st)" "write_version E st m s = (Ok path, s')"
    by (auto simp: partition_op_def)
  then have "same_identity m (metadata st)" by (simp add: same_identity_def get_str_def)
  with m(2) show "\<exists>m s1. same_identity m (metadata st) \<and> write_version E st m s1 = (Ok path, s')" by blast
next
  fix a st s r s' q
  assume env: "env_ok E" and a: "partition_op E a st s = (r, s')"
    and q: "path_segments q \<noteq> path_segments (next_path st)"
  obtain now fs where a': "a = (now, fs)" by (cases a) auto
  with a evolve_partition_Ok [of E now st fs s r s'] obtain m where
    "s' = s \<or> write_version E st m s = (r, s')" by (auto simp: partition_op_def)
  with write_version_frame [OF env _ q] show "store_get E s' q = store_get E s q" by metis
qed

section \<open>Runs of mixed updates\<close>

datatype table_op =
    Append_Files int "data_file_info list" "arrow_field list" string
  | Evolve_Schema int "schema_change list"
  | Evolve_Partition int "Iceberg_Metadata.partition_field list"

fun table_op_result :: "'s env \<Rightarrow> table_op \<Rightarrow> table_state \<Rightarrow> 's \<Rightarrow> string result \<times> 's" where
  "table_op_result E (Append_Files now files schema op) st s = append_snapshot E now st files schema op s"
| "table_op_result E (Evolve_Schema now changes) st s = evolve_schema E now st changes s"
| "table_op_result E (Evolve_Partition now fs) st s = evolve_partition E now st fs s"

interpretation mixed_update: table_update E "table_op_result E" for E :: "'s env"
proof
  fix a st s path s'
  assume "table_op_result E a st s = (Ok path, s')"
  then show "\<exists>m s1. same_identity m (metadata st) \<and> write_version E st m s1 = (Ok path, s')"
    using append_update.update_writes [of E _ st s path s'] evolve_update.update_writes [of E _ st s path s']
      partition_update.update_writes [of E _ st s path s']
    by (cases a) (fastforce simp: append_op_def evolve_op_def partition_op_def)+
next
  fix a st s r s' q
  assume h: "env_ok E" "table_op_result E a st s = (r, s')" "is_document q"
    "path_segments q \<noteq> path_segments (next_path st)"
  then show "store_get E s' q = store_get E s q"
    using append_update.update_frame [OF h(1) _ h(3,4)] evolve_update.update_frame [OF h(1) _ h(3,4)]
      partition_update.update_frame [OF h(1) _ h(3,4)]
    by (cases a) (fastforce simp: append_op_def evolve_op_def partition_op_def)+
qed

text \<open>One step of a run: load the current document, update the table, and go on from the document
  that was written, or from the old one when the update failed.\<close>

definition table_step :: "'s env \<Rightarrow> table_op \<Rightarrow> string \<times> 's \<Rightarrow> string \<times> 's" where
  "table_step E op ps =
     (case load_table_state E (snd ps) (fst ps) of
        Ok st \<Rightarrow>
          (case table_op_result E op st (snd ps) of
             (Ok path, s') \<Rightarrow> (path, s')
           | (Err e, s') \<Rightarrow> (fst ps, s')
           | (Panic, s') \<Rightarrow> (fst ps, s'))
      | Err e \<Rightarrow> ps
      | Panic \<Rightarrow> ps)"

lemma document_path: "0 \<le> v \<Longrightarrow> fits_i32 v \<Longrightarrow> is_document (metadata_path pfx v)"
  by (simp add: is_document_def metadata_path_version)

lemma document_paths_differ:
  assumes "0 \<le> u" and "fits_i32 u" and "0 \<le> v" and "fits_i32 v" and "u \<noteq> v"
  shows "path_segments (metadata_path pfx u) \<noteq> path_segments (metadata_path pfx' v)"
proof
  assume eq: "path_segments (metadata_path pfx u) = path_segments (metadata_path pfx' v)"
  have "path_file_name (metadata_path pfx u) = path_file_name (metadata_path pfx' v)"
    using path_segments_file document_file_name [OF document_path [OF assms(1,2), of pfx]]
      document_file_name [OF document_path [OF assms(3,4), of pfx']] eq by (metis list.distinct(1))
  then show False
    using metadata_path_version [OF assms(1,2), of pfx] metadata_path_version [OF assms(3,4), of pfx'] assms(5)
    by simp
qed

definition at_version :: "'s env \<Rightarrow> string \<Rightarrow> int \<Rightarrow> table_state \<Rightarrow> string \<times> 's \<Rightarrow> bool" where
  "at_version E pfx v st0 ps \<longleftrightarrow> fst ps = metadata_path pfx v \<and>
     (\<exists>st. load_table_state E (snd ps) (fst ps) = Ok st \<and> location st = location st0 \<and>
        table_uuid st = table_uuid st0 \<and> metadata_version st = v)"

lemma table_step_version:
  assumes "env_ok E" and "at_version E pfx v st0 ps" and "strip_s3_prefix (location st0) = pfx"
    and "0 \<le> v" and "fits_i32 (v + 1)"
  shows "\<exists>w. v \<le> w \<and> w \<le> v + 1 \<and> at_version E pfx w st0 (table_step E op ps) \<and>
    (\<forall>u. 0 \<le> u \<and> u \<le> v \<longrightarrow>
       store_get E (snd (table_step E op ps)) (metadata_path pfx u) = store_get E (snd ps) (metadata_path pfx u))"
proof -
  obtain p s where ps: "ps = (p, s)" by fastforce
  from assms(2) obtain st where st: "p = metadata_path pfx v" "load_table_state E s p = Ok st"
    "location st = location st0" "table_uuid st = table_uuid st0" "metadata_version st = v"
    by (auto simp: at_version_def ps)
  obtain r s' where r: "table_op_result E op st s = (r, s')" by fastforce
  have next_p: "next_path st = metadata_path pfx (v + 1)"
    using st(3,5) assms(3,5) by (simp add: next_path_def wrap_i32_id)
  have frame: "store_get E s' (metadata_path pfx u) = store_get E s (metadata_path pfx u)" if "0 \<le> u \<and> u \<le> v" for u
  proof (rule mixed_update.update_frame [OF assms(1) r])
    have "fits_i32 u" using that assms(4,5) by (simp add: fits_i32_def)
    then show "is_document (metadata_path pfx u)" using that by (simp add: document_path)
    show "path_segments (metadata_path pfx u) \<noteq> path_segments (next_path st)"
      unfolding next_p using that assms(4,5) \<open>fits_i32 u\<close> by (intro document_paths_differ) auto
  qed
  show ?thesis
  proof (cases r)
    case (Ok path)
    have "strip_s3_prefix (location st) = pfx" using st(3) assms(3) by simp
    from mixed_update.update_result [OF assms(1) st(2) [unfolded st(1)] this assms(4,5) r [unfolded Ok]] st
    have "at_version E pfx (v + 1) st0 (path, s')" by (auto simp: at_version_def)
    with ps st(2) r Ok frame show ?thesis by (intro exI [of _ "v + 1"]) (simp add: table_step_def)
  next
    case (Err e)
    have "load_table_state E s' p = load_table_state E s p"
      using frame [of v] assms(4) st(1) by (simp add: load_table_state_def)
    with ps st r Err frame show ?thesis by (intro exI [of _ v]) (simp add: table_step_def at_version_def)
  next
    case Panic
    have "load_table_state E s' p = load_table_state E s p"
      using frame [of v] assms(4) st(1) by (simp add: load_table_state_def)
    with ps st r Panic frame show ?thesis by (intro exI [of _ v]) (simp add: table_step_def at_version_def)
  qed
qed

text \<open>C6. Metadata documents are only ever added: after any run of appends, schema evolutions and
  partition evolutions, each of which may fail at any point, the table is at a version that can be
  loaded, its location and UUID are as before, and every document of the starting version and below
  still holds what it held.\<close>

theorem updates_keep_old_documents:
  assumes "env_ok E" and "load_table_state E s0 (metadata_path pfx v0) = Ok st0"
    and "strip_s3_prefix (location st0) = pfx" and "0 \<le> v0" and "fits_i32 (v0 + int (length ops))"
  shows "\<exists>v st path s'. fold (table_step E) ops (metadata_path pfx v0, s0) = (path, s') \<and>
    v0 \<le> v \<and> v \<le> v0 + int (length ops) \<and> path = metadata_path pfx v \<and>
    load_table_state E s' path = Ok st \<and> metadata_version st = v \<and>
    location st = location st0 \<and> table_uuid st = table_uuid st0 \<and>
    (\<forall>u. 0 \<le> u \<and> u \<le> v0 \<longrightarrow> store_get E s' (metadata_path pfx u) = store_get E s0 (metadata_path pfx u))"
  using assms(5)
proof (induction ops rule: rev_induct)
  case Nil
  then have "fits_i32 v0" by simp
  moreover have "st0 = state_of_metadata (metadata st0) (metadata_path pfx v0)"
    using assms(2) by (rule load_table_state_Ok)
  ultimately have "metadata_version st0 = v0"
    using metadata_path_version [OF assms(4)] by (metis state_of_metadata_sel(9) unwrap_or_simps(1))
  with assms(2) show ?case by simp
next
  case (snoc op ops)
  then have "fits_i32 (v0 + int (length ops))" using assms(4) by (simp add: fits_i32_def)
  from snoc.IH [OF this] obtain v st path s' where IH:
    "fold (table_step E) ops (metadata_path pfx v0, s0) = (path, s')" "v0 \<le> v" "v \<le> v0 + int (length ops)"
    "path = metadata_path pfx v" "load_table_state E s' path = Ok st" "metadata_version st = v"
    "location st = location st0" "table_uuid st = table_uuid st0"
    "\<forall>u. 0 \<le> u \<and> u \<le> v0 \<longrightarrow> store_get E s' (metadata_path pfx u) = store_get E s0 (metadata_path pfx u)"
    by blast
  have at: "at_version E pfx v st0 (path, s')" using IH by (simp add: at_version_def)
  have b: "0 \<le> v" "fits_i32 (v + 1)" using IH(2,3) snoc.prems assms(4) by (auto simp: fits_i32_def)
  obtain path2 s2 where p2: "table_step E op (path, s') = (path2, s2)" by fastforce
  from table_step_version [OF assms(1) at assms(3) b, of op] obtain w where w: "v \<le> w" "w \<le> v + 1"
    "at_version E pfx w st0 (path2, s2)"
    "\<forall>u. 0 \<le> u \<and> u \<le> v \<longrightarrow> store_get E s2 (metadata_path pfx u) = store_get E s' (metadata_path pfx u)"
    unfolding p2 by auto
  then obtain st2 where "path2 = metadata_path pfx w" "load_table_state E s2 path2 = Ok st2"
    "location st2 = location st0" "table_uuid st2 = table_uuid st0" "metadata_version st2 = w"
    by (auto simp: at_version_def)
  moreover have "fold (table_step E) (ops @ [op]) (metadata_path pfx v0, s0) = (path2, s2)"
    using IH(1) p2 by simp
  moreover have "\<forall>u. 0 \<le> u \<and> u \<le> v0 \<longrightarrow> store_get E s2 (metadata_path pfx u) = store_get E s0 (metadata_path pfx u)"
    using IH(2,9) w(4) by auto
  ultimately show ?case using IH(2,3) w(1,2) by (intro exI [of _ w] exI [of _ st2] exI [of _ path2] exI [of _ s2]) auto
qed

lemma updates_keep_old_documents_witness:
  "\<exists>path s'. fold (table_step (mem_env demo_docs)) [Append_Files 9 demo_files [] ''append'', Evolve_Schema 10 []]
      (metadata_path ''t'' 1, demo_store) = (path, s') \<and>
     store_get (mem_env demo_docs) s' (metadata_path ''t'' 1) = Inr (Inr ''0'')"
proof -
  have d: "distinct (map fst demo_docs)" by (simp add: demo_docs_def)
  have pfx: "strip_s3_prefix (location demo_state) = ''t''"
    unfolding demo_state_sel using strip_s3_prefix_location [of "''b''" "''t''"] by simp
  have "store_get (mem_env demo_docs) demo_store (metadata_path ''t'' 1) = Inr (Inr ''0'')"
    by (simp add: mem_env_def demo_store_def)
  with updates_keep_old_documents [OF mem_env_ok [OF d] demo_load pfx,
      of "[Append_Files 9 demo_files [] ''append'', Evolve_Schema 10 []]"]
  show ?thesis by (auto simp: fits_i32_def)
qed

text \<open>C23. Nothing stops two writers that start from the same loaded state: if both appends succeed, which the
  store alone decides, they have written the same document, and what is loaded from it is the old history with
  the second snapshot only. The first one is lost without an error.\<close>

theorem stale_append_overwrites:
  assumes "env_ok E" and "load_table_state E s0 p0 = Ok st"
    and "get_array ''snapshots'' (metadata st) \<noteq> None" and "fits_i64 now2"
    and "0 \<le> metadata_version st" and "fits_i32 (metadata_version st + 1)"
    and "append_snapshot E now1 st files1 schema1 op1 s = (Ok path1, s1)"
    and "append_snapshot E now2 st files2 schema2 op2 s1 = (Ok path2, s2)"
  shows "path2 = path1 \<and> (\<exists>st2 n. load_table_state E s2 path1 = Ok st2 \<and>
     snapshots st2 = snapshots st @ [n] \<and> snapshot_id n = now2)"
proof -
  have path: "path = next_path st"
    if "append_snapshot E now st files schema op s = (Ok path, s')" for now files schema op s path s'
  proof -
    from append_snapshot_Ok [OF that] obtain m t where "write_version E st m t = (Ok path, s')" by blast
    from write_version_load [OF assms(1) this] show ?thesis by (simp add: next_path_def)
  qed
  from append_snapshot_Ok [OF assms(8)] obtain m t where m:
    "appended_metadata st now2 op2 files2 schema2 = Ok m" "write_version E st m t = (Ok path2, s2)" by blast
  have st: "st = state_of_metadata (metadata st) p0" using assms(2) by (rule load_table_state_Ok)
  have "parse_snapshots m = parse_snapshots (metadata st) @ [parse_snapshot (new_snapshot_json st now2 op2 files2)]"
    by (rule parse_snapshots_append [OF appended_metadata_get(1) [OF m(1)] assms(3)])
  moreover have "snapshots st = parse_snapshots (metadata st)" using arg_cong [OF st, of snapshots] by simp
  moreover have "snapshot_id (parse_snapshot (new_snapshot_json st now2 op2 files2)) = now2"
    using assms(4) by (simp add: parse_snapshot_def new_snapshot_json_def Let_def get_i64_def)
  ultimately show ?thesis
    using write_version_load [OF assms(1) m(2)] path [OF assms(7)] path [OF assms(8)] by auto
qed

lemma demo_append_any:
  "\<exists>s'. append_snapshot (mem_env demo_docs) 9 demo_state demo_files [] ''append'' s = (Ok (metadata_path ''t'' 2), s')"
proof -
  from demo_appended obtain m where m: "appended_metadata demo_state 9 ''append'' demo_files [] = Ok m"
    "jget ''manifests'' m = None" "jget ''last-updated-ms'' m = Some (JInt 9)" by blast
  let ?ml = "manifest_list_json (location demo_state) 9 demo_files"
  have pfx: "strip_s3_prefix ''s3://b/t'' = ''t''"
    using strip_s3_prefix_location [of "''b''" "''t''"] by simp
  have "demo_metadata \<noteq> ?ml"
    by (rule json_neq [of "''manifests''"]) (simp add: demo_metadata_def manifest_list_json_def)
  moreover have "demo_metadata \<noteq> m"
    by (rule json_neq [of "''last-updated-ms''"]) (simp add: demo_metadata_def m(3))
  moreover have "?ml \<noteq> m"
    by (rule json_neq [of "''manifests''"]) (simp add: manifest_list_json_def m(2))
  moreover have "demo_files \<noteq> []" by (simp add: demo_files_def)
  ultimately show ?thesis
    using m(1) pfx by (simp add: append_snapshot_def write_version_def put_json_def mem_env_def docs_print_def
        demo_docs_def demo_state_sel(1,3) wrap_i32_def Let_def)
qed

lemma stale_append_overwrites_witness:
  "\<exists>s1 s2 st2. append_snapshot (mem_env demo_docs) 9 demo_state demo_files [] ''append'' demo_store =
       (Ok (metadata_path ''t'' 2), s1) \<and>
     append_snapshot (mem_env demo_docs) 9 demo_state demo_files [] ''append'' s1 =
       (Ok (metadata_path ''t'' 2), s2) \<and>
     load_table_state (mem_env demo_docs) s2 (metadata_path ''t'' 2) = Ok st2 \<and> length (snapshots st2) = 2"
proof -
  have d: "distinct (map fst demo_docs)" by (simp add: demo_docs_def)
  obtain s1 where s1: "append_snapshot (mem_env demo_docs) 9 demo_state demo_files [] ''append'' demo_store =
       (Ok (metadata_path ''t'' 2), s1)" using demo_append_any by blast
  obtain s2 where s2: "append_snapshot (mem_env demo_docs) 9 demo_state demo_files [] ''append'' s1 =
       (Ok (metadata_path ''t'' 2), s2)" using demo_append_any by blast
  from stale_append_overwrites [OF mem_env_ok [OF d] demo_load _ _ _ _ s1 s2] s1 s2
  show ?thesis by (force simp: demo_state_sel demo_metadata_def get_array_def fits_i64_def fits_i32_def)
qed

end
