(* ===== verification/Rest_Catalog.thy ===== *)
theory Rest_Catalog
  imports Json
begin

text \<open>
  The Iceberg REST catalog: \<open>crates/rustlake-api/src/iceberg_rest_catalog.rs\<close>. The process-wide
  state behind one lock, the handlers of the nine endpoints with their status codes and error
  bodies, the two existence checks, and the calls other modules make. Each handler holds the lock
  for all it does with the state, so a handler is one step. The clock and the random UUID are
  arguments; logging is left out. Hash maps are finite maps, and what is collected from their
  iteration, whose order is unspecified, is a set.
\<close>

section \<open>Types\<close>

type_synonym properties = "(string, string) fmap"

definition ns_to_key :: "string list \<Rightarrow> string" where
  "ns_to_key levels = join_with ''.'' levels"

definition ns_from_key :: "string \<Rightarrow> string list" where
  "ns_from_key key = split_char (CHR ''.'') key"

record namespace_metadata =
  ns_levels :: "string list"
  ns_properties :: properties

record table_identifier =
  tid_namespace :: "string list"
  tid_name :: string

definition table_to_key :: "table_identifier \<Rightarrow> string" where
  "table_to_key t = ns_to_key (tid_namespace t) @ ''::'' @ tid_name t"

definition table_display :: "table_identifier \<Rightarrow> string" where
  "table_display t = ns_to_key (tid_namespace t) @ ''.'' @ tid_name t"

record table_entry =
  metadata_location :: string
  entry_metadata :: json
  last_updated_ms :: int

record catalog_config =
  overrides :: properties
  defaults :: properties

record catalog_state =
  namespaces :: "(string, namespace_metadata) fmap"
  tables :: "(string, table_entry) fmap"
  config :: catalog_config
  next_snapshot_id :: int

definition default_catalog_config :: catalog_config where
  "default_catalog_config =
     \<lparr>overrides = fmempty,
      defaults = fmap_of_list [(''warehouse'', ''rustlake''),
        (''uri'', ''http://localhost:3000/api/v1/iceberg/v1'')]\<rparr>"

definition new_catalog :: catalog_state where
  "new_catalog =
     \<lparr>namespaces = fmap_of_list [(''default'',
        \<lparr>ns_levels = [''default''], ns_properties = fmap_of_list [(''owner'', ''rustlake'')]\<rparr>)],
      tables = fmempty,
      config = default_catalog_config,
      next_snapshot_id = 1\<rparr>"

definition alloc_snapshot_id :: "catalog_state \<Rightarrow> int \<times> catalog_state" where
  "alloc_snapshot_id s =
     (next_snapshot_id s, s\<lparr>next_snapshot_id := wrap_i64 (next_snapshot_id s + 1)\<rparr>)"

section \<open>Requests and responses\<close>

record schema_field =
  sf_id :: int
  sf_name :: string
  sf_type :: json
  sf_required :: bool
  sf_doc :: "string option"

record iceberg_schema =
  rs_schema_id :: int
  rs_fields :: "schema_field list"
  rs_identifier_ids :: "int list"

record req_partition_field =
  rp_source_id :: int
  rp_field_id :: int
  rp_name :: string
  rp_transform :: string

record partition_spec =
  rp_spec_id :: int
  rp_fields :: "req_partition_field list"

record sort_field =
  so_source_id :: int
  so_transform :: string
  so_direction :: string
  so_null_order :: string

record sort_order =
  so_order_id :: int
  so_fields :: "sort_field list"

record create_table_request =
  req_name :: string
  req_schema :: iceberg_schema
  req_partition_spec :: "partition_spec option"
  req_write_order :: "sort_order option"
  req_properties :: properties
  req_location :: "string option"

record error_response =
  message :: string
  error_type :: string
  code :: nat

definition not_found :: "string \<Rightarrow> error_response" where
  "not_found m = \<lparr>message = m, error_type = ''NoSuchNamespaceException'', code = 404\<rparr>"

definition table_not_found :: "string \<Rightarrow> error_response" where
  "table_not_found m = \<lparr>message = m, error_type = ''NoSuchTableException'', code = 404\<rparr>"

definition conflict :: "string \<Rightarrow> error_response" where
  "conflict m = \<lparr>message = m, error_type = ''AlreadyExistsException'', code = 409\<rparr>"

definition bad_request :: "string \<Rightarrow> error_response" where
  "bad_request m = \<lparr>message = m, error_type = ''BadRequestException'', code = 400\<rparr>"

definition not_empty :: "string \<Rightarrow> error_response" where
  "not_empty m = \<lparr>message = m, error_type = ''NamespaceNotEmptyException'', code = 409\<rparr>"

text \<open>A response is an error body, whose code is the status, or a status with its body.\<close>

type_synonym 'a reply = "error_response + nat \<times> 'a"

section \<open>Namespaces\<close>

definition decode_namespace_path :: "string \<Rightarrow> string" where
  "decode_namespace_path raw =
     replace_str [CHR 0x1F] ''.''
       (replace_str ''%1f'' [CHR 0x1F] (replace_str ''%1F'' [CHR 0x1F] raw))"

definition get_config :: "catalog_state \<Rightarrow> catalog_config" where
  "get_config s = config s"

definition list_namespaces :: "string option \<Rightarrow> catalog_state \<Rightarrow> string list set" where
  "list_namespaces parent s =
     (let all = ns_levels ` fmran' (namespaces s)
      in case parent of
           None \<Rightarrow> all
         | Some p \<Rightarrow>
             (let lv = ns_from_key p
              in {ns \<in> all. length lv < length ns \<and> take (length lv) ns = lv}))"

definition create_namespace ::
  "string list \<Rightarrow> properties \<Rightarrow> catalog_state \<Rightarrow> namespace_metadata reply \<times> catalog_state" where
  "create_namespace levels props s =
     (if levels = [] then (Inl (bad_request ''Namespace must not be empty''), s)
      else let key = ns_to_key levels
        in if fmlookup (namespaces s) key \<noteq> None
           then (Inl (conflict (''Namespace already exists: '' @ key)), s)
           else let m = \<lparr>ns_levels = levels, ns_properties = props\<rparr>
                in (Inr (200, m), s\<lparr>namespaces := fmupd key m (namespaces s)\<rparr>))"

definition get_namespace :: "string \<Rightarrow> catalog_state \<Rightarrow> namespace_metadata reply" where
  "get_namespace ns s =
     (let key = decode_namespace_path ns
      in case fmlookup (namespaces s) key of
           Some m \<Rightarrow> Inr (200, m)
         | None \<Rightarrow> Inl (not_found (''Namespace does not exist: '' @ key)))"

definition tables_of :: "string \<Rightarrow> catalog_state \<Rightarrow> string set" where
  "tables_of key s = {k \<in> fmdom' (tables s). starts_with k (key @ ''::'')}"

definition drop_namespace :: "string \<Rightarrow> catalog_state \<Rightarrow> unit reply \<times> catalog_state" where
  "drop_namespace ns s =
     (let key = decode_namespace_path ns
      in if fmlookup (namespaces s) key = None
         then (Inl (not_found (''Namespace does not exist: '' @ key)), s)
         else if tables_of key s \<noteq> {}
         then (Inl (not_empty (''Namespace is not empty: '' @ key)), s)
         else (Inr (204, ()), s\<lparr>namespaces := fmdrop key (namespaces s)\<rparr>))"

section \<open>Tables\<close>

definition list_tables :: "string \<Rightarrow> catalog_state \<Rightarrow> table_identifier set reply" where
  "list_tables ns s =
     (let key = decode_namespace_path ns
      in if fmlookup (namespaces s) key = None
         then Inl (not_found (''Namespace does not exist: '' @ key))
         else Inr (200, (\<lambda>k. \<lparr>tid_namespace = ns_from_key key,
                              tid_name = unwrap_or k (strip_prefix k (key @ ''::''))\<rparr>) `
                        tables_of key s))"

definition partition_spec_json :: "partition_spec option \<Rightarrow> json" where
  "partition_spec_json ps =
     (case ps of
        None \<Rightarrow> jobj [(''spec-id'', JInt 0), (''fields'', JArr [])]
      | Some p \<Rightarrow> jobj
          [(''spec-id'', JInt (rp_spec_id p)),
           (''fields'', JArr (map (\<lambda>f. jobj
              [(''source-id'', JInt (rp_source_id f)), (''field-id'', JInt (rp_field_id f)),
               (''name'', JStr (rp_name f)), (''transform'', JStr (rp_transform f))]) (rp_fields p)))])"

definition sort_order_json :: "sort_order option \<Rightarrow> json" where
  "sort_order_json so =
     (case so of
        None \<Rightarrow> jobj [(''order-id'', JInt 0), (''fields'', JArr [])]
      | Some p \<Rightarrow> jobj
          [(''order-id'', JInt (so_order_id p)),
           (''fields'', JArr (map (\<lambda>f. jobj
              [(''source-id'', JInt (so_source_id f)), (''transform'', JStr (so_transform f)),
               (''direction'', JStr (so_direction f)), (''null-order'', JStr (so_null_order f))])
              (so_fields p)))])"

definition schema_field_json :: "schema_field \<Rightarrow> json" where
  "schema_field_json f = jobj
     ([(''id'', JInt (sf_id f)), (''name'', JStr (sf_name f)), (''type'', sf_type f),
       (''required'', JBool (sf_required f))] @
      (case sf_doc f of Some d \<Rightarrow> [(''doc'', JStr d)] | None \<Rightarrow> []))"

definition req_schema_json :: "iceberg_schema \<Rightarrow> json" where
  "req_schema_json sc = jobj
     [(''type'', JStr ''struct''), (''schema-id'', JInt (rs_schema_id sc)),
      (''fields'', JArr (map schema_field_json (rs_fields sc))),
      (''identifier-field-ids'', JArr (map JInt (rs_identifier_ids sc)))]"

definition with_format_version :: "properties \<Rightarrow> properties" where
  "with_format_version p =
     (if fmlookup p ''format-version'' = None then fmupd ''format-version'' ''2'' p else p)"

definition table_metadata_json :: "int \<Rightarrow> string \<Rightarrow> string \<Rightarrow> create_table_request \<Rightarrow> json" where
  "table_metadata_json now table_uuid loc req =
     (let ps = partition_spec_json (req_partition_spec req);
          so = sort_order_json (req_write_order req);
          ids = map sf_id (rs_fields (req_schema req))
      in jobj
     [(''format-version'', JInt 2),
      (''table-uuid'', JStr table_uuid),
      (''location'', JStr loc),
      (''last-sequence-number'', JInt 0),
      (''last-updated-ms'', JInt now),
      (''last-column-id'', JInt (if ids = [] then 0 else Max (set ids))),
      (''current-schema-id'', JInt (rs_schema_id (req_schema req))),
      (''schemas'', JArr [req_schema_json (req_schema req)]),
      (''default-spec-id'', JInt (unwrap_or 0 (get_i64 ''spec-id'' ps))),
      (''partition-specs'', JArr [ps]),
      (''last-partition-id'', JInt 999),
      (''default-sort-order-id'', JInt (unwrap_or 0 (get_i64 ''order-id'' so))),
      (''sort-orders'', JArr [so]),
      (''properties'', JObj (fmmap JStr (with_format_version (req_properties req)))),
      (''current-snapshot-id'', JInt (- 1)),
      (''refs'', jobj []),
      (''snapshots'', JArr []),
      (''snapshot-log'', JArr []),
      (''metadata-log'', JArr []),
      (''statistics'', JArr []),
      (''partition-statistics'', JArr [])])"

definition create_table ::
  "int \<Rightarrow> string \<Rightarrow> string \<Rightarrow> create_table_request \<Rightarrow> catalog_state \<Rightarrow>
   (string \<times> json) reply \<times> catalog_state" where
  "create_table now table_uuid ns req s =
     (let ns_key = decode_namespace_path ns
      in if req_name req = [] then (Inl (bad_request ''Table name must not be empty''), s)
         else if fmlookup (namespaces s) ns_key = None
         then (Inl (not_found (''Namespace does not exist: '' @ ns_key)), s)
         else
           let table_id = \<lparr>tid_namespace = ns_from_key ns_key, tid_name = req_name req\<rparr>;
               table_key = table_to_key table_id
           in if fmlookup (tables s) table_key \<noteq> None
              then (Inl (conflict (''Table already exists: '' @ table_display table_id)), s)
              else
                let base = ''s3://rustlake-warehouse/'' @ replace_str ''.'' ''/'' ns_key @ ''/'' @
                           req_name req;
                    loc = unwrap_or (base @ ''/data'') (req_location req);
                    meta_loc = base @ ''/metadata/v1.metadata.json'';
                    (snapshot_id, s1) = alloc_snapshot_id s;
                    md = table_metadata_json now table_uuid loc req;
                    e = \<lparr>metadata_location = meta_loc, entry_metadata = md, last_updated_ms = now\<rparr>
                in (Inr (200, meta_loc, md), s1\<lparr>tables := fmupd table_key e (tables s1)\<rparr>))"

definition load_table :: "string \<Rightarrow> string \<Rightarrow> catalog_state \<Rightarrow> (string \<times> json) reply" where
  "load_table ns table s =
     (let ns_key = decode_namespace_path ns; table_key = ns_key @ ''::'' @ table
      in if fmlookup (namespaces s) ns_key = None
         then Inl (not_found (''Namespace does not exist: '' @ ns_key))
         else case fmlookup (tables s) table_key of
                Some e \<Rightarrow> Inr (200, metadata_location e, entry_metadata e)
              | None \<Rightarrow> Inl (table_not_found (''Table does not exist: '' @ ns_key @ ''.'' @ table)))"

definition drop_table :: "string \<Rightarrow> string \<Rightarrow> catalog_state \<Rightarrow> unit reply \<times> catalog_state" where
  "drop_table ns table s =
     (let ns_key = decode_namespace_path ns; table_key = ns_key @ ''::'' @ table
      in if fmlookup (namespaces s) ns_key = None
         then (Inl (not_found (''Namespace does not exist: '' @ ns_key)), s)
         else if fmlookup (tables s) table_key \<noteq> None
         then (Inr (204, ()), s\<lparr>tables := fmdrop table_key (tables s)\<rparr>)
         else (Inl (table_not_found (''Table does not exist: '' @ ns_key @ ''.'' @ table)), s))"

definition report_metrics :: "string \<Rightarrow> string \<Rightarrow> catalog_state \<Rightarrow> nat" where
  "report_metrics ns table s = 204"

definition table_exists :: "string \<Rightarrow> string \<Rightarrow> catalog_state \<Rightarrow> nat" where
  "table_exists ns table s =
     (if fmlookup (tables s) (decode_namespace_path ns @ ''::'' @ table) \<noteq> None then 200 else 404)"

definition namespace_exists :: "string \<Rightarrow> catalog_state \<Rightarrow> nat" where
  "namespace_exists ns s =
     (if fmlookup (namespaces s) (decode_namespace_path ns) \<noteq> None then 200 else 404)"

section \<open>Calls from other modules\<close>

definition register_table_in_catalog ::
  "int \<Rightarrow> string \<Rightarrow> string \<Rightarrow> string \<Rightarrow> json \<Rightarrow> catalog_state \<Rightarrow> catalog_state" where
  "register_table_in_catalog now ns_key table_name meta_loc md s =
     (let table_key = ns_key @ ''::'' @ table_name;
          s1 = (if fmlookup (namespaces s) ns_key \<noteq> None then s
                else s\<lparr>namespaces := fmupd ns_key
                   \<lparr>ns_levels = split_char (CHR ''.'') ns_key,
                    ns_properties = fmap_of_list
                      [(''owner'', ''rustlake-cdc''), (''created-by'', ''auto-register'')]\<rparr>
                   (namespaces s)\<rparr>);
          e = \<lparr>metadata_location = meta_loc, entry_metadata = md, last_updated_ms = now\<rparr>
      in s1\<lparr>tables := fmupd table_key e (tables s1)\<rparr>)"

definition update_table_metadata ::
  "int \<Rightarrow> string \<Rightarrow> string \<Rightarrow> string \<Rightarrow> json \<Rightarrow> catalog_state \<Rightarrow> unit result \<times> catalog_state" where
  "update_table_metadata now ns table_name meta_loc md s =
     (let table_key = ns @ ''::'' @ table_name
      in case fmlookup (tables s) table_key of
           Some e \<Rightarrow>
             (Ok (), s\<lparr>tables := fmupd table_key
                (e\<lparr>metadata_location := meta_loc, entry_metadata := md, last_updated_ms := now\<rparr>)
                (tables s)\<rparr>)
         | None \<Rightarrow> (Err (''Table not found in catalog: '' @ table_key), s))"

text \<open>\<open>key.splitn(2, "::")\<close>, with the defaults of a missing part.\<close>

definition key_parts :: "string \<Rightarrow> string \<times> string" where
  "key_parts key =
     (case find_str key ''::'' of
        Some i \<Rightarrow> (take i key, drop (i + 2) key)
      | None \<Rightarrow> (key, ''unknown''))"

definition list_all_catalog_tables :: "catalog_state \<Rightarrow> (string \<times> string \<times> string) set" where
  "list_all_catalog_tables s =
     {(fst (key_parts k), snd (key_parts k), metadata_location e) | k e. fmlookup (tables s) k = Some e}"

definition catalog_stats :: "catalog_state \<Rightarrow> nat \<times> nat" where
  "catalog_stats s = (fcard (fmdom (namespaces s)), fcard (fmdom (tables s)))"

section \<open>The operations that change the catalog\<close>

datatype catalog_op =
    Create_Namespace "string list" properties
  | Drop_Namespace string
  | Create_Table int string string create_table_request
  | Drop_Table string string
  | Register_Table int string string string json
  | Update_Table int string string string json

fun catalog_step :: "catalog_op \<Rightarrow> catalog_state \<Rightarrow> catalog_state" where
  "catalog_step (Create_Namespace levels props) s = snd (create_namespace levels props s)"
| "catalog_step (Drop_Namespace ns) s = snd (drop_namespace ns s)"
| "catalog_step (Create_Table now uuid ns req) s = snd (create_table now uuid ns req s)"
| "catalog_step (Drop_Table ns t) s = snd (drop_table ns t s)"
| "catalog_step (Register_Table now ns t l md) s = register_table_in_catalog now ns t l md s"
| "catalog_step (Update_Table now ns t l md) s = snd (update_table_metadata now ns t l md s)"

text \<open>A namespace is stored under its own key, and every table under a namespace that exists.\<close>

definition catalog_ok :: "catalog_state \<Rightarrow> bool" where
  "catalog_ok s \<longleftrightarrow>
     (\<forall>k m. fmlookup (namespaces s) k = Some m \<longrightarrow> ns_to_key (ns_levels m) = k) \<and>
     (\<forall>k e. fmlookup (tables s) k = Some e \<longrightarrow>
        (\<exists>ns t. k = ns @ ''::'' @ t \<and> fmlookup (namespaces s) ns \<noteq> None))"

lemma ns_key_roundtrip [simp]: "ns_to_key (ns_from_key k) = k"
  by (simp add: ns_to_key_def ns_from_key_def join_split_char)

lemma ns_key_split [simp]: "ns_to_key (split_char (CHR ''.'') k) = k"
  by (simp add: ns_to_key_def join_split_char)

lemma catalog_ok_new: "catalog_ok new_catalog"
  by (auto simp: catalog_ok_def new_catalog_def fmlookup_of_list ns_to_key_def split: if_splits)

lemma catalog_ok_add_table:
  assumes "catalog_ok s" and "fmlookup (namespaces s) ns \<noteq> None"
    and "namespaces s' = namespaces s" and "tables s' = fmupd (ns @ ''::'' @ t) e (tables s)"
  shows "catalog_ok s'"
  using assms unfolding catalog_ok_def by (auto split: if_splits)

lemma catalog_ok_add_ns:
  assumes "catalog_ok s" and "ns_to_key (ns_levels m) = k"
    and "namespaces s' = fmupd k m (namespaces s)" and "tables s' = tables s"
  shows "catalog_ok s'"
  using assms unfolding catalog_ok_def by auto (metis option.distinct(1))

lemma catalog_ok_drop_ns:
  assumes "catalog_ok s" and "tables_of k s = {}"
  shows "catalog_ok (s\<lparr>namespaces := fmdrop k (namespaces s)\<rparr>)"
proof -
  have "ns \<noteq> k" if "fmlookup (tables s) (ns @ ''::'' @ t) = Some e" for ns t e
  proof
    assume "ns = k"
    with that have "ns @ ''::'' @ t \<in> tables_of k s"
      by (auto simp: tables_of_def starts_with_def fmlookup_dom'_iff)
    with assms(2) show False by simp
  qed
  then have "\<exists>ns t. ka = ns @ ''::'' @ t \<and> fmlookup (fmdrop k (namespaces s)) ns \<noteq> None"
    if "fmlookup (tables s) ka = Some e" for ka e
    using assms(1) that unfolding catalog_ok_def by (metis fmlookup_drop)
  moreover have "ns_to_key (ns_levels m) = ka" if "fmlookup (fmdrop k (namespaces s)) ka = Some m" for ka m
    using assms(1) that by (auto simp: catalog_ok_def split: if_splits)
  ultimately show ?thesis by (simp add: catalog_ok_def)
qed

lemma catalog_step_ok: "catalog_ok s \<Longrightarrow> catalog_ok (catalog_step op s)"
proof (cases op)
  case (Create_Namespace levels props)
  assume "catalog_ok s"
  with Create_Namespace show ?thesis
    by (auto simp: create_namespace_def Let_def
        intro!: catalog_ok_add_ns [of s "\<lparr>ns_levels = levels, ns_properties = props\<rparr>" "ns_to_key levels"])
next
  case (Drop_Namespace ns)
  assume "catalog_ok s"
  with Drop_Namespace show ?thesis
    by (simp add: drop_namespace_def Let_def catalog_ok_drop_ns)
next
  case (Create_Table now uuid ns req)
  assume ok: "catalog_ok s"
  let ?k = "decode_namespace_path ns"
  show ?thesis
  proof (cases "fmlookup (namespaces s) ?k")
    case None
    with Create_Table ok show ?thesis by (simp add: create_table_def Let_def)
  next
    case (Some m)
    with Create_Table ok show ?thesis
      by (auto simp: create_table_def Let_def alloc_snapshot_id_def table_to_key_def
          intro!: catalog_ok_add_table [of s ?k _ "req_name req"])
  qed
next
  case (Drop_Table ns t)
  assume "catalog_ok s"
  with Drop_Table show ?thesis
    by (auto simp: drop_table_def Let_def catalog_ok_def)
next
  case (Register_Table now ns t l md)
  assume ok: "catalog_ok s"
  let ?m = "\<lparr>ns_levels = split_char (CHR ''.'') ns,
      ns_properties = fmap_of_list [(''owner'', ''rustlake-cdc''), (''created-by'', ''auto-register'')]\<rparr>"
  let ?s1 = "if fmlookup (namespaces s) ns \<noteq> None then s else s\<lparr>namespaces := fmupd ns ?m (namespaces s)\<rparr>"
  have "catalog_ok ?s1" using ok by (auto intro!: catalog_ok_add_ns [OF ok, of ?m ns])
  moreover have "fmlookup (namespaces ?s1) ns \<noteq> None" by simp
  ultimately show ?thesis unfolding Register_Table catalog_step.simps register_table_in_catalog_def Let_def
    by (rule catalog_ok_add_table) simp_all
next
  case (Update_Table now ns t l md)
  assume ok: "catalog_ok s"
  show ?thesis
  proof (cases "fmlookup (tables s) (ns @ ''::'' @ t)")
    case None
    with Update_Table ok show ?thesis by (simp add: update_table_metadata_def)
  next
    case (Some e)
    with ok show ?thesis unfolding Update_Table catalog_ok_def
      by (auto simp: update_table_metadata_def)
  qed
qed

interpretation catalog: state_invariant catalog_step new_catalog catalog_ok
  by unfold_locales (auto intro: catalog_ok_new catalog_step_ok)

text \<open>C9. Whatever the clients and the other modules call, in any order: every namespace stays filed
  under its own key, and every table stays inside a namespace that exists.\<close>

theorem no_table_without_namespace:
  "catalog_ok (fold catalog_step ops new_catalog)"
  by (rule catalog.inv_run)

section \<open>What the handlers answer\<close>

lemma replace_str_skip:
  "p \<noteq> [] \<Longrightarrow> hd p \<notin> set a \<Longrightarrow> replace_str p r (a @ b) = a @ replace_str p r b"
  by (induction a) (auto simp: neq_Nil_conv)

lemma replace_str_head: "p \<noteq> [] \<Longrightarrow> replace_str p r (p @ b) = r @ replace_str p r b"
  by (cases p) auto

lemma replace_str_join:
  assumes "p \<noteq> []" and "\<forall>x \<in> set xs. hd p \<notin> set x"
  shows "replace_str p r (join_with p xs) = join_with r xs"
  using assms(2)
proof (induction xs rule: induct_list012)
  case 1
  then show ?case by simp
next
  case (2 x)
  then show ?case using replace_str_skip [OF assms(1), of x r "[]"] by simp
next
  case (3 x y ys)
  then show ?case using assms(1) by (simp add: replace_str_skip replace_str_head)
qed

lemma set_join_with: "set (join_with sep xs) \<subseteq> set sep \<union> (\<Union>x \<in> set xs. set x)"
  by (induction sep xs rule: join_with.induct) auto

lemma replace_str_absent_char: "p \<noteq> [] \<Longrightarrow> hd p \<notin> set s \<Longrightarrow> replace_str p r s = s"
  using replace_str_skip [of p s r "[]"] by simp

text \<open>The encodings of a multi-level namespace in a request path: the levels with a unit separator
  (percent-encoded in either case, or raw) or a dot between them.\<close>

definition path_separators :: "string set" where
  "path_separators = {''%1F'', ''%1f'', [CHR 0x1F], ''.''}"

lemma decode_join:
  assumes "sep \<in> path_separators" and "\<forall>x \<in> set levels. CHR ''%'' \<notin> set x \<and> CHR 0x1F \<notin> set x"
  shows "decode_namespace_path (join_with sep levels) = ns_to_key levels"
proof -
  let ?us = "[CHR 0x1F]"
  have no: "CHR ''%'' \<notin> set (join_with ?us levels)" "CHR ''%'' \<notin> set (join_with ''.'' levels)"
    "CHR 0x1F \<notin> set (join_with ''.'' levels)"
    using assms(2) set_join_with [of ?us levels] set_join_with [of "''.''" levels] by auto
  have j: "p \<noteq> [] \<Longrightarrow> hd p = CHR ''%'' \<or> hd p = CHR 0x1F \<Longrightarrow>
      replace_str p r (join_with p levels) = join_with r levels" for p r
    using assms(2) by (intro replace_str_join) auto
  have 1: "replace_str ''%1F'' ?us (join_with ''%1F'' levels) = join_with ?us levels"
    and 2: "replace_str ''%1f'' ?us (join_with ''%1f'' levels) = join_with ?us levels"
    and 3: "replace_str ?us ''.'' (join_with ?us levels) = join_with ''.'' levels"
    by (simp_all add: j)
  have F: "replace_str ''%1F'' ?us (join_with ''%1f'' levels) = join_with ''%1f'' levels"
  proof -
    have "\<not> contains (join_with ''%1f'' levels) ''%1F''"
    proof
      assume "contains (join_with ''%1f'' levels) ''%1F''"
      then show False using assms(2)
      proof (induction levels rule: induct_list012)
        case 1
        then show ?case by (simp add: contains_def)
      next
        case (2 x)
        then obtain a b where "x = a @ ''%1F'' @ b" by (auto simp: contains_iff)
        with 2 show ?case by simp
      next
        case (3 x y zs)
        let ?r = "join_with ''%1f'' (y # zs)"
        from 3(3) obtain a b where ab: "x @ ''%1f'' @ ?r = a @ ''%1F'' @ b" by (auto simp: contains_iff)
        have x: "CHR ''%'' \<notin> set x" using 3(4) by simp
        from ab obtain us where us: "(x = a @ us \<and> us @ ''%1f'' @ ?r = ''%1F'' @ b) \<or>
            (x @ us = a \<and> ''%1f'' @ ?r = us @ ''%1F'' @ b)" unfolding append_eq_append_conv2 by blast
        then show False
        proof
          assume "x = a @ us \<and> us @ ''%1f'' @ ?r = ''%1F'' @ b"
          with x show False by (cases us) auto
        next
          assume "x @ us = a \<and> ''%1f'' @ ?r = us @ ''%1F'' @ b"
          then obtain us' where "us = ''%1f'' @ us' \<and> ?r = us' @ ''%1F'' @ b"
            by (auto simp: Cons_eq_append_conv)
          then have "contains ?r ''%1F''" by (auto simp: contains_iff)
          with 3 show False by simp
        qed
      qed
    qed
    then show ?thesis by (rule replace_str_absent)
  qed
  from assms(1) show ?thesis
    unfolding path_separators_def decode_namespace_path_def ns_to_key_def
    using no by (auto simp: 1 2 3 F replace_str_absent_char)
qed

text \<open>A namespace that was created is found under every encoding of its levels, with the
  properties it was given, and creating it again answers 409 and changes nothing.\<close>

theorem created_namespace_is_found:
  assumes "create_namespace levels props s = (Inr r, s')"
    and "\<forall>x \<in> set levels. CHR ''%'' \<notin> set x \<and> CHR 0x1F \<notin> set x" and "sep \<in> path_separators"
  shows "get_namespace (join_with sep levels) s' = Inr (200, \<lparr>ns_levels = levels, ns_properties = props\<rparr>) \<and>
    namespace_exists (join_with sep levels) s' = 200 \<and>
    (\<exists>e. create_namespace levels props' s' = (Inl e, s') \<and> code e = 409)"
  using assms(1) decode_join [OF assms(3,2)]
  by (auto simp: create_namespace_def get_namespace_def namespace_exists_def Let_def conflict_def split: if_splits)

lemma created_namespace_is_found_witness:
  "\<exists>s'. snd (create_namespace [''a'', ''b''] fmempty new_catalog) = s' \<and>
     get_namespace ''a%1fb'' s' = Inr (200, \<lparr>ns_levels = [''a'', ''b''], ns_properties = fmempty\<rparr>)"
proof -
  have "\<exists>r s'. create_namespace [''a'', ''b''] fmempty new_catalog = (Inr r, s')"
    by (simp add: Let_def create_namespace_def new_catalog_def ns_to_key_def fmlookup_of_list)
  then obtain r s' where s': "create_namespace [''a'', ''b''] fmempty new_catalog = (Inr r, s')" by blast
  from created_namespace_is_found [OF s', of "''%1f''" fmempty] s' show ?thesis
    by (auto simp: path_separators_def)
qed

text \<open>C15. A table that was created loads with the location and metadata of the answer, is listed in
  its namespace and blocks a second creation and the dropping of the namespace (409 both times);
  every lookup with another key answers as before.\<close>

theorem created_table_is_served:
  assumes "create_table now uuid ns req s = (Inr (status, loc, md), s')"
  shows "status = 200 \<and> load_table ns (req_name req) s' = Inr (200, loc, md) \<and>
    table_exists ns (req_name req) s' = 200 \<and>
    (\<exists>ids. list_tables ns s' = Inr (200, ids) \<and>
       \<lparr>tid_namespace = ns_from_key (decode_namespace_path ns), tid_name = req_name req\<rparr> \<in> ids) \<and>
    (\<exists>e. create_table now' uuid' ns req s' = (Inl e, s') \<and> code e = 409) \<and>
    (\<exists>e. drop_namespace ns s' = (Inl e, s') \<and> code e = 409) \<and>
    (\<forall>ns2 t2. decode_namespace_path ns2 @ ''::'' @ t2 \<noteq> decode_namespace_path ns @ ''::'' @ req_name req \<longrightarrow>
       load_table ns2 t2 s' = load_table ns2 t2 s)"
proof -
  let ?ns = "decode_namespace_path ns"
  let ?key = "?ns @ ''::'' @ req_name req"
  define e where "e = \<lparr>metadata_location = loc, entry_metadata = md, last_updated_ms = now\<rparr>"
  have name: "req_name req \<noteq> []" and nsok: "fmlookup (namespaces s) ?ns \<noteq> None"
    and st: "status = 200" and e: "metadata_location e = loc" "entry_metadata e = md"
    and s': "namespaces s' = namespaces s" "tables s' = fmupd ?key e (tables s)"
    using assms by (auto simp: e_def create_table_def Let_def alloc_snapshot_id_def table_to_key_def split: if_splits)
  have k: "?key \<in> tables_of ?ns s'"
    using s' by (auto simp: tables_of_def starts_with_def fmlookup_dom'_iff)
  then have "\<lparr>tid_namespace = ns_from_key ?ns, tid_name = req_name req\<rparr> \<in>
      (\<lambda>k. \<lparr>tid_namespace = ns_from_key ?ns, tid_name = unwrap_or k (strip_prefix k (?ns @ ''::''))\<rparr>) `
        tables_of ?ns s'"
    using strip_prefix_append [of "?ns @ ''::''" "req_name req"] by (intro image_eqI) auto
  then have "\<exists>ids. list_tables ns s' = Inr (200, ids) \<and>
       \<lparr>tid_namespace = ns_from_key ?ns, tid_name = req_name req\<rparr> \<in> ids"
    using nsok s' by (simp add: list_tables_def Let_def)
  moreover have "\<exists>e. drop_namespace ns s' = (Inl e, s') \<and> code e = 409"
    using k nsok s' by (auto simp: drop_namespace_def Let_def not_empty_def)
  moreover have "\<exists>e. create_table now' uuid' ns req s' = (Inl e, s') \<and> code e = 409"
    using name nsok s' by (auto simp: create_table_def Let_def table_to_key_def conflict_def)
  moreover have "load_table ns2 t2 s' = load_table ns2 t2 s"
    if "decode_namespace_path ns2 @ ''::'' @ t2 \<noteq> ?key" for ns2 t2
    using that s' by (simp add: load_table_def Let_def)
  moreover have "load_table ns (req_name req) s' = Inr (200, loc, md)" "table_exists ns (req_name req) s' = 200"
    using nsok s' e by (simp_all add: load_table_def table_exists_def Let_def)
  ultimately show ?thesis using st by blast
qed

definition demo_request :: create_table_request where
  "demo_request =
     \<lparr>req_name = ''t'', req_schema = \<lparr>rs_schema_id = 0, rs_fields = [], rs_identifier_ids = []\<rparr>,
      req_partition_spec = None, req_write_order = None, req_properties = fmempty, req_location = None\<rparr>"

lemma demo_request_ok:
  "\<exists>loc md s'. create_table 1 ''u'' ''default'' demo_request new_catalog = (Inr (200, loc, md), s')"
  by (simp add: create_table_def demo_request_def new_catalog_def decode_namespace_path_def fmlookup_of_list
      alloc_snapshot_id_def Let_def)

lemma created_table_is_served_witness:
  "\<exists>loc md s'. create_table 1 ''u'' ''default'' demo_request new_catalog = (Inr (200, loc, md), s') \<and>
     load_table ''default'' ''t'' s' = Inr (200, loc, md) \<and>
     (\<exists>e. drop_namespace ''default'' s' = (Inl e, s') \<and> code e = 409)"
proof -
  obtain loc md s' where c: "create_table 1 ''u'' ''default'' demo_request new_catalog = (Inr (200, loc, md), s')"
    using demo_request_ok by blast
  have "req_name demo_request = ''t''" by (simp add: demo_request_def)
  with created_table_is_served [OF c] c show ?thesis by metis
qed

text \<open>A namespace is dropped exactly when listing its tables answers with the empty list, and then
  it is gone, while the other namespaces and all tables stay; otherwise nothing changes.\<close>

theorem drop_namespace_needs_empty:
  "(drop_namespace ns s = (Inr (204, ()), s') \<longleftrightarrow>
      list_tables ns s = Inr (200, {}) \<and>
      s' = s\<lparr>namespaces := fmdrop (decode_namespace_path ns) (namespaces s)\<rparr>) \<and>
   (list_tables ns s \<noteq> Inr (200, {}) \<longrightarrow> snd (drop_namespace ns s) = s \<and>
      (\<exists>e. fst (drop_namespace ns s) = Inl e \<and>
         code e = (if namespace_exists ns s = 200 then 409 else 404)))"
  by (auto simp: drop_namespace_def list_tables_def namespace_exists_def Let_def not_found_def not_empty_def)

lemma drop_namespace_needs_empty_witness:
  "drop_namespace ''default'' new_catalog = (Inr (204, ()), new_catalog\<lparr>namespaces := fmempty\<rparr>) \<and>
   snd (drop_namespace ''other'' new_catalog) = new_catalog"
proof -
  have d: "decode_namespace_path ''default'' = ''default''" "decode_namespace_path ''other'' = ''other''"
    by (simp_all add: decode_namespace_path_def)
  have "list_tables ''default'' new_catalog = Inr (200, {})" "list_tables ''other'' new_catalog \<noteq> Inr (200, {})"
    by (simp_all add: list_tables_def d new_catalog_def fmlookup_of_list tables_of_def)
  moreover have "fmdrop ''default'' (namespaces new_catalog) = fmempty"
    by (rule fmap_ext) (simp add: new_catalog_def fmlookup_of_list)
  ultimately show ?thesis
    using drop_namespace_needs_empty [of "''default''" new_catalog "new_catalog\<lparr>namespaces := fmempty\<rparr>"]
      drop_namespace_needs_empty [of "''other''" new_catalog] by (simp add: d)
qed

text \<open>The flat table key is ambiguous: a table named \<open>b::c\<close> of namespace \<open>a\<close> and the table
  \<open>c\<close> of namespace \<open>a::b\<close> are one entry.\<close>

theorem double_colon_names_collide:
  assumes "decode_namespace_path ns1 = a" and "decode_namespace_path ns2 = a @ ''::'' @ b"
    and "namespace_exists ns1 s = 200" and "namespace_exists ns2 s = 200"
  shows "load_table ns1 (b @ ''::'' @ c) s = Inr r \<longleftrightarrow> load_table ns2 c s = Inr r"
  using assms by (auto simp: load_table_def namespace_exists_def Let_def split: option.splits if_splits)

lemma double_colon_names_collide_witness:
  "\<exists>s r. load_table ''a'' ''b::c'' s = Inr r \<and> load_table ''a::b'' ''c'' s = Inr r"
proof -
  let ?s = "register_table_in_catalog 1 ''a::b'' ''c'' ''l'' JNull
    (register_table_in_catalog 1 ''a'' ''x'' ''m'' JNull new_catalog)"
  have d: "decode_namespace_path ''a'' = ''a''" "decode_namespace_path ''a::b'' = ''a'' @ ''::'' @ ''b''"
    by (simp_all add: decode_namespace_path_def)
  have "namespace_exists ''a'' ?s = 200" "namespace_exists ''a::b'' ?s = 200"
    "load_table ''a::b'' ''c'' ?s = Inr (200, ''l'', JNull)"
    by (simp_all add: namespace_exists_def load_table_def d register_table_in_catalog_def new_catalog_def
        fmlookup_of_list Let_def)
  with double_colon_names_collide [OF d this(1,2), of "''c''" "(200, ''l'', JNull)"] show ?thesis by auto
qed

end
