(* ===== verification/Float64.thy ===== *)
theory Float64
  imports Complex_Main "HOL-Library.Log_Nat" "HOL-Library.Word"
begin

text \<open>
  Rust's \<open>f64\<close> on finite values of the normal range: a value is the rational number it stands for,
  an operation is the exact operation followed by \<open>rnd\<close>, rounding to 53 significant bits, to even
  when the number is half way; overflow and subnormal results are outside these operations, whose
  users compute with quotients of counts, milliseconds and constants. Values that are only read and
  compared are \<open>double\<close>, decoded from any bit pattern, with infinities and NaN.
\<close>

section \<open>Rounding\<close>

definition round_half_even :: "rat \<Rightarrow> int" where
  "round_half_even x =
     (let f = \<lfloor>x\<rfloor>; d = x - of_int f in if d < 1 / 2 \<or> d = 1 / 2 \<and> even f then f else f + 1)"

text \<open>The binary exponent of a positive number, from the bit lengths of the fraction.\<close>

definition exponent_of :: "rat \<Rightarrow> int" where
  "exponent_of x =
     (let pq = quotient_of x;
          k = int (floorlog 2 (nat (fst pq))) - int (floorlog 2 (nat (snd pq)))
      in if 2 powi k \<le> x then k else k - 1)"

definition rnd :: "rat \<Rightarrow> rat" where
  "rnd x =
     (if x = 0 then 0
      else let u = 2 powi (exponent_of \<bar>x\<bar> - 52) in of_int (round_half_even (x / u)) * u)"

section \<open>Operations\<close>

definition f64_of_nat :: "nat \<Rightarrow> rat" where "f64_of_nat n = rnd (of_nat n)"

definition f64_add :: "rat \<Rightarrow> rat \<Rightarrow> rat" where "f64_add x y = rnd (x + y)"

definition f64_mult :: "rat \<Rightarrow> rat \<Rightarrow> rat" where "f64_mult x y = rnd (x * y)"

definition f64_div :: "rat \<Rightarrow> rat \<Rightarrow> rat" where "f64_div x y = rnd (x / y)"

section \<open>Rounding is monotone and exact on integers\<close>

lemma round_half_even_of_int [simp]: "round_half_even (of_int k) = k"
  by (simp add: round_half_even_def)

lemma round_half_even_mono:
  assumes "x \<le> y"
  shows "round_half_even x \<le> round_half_even y"
proof (cases "\<lfloor>x\<rfloor> = \<lfloor>y\<rfloor>")
  case True
  with assms show ?thesis by (auto simp: round_half_even_def Let_def)
next
  case False
  with assms have "\<lfloor>x\<rfloor> + 1 \<le> \<lfloor>y\<rfloor>" using floor_mono [OF assms] by linarith
  then show ?thesis by (auto simp: round_half_even_def Let_def)
qed

lemma floorlog_int_bounds:
  assumes "0 < p"
  shows "2 powi (int (floorlog 2 (nat p)) - 1) \<le> (of_int p :: rat) \<and>
    (of_int p :: rat) < 2 powi (int (floorlog 2 (nat p)))"
proof -
  let ?l = "floorlog 2 (nat p)"
  have "0 < nat p" using assms by simp
  then have b: "2 ^ (?l - 1) \<le> nat p" "nat p < 2 ^ ?l" and l: "0 < ?l"
    using floorlog_bounds [of "nat p" 2] floorlog_eq_zero_iff [of 2 "nat p"] by simp_all
  have "(2::rat) powi (int ?l - 1) = of_nat (2 ^ (?l - 1))"
    using l by (simp add: of_nat_diff flip: power_int_of_nat)
  moreover have "(2::rat) powi int ?l = of_nat (2 ^ ?l)" by simp
  moreover have "(of_int p :: rat) = of_nat (nat p)" using assms by simp
  ultimately show ?thesis using b by (metis of_nat_le_iff of_nat_less_iff)
qed

lemma exponent_of_bounds:
  assumes "0 < x"
  shows "2 powi exponent_of x \<le> x \<and> x < 2 powi (exponent_of x + 1)"
proof -
  obtain p q where pq: "quotient_of x = (p, q)" by (cases "quotient_of x")
  have q: "0 < q" using quotient_of_denom_pos [OF pq] .
  have x: "x = of_int p / of_int q" by (rule quotient_of_div [OF pq])
  with assms q have p: "0 < p" by (simp add: zero_less_divide_iff)
  let ?a = "int (floorlog 2 (nat p))" and ?b = "int (floorlog 2 (nat q))"
  have P: "2 powi (?a - 1) \<le> (of_int p :: rat)" "(of_int p :: rat) < 2 powi ?a"
    and Q: "2 powi (?b - 1) \<le> (of_int q :: rat)" "(of_int q :: rat) < 2 powi ?b"
    using floorlog_int_bounds [OF p] floorlog_int_bounds [OF q] by blast+
  have "x < 2 powi ?a / 2 powi (?b - 1)"
    unfolding x using P Q p q by (intro frac_less) simp_all
  also have "\<dots> = 2 powi (?a - ?b + 1)" by (simp add: power_int_diff power_int_add)
  finally have up: "x < 2 powi (?a - ?b + 1)" .
  have "2 powi (?a - 1) / 2 powi ?b < x"
    unfolding x using P Q p q by (intro frac_less2) simp_all
  moreover have "(2::rat) powi (?a - 1) / 2 powi ?b = 2 powi (?a - ?b - 1)"
    by (simp add: power_int_diff)
  ultimately have "2 powi (?a - ?b - 1) < x" by simp
  with up show ?thesis by (auto simp: exponent_of_def pq Let_def)
qed

lemma powi_less_imp: "(2::rat) powi a < 2 powi b \<Longrightarrow> a < b"
  by (metis linorder_not_less one_le_numeral power_int_increasing)

lemma exponent_of_mono: "0 < x \<Longrightarrow> x \<le> y \<Longrightarrow> exponent_of x \<le> exponent_of y"
proof -
  assume "0 < x" "x \<le> y"
  then have "(2::rat) powi exponent_of x < 2 powi (exponent_of y + 1)"
    using exponent_of_bounds [of x] exponent_of_bounds [of y] by linarith
  then show ?thesis using powi_less_imp by fastforce
qed

lemma rnd_upper:
  assumes "0 < x"
  shows "rnd x \<le> 2 powi (exponent_of x + 1)"
proof -
  let ?u = "2 powi (exponent_of x - 52) :: rat"
  have e: "2 powi (exponent_of x + 1) = of_int (2 ^ 53) * ?u"
    by (simp add: power_int_add power_int_diff)
  have "x / ?u \<le> of_int (2 ^ 53)"
    using exponent_of_bounds [OF assms] e by (simp add: divide_le_eq)
  from round_half_even_mono [OF this] have "round_half_even (x / ?u) \<le> 2 ^ 53"
    by (simp only: round_half_even_of_int)
  then have "(of_int (round_half_even (x / ?u)) :: rat) \<le> of_int (2 ^ 53)" by (simp only: of_int_le_iff)
  then have "of_int (round_half_even (x / ?u)) * ?u \<le> of_int (2 ^ 53) * ?u" by (intro mult_right_mono) simp_all
  with e assms show ?thesis by (simp add: rnd_def Let_def)
qed

lemma rnd_lower:
  assumes "0 < x"
  shows "2 powi exponent_of x \<le> rnd x"
proof -
  let ?u = "2 powi (exponent_of x - 52) :: rat"
  have e: "2 powi exponent_of x = of_int (2 ^ 52) * ?u"
    by (simp add: power_int_diff)
  have "of_int (2 ^ 52) \<le> x / ?u"
    using exponent_of_bounds [OF assms] e by (simp add: le_divide_eq)
  from round_half_even_mono [OF this] have "2 ^ 52 \<le> round_half_even (x / ?u)"
    by (simp only: round_half_even_of_int)
  then have "(of_int (2 ^ 52) :: rat) \<le> of_int (round_half_even (x / ?u))" by (simp only: of_int_le_iff)
  then have "of_int (2 ^ 52) * ?u \<le> of_int (round_half_even (x / ?u)) * ?u" by (intro mult_right_mono) simp_all
  with e assms show ?thesis by (simp add: rnd_def Let_def)
qed

lemma rnd_mono:
  assumes "0 < x" "x \<le> y"
  shows "rnd x \<le> rnd y"
proof (cases "exponent_of x = exponent_of y")
  case True
  let ?u = "2 powi (exponent_of y - 52) :: rat"
  have "round_half_even (x / ?u) \<le> round_half_even (y / ?u)"
    using assms(2) by (intro round_half_even_mono divide_right_mono) simp_all
  then show ?thesis using assms True by (simp add: rnd_def Let_def mult_right_mono)
next
  case False
  with exponent_of_mono [OF assms] have "exponent_of x + 1 \<le> exponent_of y" by simp
  then have "(2::rat) powi (exponent_of x + 1) \<le> 2 powi exponent_of y" by (simp add: power_int_increasing)
  with rnd_upper [OF assms(1)] rnd_lower [of y] assms show ?thesis by linarith
qed

lemma rnd_zero [simp]: "rnd 0 = 0"
  by (simp add: rnd_def)

lemma rnd_of_nat:
  assumes "n < 2 ^ 53"
  shows "rnd (of_nat n) = of_nat n"
proof (cases "n = 0")
  case False
  let ?e = "exponent_of (of_nat n)"
  have p: "0 < (of_nat n :: rat)" using False by simp
  have "(2::rat) powi ?e \<le> of_nat n" using exponent_of_bounds [OF p] by simp
  also have "\<dots> < of_nat (2 ^ 53)" using assms by (simp only: of_nat_less_iff)
  also have "\<dots> = 2 powi 53" by simp
  finally have "?e < 53" by (rule powi_less_imp)
  then have u: "(2::rat) powi (?e - 52) = inverse (of_nat (2 ^ nat (52 - ?e))) \<and> (0::rat) < 2 powi (?e - 52)"
    by (simp add: power_int_def power_one_over inverse_eq_divide)
  then have q: "of_nat n / 2 powi (?e - 52) = (of_int (int (n * 2 ^ nat (52 - ?e))) :: rat)"
    by (simp add: field_simps)
  have "rnd (of_nat n) = of_int (round_half_even (of_nat n / 2 powi (?e - 52))) * 2 powi (?e - 52)"
    using p by (simp add: rnd_def Let_def)
  also have "\<dots> = of_int (int (n * 2 ^ nat (52 - ?e))) * 2 powi (?e - 52)"
    by (simp only: q round_half_even_of_int)
  also have "\<dots> = of_nat n" using u by simp
  finally show ?thesis .
qed simp

lemma rnd_numeral: "numeral k < (2::nat) ^ 53 \<Longrightarrow> rnd (numeral k) = numeral k"
  using rnd_of_nat [of "numeral k"] by simp

section \<open>The error of rounding\<close>

lemma round_half_even_error: "\<bar>of_int (round_half_even x) - x\<bar> \<le> 1 / 2"
  using floor_correct [of x] by (auto simp: round_half_even_def Let_def abs_le_iff)

lemma rnd_error:
  assumes "0 < x"
  shows "\<bar>rnd x - x\<bar> \<le> x / 2 ^ 53"
proof -
  let ?u = "2 powi (exponent_of x - 52) :: rat"
  have u: "0 < ?u" by simp
  have "rnd x - x = (of_int (round_half_even (x / ?u)) - x / ?u) * ?u"
    using assms u by (simp add: rnd_def Let_def left_diff_distrib)
  then have "\<bar>rnd x - x\<bar> \<le> 1 / 2 * ?u"
    using round_half_even_error [of "x / ?u"] u by (simp add: abs_mult mult_right_mono del: mult_le_cancel_right)
  also have "\<dots> = 2 powi exponent_of x / 2 ^ 53" by (simp add: power_int_diff)
  also have "\<dots> \<le> x / 2 ^ 53" using exponent_of_bounds [OF assms] by (simp add: divide_right_mono)
  finally show ?thesis .
qed

lemma f64_of_nat_exact: "n < 2 ^ 53 \<Longrightarrow> f64_of_nat n = of_nat n"
  by (simp add: f64_of_nat_def rnd_of_nat)

lemma f64_of_nat_ge: "m \<le> n \<Longrightarrow> m < 2 ^ 53 \<Longrightarrow> of_nat m \<le> f64_of_nat n"
proof (cases "m = 0")
  case True
  then show ?thesis using rnd_lower [of "of_nat n"]
    by (cases "n = 0") (simp_all add: f64_of_nat_def order_trans [OF _ rnd_lower])
next
  case False
  assume "m \<le> n" "m < 2 ^ 53"
  with False rnd_mono [of "of_nat m" "of_nat n"] rnd_of_nat [of m] show ?thesis by (simp add: f64_of_nat_def)
qed

text \<open>A count divided by another compares to a whole bound as the exact fraction does.\<close>

lemma f64_share_less_iff:
  assumes "0 < n" "0 < b" "k + b < 2 ^ 53"
  shows "f64_div (of_nat k) (f64_of_nat n) < of_nat b \<longleftrightarrow> k < b * n"
proof (cases "k < b * n")
  case False
  have "n \<le> b * n" using assms(2) by simp
  with False assms have "n < 2 ^ 53" by linarith
  then have e: "f64_of_nat n = of_nat n" by (rule f64_of_nat_exact)
  have "of_nat (b * n) \<le> (of_nat k :: rat)" using False by (simp only: of_nat_le_iff linorder_not_less)
  then have "(of_nat b :: rat) \<le> of_nat k / of_nat n" using assms(1) by (simp add: le_divide_eq)
  then have "rnd (of_nat b) \<le> rnd (of_nat k / of_nat n)" using assms(2) by (intro rnd_mono) simp_all
  with e False assms(3) rnd_of_nat [of b] show ?thesis by (simp add: f64_div_def)
next
  case True
  define m where "m = k div b + 1"
  have kb: "k < b * m" "b * m \<le> k + b" unfolding m_def using assms(2)
    by (simp_all add: dividend_less_times_div algebra_simps)
  have "k div b < n" using True assms(2) by (simp add: less_mult_imp_div_less mult.commute)
  then have "m \<le> n" by (simp add: m_def)
  moreover have "m \<le> b * m" using assms(2) by simp
  ultimately have "(of_nat m :: rat) \<le> f64_of_nat n"
    using kb(2) assms(3) by (intro f64_of_nat_ge) linarith+
  moreover have m: "0 < m" by (simp add: m_def)
  ultimately have le: "of_nat k / f64_of_nat n \<le> (of_nat k / of_nat m :: rat)"
    by (intro divide_left_mono) (simp_all add: order.strict_trans2)
  show ?thesis
  proof (cases "k = 0")
    case False
    have pos: "0 < f64_of_nat n" using \<open>of_nat m \<le> f64_of_nat n\<close> m by (simp add: order.strict_trans2)
    have "rnd (of_nat k / f64_of_nat n) \<le> rnd (of_nat k / of_nat m)"
      using le pos False by (intro rnd_mono) simp_all
    also have "\<dots> \<le> of_nat k / of_nat m + of_nat k / of_nat m / 2 ^ 53"
      using rnd_error [of "of_nat k / of_nat m"] False m by (simp add: abs_le_iff)
    also have "\<dots> < of_nat b"
    proof -
      have "k * (2 ^ 53 + 1) < b * m * 2 ^ 53"
      proof -
        have "k * 2 ^ 53 + 2 ^ 53 \<le> b * m * 2 ^ 53" using kb(1) by (metis add_mult_distrib mult_1 mult_le_mono1 Suc_leI Suc_eq_plus1)
        then show ?thesis using assms(3) by (simp add: algebra_simps)
      qed
      then have "of_nat (k * (2 ^ 53 + 1)) < (of_nat (b * m * 2 ^ 53) :: rat)" by (simp only: of_nat_less_iff)
      then show ?thesis using m by (simp add: field_simps)
    qed
    finally show ?thesis using True by (simp add: f64_div_def)
  qed (use assms(2) True in \<open>simp add: f64_div_def\<close>)
qed

section \<open>Bit patterns\<close>

text \<open>
  All values of \<open>f64\<close> and \<open>f32\<close>, decoded from their bits. Signed zeros have one value; NaN is one
  value whatever its payload.
\<close>

datatype double = Finite rat | Infinite bool | NaN

definition decode_float :: "nat \<Rightarrow> nat \<Rightarrow> nat \<Rightarrow> double" where
  "decode_float frac_bits exp_bits n =
     (let neg = (n div 2 ^ (frac_bits + exp_bits)) mod 2 = 1;
          e = n div 2 ^ frac_bits mod 2 ^ exp_bits;
          m = n mod 2 ^ frac_bits;
          bias = 2 ^ (exp_bits - 1) - 1;
          sgn_of = (\<lambda>x :: rat. if neg then - x else x)
      in if e = 2 ^ exp_bits - 1 then (if m = 0 then Infinite neg else NaN)
         else if e = 0 then Finite (sgn_of (of_nat m * 2 powi (1 - int bias - int frac_bits)))
         else Finite (sgn_of (of_nat (2 ^ frac_bits + m) * 2 powi (int e - int bias - int frac_bits))))"

definition f64_of_bits :: "64 word \<Rightarrow> double" where
  "f64_of_bits w = decode_float 52 11 (unat w)"

definition f32_of_bits :: "32 word \<Rightarrow> double" where
  "f32_of_bits w = decode_float 23 8 (unat w)"

text \<open>\<open>x < y\<close> is false as soon as one side is NaN; \<open>f64::min\<close> and \<open>f64::max\<close> ignore a NaN.\<close>

fun double_less :: "double \<Rightarrow> double \<Rightarrow> bool" where
  "double_less (Finite x) (Finite y) = (x < y)"
| "double_less (Infinite neg) (Finite y) = neg"
| "double_less (Finite x) (Infinite neg) = (\<not> neg)"
| "double_less (Infinite a) (Infinite b) = (a \<and> \<not> b)"
| "double_less _ _ = False"

definition double_min :: "double \<Rightarrow> double \<Rightarrow> double" where
  "double_min x y = (if x = NaN then y else if y = NaN then x else if double_less y x then y else x)"

definition double_max :: "double \<Rightarrow> double \<Rightarrow> double" where
  "double_max x y = (if x = NaN then y else if y = NaN then x else if double_less x y then y else x)"

text \<open>An integer \<open>as f64\<close>, and \<open>f64 as usize\<close>, which truncates and saturates.\<close>

definition int_as_f64 :: "int \<Rightarrow> double" where
  "int_as_f64 i = Finite (rnd (of_int i))"

fun f64_as_usize :: "double \<Rightarrow> nat" where
  "f64_as_usize (Finite x) = (if x \<le> 0 then 0 else min (nat \<lfloor>x\<rfloor>) (2 ^ 64 - 1))"
| "f64_as_usize (Infinite neg) = (if neg then 0 else 2 ^ 64 - 1)"
| "f64_as_usize NaN = 0"

lemma double_less_trans_neg: "double_less x z \<Longrightarrow> \<not> double_less x y \<Longrightarrow> y \<noteq> NaN \<Longrightarrow> double_less y z"
  by (cases x; cases y; cases z) auto

lemma double_less_min: "double_less (double_min x y) z \<longleftrightarrow> double_less x z \<or> double_less y z"
  by (cases x; cases y; cases z) (auto simp: double_min_def)

lemma double_less_max: "double_less z (double_max x y) \<longleftrightarrow> double_less z x \<or> double_less z y"
  by (cases x; cases y; cases z) (auto simp: double_max_def)

lemma f64_one: "f64_of_bits 0x3FF0000000000000 = Finite 1"
  by (simp add: f64_of_bits_def decode_float_def power_int_def power_one_over Let_def)

section \<open>Negative numbers and percentages\<close>

definition f64_sub :: "rat \<Rightarrow> rat \<Rightarrow> rat" where "f64_sub x y = rnd (x - y)"

lemma round_half_even_minus: "round_half_even (- x) = - round_half_even x"
proof (cases "x = of_int \<lfloor>x\<rfloor>")
  case True
  then show ?thesis using round_half_even_of_int [of "\<lfloor>x\<rfloor>"] round_half_even_of_int [of "- \<lfloor>x\<rfloor>"] by simp
next
  case False
  then have "of_int \<lfloor>x\<rfloor> < x" using of_int_floor_le [of x] by (metis order_le_less)
  then have "\<lfloor>- x\<rfloor> = - \<lfloor>x\<rfloor> - 1"
    using floor_correct [of x] by (intro floor_unique) auto
  then show ?thesis by (auto simp: round_half_even_def Let_def)
qed

lemma rnd_minus: "rnd (- x) = - rnd x"
  by (simp add: rnd_def Let_def round_half_even_minus)

lemma rnd_of_int: "\<bar>k\<bar> < 2 ^ 53 \<Longrightarrow> rnd (of_int k) = of_int k"
proof -
  assume k: "\<bar>k\<bar> < 2 ^ 53"
  then have "rnd (of_nat (nat \<bar>k\<bar>)) = of_nat (nat \<bar>k\<bar>)" by (intro rnd_of_nat) simp
  then have a: "rnd (of_int \<bar>k\<bar>) = of_int \<bar>k\<bar>" by simp
  show ?thesis
  proof (cases "0 \<le> k")
    case False
    then have "rnd (of_int (- k)) = of_int (- k)" using a by simp
    then show ?thesis by (simp add: rnd_minus)
  qed (use a in simp)
qed

lemma exponent_of_eq:
  assumes "2 powi e \<le> x" "x < 2 powi (e + 1)"
  shows "exponent_of x = e"
proof -
  have x: "0 < x" using assms(1) by (rule order.strict_trans2 [rotated]) simp
  have "(2::rat) powi e < 2 powi (exponent_of x + 1)" "(2::rat) powi exponent_of x < 2 powi (e + 1)"
    using exponent_of_bounds [OF x] assms by linarith+
  then have "e < exponent_of x + 1" "exponent_of x < e + 1" by (auto dest: powi_less_imp)
  then show ?thesis by linarith
qed

lemma rnd_pos: "0 < x \<Longrightarrow> 0 < rnd x"
  using rnd_lower [of x] by (rule order.strict_trans2 [rotated]) simp_all

lemma rnd_strict_lower:
  fixes x :: rat
  assumes "0 < x" "of_nat c + 1 / of_nat n \<le> x" "0 < n" "n * (c + 1) < 2 ^ 50"
  shows "of_nat c < x * (1 - 1 / 2 ^ 53) * (1 - 1 / 2 ^ 53)"
proof -
  let ?e = "1 / 2 ^ 53 :: rat"
  have "of_nat (n * (c + 1)) < (of_nat (2 ^ 50) :: rat)" using assms(4) by (simp only: of_nat_less_iff)
  then have n: "of_nat n * (of_nat c + 1) < (2 ^ 50 :: rat)" by (simp add: algebra_simps)
  have "(of_nat c + 1 / of_nat n) * 2 * ?e < (1 / of_nat n :: rat)"
  proof -
    have "of_nat c * of_nat n + 1 \<le> of_nat n * (of_nat c + 1 :: rat)" using assms(3) by (simp add: algebra_simps)
    then have "of_nat c * of_nat n + 1 < (2 ^ 50 :: rat)" using n by linarith
    then show ?thesis using assms(3) by (simp add: field_simps)
  qed
  then have "of_nat c < (of_nat c + 1 / of_nat n) * (1 - 2 * ?e)" by (simp add: algebra_simps)
  also have "\<dots> \<le> x * (1 - 2 * ?e)" using assms(2) by (intro mult_right_mono) simp_all
  also have "\<dots> \<le> x * (1 - ?e) * (1 - ?e)" using assms(1) by (simp add: algebra_simps)
  finally show ?thesis .
qed

definition f64_percent :: "rat \<Rightarrow> rat \<Rightarrow> rat" where "f64_percent x y = f64_mult (f64_div x y) 100"

lemma rnd_ge: "0 < x \<Longrightarrow> x * (1 - 1 / 2 ^ 53) \<le> rnd x"
proof -
  assume "0 < x"
  then have "x - rnd x \<le> x / 2 ^ 53" using rnd_error [of x] unfolding abs_le_iff by linarith
  then show ?thesis by (simp add: right_diff_distrib)
qed

lemma rnd_le: "0 < x \<Longrightarrow> rnd x \<le> x * (1 + 1 / 2 ^ 53)"
proof -
  assume "0 < x"
  then have "rnd x - x \<le> x / 2 ^ 53" using rnd_error [of x] unfolding abs_le_iff by linarith
  then show ?thesis by (simp add: distrib_left)
qed

text \<open>Percentages of counts compare with a whole bound as the exact ones do, when the bound itself is hit.\<close>

lemma f64_percent_greater_iff:
  assumes "0 < n" "n * (c + 1) < 2 ^ 50" "0 < c" "rnd (rnd (of_nat c / 100) * 100) = of_nat c"
  shows "of_nat c < f64_percent (of_nat m) (of_nat n) \<longleftrightarrow> c * n < 100 * m"
proof (cases "c * n < 100 * m")
  case False
  show ?thesis
  proof (cases "m = 0")
    case True
    then show ?thesis using False by (simp add: f64_percent_def f64_div_def f64_mult_def)
  next
    case m: False
    have "(of_nat (100 * m) :: rat) \<le> of_nat (c * n)" using False by (simp only: of_nat_le_iff linorder_not_less)
    then have "(of_nat m :: rat) \<le> of_nat c / 100 * of_nat n" by (simp add: mult.commute)
    then have "(of_nat m / of_nat n :: rat) \<le> of_nat c / 100" using assms(1) by (simp only: pos_divide_le_eq of_nat_0_less_iff)
    then have "rnd (of_nat m / of_nat n) \<le> rnd (of_nat c / 100)"
      using m assms(1) by (intro rnd_mono) simp_all
    then have "rnd (rnd (of_nat m / of_nat n) * 100) \<le> rnd (rnd (of_nat c / 100) * 100)"
      using m assms(1) by (intro rnd_mono [of "_ * 100"]) (simp_all add: rnd_pos)
    with assms(4) False show ?thesis by (simp add: f64_percent_def f64_div_def f64_mult_def)
  qed
next
  case True
  then have m: "0 < m" by (cases m) auto
  let ?x = "of_nat m / of_nat n :: rat"
  have x: "0 < ?x" using m assms(1) by simp
  have "(of_nat (c * n + 1) :: rat) \<le> of_nat (100 * m)" using True by (simp only: of_nat_le_iff)
  then have "(of_nat c * of_nat n + 1) / of_nat n \<le> (of_nat m * 100 / of_nat n :: rat)"
    by (intro divide_right_mono) simp_all
  then have "of_nat c + 1 / of_nat n \<le> ?x * 100" using assms(1) by (simp add: add_divide_distrib)
  moreover have "0 < ?x * 100" using x by (rule mult_pos_pos) simp
  ultimately have "of_nat c < ?x * 100 * (1 - 1 / 2 ^ 53) * (1 - 1 / 2 ^ 53)"
    using assms(1,2) by (intro rnd_strict_lower)
  then have "of_nat c < (?x * (1 - 1 / 2 ^ 53)) * 100 * (1 - 1 / 2 ^ 53)" by (simp add: mult.assoc mult.commute mult.left_commute)
  also have "\<dots> \<le> rnd ?x * 100 * (1 - 1 / 2 ^ 53)"
    using rnd_ge [OF x] by (intro mult_right_mono) simp_all
  also have "\<dots> \<le> rnd (rnd ?x * 100)" using rnd_pos [OF x] by (intro rnd_ge) simp
  finally show ?thesis using True by (simp add: f64_percent_def f64_div_def f64_mult_def)
qed

lemma f64_percent_less_iff:
  assumes "0 < n" "n * (c + 1) < 2 ^ 50" "0 < c" "rnd (rnd (of_nat c / 100) * 100) = of_nat c"
  shows "f64_percent (of_nat m) (of_nat n) < of_nat c \<longleftrightarrow> 100 * m < c * n"
proof (cases "100 * m < c * n")
  case False
  then have m: "0 < m" using assms(1,3) by (cases m) auto
  have "(of_nat (c * n) :: rat) \<le> of_nat (100 * m)" using False by (simp only: of_nat_le_iff linorder_not_less)
  then have "of_nat c / 100 * of_nat n \<le> (of_nat m :: rat)" by (simp add: mult.commute)
  then have "of_nat c / 100 \<le> (of_nat m / of_nat n :: rat)" using assms(1) by (simp only: pos_le_divide_eq of_nat_0_less_iff)
  then have "rnd (of_nat c / 100) \<le> rnd (of_nat m / of_nat n)" using assms(3) by (intro rnd_mono) simp_all
  then have "rnd (rnd (of_nat c / 100) * 100) \<le> rnd (rnd (of_nat m / of_nat n) * 100)"
    using assms(3) by (intro rnd_mono [of "_ * 100"]) (simp_all add: rnd_pos)
  with assms(4) False show ?thesis by (simp add: f64_percent_def f64_div_def f64_mult_def)
next
  case True
  show ?thesis
  proof (cases "m = 0")
    case True
    then show ?thesis using assms(3,1) by (simp add: f64_percent_def f64_div_def f64_mult_def)
  next
    case m: False
    let ?x = "of_nat m / of_nat n :: rat" and ?e = "1 / 2 ^ 53 :: rat"
    have x: "0 < ?x" using m assms(1) by simp
    have "(of_nat (100 * m + 1) :: rat) \<le> of_nat (c * n)" using True by (simp only: of_nat_le_iff)
    then have gap: "?x * 100 + 1 / of_nat n \<le> of_nat c" using assms(1) by (simp add: field_simps)
    have "rnd (rnd ?x * 100) \<le> rnd ?x * 100 * (1 + ?e)" using rnd_pos [OF x] by (intro rnd_le) simp
    also have "\<dots> \<le> ?x * (1 + ?e) * 100 * (1 + ?e)" using rnd_le [OF x] by (intro mult_right_mono) simp_all
    also have "\<dots> \<le> ?x * 100 * (1 + 4 * ?e)"
    proof -
      have "(1 + ?e) * (1 + ?e) \<le> 1 + 4 * ?e" by (simp add: field_simps)
      then have "?x * 100 * ((1 + ?e) * (1 + ?e)) \<le> ?x * 100 * (1 + 4 * ?e)" using x by (intro mult_left_mono) simp_all
      then show ?thesis by (simp only: mult_ac)
    qed
    also have "\<dots> < of_nat c"
    proof -
      have "of_nat (n * (c + 1)) < (of_nat (2 ^ 50) :: rat)" using assms(2) by (simp only: of_nat_less_iff)
      then have b: "of_nat n * (of_nat c + 1) < (2 ^ 50 :: rat)" by (simp add: algebra_simps)
      have "of_nat c * of_nat n \<le> of_nat n * (of_nat c + 1 :: rat)" by (simp add: algebra_simps)
      with b have "of_nat c * of_nat n < (2 ^ 50 :: rat)" by linarith
      then have "of_nat c * 4 * ?e < (1 / of_nat n :: rat)" using assms(1) by (simp add: field_simps)
      moreover have "?x * 100 \<le> of_nat c" using gap order_trans [OF _ gap] by simp
      then have "?x * 100 * 4 * ?e \<le> of_nat c * 4 * ?e" by (intro mult_right_mono) simp_all
      moreover have "?x * 100 * (1 + 4 * ?e) = ?x * 100 + ?x * 100 * 4 * ?e" by (simp add: distrib_left)
      ultimately show ?thesis using gap by linarith
    qed
    finally show ?thesis using \<open>100 * m < c * n\<close> by (simp add: f64_percent_def f64_div_def f64_mult_def)
  qed
qed

text \<open>The bounds in use are hit exactly: 5, 10, 20, 50 and 100 percent.\<close>

lemma exponent_of_percent:
  "exponent_of (1 / 20) = - 5" "exponent_of (1 / 10) = - 4" "exponent_of (1 / 5) = - 3" "exponent_of (1 / 2) = - 1"
  by (rule exponent_of_eq; simp add: power_int_def power_one_over)+

lemma rnd_eval:
  "0 < x \<Longrightarrow> exponent_of x = e \<Longrightarrow> rnd x = of_int (round_half_even (x / 2 powi (e - 52))) * 2 powi (e - 52)"
  by (simp add: rnd_def Let_def)

lemma round_half_even_near:
  assumes "\<bar>y - of_int k\<bar> < 1 / 2"
  shows "round_half_even y = k"
proof (cases "of_int k \<le> y")
  case True
  with assms have "y < of_int k + 1 / 2" by linarith
  moreover from this True have "\<lfloor>y\<rfloor> = k" by (intro floor_unique) linarith+
  ultimately show ?thesis by (simp add: round_half_even_def Let_def)
next
  case False
  with assms have "of_int k - 1 / 2 < y" "y < of_int k" by linarith+
  moreover from this have "\<lfloor>y\<rfloor> = k - 1" by (intro floor_unique) simp_all
  ultimately show ?thesis by (simp add: round_half_even_def Let_def)
qed

lemma rnd_percents:
  "rnd (1 / 20) = 7205759403792794 / 2 ^ 57" "rnd (1 / 10) = 7205759403792794 / 2 ^ 56"
  "rnd (1 / 5) = 7205759403792794 / 2 ^ 55" "rnd (1 / 2) = 1 / 2"
proof -
  have "round_half_even (36028797018963968 / 5) = 7205759403792794" by (rule round_half_even_near) simp
  then show "rnd (1 / 20) = 7205759403792794 / 2 ^ 57" "rnd (1 / 10) = 7205759403792794 / 2 ^ 56"
    "rnd (1 / 5) = 7205759403792794 / 2 ^ 55"
    by (simp_all add: rnd_eval [OF _ exponent_of_percent(1)] rnd_eval [OF _ exponent_of_percent(2)]
      rnd_eval [OF _ exponent_of_percent(3)] power_int_def power_one_over)
  have "round_half_even 4503599627370496 = 4503599627370496" by (rule round_half_even_near) simp
  then show "rnd (1 / 2) = 1 / 2" by (simp add: rnd_eval [OF _ exponent_of_percent(4)] power_int_def power_one_over)
qed

lemma rnd_near_bound:
  assumes "exponent_of x = e" "0 < x" "\<bar>x - of_nat c\<bar> < 2 powi (e - 53)" "(of_nat c :: rat) = of_int k * 2 powi (e - 52)"
  shows "rnd x = of_nat c"
proof -
  let ?u = "2 powi (e - 52) :: rat"
  have u: "2 powi (e - 53) = ?u / 2" by (simp add: power_int_diff)
  have "\<bar>x / ?u - of_int k\<bar> < 1 / 2"
  proof -
    have "x / ?u - of_int k = (x - of_nat c) / ?u" by (simp add: assms(4) diff_divide_distrib)
    then have "\<bar>x / ?u - of_int k\<bar> = \<bar>x - of_nat c\<bar> / ?u" by (simp add: abs_divide)
    also have "\<dots> < ?u / 2 / ?u" using assms(3) u by (intro divide_strict_right_mono) simp_all
    finally show ?thesis by simp
  qed
  then have "round_half_even (x / ?u) = k" by (rule round_half_even_near)
  with rnd_eval [OF assms(2,1)] assms(4) show ?thesis by simp
qed

lemma rnd_percent_exact:
  "rnd (rnd (5 / 100) * 100) = 5" "rnd (rnd (10 / 100) * 100) = 10" "rnd (rnd (20 / 100) * 100) = 20"
  "rnd (rnd (50 / 100) * 100) = 50" "rnd (rnd (100 / 100) * 100) = 100"
proof -
  have e: "exponent_of (720575940379279400 / 2 ^ 57) = 2" "exponent_of (720575940379279400 / 2 ^ 56) = 3"
    "exponent_of (720575940379279400 / 2 ^ 55) = 4"
    by (rule exponent_of_eq; simp add: power_int_def)+
  show "rnd (rnd (5 / 100) * 100) = 5"
    using rnd_near_bound [OF e(1), of 5 "5 * 2 ^ 50"] by (simp add: rnd_percents power_int_def power_one_over)
  show "rnd (rnd (10 / 100) * 100) = 10"
    using rnd_near_bound [OF e(2), of 10 "10 * 2 ^ 49"] by (simp add: rnd_percents power_int_def power_one_over)
  show "rnd (rnd (20 / 100) * 100) = 20"
    using rnd_near_bound [OF e(3), of 20 "20 * 2 ^ 48"] by (simp add: rnd_percents power_int_def power_one_over)
  show "rnd (rnd (50 / 100) * 100) = 50" using rnd_of_nat [of 50] by (simp add: rnd_percents)
  show "rnd (rnd (100 / 100) * 100) = 100" using rnd_of_nat [of 1] rnd_of_nat [of 100] by simp
qed

section \<open>Monotone rounding, and its fixed points\<close>

lemma rnd_nonneg: "0 \<le> x \<Longrightarrow> 0 \<le> rnd x"
  using rnd_pos [of x] by (cases "x = 0") simp_all

lemma rnd_le_mono: "x \<le> y \<Longrightarrow> rnd x \<le> rnd y"
proof -
  assume le: "x \<le> y"
  consider "0 < x" | "x \<le> 0" "0 \<le> y" | "y < 0" using le by linarith
  then show ?thesis
  proof cases
    case 1
    then show ?thesis using rnd_mono [OF _ le] by simp
  next
    case 2
    then have "0 \<le> rnd (- x)" "0 \<le> rnd y" by (simp_all add: rnd_nonneg)
    then show ?thesis by (simp add: rnd_minus)
  next
    case 3
    then have "rnd (- y) \<le> rnd (- x)" using le by (intro rnd_mono) simp_all
    then show ?thesis by (simp add: rnd_minus)
  qed
qed

lemma rnd_scale: "rnd (x * 2 powi k) = rnd x * 2 powi k"
proof -
  have pos: "rnd (x * 2 powi k) = rnd x * 2 powi k" if "0 < x" for x
  proof -
    have "exponent_of (x * 2 powi k) = exponent_of x + k"
      using exponent_of_bounds [OF that] by (intro exponent_of_eq) (simp_all add: power_int_add)
    then show ?thesis using that by (simp add: rnd_def Let_def power_int_add power_int_diff field_simps)
  qed
  consider "0 < x" | "x = 0" | "0 < - x" by linarith
  then show ?thesis
  proof cases
    case 3
    from pos [OF this] show ?thesis by (simp add: rnd_minus)
  qed (simp_all add: pos)
qed

lemma rnd_fixed: "\<bar>n\<bar> \<le> 2 ^ 53 \<Longrightarrow> rnd (of_int n * 2 powi k) = of_int n * 2 powi k"
proof -
  assume n: "\<bar>n\<bar> \<le> 2 ^ 53"
  have one: "rnd 1 = 1" using rnd_of_int [of 1] by simp
  have top: "rnd (2 ^ 53) = (2 ^ 53 :: rat)" using rnd_scale [of 1 53] one by simp
  consider "\<bar>n\<bar> < 2 ^ 53" | "n = 2 ^ 53" | "n = - (2 ^ 53)" using n by linarith
  then have "rnd (of_int n) = of_int n"
    using top rnd_of_int [of n] rnd_minus [of "2 ^ 53"] by cases simp_all
  then show ?thesis by (simp add: rnd_scale)
qed

lemma rnd_idem [simp]: "rnd (rnd x) = rnd x"
proof -
  have pos: "rnd (rnd x) = rnd x" if "0 < x" for x
  proof -
    let ?u = "2 powi (exponent_of x - 52) :: rat"
    let ?n = "round_half_even (x / ?u)"
    have e: "rnd x = of_int ?n * ?u" using that by (simp add: rnd_def Let_def)
    have "2 powi (exponent_of x + 1) = of_int (2 ^ 53) * ?u" by (simp add: power_int_add power_int_diff)
    then have "of_int ?n * ?u \<le> of_int (2 ^ 53) * ?u" using rnd_upper [OF that] e by simp
    then have le: "?n \<le> 2 ^ 53" by (simp only: of_int_le_iff mult_le_cancel_right) simp
    have "0 \<le> of_int ?n * ?u" using rnd_nonneg [of x] that e by simp
    have "0 < ?u" by simp
    with \<open>0 \<le> of_int ?n * ?u\<close> have "0 \<le> ?n" unfolding zero_le_mult_iff by auto
    with le show ?thesis using rnd_fixed [of ?n] e by simp
  qed
  consider "0 < x" | "x = 0" | "0 < - x" by linarith
  then show ?thesis
  proof cases
    case 3
    from pos [OF this] show ?thesis by (simp add: rnd_minus)
  qed (simp_all add: pos)
qed

lemma rnd_rough: "0 \<le> x \<Longrightarrow> 99 / 100 * x \<le> rnd x \<and> rnd x \<le> 101 / 100 * x"
  using rnd_ge [of x] rnd_le [of x] by (cases "x = 0") (auto simp: algebra_simps)

lemma f64_add_mono: "a \<le> c \<Longrightarrow> b \<le> d \<Longrightarrow> f64_add a b \<le> f64_add c d"
  unfolding f64_add_def by (intro rnd_le_mono add_mono)

lemma rnd_f64_add [simp]: "rnd (f64_add a b) = f64_add a b"
  by (simp add: f64_add_def)

lemma f64_nonneg:
  "0 \<le> a \<Longrightarrow> 0 \<le> b \<Longrightarrow> 0 \<le> f64_add a b" "0 \<le> a \<Longrightarrow> 0 \<le> b \<Longrightarrow> 0 \<le> f64_mult a b"
  "0 \<le> a \<Longrightarrow> 0 \<le> b \<Longrightarrow> 0 \<le> f64_div a b"
  by (simp_all add: f64_add_def f64_mult_def f64_div_def rnd_nonneg)

end
