(* ===== verification/Executable_Table.thy ===== *)
theory Executable_Table
  imports Json Float64
begin

text \<open>
  Executable tables: the parts of \<open>crates/rustlake-api/src/executable_table.rs\<close> that work on source
  text and schemas - the line diff of two transform versions, the source hash that keys the binary
  cache, and data contracts. Arrow's \<open>Debug\<close> text of a data type is an argument.
\<close>

section \<open>Diff of two versions\<close>

datatype change_type = Added | Removed | Unchanged

record diff_line =
  line_number :: nat
  change :: change_type
  content :: string

text \<open>The loop over the line numbers; both lists are indexed with the same counter.\<close>

fun diff_loop ::
  "nat \<Rightarrow> string list \<Rightarrow> string list \<Rightarrow> diff_line list \<times> nat \<times> nat \<times> nat" where
  "diff_loop i [] [] = ([], 0, 0, 0)"
| "diff_loop i (x # xs) (y # ys) =
     (let (d, a, r, c) = diff_loop (i + 1) xs ys
      in if x = y then (\<lparr>line_number = i + 1, change = Unchanged, content = x\<rparr> # d, a, r, c)
         else (\<lparr>line_number = i + 1, change = Removed, content = x\<rparr> #
               \<lparr>line_number = i + 1, change = Added, content = y\<rparr> # d, a, r, c + 1))"
| "diff_loop i (x # xs) [] =
     (let (d, a, r, c) = diff_loop (i + 1) xs []
      in (\<lparr>line_number = i + 1, change = Removed, content = x\<rparr> # d, a, r + 1, c))"
| "diff_loop i [] (y # ys) =
     (let (d, a, r, c) = diff_loop (i + 1) [] ys
      in (\<lparr>line_number = i + 1, change = Added, content = y\<rparr> # d, a + 1, r, c))"

definition diff_transforms :: "string \<Rightarrow> string \<Rightarrow> diff_line list \<times> nat \<times> nat \<times> nat" where
  "diff_transforms old_source new_source = diff_loop 0 (str_lines old_source) (str_lines new_source)"

definition side :: "change_type \<Rightarrow> diff_line list \<Rightarrow> string list" where
  "side t d = map content (filter (\<lambda>l. change l = Unchanged \<or> change l = t) d)"

lemma diff_loop_sides:
  "diff_loop i xs ys = (d, a, r, c) \<Longrightarrow>
     side Removed d = xs \<and> side Added d = ys \<and>
     length (filter (\<lambda>l. change l = Added) d) = a + c \<and>
     length (filter (\<lambda>l. change l = Removed) d) = r + c \<and>
     (a = 0 \<or> r = 0) \<and> (a = 0 \<and> r = 0 \<and> c = 0 \<longleftrightarrow> xs = ys)"
proof (induction i xs ys arbitrary: d a r c rule: diff_loop.induct)
  case (1 i)
  then show ?case by (simp add: side_def)
next
  case (2 i x xs y ys)
  obtain d' a' r' c' where l: "diff_loop (i + 1) xs ys = (d', a', r', c')" by (metis prod_cases4)
  from "2.IH" [OF l] "2.prems" l show ?case by (auto simp: side_def split: if_splits)
next
  case (3 i x xs)
  obtain d' a' r' c' where l: "diff_loop (i + 1) xs [] = (d', a', r', c')" by (metis prod_cases4)
  have "a' = 0" using l by (induction i xs "[] :: string list" arbitrary: d' a' r' c' rule: diff_loop.induct)
      (auto simp: Let_def split: prod.splits)
  with "3.IH" [OF l] "3.prems" l show ?case by (auto simp: side_def)
next
  case (4 i y ys)
  obtain d' a' r' c' where l: "diff_loop (i + 1) [] ys = (d', a', r', c')" by (metis prod_cases4)
  have "r' = 0" using l by (induction i "[] :: string list" ys arbitrary: d' a' r' c' rule: diff_loop.induct)
      (auto simp: Let_def split: prod.splits)
  with "4.IH" [OF l] "4.prems" l show ?case by (auto simp: side_def)
qed

unbundle bit_operations_syntax

section \<open>Source hash\<close>

definition fnv_offset :: u64 where "fnv_offset = 0xcbf29ce484222325"

definition fnv_prime :: u64 where "fnv_prime = 0x100000001b3"

definition fnv_step :: "char \<Rightarrow> u64 \<Rightarrow> u64" where
  "fnv_step b h = (h XOR of_nat (of_char b)) * fnv_prime"

definition fnv1a :: "string \<Rightarrow> u64" where
  "fnv1a code = fold fnv_step code fnv_offset"

definition hex_digit :: "nat \<Rightarrow> char" where
  "hex_digit d = (if d < 10 then char_of (48 + d) else char_of (87 + d))"

text \<open>\<open>format!("{:016x}", hash)\<close>\<close>

definition hex16 :: "u64 \<Rightarrow> string" where
  "hex16 w = map (\<lambda>i. hex_digit (unat w div 16 ^ i mod 16)) (rev [0..<16])"

definition hash_source :: "string \<Rightarrow> string" where
  "hash_source code = hex16 (fnv1a code)"

lemma fnv_step_inj: "fnv_step b h = fnv_step b' h' \<Longrightarrow> h XOR of_nat (of_char b) = h' XOR of_nat (of_char b')"
proof -
  assume "fnv_step b h = fnv_step b' h'"
  then have "(h XOR of_nat (of_char b)) * fnv_prime * 0xce965057aff6957b =
      (h' XOR of_nat (of_char b')) * fnv_prime * 0xce965057aff6957b"
    by (simp add: fnv_step_def)
  moreover have "fnv_prime * 0xce965057aff6957b = 1" by (simp add: fnv_prime_def)
  ultimately show ?thesis by (simp only: mult.assoc mult_1_right)
qed

lemma xor_right_cancel: "(h :: 'a::len word) XOR x = h' XOR x \<Longrightarrow> h = h'"
  by (metis xor.assoc xor_self_eq xor.right_neutral)

lemma xor_left_cancel: "(h :: 'a::len word) XOR x = h XOR y \<Longrightarrow> x = y"
  by (metis xor.assoc xor_self_eq xor.left_neutral)

lemma fnv_fold_inj: "fold fnv_step s h = fold fnv_step s h' \<Longrightarrow> h = h'"
  by (induction s arbitrary: h h') (auto dest!: fnv_step_inj xor_right_cancel)

lemma char_word_inj: "(of_nat (of_char x) :: u64) = of_nat (of_char y) \<longleftrightarrow> x = y"
proof
  assume "(of_nat (of_char x) :: u64) = of_nat (of_char y)"
  then have "unat (of_nat (of_char x) :: u64) = unat (of_nat (of_char y) :: u64)" by (rule arg_cong)
  moreover have "unat (of_nat (of_char c) :: u64) = of_char c" for c
  proof -
    have "(of_char c :: nat) < 2 ^ 64" using nat_of_char_less_256 [of c] by (rule less_trans) simp
    then show ?thesis by (simp add: unat_of_nat)
  qed
  ultimately show "x = y" by simp
qed simp

lemma hex_digit_inj: "a < 16 \<Longrightarrow> b < 16 \<Longrightarrow> hex_digit a = hex_digit b \<Longrightarrow> a = b"
proof -
  assume ab: "a < 16" "b < 16" and eq: "hex_digit a = hex_digit b"
  have v: "(of_char (hex_digit d) :: nat) = (if d < 10 then 48 + d else 87 + d)" if "d < 16" for d
    using that by (simp add: hex_digit_def of_char_of)
  have "(of_char (hex_digit a) :: nat) = of_char (hex_digit b)" using eq by simp
  then show ?thesis unfolding v [OF ab(1)] v [OF ab(2)] using ab by (simp split: if_splits)
qed

lemma hex_digits_mod:
  "(\<And>i. i < n \<Longrightarrow> (x :: nat) div 16 ^ i mod 16 = y div 16 ^ i mod 16) \<Longrightarrow> x mod 16 ^ n = y mod 16 ^ n"
proof (induction n)
  case 0
  then show ?case by simp
next
  case (Suc n)
  have s: "z mod 16 ^ Suc n = 16 ^ n * (z div 16 ^ n mod 16) + z mod 16 ^ n" for z :: nat
    using mod_mult2_eq [of z "16 ^ n" 16] by (simp add: mult.commute)
  have "x mod 16 ^ n = y mod 16 ^ n" using Suc by simp
  moreover have "x div 16 ^ n mod 16 = y div 16 ^ n mod 16" using Suc.prems [of n] by simp
  ultimately show ?case unfolding s by simp
qed

lemma hex16_inj: "hex16 x = hex16 y \<longleftrightarrow> x = y"
proof
  assume "hex16 x = hex16 y"
  then have "map (\<lambda>i. hex_digit (unat x div 16 ^ i mod 16)) [0..<16] =
      map (\<lambda>i. hex_digit (unat y div 16 ^ i mod 16)) [0..<16]"
    unfolding hex16_def rev_map [symmetric] by (simp only: rev_is_rev_conv rev_rev_ident)
  then have "unat x div 16 ^ i mod 16 = unat y div 16 ^ i mod 16" if "i < 16" for i
    using that by (intro hex_digit_inj) (auto simp: map_eq_conv)
  then have "unat x mod 16 ^ 16 = unat y mod 16 ^ 16" by (rule hex_digits_mod)
  moreover have "unat w mod 16 ^ 16 = unat w" for w :: u64
    using unsigned_less [where 'a = nat and w = w] by simp
  ultimately show "x = y" by (simp add: word_unat_eq_iff)
qed simp

text \<open>Two versions of a source text that differ in exactly one byte always get different cache
  keys, and every key has 16 hexadecimal digits.\<close>

theorem one_byte_edit_changes_hash:
  "(hash_source (a @ [x] @ b) = hash_source (a @ [y] @ b) \<longleftrightarrow> x = y) \<and> length (hash_source a) = 16"
proof
  have "x = y" if "fnv1a (a @ [x] @ b) = fnv1a (a @ [y] @ b)"
  proof -
    from that have "fnv_step x (fold fnv_step a fnv_offset) = fnv_step y (fold fnv_step a fnv_offset)"
      by (auto simp: fnv1a_def dest: fnv_fold_inj)
    then have "(of_nat (of_char x) :: u64) = of_nat (of_char y)"
      by (blast dest: fnv_step_inj xor_left_cancel)
    then show ?thesis by (simp only: char_word_inj)
  qed
  then show "hash_source (a @ [x] @ b) = hash_source (a @ [y] @ b) \<longleftrightarrow> x = y"
    unfolding hash_source_def hex16_inj by blast
  show "length (hash_source a) = 16" by (simp add: hash_source_def hex16_def)
qed

text \<open>A diff is faithful: its unchanged and removed lines are the old text, its unchanged and added
  lines the new one, its counters count what it lists (a changed line is one removal and one addition),
  and they are all zero exactly when the two texts have the same lines.\<close>

theorem diff_reconstructs_both:
  assumes "diff_transforms old new = (d, added, removed, changed)"
  shows "side Removed d = str_lines old \<and> side Added d = str_lines new \<and>
    length (filter (\<lambda>l. change l = Added) d) = added + changed \<and>
    length (filter (\<lambda>l. change l = Removed) d) = removed + changed \<and>
    (added = 0 \<and> removed = 0 \<and> changed = 0 \<longleftrightarrow> str_lines old = str_lines new)"
  using diff_loop_sides [OF assms [unfolded diff_transforms_def]] by blast

lemma diff_reconstructs_both_witness:
  "\<exists>d a r c. diff_transforms ''x;y'' ''x'' = (d, a, r, c) \<and> side Removed d = str_lines ''x;y'' \<and>
     side Added d = str_lines ''x''"
proof -
  obtain d a r c where d: "diff_transforms ''x;y'' ''x'' = (d, a, r, c)" by (metis prod_cases4)
  from diff_reconstructs_both [OF d] d show ?thesis by blast
qed

section \<open>Data contracts\<close>

record schema_check =
  check_column :: string
  check_type :: string
  check_nullable :: bool
  check_required :: bool

record data_contract =
  contract_id :: string
  producer_table :: string
  consumer_tables :: "string list"
  schema_checks :: "schema_check list"
  freshness_sla_hours :: "rat option"
  contract_gates :: "string list"
  contract_status :: string
  last_validated :: "string option"
  contract_created_at :: string

record contract_violation =
  violation_type :: string
  violation_column :: string
  expected :: string
  actual :: string

record contract_result =
  result_id :: string
  passed :: bool
  violations :: "contract_violation list"
  validated_at :: string

definition show_bool :: "bool \<Rightarrow> string" where
  "show_bool b = (if b then ''true'' else ''false'')"

definition check_field :: "(arrow_type \<Rightarrow> string) \<Rightarrow> schema_check \<Rightarrow> arrow_field option \<Rightarrow> contract_violation list" where
  "check_field type_debug ck fo =
     (case fo of
        Some f \<Rightarrow>
          (let actual_type = type_debug (data_type f)
           in (if \<not> contains (to_lowercase actual_type) (to_lowercase (check_type ck))
               then [\<lparr>violation_type = ''type_mismatch'', violation_column = check_column ck,
                      expected = check_type ck, actual = actual_type\<rparr>] else []) @
              (if check_nullable ck \<noteq> is_nullable f
               then [\<lparr>violation_type = ''nullable_mismatch'', violation_column = check_column ck,
                      expected = ''nullable='' @ show_bool (check_nullable ck),
                      actual = ''nullable='' @ show_bool (is_nullable f)\<rparr>] else []))
      | None \<Rightarrow>
          (if check_required ck
           then [\<lparr>violation_type = ''missing_column'', violation_column = check_column ck,
                  expected = ''column exists'', actual = ''column not found''\<rparr>] else []))"

text \<open>Of the batches only their number and the schema of the first one are read.\<close>

definition validate_contract ::
  "(arrow_type \<Rightarrow> string) \<Rightarrow> string \<Rightarrow> data_contract \<Rightarrow> arrow_field list list \<Rightarrow> contract_result" where
  "validate_contract type_debug now contract batches =
     (case batches of
        [] \<Rightarrow> \<lparr>result_id = contract_id contract, passed = False,
               violations = [\<lparr>violation_type = ''no_data'', violation_column = ''*'',
                 expected = ''at least 1 batch'', actual = ''0 batches''\<rparr>],
               validated_at = now\<rparr>
      | schema # _ \<Rightarrow>
          (let vs = concat (map (\<lambda>ck. check_field type_debug ck
                       (find (\<lambda>f. field_name f = check_column ck) schema)) (schema_checks contract))
           in \<lparr>result_id = contract_id contract, passed = (vs = []), violations = vs,
               validated_at = now\<rparr>))"

text \<open>A contract passes exactly when there is data and every checked column of the first batch
  either has a type text that contains the wanted one (ignoring case) and the wanted nullability, or is
  absent and not required.\<close>

theorem contract_passes_iff:
  "passed (validate_contract type_debug now contract batches) \<longleftrightarrow>
     (\<exists>schema rest. batches = schema # rest \<and>
        list_all (\<lambda>ck. case find (\<lambda>f. field_name f = check_column ck) schema of
            None \<Rightarrow> \<not> check_required ck
          | Some f \<Rightarrow> contains (to_lowercase (type_debug (data_type f))) (to_lowercase (check_type ck)) \<and>
              check_nullable ck = is_nullable f)
          (schema_checks contract))"
proof -
  have c: "check_field type_debug ck fo = [] \<longleftrightarrow> (case fo of
            None \<Rightarrow> \<not> check_required ck
          | Some f \<Rightarrow> contains (to_lowercase (type_debug (data_type f))) (to_lowercase (check_type ck)) \<and>
              check_nullable ck = is_nullable f)" for ck fo
    by (auto simp: check_field_def Let_def split: option.splits)
  show ?thesis
    by (cases batches) (auto simp: validate_contract_def Let_def list_all_iff c [symmetric])
qed

end
