(* ===== verification/Column_Lineage.thy ===== *)
theory Column_Lineage
  imports Prelude
begin

text \<open>
  Column lineage from a SELECT list: \<open>parse_sql_column_lineage\<close> and its helpers in
  \<open>crates/rustlake-api/src/executable_table.rs\<close>. Positions found in the upper-cased text are used
  in the original. A slice panics when its bounds are out of range, crossed or inside a character; \<open>up\<close> is
  Unicode's upper-casing.
\<close>

record lineage_entry =
  output_column :: string
  source_table :: "string option"
  source_column :: "string option"
  transform_expression :: string

text \<open>The scan: nesting depth, the current column and the rest of the text.\<close>

fun split_columns :: "int \<Rightarrow> string \<Rightarrow> string \<Rightarrow> string list" where
  "split_columns depth cur [] = [cur]"
| "split_columns depth cur (c # cs) =
     (if c = CHR ''('' then split_columns (depth + 1) (cur @ [c]) cs
      else if c = CHR '')'' then split_columns (depth - 1) (cur @ [c]) cs
      else if c = CHR '','' \<and> depth = 0 then cur # split_columns depth [] cs
      else split_columns depth (cur @ [c]) cs)"

definition split_select_columns :: "string \<Rightarrow> string list" where
  "split_select_columns clause = split_columns 0 [] clause"

definition extract_alias :: "(string \<Rightarrow> string) \<Rightarrow> string \<Rightarrow> (string \<times> string option) result" where
  "extract_alias up expr =
     (case rfind_str (up expr) '' AS '' of
        Some pos \<Rightarrow>
          bind_result (slice (pos + 4) (length expr) expr) (\<lambda>a.
          bind_result (slice 0 pos expr) (\<lambda>e.
          Ok (e, Some (trim_matches (CHR 0x60) (trim_matches (CHR 0x22) (trim a))))))
      | None \<Rightarrow> Ok (expr, None))"

definition matched_table :: "string list \<Rightarrow> string \<Rightarrow> string option" where
  "matched_table input_tables part =
     find (\<lambda>t. to_lowercase t = to_lowercase part \<or> ends_with t (''.'' @ part)) input_tables"

lemma rfind_str_less: "rfind_str s p = Some i \<Longrightarrow> p \<noteq> [] \<Longrightarrow> i < length s"
  using rfind_str_bound [of s p i] by (cases p) auto

lemma length_trim_less: "length s < n \<Longrightarrow> length (trim s) < n"
  using length_trim_le [of s] by simp

function parse_source_reference ::
  "string \<Rightarrow> string list \<Rightarrow> string option \<Rightarrow> (string option \<times> string option) result" where
  "parse_source_reference expr input_tables default_table =
     (let trimmed = trim expr
      in case find_str trimmed ''('' of
           Some start \<Rightarrow>
             (case rfind_str trimmed '')'' of
                Some end_pos \<Rightarrow>
                  (case slice (start + 1) end_pos trimmed of
                     Ok inner \<Rightarrow>
                       if inner = ''*'' then Ok (default_table, Some ''*'')
                       else parse_source_reference inner input_tables default_table
                   | Err e \<Rightarrow> Err e
                   | Panic \<Rightarrow> Panic)
              | None \<Rightarrow> Ok (default_table, None))
         | None \<Rightarrow>
             (case find_str trimmed ''.'' of
                Some dot \<Rightarrow>
                  (let table_part = trim (take dot trimmed); col_part = trim (drop (dot + 1) trimmed)
                   in Ok (Some (unwrap_or table_part (matched_table input_tables table_part)),
                          Some col_part))
              | None \<Rightarrow> Ok (default_table, Some trimmed)))"
  by pat_completeness auto
termination
proof (relation "measure (\<lambda>(e, _, _). length e)", simp, goal_cases)
  case (1 expr input_tables default_table trimmed start end_pos inner)
  then have "end_pos < length trimmed" by (auto dest: rfind_str_less)
  moreover have "length inner \<le> end_pos - (start + 1)" using 1 by (auto dest: slice_Ok)
  ultimately have "length inner < length trimmed" by simp
  with 1(1) show ?case using length_trim_le [of expr] by simp
qed

declare parse_source_reference.simps [simp del]

definition output_name :: "string \<Rightarrow> string option \<Rightarrow> string" where
  "output_name expr alias =
     (case alias of Some a \<Rightarrow> a | None \<Rightarrow> trim (last (split_char (CHR ''.'') expr)))"

text \<open>One expression of the list; empty ones give nothing.\<close>

definition column_entries ::
  "(string \<Rightarrow> string) \<Rightarrow> string list \<Rightarrow> string option \<Rightarrow> string \<Rightarrow> lineage_entry list result" where
  "column_entries up input_tables default_table col_expr =
     (let c = trim col_expr
      in if c = ''*'' then Ok [\<lparr>output_column = ''*'', source_table = default_table,
                             source_column = Some ''*'', transform_expression = ''*''\<rparr>]
         else if c = [] then Ok []
         else bind_result (extract_alias up c) (\<lambda>(expr, alias).
              bind_result (parse_source_reference expr input_tables default_table) (\<lambda>(t, col).
              Ok [\<lparr>output_column = output_name expr alias, source_table = t,
                   source_column = col, transform_expression = trim expr\<rparr>])))"

text \<open>The offset after SELECT and DISTINCT; \<open>sql_upper[select_pos..]\<close> is the first slice.\<close>

definition select_offset :: "string \<Rightarrow> nat result" where
  "select_offset sql_upper =
     (let select_pos = unwrap_or 0 (find_str sql_upper ''SELECT'') + 6
      in bind_result (slice select_pos (length sql_upper) sql_upper) (\<lambda>rest.
         Ok (if starts_with (trim_start rest) ''DISTINCT''
             then select_pos + unwrap_or 0 (find_str rest ''DISTINCT'') + 8
             else select_pos)))"

definition parse_sql_column_lineage ::
  "(string \<Rightarrow> string) \<Rightarrow> string \<Rightarrow> string list \<Rightarrow> lineage_entry list result" where
  "parse_sql_column_lineage up sql input_tables =
     (let sql_upper = up sql
      in bind_result (select_offset sql_upper) (\<lambda>off.
         let from_pos = unwrap_or (length sql) (find_str sql_upper '' FROM '')
         in if from_pos \<le> off then Ok []
            else bind_result (slice off from_pos sql) (\<lambda>clause.
                 let default_table = (case input_tables of [] \<Rightarrow> None | t # _ \<Rightarrow> Some t)
                 in bind_result (map_result_list (column_entries up input_tables default_table)
                      (split_select_columns clause)) (\<lambda>es. Ok (concat es)))))"

section \<open>Splitting loses nothing\<close>

text \<open>No comma at depth 0 when the text is read from a given depth.\<close>

fun no_top_comma :: "int \<Rightarrow> string \<Rightarrow> bool" where
  "no_top_comma depth [] = True"
| "no_top_comma depth (c # cs) =
     (if c = CHR ''('' then no_top_comma (depth + 1) cs
      else if c = CHR '')'' then no_top_comma (depth - 1) cs
      else \<not> (c = CHR '','' \<and> depth = 0) \<and> no_top_comma depth cs)"

fun depth_after :: "int \<Rightarrow> string \<Rightarrow> int" where
  "depth_after depth [] = depth"
| "depth_after depth (c # cs) =
     depth_after (if c = CHR ''('' then depth + 1 else if c = CHR '')'' then depth - 1 else depth) cs"

lemma split_columns_not_Nil [simp]: "split_columns d cur s \<noteq> []"
  by (induction d cur s rule: split_columns.induct) auto

lemma join_cons: "ys \<noteq> [] \<Longrightarrow> join_with sep (x # ys) = x @ sep @ join_with sep ys"
  by (cases ys) auto

lemma join_split_columns: "join_with '','' (split_columns d cur s) = cur @ s"
  by (induction d cur s rule: split_columns.induct) (auto simp: join_cons)

lemma no_top_comma_snoc:
  "no_top_comma d (s @ [c]) \<longleftrightarrow> no_top_comma d s \<and> \<not> (c = CHR '','' \<and> depth_after d s = 0)"
  by (induction s arbitrary: d) auto

lemma depth_after_snoc:
  "depth_after d (s @ [c]) =
     (if c = CHR ''('' then depth_after d s + 1 else if c = CHR '')'' then depth_after d s - 1
      else depth_after d s)"
  by (induction s arbitrary: d) auto

lemma split_columns_pieces:
  "no_top_comma 0 cur \<Longrightarrow> d = depth_after 0 cur \<Longrightarrow> p \<in> set (split_columns d cur s) \<Longrightarrow> no_top_comma 0 p"
proof (induction d cur s rule: split_columns.induct)
  case (1 depth cur)
  then show ?case by simp
next
  case (2 depth cur c cs)
  have snoc: "no_top_comma 0 (cur @ [c])" if "\<not> (c = CHR '','' \<and> depth = 0)"
    using 2(5,6) that by (simp add: no_top_comma_snoc)
  consider (op) "c = CHR ''(''" | (cl) "c = CHR '')''" | (comma) "c = CHR '',''" "depth = 0"
    | (other) "c \<noteq> CHR ''(''" "c \<noteq> CHR '')''" "\<not> (c = CHR '','' \<and> depth = 0)" by blast
  then show ?case
  proof cases
    case op
    with snoc 2(6,7) show ?thesis by (intro 2(1)) (simp_all add: depth_after_snoc)
  next
    case cl
    with snoc 2(6,7) show ?thesis by (intro 2(2)) (simp_all add: depth_after_snoc)
  next
    case comma
    with 2(7) have "p = cur \<or> p \<in> set (split_columns depth [] cs)" by simp
    with comma 2(3,5) show ?thesis by auto
  next
    case other
    then have "split_columns depth cur (c # cs) = split_columns depth (cur @ [c]) cs" by auto
    with 2(7) have "p \<in> set (split_columns depth (cur @ [c]) cs)" by (simp only:)
    with other snoc 2(6) show ?thesis by (intro 2(4)) (auto simp add: depth_after_snoc)
  qed
qed

text \<open>The SELECT list is cut without loss and only at commas outside parentheses: the pieces joined
  with commas are the clause, and no piece has a comma at depth 0.\<close>

theorem select_columns_partition_clause:
  "join_with '','' (split_select_columns clause) = clause \<and>
   list_all (no_top_comma 0) (split_select_columns clause)"
  using split_columns_pieces [of "[]" 0 _ clause] join_split_columns [of 0 "[]" clause]
  by (auto simp: split_select_columns_def list_all_iff)

section \<open>When lineage returns\<close>

lemma find_str_None_char: "c \<notin> set s \<Longrightarrow> find_str s [c] = None"
  by (induction s) auto

lemma parse_source_reference_no_call:
  "CHR ''('' \<notin> set e \<Longrightarrow> \<exists>r. parse_source_reference e ts d = Ok r"
proof -
  assume "CHR ''('' \<notin> set e"
  then have "CHR ''('' \<notin> set (trim e)" using set_trim by blast
  then show ?thesis
    by (subst parse_source_reference.simps) (auto simp: find_str_None_char Let_def split: option.splits)
qed

lemma extract_alias_ascii:
  assumes "unicode_case ascii_upper up" and "ascii_str e"
  shows "\<exists>e' al. extract_alias up e = Ok (e', al) \<and> set e' \<subseteq> set e"
proof (cases "rfind_str (to_uppercase e) '' AS ''")
  case (Some pos)
  from rfind_str_bound [OF this] have "pos + 4 \<le> length e" by simp
  then have s: "slice (pos + 4) (length e) e = Ok (drop (pos + 4) e)" "slice 0 pos e = Ok (take pos e)"
    using ascii_slice [OF assms(2)] by simp_all
  show ?thesis
    unfolding extract_alias_def to_uppercase_ascii [OF assms] Some option.case s bind_result_simps
    using set_take_subset [of pos e] by blast
qed (simp add: extract_alias_def to_uppercase_ascii [OF assms])

lemma column_entries_no_call:
  assumes "unicode_case ascii_upper up" and "ascii_str c" and "CHR ''('' \<notin> set c"
  shows "\<exists>es. column_entries up ts d c = Ok es"
proof -
  have t: "set (trim c) \<subseteq> set c" by (rule set_trim)
  obtain e al where e: "extract_alias up (trim c) = Ok (e, al)" "set e \<subseteq> set (trim c)"
    using extract_alias_ascii [OF assms(1) ascii_str_subset [OF assms(2) t]] by blast
  then obtain r where "parse_source_reference e ts d = Ok r"
    using parse_source_reference_no_call assms(3) t by blast
  with e(1) show ?thesis by (auto simp: column_entries_def Let_def split: prod.splits)
qed

lemma map_result_list_Ok: "\<forall>x \<in> set xs. \<exists>y. f x = Ok y \<Longrightarrow> \<exists>ys. map_result_list f xs = Ok ys"
  by (induction xs) force+

lemma set_join_pieces: "p \<in> set xs \<Longrightarrow> set p \<subseteq> set (join_with sep xs)"
  by (induction sep xs rule: join_with.induct) auto

lemma lineage_answers_ascii:
  assumes "unicode_case ascii_upper up" and a: "ascii_str sql" "6 \<le> length sql" "CHR ''('' \<notin> set sql"
  shows "\<exists>entries. parse_sql_column_lineage up sql tables = Ok entries"
proof -
  let ?u = "to_uppercase sql"
  have u: "up sql = ?u" by (rule to_uppercase_ascii [OF assms(1)]) (use a in blast)
  have au: "ascii_str ?u" using a by (blast intro: ascii_to_uppercase)
  have pos: "unwrap_or 0 (find_str ?u ''SELECT'') + 6 \<le> length ?u"
    using a find_str_bound [of ?u "''SELECT''"] by (cases "find_str ?u ''SELECT''") auto
  then obtain off where off: "select_offset ?u = Ok off"
    by (simp add: select_offset_def ascii_slice au Let_def)
  let ?from = "unwrap_or (length sql) (find_str ?u '' FROM '')"
  have fr: "?from \<le> length sql"
    using find_str_bound [of ?u "'' FROM ''"] by (cases "find_str ?u '' FROM ''") auto
  show ?thesis
  proof (cases "?from \<le> off")
    case True
    with off show ?thesis by (simp add: parse_sql_column_lineage_def u Let_def)
  next
    case False
    let ?clause = "take (?from - off) (drop off sql)"
    have sl: "slice off ?from sql = Ok ?clause" using False fr a by (simp add: ascii_slice)
    have "\<exists>es. column_entries up ts d c = Ok es" if "c \<in> set (split_select_columns ?clause)" for ts d c
    proof (rule column_entries_no_call [OF assms(1)])
      have "set c \<subseteq> set (join_with '','' (split_select_columns ?clause))" using that by (rule set_join_pieces)
      then have "set c \<subseteq> set ?clause" unfolding split_select_columns_def by (simp add: join_split_columns)
      also have "\<dots> \<subseteq> set sql" by (meson order_trans set_drop_subset set_take_subset)
      finally have c: "set c \<subseteq> set sql" .
      show "CHR ''('' \<notin> set c" using a c by blast
      show "ascii_str c" using a c by (blast intro: ascii_str_subset)
    qed
    then have "\<exists>ys. map_result_list (column_entries up ts d) (split_select_columns ?clause) = Ok ys" for ts d
      by (intro map_result_list_Ok) blast
    with off sl False show ?thesis by (simp add: parse_sql_column_lineage_def u Let_def)
  qed
qed

text \<open>C28. Which texts make lineage panic. Without the word SELECT, every text whose upper-cased form is shorter
  than six bytes or has a character across byte six, because the length of the keyword is added to the
  default position 0 before the slice; so every ASCII text shorter than six bytes. An ASCII text of at
  least six bytes without parentheses is always answered.\<close>

theorem lineage_panics_on_short_text:
  assumes "unicode_case ascii_upper up"
  shows "(find_str (up sql) ''SELECT'' = None \<and> \<not> char_boundary (up sql) 6 \<longrightarrow> parse_sql_column_lineage up sql tables = Panic) \<and>
   (ascii_str sql \<and> length sql < 6 \<longrightarrow> parse_sql_column_lineage up sql tables = Panic) \<and>
   (ascii_str sql \<and> 6 \<le> length sql \<and> CHR ''('' \<notin> set sql \<longrightarrow>
      (\<exists>entries. parse_sql_column_lineage up sql tables = Ok entries))"
proof (intro conjI impI)
  have panic: "parse_sql_column_lineage up sql tables = Panic"
    if "find_str (up sql) ''SELECT'' = None" "\<not> char_boundary (up sql) 6"
    using that by (simp add: parse_sql_column_lineage_def select_offset_def slice_def Let_def)
  then show "parse_sql_column_lineage up sql tables = Panic"
    if "find_str (up sql) ''SELECT'' = None \<and> \<not> char_boundary (up sql) 6"
    using that by (elim conjE)
  show "parse_sql_column_lineage up sql tables = Panic" if short: "ascii_str sql \<and> length sql < 6"
  proof (rule panic)
    have u: "up sql = to_uppercase sql" by (rule to_uppercase_ascii [OF assms]) (use short in blast)
    show "find_str (up sql) ''SELECT'' = None"
    proof (cases "find_str (up sql) ''SELECT''")
      case (Some i)
      have "length (up sql) = length sql" unfolding u by simp
      with find_str_bound [OF Some] short show ?thesis by simp
    qed
    show "\<not> char_boundary (up sql) 6" using short unfolding u by (auto simp: char_boundary_def)
  qed
next
  show "\<exists>entries. parse_sql_column_lineage up sql tables = Ok entries"
    if "ascii_str sql \<and> 6 \<le> length sql \<and> CHR ''('' \<notin> set sql"
    using that by (intro lineage_answers_ascii [OF assms]) simp_all
qed

text \<open>The second text is an a and four times e with an acute accent, ten bytes in UTF-8.\<close>

lemma lineage_panics_on_short_text_witness:
  "parse_sql_column_lineage to_uppercase ''x'' [] = Panic \<and>
   parse_sql_column_lineage to_uppercase (CHR ''a'' # concat (replicate 4 [CHR 0xC3, CHR 0xA9])) [] = Panic \<and>
   (\<exists>entries. parse_sql_column_lineage to_uppercase ''SELECT t.a AS b FROM t'' [''t''] = Ok entries)"
proof -
  note t = lineage_panics_on_short_text [OF unicode_case_self(1)]
  let ?s = "CHR ''a'' # concat (replicate 4 [CHR 0xC3, CHR 0xA9])"
  have "find_str (to_uppercase ?s) ''SELECT'' = None" "\<not> char_boundary (to_uppercase ?s) 6" by code_simp+
  moreover have "ascii_str ''x''" "ascii_str ''SELECT t.a AS b FROM t''" by code_simp+
  ultimately show ?thesis
    using t [of "''x''" "[]"] t [of ?s "[]"] t [of "''SELECT t.a AS b FROM t''" "[''t'']"] by simp
qed

end
