(* ===== verification/Dependency_Order.thy ===== *)
theory Dependency_Order
  imports Prelude "HOL-Library.Finite_Map" "HOL-Library.AList" "HOL-Library.Multiset"
begin

text \<open>
  The upstream order of executable tables: \<open>build_dependency_dag\<close> and
  \<open>topological_sort_upstream\<close> of \<open>crates/rustlake-api/src/executable_table.rs\<close>. A breadth-first
  search collects what a target depends on, Kahn's algorithm orders it. The hash maps that are
  iterated are association lists and each iteration goes through a reordering argument, since its
  order is unspecified. The two loops are \<open>partial_function (option)\<close>; that they end is proved.
\<close>

section \<open>The dependency graph\<close>

type_synonym dag = "(string, string list) fmap"

definition deps_of :: "dag \<Rightarrow> string \<Rightarrow> string list" where
  "deps_of dag n = unwrap_or [] (fmlookup dag n)"

text \<open>\<open>dag.entry(k).or_default()\<close> and pushing to the entry.\<close>

definition or_default :: "string \<Rightarrow> dag \<Rightarrow> dag" where
  "or_default k dag = (if fmlookup dag k = None then fmupd k [] dag else dag)"

definition push_entry :: "string \<Rightarrow> string \<Rightarrow> dag \<Rightarrow> dag" where
  "push_entry k x dag = fmupd k (deps_of dag k @ [x]) dag"

fun add_inputs :: "string \<Rightarrow> string list \<Rightarrow> dag \<Rightarrow> dag" where
  "add_inputs t [] dag = dag"
| "add_inputs t (i # is) dag = add_inputs t is (push_entry t i (or_default i dag))"

text \<open>Of a table the graph reads the name and the input tables.\<close>

fun add_tables :: "(string \<times> string list) list \<Rightarrow> dag \<Rightarrow> dag" where
  "add_tables [] dag = dag"
| "add_tables ((t, inputs) # ts) dag = add_tables ts (add_inputs t inputs (or_default t dag))"

definition build_dependency_dag :: "(string \<times> string list) list \<Rightarrow> dag" where
  "build_dependency_dag ts = add_tables ts fmempty"

section \<open>Collecting what is upstream\<close>

fun visit_deps :: "string list \<Rightarrow> string list \<Rightarrow> string list \<Rightarrow> string list \<times> string list" where
  "visit_deps [] queue upstream = (queue, upstream)"
| "visit_deps (d # ds) queue upstream =
     (if d \<in> set upstream then visit_deps ds queue upstream
      else visit_deps ds (queue @ [d]) (upstream @ [d]))"

partial_function (option) collect_upstream ::
  "dag \<Rightarrow> string list \<Rightarrow> string list \<Rightarrow> string list option" where
  "collect_upstream dag queue upstream =
     (case queue of
        [] \<Rightarrow> Some upstream
      | n # rest \<Rightarrow>
          (case visit_deps (deps_of dag n) rest upstream of
             (queue', upstream') \<Rightarrow> collect_upstream dag queue' upstream'))"

section \<open>Kahn's algorithm\<close>

type_synonym degrees = "(string \<times> nat) list"
type_synonym edges = "(string \<times> string list) list"

definition entry_or_insert :: "string \<Rightarrow> 'v \<Rightarrow> (string \<times> 'v) list \<Rightarrow> (string \<times> 'v) list" where
  "entry_or_insert k v m = (if map_of m k = None then AList.update k v m else m)"

definition dependents :: "edges \<Rightarrow> string \<Rightarrow> string list" where
  "dependents rev_edges n = unwrap_or [] (map_of rev_edges n)"

fun count_deps ::
  "string list \<Rightarrow> string \<Rightarrow> string list \<Rightarrow> degrees \<times> edges \<Rightarrow> degrees \<times> edges" where
  "count_deps upstream n [] de = de"
| "count_deps upstream n (d # ds) (deg, rev_edges) =
     count_deps upstream n ds
       (if d \<in> set upstream then
          (AList.update n (unwrap_or 0 (map_of deg n) + 1) deg,
           AList.update d (dependents rev_edges d @ [n]) rev_edges)
        else (deg, rev_edges))"

fun sub_dag :: "dag \<Rightarrow> string list \<Rightarrow> string list \<Rightarrow> degrees \<times> edges \<Rightarrow> degrees \<times> edges" where
  "sub_dag dag upstream [] de = de"
| "sub_dag dag upstream (n # ns) (deg, rev_edges) =
     sub_dag dag upstream ns
       (count_deps upstream n (deps_of dag n) (entry_or_insert n 0 deg, rev_edges))"

text \<open>One processed node releases its dependents; a counter that would go below zero panics.\<close>

fun release :: "string list \<Rightarrow> degrees \<Rightarrow> string list \<Rightarrow> (degrees \<times> string list) result" where
  "release [] deg queue = Ok (deg, queue)"
| "release (d # ds) deg queue =
     (case map_of deg d of
        None \<Rightarrow> release ds deg queue
      | Some k \<Rightarrow>
          if k = 0 then Panic
          else release ds (AList.update d (k - 1) deg) (if k - 1 = 0 then queue @ [d] else queue))"

partial_function (option) kahn ::
  "edges \<Rightarrow> degrees \<Rightarrow> string list \<Rightarrow> string list \<Rightarrow> string list result option" where
  "kahn rev_edges deg queue done_nodes =
     (case queue of
        [] \<Rightarrow> Some (Ok done_nodes)
      | n # rest \<Rightarrow>
          (case release (dependents rev_edges n) deg rest of
             Ok dq \<Rightarrow> kahn rev_edges (fst dq) (snd dq) (done_nodes @ [n])
           | Err e \<Rightarrow> Some (Err e)
           | Panic \<Rightarrow> Some Panic))"

definition topological_sort_upstream ::
  "(string list \<Rightarrow> string list) \<Rightarrow> (degrees \<Rightarrow> degrees) \<Rightarrow> dag \<Rightarrow> string \<Rightarrow> string list result option"
  where
  "topological_sort_upstream set_order map_order dag target =
     Option.bind (collect_upstream dag [target] [target]) (\<lambda>upstream.
       let (deg, rev_edges) = sub_dag dag upstream (set_order upstream) ([], []);
           queue = map fst (filter (\<lambda>(n, k). k = 0) (map_order deg))
       in kahn rev_edges deg queue [])"

section \<open>Facts about the search\<close>

definition depends_on :: "dag \<Rightarrow> (string \<times> string) set" where
  "depends_on dag = {(n, d). d \<in> set (deps_of dag n)}"

definition upstream_of :: "dag \<Rightarrow> string \<Rightarrow> string set" where
  "upstream_of dag target = {n. (target, n) \<in> (depends_on dag)\<^sup>*}"

lemma visit_deps_spec:
  "visit_deps ds q up = (q', up') \<Longrightarrow>
     (\<exists>new. q' = q @ new \<and> up' = up @ new \<and> distinct new \<and> set new = set ds - set up)"
proof (induction ds q up rule: visit_deps.induct)
  case (1 q up)
  then show ?case by simp
next
  case (2 d ds q up)
  show ?case
  proof (cases "d \<in> set up")
    case True
    with 2 show ?thesis by (auto simp: insert_Diff_if)
  next
    case False
    with 2 obtain new where "q' = (q @ [d]) @ new" "up' = (up @ [d]) @ new" "distinct new"
      "set new = set ds - set (up @ [d])" by auto
    with False show ?thesis by (intro exI [of _ "d # new"]) auto
  qed
qed

definition all_deps :: "dag \<Rightarrow> string set" where
  "all_deps dag = (\<Union>n \<in> fmdom' dag. set (deps_of dag n))"

lemma finite_all_deps: "finite (all_deps dag)"
  by (simp add: all_deps_def)

lemma deps_of_all_deps: "set (deps_of dag n) \<subseteq> all_deps dag"
proof (cases "fmlookup dag n")
  case None
  then show ?thesis by (simp add: deps_of_def)
next
  case (Some ds)
  then have "n \<in> fmdom' dag" by (rule fmdom'I)
  then show ?thesis by (auto simp: all_deps_def)
qed

definition search_inv :: "dag \<Rightarrow> string \<Rightarrow> string list \<Rightarrow> string list \<Rightarrow> bool" where
  "search_inv dag target queue upstream \<longleftrightarrow>
     distinct upstream \<and> target \<in> set upstream \<and> set queue \<subseteq> set upstream \<and>
     set upstream \<subseteq> upstream_of dag target \<and>
     (\<forall>n \<in> set upstream - set queue. set (deps_of dag n) \<subseteq> set upstream)"

lemma search_inv_step:
  assumes "search_inv dag target (n # q) up" and "visit_deps (deps_of dag n) q up = (q', up')"
  shows "search_inv dag target q' up'"
proof -
  from visit_deps_spec [OF assms(2)] obtain new where new: "q' = q @ new" "up' = up @ new"
    "distinct new" "set new = set (deps_of dag n) - set up" by blast
  have n: "(target, n) \<in> (depends_on dag)\<^sup>*"
    using assms(1) by (auto simp: search_inv_def upstream_of_def)
  have "set new \<subseteq> upstream_of dag target"
  proof
    fix d assume "d \<in> set new"
    with new(4) have "(n, d) \<in> depends_on dag" by (auto simp: depends_on_def)
    with n show "d \<in> upstream_of dag target" by (auto simp: upstream_of_def)
  qed
  with assms(1) new show ?thesis by (auto simp: search_inv_def)
qed

lemma collect_upstream_total:
  assumes "search_inv dag target q up"
  shows "\<exists>up'. collect_upstream dag q up = Some up' \<and> search_inv dag target [] up'"
  using assms
proof (induction "2 * card (all_deps dag - set up) + length q" arbitrary: q up rule: less_induct)
  case less
  show ?case
  proof (cases q)
    case Nil
    with less.prems show ?thesis by (subst collect_upstream.simps) simp
  next
    case (Cons n rest)
    obtain q' up' where v: "visit_deps (deps_of dag n) rest up = (q', up')" by fastforce
    from visit_deps_spec [OF v] obtain new where new: "q' = rest @ new" "up' = up @ new"
      "distinct new" "set new = set (deps_of dag n) - set up" by blast
    have sub: "set new \<subseteq> all_deps dag - set up" using new(4) deps_of_all_deps by auto
    have "all_deps dag - set up' = (all_deps dag - set up) - set new" using new(2) by auto
    then have "card (all_deps dag - set up') = card (all_deps dag - set up) - length new"
      using card_Diff_subset [OF finite_set sub] distinct_card [OF new(3)] by simp
    moreover have "length new \<le> card (all_deps dag - set up)"
      using card_mono [OF _ sub] finite_all_deps distinct_card [OF new(3)] by simp
    moreover have "new \<noteq> [] \<or> length new = 0" by simp
    ultimately have "2 * card (all_deps dag - set up') + length q' < 2 * card (all_deps dag - set up) + length q"
      using new(1) Cons by simp
    moreover have "search_inv dag target q' up'" using less.prems v Cons by (auto intro: search_inv_step)
    ultimately have "\<exists>up''. collect_upstream dag q' up' = Some up'' \<and> search_inv dag target [] up''"
      by (rule less.hyps)
    with Cons v show ?thesis by (subst collect_upstream.simps) simp
  qed
qed

lemma search_inv_final:
  assumes "search_inv dag target [] up"
  shows "set up = upstream_of dag target"
proof
  show "set up \<subseteq> upstream_of dag target" using assms by (simp add: search_inv_def)
  show "upstream_of dag target \<subseteq> set up"
  proof
    fix n assume "n \<in> upstream_of dag target"
    then have "(target, n) \<in> (depends_on dag)\<^sup>*" by (simp add: upstream_of_def)
    then show "n \<in> set up"
      by (induction rule: rtrancl_induct) (use assms in \<open>auto simp: search_inv_def depends_on_def\<close>)
  qed
qed

lemma collect_upstream_Some:
  "\<exists>up. collect_upstream dag [target] [target] = Some up \<and> distinct up \<and> set up = upstream_of dag target"
proof -
  have "search_inv dag target [target] [target]" by (auto simp: search_inv_def upstream_of_def)
  from collect_upstream_total [OF this] obtain up where
    "collect_upstream dag [target] [target] = Some up" "search_inv dag target [] up" by blast
  moreover from this(2) have "distinct up" by (simp add: search_inv_def)
  ultimately show ?thesis using search_inv_final by blast
qed

section \<open>Facts about the sub-graph\<close>

lemma dependents_update:
  "dependents (AList.update d v rv) k = (if k = d then v else dependents rv k)"
  by (simp add: dependents_def update_conv')

lemma count_deps_spec:
  assumes "count_deps up n ds (deg, rv) = (deg', rv')" and "map_of deg n = Some c"
  shows "map_of deg' = (map_of deg)(n \<mapsto> c + length (filter (\<lambda>d. d \<in> set up) ds)) \<and>
    (\<forall>d. dependents rv' d = dependents rv d @ replicate (count_list (filter (\<lambda>d. d \<in> set up) ds) d) n) \<and>
    (distinct (map fst deg) \<longrightarrow> distinct (map fst deg'))"
  using assms
proof (induction ds arbitrary: deg rv c)
  case Nil
  then show ?case by (simp add: fun_upd_idem)
next
  case (Cons x ds)
  show ?case
  proof (cases "x \<in> set up")
    case False
    with Cons show ?thesis by simp
  next
    case True
    let ?deg = "AList.update n (c + 1) deg" and ?rv = "AList.update x (dependents rv x @ [n]) rv"
    have "count_deps up n ds (?deg, ?rv) = (deg', rv')" "map_of ?deg n = Some (c + 1)"
      using True Cons.prems by (simp_all add: update_conv')
    from Cons.IH [OF this] True show ?thesis
      by (auto simp: update_conv' dependents_update replicate_app_Cons_same distinct_update)
  qed
qed

lemma entry_or_insert_new:
  "map_of m k = None \<Longrightarrow> map_of (entry_or_insert k v m) = (map_of m)(k \<mapsto> v) \<and>
     (distinct (map fst m) \<longrightarrow> distinct (map fst (entry_or_insert k v m)))"
  by (simp add: entry_or_insert_def update_conv' distinct_update)

lemma sub_dag_spec:
  assumes "sub_dag dag up ns (deg, rv) = (deg', rv')"
    and "distinct ns" and "\<forall>n \<in> set ns. map_of deg n = None" and "distinct (map fst deg)"
  shows "(\<forall>k. map_of deg' k = (if k \<in> set ns
        then Some (length (filter (\<lambda>d. d \<in> set up) (deps_of dag k))) else map_of deg k)) \<and>
    (\<forall>d. dependents rv' d = dependents rv d @
        concat (map (\<lambda>n. replicate (count_list (filter (\<lambda>d. d \<in> set up) (deps_of dag n)) d) n) ns)) \<and>
    distinct (map fst deg')"
  using assms
proof (induction ns arbitrary: deg rv)
  case Nil
  then show ?case by simp
next
  case (Cons n ns)
  obtain deg1 rv1 where c: "count_deps up n (deps_of dag n) (entry_or_insert n 0 deg, rv) = (deg1, rv1)"
    by fastforce
  have new: "map_of (entry_or_insert n 0 deg) = (map_of deg)(n \<mapsto> 0)" "distinct (map fst (entry_or_insert n 0 deg))"
    using Cons.prems(3,4) entry_or_insert_new [of deg n 0] by auto
  then have n: "map_of (entry_or_insert n 0 deg) n = Some 0" by simp
  note spec = count_deps_spec [OF c n]
  have "sub_dag dag up ns (deg1, rv1) = (deg', rv')" using Cons.prems(1) c by simp
  moreover have "\<forall>m \<in> set ns. map_of deg1 m = None"
    using spec Cons.prems(2,3) new(1) by auto
  ultimately show ?case
    using Cons.IH [of deg1 rv1] Cons.prems(2) spec new by auto
qed

lemma count_list_concat_replicate:
  "distinct ns \<Longrightarrow> count_list (concat (map (\<lambda>n. replicate (c n) n) ns)) m = (if m \<in> set ns then c m else 0)"
proof (induction ns)
  case Nil
  then show ?case by simp
next
  case (Cons n ns)
  have "count_list (replicate k n) m = (if m = n then k else 0)" for k
    by (induction k) auto
  with Cons show ?case by auto
qed

section \<open>Facts about Kahn's algorithm\<close>

definition lack :: "dag \<Rightarrow> string list \<Rightarrow> string \<Rightarrow> nat" where
  "lack dag ready n = length (filter (\<lambda>d. d \<notin> set ready) (deps_of dag n))"

definition kahn_inv ::
  "dag \<Rightarrow> string set \<Rightarrow> string list \<Rightarrow> string list \<Rightarrow> degrees \<Rightarrow> string list \<Rightarrow> bool" where
  "kahn_inv dag U ready queue deg pending \<longleftrightarrow>
     distinct (ready @ queue) \<and> set (ready @ queue) \<subseteq> U \<and> set pending \<subseteq> U \<and>
     (\<forall>n \<in> U. map_of deg n = Some (lack dag ready n + count_list pending n) \<and>
        (n \<in> set (ready @ queue) \<longleftrightarrow> lack dag ready n + count_list pending n = 0)) \<and>
     (\<forall>i < length ready. set (deps_of dag (ready ! i)) \<subseteq> set (take i ready))"

lemma release_inv:
  assumes "kahn_inv dag U ready queue deg pending"
  shows "\<exists>deg' queue'. release pending deg queue = Ok (deg', queue') \<and>
    kahn_inv dag U ready queue' deg' []"
  using assms
proof (induction pending arbitrary: deg queue)
  case Nil
  then show ?case by simp
next
  case (Cons d ds)
  let ?k = "lack dag ready d + count_list ds d"
  have d: "d \<in> U" and deg: "map_of deg d = Some (Suc ?k)"
    using Cons.prems by (auto simp: kahn_inv_def)
  have notin: "d \<notin> set (ready @ queue)" using Cons.prems d by (auto simp: kahn_inv_def)
  let ?queue = "if ?k = 0 then queue @ [d] else queue"
  have "kahn_inv dag U ready ?queue (AList.update d ?k deg) ds"
    using Cons.prems d notin unfolding kahn_inv_def by (auto simp: update_conv')
  from Cons.IH [OF this] deg show ?case by simp
qed

lemma length_filter_split:
  "v \<notin> A \<Longrightarrow> length (filter (\<lambda>d. d \<notin> A) ds) = length (filter (\<lambda>d. d \<notin> insert v A) ds) + count_list ds v"
  by (induction ds) auto

lemma kahn_inv_pop:
  assumes "kahn_inv dag U ready (n # rest) deg []"
    and "\<forall>m. count_list ds m = (if m \<in> U then count_list (deps_of dag m) n else 0)"
  shows "kahn_inv dag U (ready @ [n]) rest deg ds"
proof -
  have n: "n \<notin> set ready" "n \<in> U" "lack dag ready n = 0"
    using assms(1) by (auto simp: kahn_inv_def)
  have l: "lack dag ready m = lack dag (ready @ [n]) m + count_list (deps_of dag m) n" for m
    using length_filter_split [OF n(1), of "deps_of dag m"] by (simp add: lack_def)
  have "set ds \<subseteq> U" using assms(2) by (metis count_list_0_iff subsetI)
  moreover have "set (deps_of dag ((ready @ [n]) ! i)) \<subseteq> set (take i (ready @ [n]))"
    if "i < length (ready @ [n])" for i
  proof (cases "i < length ready")
    case True
    with assms(1) show ?thesis by (auto simp: kahn_inv_def nth_append)
  next
    case False
    with that have "i = length ready" by simp
    with n(3) show ?thesis by (auto simp: lack_def filter_empty_conv)
  qed
  moreover have "map_of deg m = Some (lack dag (ready @ [n]) m + count_list ds m) \<and>
      (m \<in> set ((ready @ [n]) @ rest) \<longleftrightarrow> lack dag (ready @ [n]) m + count_list ds m = 0)" if "m \<in> U" for m
    using assms that l [of m] unfolding kahn_inv_def by auto
  ultimately show ?thesis using assms(1) by (auto simp: kahn_inv_def)
qed

lemma kahn_total:
  assumes "kahn_inv dag U ready queue deg []" and "finite U"
    and "\<forall>n m. count_list (dependents rv n) m = (if m \<in> U then count_list (deps_of dag m) n else 0)"
  shows "\<exists>result deg'. kahn rv deg queue ready = Some (Ok result) \<and> kahn_inv dag U result [] deg' []"
  using assms(1)
proof (induction "card U - length ready" arbitrary: ready queue deg rule: less_induct)
  case less
  show ?case
  proof (cases queue)
    case Nil
    with less.prems show ?thesis by (subst kahn.simps) auto
  next
    case (Cons n rest)
    have "kahn_inv dag U (ready @ [n]) rest deg (dependents rv n)"
      using less.prems Cons assms(3) by (auto intro: kahn_inv_pop)
    from release_inv [OF this] obtain deg' queue' where
      r: "release (dependents rv n) deg rest = Ok (deg', queue')"
      and inv: "kahn_inv dag U (ready @ [n]) queue' deg' []" by blast
    have "distinct (ready @ [n])" "set (ready @ [n]) \<subseteq> U" using inv by (auto simp: kahn_inv_def)
    then have "length (ready @ [n]) \<le> card U"
      using card_mono [OF assms(2)] distinct_card by metis
    then have "card U - length (ready @ [n]) < card U - length ready" by simp
    from less.hyps [OF this inv] Cons r show ?thesis by (subst kahn.simps) simp
  qed
qed

section \<open>The order and its cycles\<close>

definition in_order :: "dag \<Rightarrow> string list \<Rightarrow> bool" where
  "in_order dag ns \<longleftrightarrow> distinct ns \<and> (\<forall>i < length ns. set (deps_of dag (ns ! i)) \<subseteq> set (take i ns))"

text \<open>A node from which a dependency cycle can be reached.\<close>

definition hits_cycle :: "dag \<Rightarrow> string \<Rightarrow> bool" where
  "hits_cycle dag n \<longleftrightarrow> (\<exists>c. (n, c) \<in> (depends_on dag)\<^sup>* \<and> (c, c) \<in> (depends_on dag)\<^sup>+)"

lemma in_order_trancl:
  assumes "in_order dag ns" and "(m, d) \<in> (depends_on dag)\<^sup>+" and "m = ns ! i" and "i < length ns"
  shows "\<exists>j < i. d = ns ! j"
  using assms(2)
proof (induction rule: trancl_induct)
  case (base d)
  with assms have "d \<in> set (take i ns)" by (auto simp: in_order_def depends_on_def)
  with assms(4) show ?case by (auto simp: in_set_conv_nth)
next
  case (step c d)
  then obtain j where j: "j < i" "c = ns ! j" by blast
  with assms(1,4) have "set (deps_of dag (ns ! j)) \<subseteq> set (take j ns)" by (simp add: in_order_def)
  moreover have "d \<in> set (deps_of dag (ns ! j))" using step(2) j(2) by (simp add: depends_on_def)
  ultimately have "d \<in> set (take j ns)" by blast
  then obtain k where "k < j" "d = ns ! k" by (auto simp: in_set_conv_nth)
  with j(1) show ?case by (intro exI [of _ k]) simp
qed

lemma in_order_closed:
  assumes "in_order dag (xs @ n # ys)"
  shows "upstream_of dag n \<subseteq> insert n (set xs)"
proof
  fix m assume "m \<in> upstream_of dag n"
  then consider "m = n" | "(n, m) \<in> (depends_on dag)\<^sup>+" by (auto simp: upstream_of_def rtrancl_eq_or_trancl)
  then show "m \<in> insert n (set xs)"
  proof cases
    case 2
    with in_order_trancl [OF assms 2, of "length xs"] obtain j where "j < length xs" "m = (xs @ n # ys) ! j" by auto
    then show ?thesis by (simp add: nth_append)
  qed simp
qed

lemma in_order_no_cycle:
  assumes "in_order dag ns" and "n \<in> set ns"
  shows "\<not> hits_cycle dag n"
proof
  assume "hits_cycle dag n"
  then obtain c where c: "(n, c) \<in> (depends_on dag)\<^sup>*" "(c, c) \<in> (depends_on dag)\<^sup>+"
    by (auto simp: hits_cycle_def)
  from assms(2) obtain i where i: "i < length ns" "n = ns ! i" by (auto simp: in_set_conv_nth)
  have "\<exists>j < length ns. c = ns ! j"
  proof (cases "n = c")
    case True
    with i show ?thesis by blast
  next
    case False
    with c(1) have "(n, c) \<in> (depends_on dag)\<^sup>+" by (simp add: rtrancl_eq_or_trancl)
    from in_order_trancl [OF assms(1) this i(2,1)] obtain j where "j < i" "c = ns ! j" by blast
    with i(1) show ?thesis by (intro exI [of _ j]) simp
  qed
  then obtain j where j: "j < length ns" "c = ns ! j" by blast
  from in_order_trancl [OF assms(1) c(2) j(2,1)] obtain k where "k < j" "c = ns ! k" by blast
  with j assms(1) show False by (auto simp: in_order_def nth_eq_iff_index_eq)
qed

lemma acyclic_closed_in:
  assumes "\<not> hits_cycle dag n" and "upstream_of dag n \<subseteq> U" and "finite U"
    and closed: "\<And>m. m \<in> U \<Longrightarrow> set (deps_of dag m) \<subseteq> R \<Longrightarrow> m \<in> R"
  shows "n \<in> R"
proof -
  let ?S = "upstream_of dag n"
  define r where "r = {(d, m). m \<in> ?S \<and> (m, d) \<in> depends_on dag}"
  have step: "d \<in> ?S" if "m \<in> ?S" "(m, d) \<in> depends_on dag" for m d
    using that by (auto simp: upstream_of_def)
  have "r \<subseteq> ?S \<times> ?S" using step by (auto simp: r_def)
  then have fin: "finite r" using finite_subset [OF assms(2,3)] by (meson finite_SigmaI finite_subset)
  have "acyclic r"
  proof (rule acyclicI, intro allI notI)
    fix c assume "(c, c) \<in> r\<^sup>+"
    moreover have "r \<subseteq> (depends_on dag)\<inverse>" by (auto simp: r_def)
    ultimately have "(c, c) \<in> ((depends_on dag)\<inverse>)\<^sup>+" by (meson trancl_mono)
    then have cyc: "(c, c) \<in> (depends_on dag)\<^sup>+" by (simp add: trancl_converse)
    from \<open>(c, c) \<in> r\<^sup>+\<close> have "c \<in> ?S" by (induction rule: trancl_induct) (auto simp: r_def)
    with cyc assms(1) show False by (auto simp: hits_cycle_def upstream_of_def)
  qed
  with fin have "wf r" by (rule finite_acyclic_wf)
  have "m \<in> ?S \<longrightarrow> m \<in> R" for m
  proof (induction m rule: wf_induct_rule [OF \<open>wf r\<close>])
    case (1 m)
    show ?case
    proof
      assume m: "m \<in> ?S"
      have "set (deps_of dag m) \<subseteq> R"
      proof
        fix d assume "d \<in> set (deps_of dag m)"
        then have e: "(m, d) \<in> depends_on dag" by (simp add: depends_on_def)
        with m have "(d, m) \<in> r" by (simp add: r_def)
        with 1 step [OF m e] show "d \<in> R" by blast
      qed
      with m assms(2) show "m \<in> R" by (auto intro: closed)
    qed
  qed
  then show ?thesis by (simp add: upstream_of_def)
qed

lemma topological_sort_result:
  assumes "\<And>xs. mset (set_order xs) = mset xs" and "\<And>m. mset (map_order m) = mset m"
  shows "\<exists>result deg. topological_sort_upstream set_order map_order dag target = Some (Ok result) \<and>
    kahn_inv dag (upstream_of dag target) result [] deg []"
proof -
  let ?U = "upstream_of dag target"
  from collect_upstream_Some obtain up where up: "collect_upstream dag [target] [target] = Some up"
    "distinct up" "set up = ?U" by blast
  have fin: "finite ?U" using up(3) [symmetric] by simp
  have closed: "filter (\<lambda>d. d \<in> set up) (deps_of dag n) = deps_of dag n" if "n \<in> ?U" for n
    using that up(3) by (auto simp: filter_id_conv upstream_of_def depends_on_def intro: rtrancl_into_rtrancl)
  let ?ns = "set_order up"
  have ns: "distinct ?ns" "set ?ns = ?U"
    using assms(1) [of up] up(2,3) by (metis mset_eq_imp_distinct_iff, metis mset_eq_setD)
  obtain deg rv where sd: "sub_dag dag up ?ns ([], []) = (deg, rv)" by fastforce
  from sub_dag_spec [OF sd ns(1)] have
    deg: "map_of deg k = (if k \<in> ?U then Some (length (filter (\<lambda>d. d \<in> set up) (deps_of dag k))) else None)"
    and rv: "dependents rv d =
        concat (map (\<lambda>n. replicate (count_list (filter (\<lambda>d. d \<in> set up) (deps_of dag n)) d) n) ?ns)"
    and dist: "distinct (map fst deg)" for k d using ns(2) by (simp_all add: dependents_def)
  have cnt: "\<forall>n m. count_list (dependents rv n) m = (if m \<in> ?U then count_list (deps_of dag m) n else 0)"
    unfolding rv count_list_concat_replicate [OF ns(1)] ns(2) using closed by simp
  let ?q = "map fst (filter (\<lambda>(n, k). k = 0) (map_order deg))"
  have mo: "set (map_order deg) = set deg" "distinct (map fst (map_order deg))"
    using assms(2) [of deg] dist by (metis mset_eq_setD, metis mset_eq_imp_distinct_iff mset_map)
  have q: "n \<in> set ?q \<longleftrightarrow> map_of deg n = Some 0" for n
    using mo(1) dist by force
  have "distinct ?q" using mo(2) by (simp add: distinct_map_filter)
  moreover have "set ?q \<subseteq> ?U"
  proof
    fix n assume "n \<in> set ?q"
    then have "map_of deg n = Some 0" by (simp only: q)
    then show "n \<in> ?U" unfolding deg by (metis option.distinct(1))
  qed
  moreover have "map_of deg n = Some (lack dag [] n) \<and> (n \<in> set ?q \<longleftrightarrow> lack dag [] n = 0)" if "n \<in> ?U" for n
    using that q [of n] deg [of n] closed [OF that] by (simp add: lack_def)
  ultimately have "kahn_inv dag ?U [] ?q deg []" by (auto simp: kahn_inv_def)
  from kahn_total [OF this fin cnt] show ?thesis
    by (auto simp: topological_sort_upstream_def up(1) sd)
qed

lemma topological_sort_order:
  assumes "\<And>xs. mset (set_order xs) = mset xs" and "\<And>m. mset (map_order m) = mset m"
  shows "\<exists>result. topological_sort_upstream set_order map_order dag target = Some (Ok result) \<and>
    in_order dag result \<and> set result = {n \<in> upstream_of dag target. \<not> hits_cycle dag n}"
proof -
  let ?U = "upstream_of dag target"
  from topological_sort_result [OF assms] obtain result deg where
    r: "topological_sort_upstream set_order map_order dag target = Some (Ok result)"
    and inv: "kahn_inv dag ?U result [] deg []" by blast
  have ord: "in_order dag result" using inv by (auto simp: in_order_def kahn_inv_def)
  have fin: "finite ?U" using collect_upstream_Some [of dag target] by (metis finite_set)
  have "n \<in> set result" if "n \<in> ?U" "\<not> hits_cycle dag n" for n
  proof (rule acyclic_closed_in [OF that(2) _ fin])
    show "upstream_of dag n \<subseteq> ?U" using that(1) by (auto simp: upstream_of_def)
    show "m \<in> set result" if "m \<in> ?U" "set (deps_of dag m) \<subseteq> set result" for m
      using that inv by (auto simp: kahn_inv_def lack_def filter_empty_conv)
  qed
  then have set: "set result = {n \<in> ?U. \<not> hits_cycle dag n}"
    using inv in_order_no_cycle [OF ord] by (auto simp: kahn_inv_def)
  with r ord show ?thesis by blast
qed

text \<open>C4. The upstream order, whatever the iteration order of the hash maps: the sort always returns;
  every table it lists is upstream of the target, is listed once and after all its inputs; exactly the
  tables from which a dependency cycle is reachable are left out, silently; when the target is listed,
  it comes last and everything upstream is listed.\<close>

theorem upstream_sort_is_topological:
  assumes "\<And>xs. mset (set_order xs) = mset xs" and "\<And>m. mset (map_order m) = mset m"
  shows "\<exists>result. topological_sort_upstream set_order map_order dag target = Some (Ok result) \<and>
    in_order dag result \<and>
    set result = {n \<in> upstream_of dag target. \<not> hits_cycle dag n} \<and>
    (target \<in> set result \<longrightarrow> last result = target \<and> set result = upstream_of dag target)"
proof -
  let ?U = "upstream_of dag target"
  from topological_sort_order [OF assms] obtain result where
    r: "topological_sort_upstream set_order map_order dag target = Some (Ok result)"
    and ord: "in_order dag result" and set: "set result = {n \<in> ?U. \<not> hits_cycle dag n}" by blast
  have "last result = target \<and> set result = ?U" if t: "target \<in> set result"
  proof
    have "\<not> hits_cycle dag n" if "n \<in> ?U" for n
      using that t set by (auto simp: hits_cycle_def upstream_of_def intro: rtrancl_trans)
    then show "set result = ?U" using set by auto
    then have all: "(target, n) \<in> (depends_on dag)\<^sup>+" if "n \<in> set result" "n \<noteq> target" for n
      using that by (auto simp: upstream_of_def rtrancl_eq_or_trancl)
    from t obtain i where i: "i < length result" "target = result ! i" by (auto simp: in_set_conv_nth)
    let ?j = "length result - 1"
    show "last result = target"
    proof (rule ccontr)
      assume ne: "last result \<noteq> target"
      have "result \<noteq> []" using t by auto
      then have l: "last result = result ! ?j" "?j < length result" by (auto simp: last_conv_nth)
      with all [of "last result"] ne in_order_trancl [OF ord _ i(2,1)] obtain k where
        "k < i" "result ! ?j = result ! k" by (metis nth_mem)
      with l(2) i(1) ord show False by (auto simp: in_order_def nth_eq_iff_index_eq)
    qed
  qed
  with r ord set show ?thesis by blast
qed

lemma upstream_sort_is_topological_witness:
  "\<exists>result. topological_sort_upstream rev rev
      (build_dependency_dag [(''c'', [''a'', ''b'']), (''b'', [''a'']), (''x'', [''x''])]) ''c'' =
      Some (Ok result) \<and> distinct result"
  using upstream_sort_is_topological [of rev rev] by (fastforce simp: in_order_def)

end
