(* ===== verification/Sql_Compiler.thy ===== *)
theory Sql_Compiler
  imports Prelude "HOL-Library.Finite_Map"
begin

text \<open>
  The model compiler: \<open>crates/rustlake-transform/src/compiler.rs\<close>. A model is compiled by three
  rewriting loops over its text, one for Jinja braces, one for \<open>ref\<close> and one for \<open>source\<close>
  macros; each turn replaces a range by something shorter, which is why they end. With a custom
  source mapper the replacement may be longer, and that loop is \<open>partial_function (option)\<close>.
  Of a model only its text is read. The error text is that of \<open>RustLakeError::Engine\<close>.
\<close>

type_synonym models = "(string, string) fmap"

definition sq :: char where "sq = CHR 0x27"

definition ref_open :: string where "ref_open = ''ref('' @ [sq]"

definition macro_close :: string where "macro_close = [sq] @ '')''"

definition source_open :: string where "source_open = ''source('' @ [sq]"

text \<open>\<open>s.replace_range(a..b, r)\<close>\<close>

definition replace_range :: "nat \<Rightarrow> nat \<Rightarrow> string \<Rightarrow> string \<Rightarrow> string" where
  "replace_range a b r s = take a s @ r @ drop b s"

lemma length_replace_range:
  "a \<le> b \<Longrightarrow> b \<le> length s \<Longrightarrow> length r < b - a \<Longrightarrow> length (replace_range a b r s) < length s"
  by (simp add: replace_range_def)

section \<open>Jinja braces\<close>

function strip_jinja_wrappers :: "string \<Rightarrow> string" where
  "strip_jinja_wrappers s =
     (case find_str s ''{{'' of
        None \<Rightarrow> s
      | Some op \<Rightarrow>
          (case find_str (drop op s) ''}}'' of
             None \<Rightarrow> s
           | Some rel_close \<Rightarrow>
               let cl = op + rel_close; inner = trim (take (cl - (op + 2)) (drop (op + 2) s))
               in strip_jinja_wrappers (replace_range op (cl + 2) inner s)))"
  by pat_completeness auto
termination
proof (relation "measure length", simp, goal_cases)
  case (1 s op rel cl inner)
  have "rel + 2 \<le> length (drop op s)" using find_str_bound [OF 1(2)] by simp
  moreover have "op + 2 \<le> length s" using find_str_bound [OF 1(1)] by simp
  moreover have "length inner \<le> cl - (op + 2)"
    using length_trim_le [of "take (cl - (op + 2)) (drop (op + 2) s)"] 1(4) by simp
  ultimately show ?case using 1(3)
    by (cases "rel = 0") (auto intro!: length_replace_range)
qed

declare strip_jinja_wrappers.simps [simp del]

section \<open>Macros\<close>

definition unterminated :: "string \<Rightarrow> string \<Rightarrow> string" where
  "unterminated kind model = ''Unterminated '' @ kind @ ''() macro in model '' @ quote model"

function resolve_refs :: "models \<Rightarrow> string \<Rightarrow> string \<Rightarrow> string result" where
  "resolve_refs ms model s =
     (case find_str s ref_open of
        None \<Rightarrow> Ok s
      | Some start \<Rightarrow>
          (let after_ref = start + 5
           in case find_str (drop after_ref s) macro_close of
                None \<Rightarrow> Err (unterminated ''ref'' model)
              | Some len \<Rightarrow>
                  let ref_name = take len (drop after_ref s)
                  in if fmlookup ms ref_name = None
                     then Err (''Model '' @ quote model @ '' references unknown model '' @ quote ref_name)
                     else resolve_refs ms model (replace_range start (after_ref + len + 2) ref_name s)))"
  by pat_completeness auto
termination
proof (relation "measure (\<lambda>(_, _, s). length s)", simp, goal_cases)
  case (1 ms model s start after_ref len ref_name)
  have "len + 2 \<le> length (drop after_ref s)" using find_str_bound [OF 1(3)] by (simp add: macro_close_def)
  moreover have "length ref_name \<le> len" using 1(4) by simp
  ultimately show ?case using 1(2) by (auto intro!: length_replace_range)
qed

declare resolve_refs.simps [simp del]

text \<open>The two arguments of the \<open>source\<close> macro at a position, and where the macro ends.\<close>

definition parse_source :: "string \<Rightarrow> string \<Rightarrow> nat \<Rightarrow> (string \<times> string \<times> nat) result" where
  "parse_source model s start =
     (let after_source = start + 8
      in case find_str (drop after_source s) [sq] of
           None \<Rightarrow> Err (unterminated ''source'' model)
         | Some len1 \<Rightarrow>
             let first_end = after_source + len1; after_first_quote = first_end + 1
             in case find_str (drop after_first_quote s) [sq] of
                  None \<Rightarrow> Err ''Missing table name in source() macro''
                | Some gap \<Rightarrow>
                    let table_start = after_first_quote + gap + 1
                    in case find_str (drop table_start s) [sq] of
                         None \<Rightarrow> Err ''Unterminated source() macro''
                       | Some len2 \<Rightarrow>
                           let table_end = table_start + len2
                           in case find_str (drop table_end s) '')'' of
                                None \<Rightarrow> Err ''Missing closing paren in source()''
                              | Some k \<Rightarrow>
                                  Ok (take len1 (drop after_source s), take len2 (drop table_start s),
                                      table_end + k))"

lemma parse_source_bounds:
  assumes "parse_source model s start = Ok (src, tbl, cp)"
  shows "start + 11 + length src + length tbl \<le> cp + 1 \<and> cp < length s"
proof -
  from assms obtain len1 gap len2 k where
    1: "find_str (drop (start + 8) s) [sq] = Some len1"
    and 2: "find_str (drop (start + 8 + len1 + 1) s) [sq] = Some gap"
    and 3: "find_str (drop (start + 8 + len1 + 1 + gap + 1) s) [sq] = Some len2"
    and 4: "find_str (drop (start + 8 + len1 + 1 + gap + 1 + len2) s) '')'' = Some k"
    and r: "src = take len1 (drop (start + 8) s)" "tbl = take len2 (drop (start + 8 + len1 + 1 + gap + 1) s)"
      "cp = start + 8 + len1 + 1 + gap + 1 + len2 + k"
    by (auto simp: parse_source_def Let_def split: option.splits)
  have "length src \<le> len1" "length tbl \<le> len2" using r by simp_all
  moreover have "cp < length s" using find_str_bound [OF 4] r(3) by simp
  ultimately show ?thesis using r(3) by simp
qed

function resolve_sources :: "string \<Rightarrow> string \<Rightarrow> string result" where
  "resolve_sources model s =
     (case find_str s source_open of
        None \<Rightarrow> Ok s
      | Some start \<Rightarrow>
          (case parse_source model s start of
             Ok (src, tbl, close_paren) \<Rightarrow>
               resolve_sources model (replace_range start (close_paren + 1) (src @ ''.'' @ tbl) s)
           | Err e \<Rightarrow> Err e
           | Panic \<Rightarrow> Panic))"
  by pat_completeness auto
termination
proof (relation "measure (\<lambda>(_, s). length s)", simp, goal_cases)
  case (1 model s start a src b tbl cp)
  then have "parse_source model s start = Ok (src, tbl, cp)" by simp
  from parse_source_bounds [OF this] show ?case by (auto intro!: length_replace_range)
qed

declare resolve_sources.simps [simp del]

partial_function (option) resolve_sources_with ::
  "(string \<Rightarrow> string \<Rightarrow> string option) \<Rightarrow> string \<Rightarrow> string \<Rightarrow> string result option" where
  "resolve_sources_with mapper model s =
     (case find_str s source_open of
        None \<Rightarrow> Some (Ok s)
      | Some start \<Rightarrow>
          (case parse_source model s start of
             Ok m \<Rightarrow>
               resolve_sources_with mapper model
                 (replace_range start (snd (snd m) + 1)
                    (unwrap_or (fst m @ ''.'' @ fst (snd m)) (mapper (fst m) (fst (snd m)))) s)
           | Err e \<Rightarrow> Some (Err e)
           | Panic \<Rightarrow> Some Panic))"

section \<open>Compilation and dependencies\<close>

definition model_not_found :: "string \<Rightarrow> string" where
  "model_not_found model = ''Model '' @ quote model @ '' not found''"

definition compile :: "models \<Rightarrow> string \<Rightarrow> string result" where
  "compile ms model =
     (case fmlookup ms model of
        None \<Rightarrow> Err (model_not_found model)
      | Some text \<Rightarrow>
          bind_result (resolve_refs ms model (strip_jinja_wrappers text)) (resolve_sources model))"

definition compile_with_source_map ::
  "models \<Rightarrow> (string \<Rightarrow> string \<Rightarrow> string option) \<Rightarrow> string \<Rightarrow> string result option" where
  "compile_with_source_map ms mapper model =
     (case fmlookup ms model of
        None \<Rightarrow> Some (Err (model_not_found model))
      | Some text \<Rightarrow>
          map_option (\<lambda>r. bind_result r (resolve_refs ms model))
            (resolve_sources_with mapper model (strip_jinja_wrappers text)))"

text \<open>The scan for \<open>ref\<close> macros: the rest of the text and the names found so far.\<close>

function collect_refs :: "string \<Rightarrow> string list \<Rightarrow> string list" where
  "collect_refs s deps =
     (case find_str s ref_open of
        None \<Rightarrow> deps
      | Some start \<Rightarrow>
          (case find_str (drop (start + 5) s) macro_close of
             None \<Rightarrow> deps
           | Some len \<Rightarrow>
               let ref_name = take len (drop (start + 5) s)
               in collect_refs (drop (start + 5 + len + 2) s)
                    (if ref_name \<in> set deps then deps else deps @ [ref_name])))"
  by pat_completeness auto
termination
proof (relation "measure (\<lambda>(s, _). length s)", simp, goal_cases)
  case (1 s deps start len ref_name)
  have "len + 2 \<le> length (drop (start + 5) s)" using find_str_bound [OF 1(2)] by (simp add: macro_close_def)
  then show ?case by auto
qed

declare collect_refs.simps [simp del]

definition dependencies :: "models \<Rightarrow> string \<Rightarrow> string list result" where
  "dependencies ms model =
     (case fmlookup ms model of
        None \<Rightarrow> Err (model_not_found model)
      | Some text \<Rightarrow> Ok (collect_refs text []))"

section \<open>Templates\<close>

datatype piece = Text string | Ref string

fun render :: "piece list \<Rightarrow> string" where
  "render [] = []"
| "render (Text t # ps) = t @ render ps"
| "render (Ref n # ps) = ref_open @ n @ macro_close @ render ps"

fun substituted :: "piece list \<Rightarrow> string" where
  "substituted [] = []"
| "substituted (Text t # ps) = t @ substituted ps"
| "substituted (Ref n # ps) = n @ substituted ps"

fun ref_names :: "piece list \<Rightarrow> string list" where
  "ref_names [] = []"
| "ref_names (Text t # ps) = ref_names ps"
| "ref_names (Ref n # ps) = n # ref_names ps"

fun piece_text :: "piece \<Rightarrow> string" where
  "piece_text (Text t) = t"
| "piece_text (Ref n) = n"

text \<open>Text and names without single quotes and opening braces.\<close>

definition plain :: "piece list \<Rightarrow> bool" where
  "plain ps \<longleftrightarrow> list_all (\<lambda>p. sq \<notin> set (piece_text p) \<and> CHR ''{'' \<notin> set (piece_text p)) ps"

lemma plain_Cons: "plain (p # ps) \<longleftrightarrow>
    sq \<notin> set (piece_text p) \<and> CHR ''{'' \<notin> set (piece_text p) \<and> plain ps"
  by (simp add: plain_def)

lemma find_str_char:
  assumes "c \<notin> set a" and "c \<notin> set p"
  shows "find_str (a @ (p @ [c] @ q) @ b) (p @ [c] @ q) = Some (length a)"
proof -
  let ?s = "a @ (p @ [c] @ q) @ b" and ?p = "p @ [c] @ q"
  obtain i where i: "i \<le> length a" "find_str ?s ?p = Some i" using find_str_append_ex by blast
  then obtain r where r: "drop i ?s = ?p @ r" by (auto dest!: find_str_prefix simp: prefix_def)
  have "i \<le> length ?s" using i(1) by simp
  then have "?s ! (i + length p) = drop i ?s ! length p" by (simp only: nth_drop)
  then have q: "?s ! (i + length p) = c" unfolding r by (simp add: nth_append)
  have "\<not> i < length a"
  proof
    assume "i < length a"
    then have l: "i + length p < length (a @ p)" by simp
    have "?s ! (i + length p) = ((a @ p) @ [c] @ q @ b) ! (i + length p)" by simp
    also have "\<dots> = (a @ p) ! (i + length p)" using l by (simp only: nth_append if_True)
    finally have "?s ! (i + length p) = (a @ p) ! (i + length p)" .
    then have "?s ! (i + length p) \<in> set (a @ p)" using \<open>i < length a\<close> by (metis length_append nat_add_left_cancel_less nth_mem add.commute)
    with q assms show False by simp
  qed
  with i show ?thesis by simp
qed

lemma find_ref: "sq \<notin> set a \<Longrightarrow> find_str (a @ ref_open @ b) ref_open = Some (length a)"
  using find_str_char [of sq a "''ref(''" "[]" b] by (simp add: ref_open_def sq_def)

lemma find_close: "sq \<notin> set a \<Longrightarrow> find_str (a @ macro_close @ b) macro_close = Some (length a)"
  using find_str_char [of sq a "[]" "'')''" b] by (simp add: macro_close_def)

lemma find_str_no_head: "c \<notin> set s \<Longrightarrow> c \<in> set p \<Longrightarrow> find_str s p = None"
  unfolding find_str_None by (metis in_set_dropD prefix_order.le_less set_mono_prefix subsetD)

lemma length_ref_open [simp]: "length ref_open = 5"
  by (simp add: ref_open_def)

lemma length_macro_close [simp]: "length macro_close = 2"
  by (simp add: macro_close_def)

lemma resolve_refs_render:
  assumes "sq \<notin> set a" and "plain ps"
  shows "resolve_refs ms model (a @ render ps) =
    (case find (\<lambda>n. fmlookup ms n = None) (ref_names ps) of
       None \<Rightarrow> Ok (a @ substituted ps)
     | Some n \<Rightarrow> Err (''Model '' @ quote model @ '' references unknown model '' @ quote n))"
  using assms
proof (induction ps arbitrary: a rule: render.induct)
  case 1
  then have "find_str a ref_open = None" using find_str_no_head [of sq a ref_open] by (simp add: ref_open_def)
  then show ?case by (subst resolve_refs.simps) simp
next
  case (2 t ps)
  from "2.IH" [of "a @ t"] "2.prems" show ?case by (simp add: plain_Cons split: option.split)
next
  case (3 n ps)
  let ?s = "a @ ref_open @ n @ macro_close @ render ps"
  have f1: "find_str ?s ref_open = Some (length a)" using "3.prems" by (intro find_ref)
  have d: "drop (length a + 5) ?s = n @ macro_close @ render ps" by simp
  have f2: "find_str (n @ macro_close @ render ps) macro_close = Some (length n)"
    using "3.prems" by (intro find_close) (simp add: plain_Cons)
  have r: "replace_range (length a) (length a + 5 + length n + 2) n ?s = (a @ n) @ render ps"
    by (simp add: replace_range_def)
  show ?case
  proof (cases "fmlookup ms n")
    case None
    with f1 d f2 show ?thesis by (subst resolve_refs.simps) (simp add: Let_def)
  next
    case (Some t)
    have t: "take (length n) (n @ macro_close @ render ps) = n" by simp
    have "resolve_refs ms model ?s = resolve_refs ms model ((a @ n) @ render ps)"
      by (subst resolve_refs.simps) (simp only: f1 d f2 t r Let_def option.case Some option.distinct if_False)
    with Some "3.IH" [of "a @ n"] "3.prems" show ?thesis by (simp add: plain_Cons split: option.split)
  qed
qed

definition add_name :: "string \<Rightarrow> string list \<Rightarrow> string list" where
  "add_name n deps = (if n \<in> set deps then deps else deps @ [n])"

lemma collect_refs_render:
  assumes "sq \<notin> set a" and "plain ps"
  shows "collect_refs (a @ render ps) deps = fold add_name (ref_names ps) deps"
  using assms
proof (induction ps arbitrary: a deps rule: render.induct)
  case 1
  then have "find_str a ref_open = None" using find_str_no_head [of sq a ref_open] by (simp add: ref_open_def)
  then show ?case by (subst collect_refs.simps) simp
next
  case (2 t ps)
  from "2.IH" [of "a @ t"] "2.prems" show ?case by (simp add: plain_Cons)
next
  case (3 n ps)
  let ?s = "a @ ref_open @ n @ macro_close @ render ps"
  have f1: "find_str ?s ref_open = Some (length a)" using "3.prems" by (intro find_ref)
  have d: "drop (length a + 5) ?s = n @ macro_close @ render ps" by simp
  have d2: "drop (length a + 5 + length n + 2) ?s = render ps" by simp
  have f2: "find_str (n @ macro_close @ render ps) macro_close = Some (length n)"
    using "3.prems" by (intro find_close) (simp add: plain_Cons)
  have "collect_refs ?s deps = collect_refs (render ps) (add_name n deps)"
    by (subst collect_refs.simps) (simp add: f1 d f2 d2 Let_def add_name_def)
  with "3.IH" [of "[]" "add_name n deps"] "3.prems" show ?case by (simp add: plain_Cons)
qed

lemma plain_sets: "plain ps \<Longrightarrow> sq \<notin> set (substituted ps) \<and> CHR ''{'' \<notin> set (render ps)"
  by (induction ps rule: render.induct) (auto simp: plain_Cons ref_open_def macro_close_def sq_def)

text \<open>Compiling a template: every \<open>ref\<close> macro is replaced by the name it holds and nothing else
  changes, unless a name is unknown, and then the first unknown one is reported; the dependencies are
  the names in order of first use.\<close>

theorem compile_substitutes_refs:
  assumes "fmlookup ms model = Some (render ps)" and "plain ps"
  shows "compile ms model =
    (case find (\<lambda>n. fmlookup ms n = None) (ref_names ps) of
       None \<Rightarrow> Ok (substituted ps)
     | Some n \<Rightarrow> Err (''Model '' @ quote model @ '' references unknown model '' @ quote n)) \<and>
   dependencies ms model = Ok (fold add_name (ref_names ps) [])"
proof -
  have "find_str (render ps) ''{{'' = None" "find_str (substituted ps) source_open = None"
    using plain_sets [OF assms(2)] find_str_no_head [of "CHR ''{''" "render ps" "''{{''"]
      find_str_no_head [of sq "substituted ps" source_open] by (simp_all add: source_open_def)
  then have "strip_jinja_wrappers (render ps) = render ps"
    "resolve_sources model (substituted ps) = Ok (substituted ps)"
    by (subst strip_jinja_wrappers.simps, simp, subst resolve_sources.simps, simp)
  with resolve_refs_render [of "[]" ps ms model] collect_refs_render [of "[]" ps "[]"] assms
  show ?thesis by (simp add: compile_def dependencies_def split: option.split)
qed

definition demo_models :: models where
  "demo_models = fmap_of_list
     [(''m'', render [Text ''SELECT * FROM '', Ref ''a'', Text '' JOIN '', Ref ''a'']), (''a'', ''SELECT 1'')]"

lemma compile_substitutes_refs_witness:
  "compile demo_models ''m'' = Ok ''SELECT * FROM a JOIN a'' \<and> dependencies demo_models ''m'' = Ok [''a'']"
  using compile_substitutes_refs [of demo_models "''m''"
      "[Text ''SELECT * FROM '', Ref ''a'', Text '' JOIN '', Ref ''a'']"]
  by (simp add: demo_models_def fmlookup_of_list plain_def sq_def add_name_def)

section \<open>Source mappers\<close>

lemma count_sq_replace:
  assumes "start \<le> e" and "count_list (take (e - start) (drop start s)) sq = k"
  shows "count_list (replace_range start e r s) sq + k = count_list s sq + count_list r sq"
proof -
  have "s = take start s @ take (e - start) (drop start s) @ drop e s"
    using assms(1) by (metis append_take_drop_id drop_drop le_add_diff_inverse2)
  then have "count_list s sq = count_list (take start s) sq + count_list (take (e - start) (drop start s)) sq +
      count_list (drop e s) sq" by (metis count_list_append add.assoc)
  with assms(2) show ?thesis by (simp add: replace_range_def)
qed

lemma find_str_take: "find_str s [c] = Some i \<Longrightarrow> c \<notin> set (take i s)"
  by (induction s arbitrary: i) (auto split: if_splits)

lemma parse_source_plain:
  assumes "parse_source model s start = Ok (src, tbl, cp)"
  shows "sq \<notin> set src \<and> sq \<notin> set tbl"
  using assms by (auto simp: parse_source_def Let_def split: option.splits dest!: find_str_take)

lemma source_range_quoted:
  assumes "find_str s source_open = Some start" and "start + 8 \<le> e"
  shows "0 < count_list (take (e - start) (drop start s)) sq"
proof -
  have "prefix source_open (drop start s)" using assms(1) by (simp add: find_str_prefix)
  then obtain r where "drop start s = source_open @ r" by (auto simp: prefix_def)
  moreover have "length source_open = 8" by (simp add: source_open_def)
  then have "take (e - start) (source_open @ r) = source_open @ take (e - start - 8) r"
    using assms(2) by simp
  moreover have "0 < count_list source_open sq" by (simp add: source_open_def sq_def)
  ultimately show ?thesis by simp
qed

lemma resolve_sources_with_total:
  assumes "\<And>a b r. mapper a b = Some r \<Longrightarrow> sq \<notin> set r"
  shows "\<exists>r. resolve_sources_with mapper model s = Some r"
proof (induction "count_list s sq" arbitrary: s rule: less_induct)
  case less
  show ?case
  proof (cases "find_str s source_open")
    case None
    then show ?thesis by (subst resolve_sources_with.simps) simp
  next
    case (Some start)
    show ?thesis
    proof (cases "parse_source model s start")
      case (Ok m)
      obtain src tbl cp where m: "m = (src, tbl, cp)" by (cases m) auto
      let ?r = "unwrap_or (src @ ''.'' @ tbl) (mapper src tbl)"
      have "sq \<notin> set ?r"
        using parse_source_plain [OF Ok [unfolded m]] assms [of src tbl]
        by (cases "mapper src tbl") (auto simp: sq_def)
      then have r: "count_list ?r sq = 0" by (simp add: count_list_0_iff)
      have b: "start + 8 \<le> cp + 1" "start \<le> cp + 1" using parse_source_bounds [OF Ok [unfolded m]] by simp_all
      have "count_list (replace_range start (cp + 1) ?r s) sq < count_list s sq"
        using count_sq_replace [OF b(2) refl, where s = s and r = ?r] source_range_quoted [OF Some b(1)] r
        by linarith
      from less [OF this] Some Ok m show ?thesis by (subst resolve_sources_with.simps) simp
    next
      case (Err e)
      with Some show ?thesis by (subst resolve_sources_with.simps) simp
    next
      case Panic
      with Some show ?thesis by (subst resolve_sources_with.simps) simp
    qed
  qed
qed

definition self_source :: string where
  "self_source = source_open @ ''a'' @ [sq] @ '', '' @ [sq] @ ''b'' @ [sq] @ '')''"

lemma resolve_self_source:
  "resolve_sources_with (\<lambda>_ _. Some self_source) model self_source = None"
proof -
  have f: "find_str self_source source_open = Some 0"
    "parse_source model self_source 0 = Ok (''a'', ''b'', 15)"
    by (simp_all add: self_source_def source_open_def sq_def parse_source_def)
  have r: "replace_range 0 16 self_source self_source = self_source"
    by (simp add: replace_range_def self_source_def source_open_def)
  have "mp = (\<lambda>_ _. Some self_source) \<longrightarrow> md = model \<longrightarrow> s = self_source \<longrightarrow> False"
    if "resolve_sources_with mp md s = Some y" for mp md s y
  proof (rule resolve_sources_with.raw_induct [OF _ that], goal_cases)
    case (1 rec mp' md' s' y')
    then show ?case using f r by fastforce
  qed
  then show ?thesis by (cases "resolve_sources_with (\<lambda>_ _. Some self_source) model self_source") auto
qed

text \<open>Compiling with a source mapper returns whenever the mapper's answers hold no single quote, and
  never returns for a mapper that answers with a \<open>source\<close> macro again.\<close>

theorem source_mapper_termination:
  "((\<forall>a b r. mapper a b = Some r \<longrightarrow> sq \<notin> set r) \<longrightarrow> compile_with_source_map ms mapper model \<noteq> None) \<and>
   (fmlookup ms model = Some self_source \<longrightarrow>
      compile_with_source_map ms (\<lambda>_ _. Some self_source) model = None)"
proof (intro conjI impI)
  assume "\<forall>a b r. mapper a b = Some r \<longrightarrow> sq \<notin> set r"
  then have "\<exists>r. resolve_sources_with mapper model s = Some r" for s
    by (intro resolve_sources_with_total) blast
  then show "compile_with_source_map ms mapper model \<noteq> None"
    by (force simp: compile_with_source_map_def split: option.split)
next
  assume m: "fmlookup ms model = Some self_source"
  have "find_str self_source ''{{'' = None"
    by (rule find_str_no_head [of "CHR ''{''"]) (simp_all add: self_source_def source_open_def sq_def)
  then have "strip_jinja_wrappers self_source = self_source" by (subst strip_jinja_wrappers.simps) simp
  with m resolve_self_source show "compile_with_source_map ms (\<lambda>_ _. Some self_source) model = None"
    by (simp add: compile_with_source_map_def)
qed

lemma source_mapper_termination_witness:
  "compile_with_source_map demo_models (\<lambda>_ _. None) ''m'' \<noteq> None \<and>
   compile_with_source_map (fmap_of_list [(''x'', self_source)]) (\<lambda>_ _. Some self_source) ''x'' = None"
  using source_mapper_termination [of "\<lambda>_ _. None" demo_models "''m''"]
    source_mapper_termination [of "\<lambda>_ _. None" "fmap_of_list [(''x'', self_source)]" "''x''"]
  by (simp add: fmlookup_of_list)

end
