(* ===== verification/Worker_Registry.thy ===== *)
theory Worker_Registry
  imports Prelude Float64 "HOL-Library.AList"
begin

text \<open>
  The worker registry of the coordinator: \<open>crates/rustlake-flight/src/coordinator.rs\<close> with the
  cluster configuration of \<open>crates/rustlake-core/src/config.rs\<close>. Instants and durations are natural
  numbers of nanoseconds; \<open>Instant::duration_since\<close> is zero when the argument is later. The hash map
  of workers is an association list in some iteration order. Each operation holds the write lock
  for its whole body, so interleavings of tasks are sequences of operations.
\<close>

named_theorems registry_simps \<open>what an operation does to the lookup of a worker\<close>

section \<open>Configuration\<close>

datatype node_role = Standalone | Coordinator | Worker

datatype discovery_method = Static | Register_Self | Kubernetes

record worker_config =
  address :: string
  config_label :: "string option"

record cluster_config =
  node_role :: node_role
  coordinator_addr :: "string option"
  static_workers :: "worker_config list"
  discovery :: discovery_method
  heartbeat_interval_secs :: u64
  heartbeat_timeout_secs :: u64
  max_partitions_per_worker :: u64
  shuffle_buffer_size :: u64

definition default_cluster_config :: cluster_config where
  "default_cluster_config =
     \<lparr>node_role = Standalone, coordinator_addr = None, static_workers = [], discovery = Register_Self,
      heartbeat_interval_secs = 10, heartbeat_timeout_secs = 30, max_partitions_per_worker = 4,
      shuffle_buffer_size = 128 * 1024 * 1024\<rparr>"

section \<open>The registry\<close>

datatype worker_status = Active | Draining | Unhealthy | Deregistering

record worker_handle =
  handle_id :: string
  endpoint :: string
  handle_label :: "string option"
  cpu_cores :: u64
  memory_bytes :: u64
  worker_state :: worker_status
  active_partitions :: u32
  queries_executed :: u64
  registered_at :: nat
  last_heartbeat :: nat

record worker_registration =
  reg_endpoint :: string
  reg_label :: "string option"
  reg_cpu_cores :: u64
  reg_memory_bytes :: u64

type_synonym registry = "(string \<times> worker_handle) list"

record coordinator =
  cluster :: cluster_config
  workers :: registry
  next_worker_id :: u64
  worker_latency :: "(string \<times> rat) list"

definition new_coordinator :: "cluster_config \<Rightarrow> coordinator" where
  "new_coordinator cfg =
     \<lparr>cluster = cfg, workers = [], next_worker_id = 1, worker_latency = []\<rparr>"

definition new_handle :: "string \<Rightarrow> worker_registration \<Rightarrow> nat \<Rightarrow> worker_handle" where
  "new_handle wid reg now =
     \<lparr>handle_id = wid, endpoint = reg_endpoint reg, handle_label = reg_label reg,
      cpu_cores = reg_cpu_cores reg, memory_bytes = reg_memory_bytes reg, worker_state = Active,
      active_partitions = 0, queries_executed = 0, registered_at = now, last_heartbeat = now\<rparr>"

definition register_worker ::
  "worker_registration \<Rightarrow> nat \<Rightarrow> coordinator \<Rightarrow> string \<times> coordinator" where
  "register_worker reg now c =
     (let wid = ''worker-'' @ show_nat (unat (next_worker_id c))
      in (wid, c\<lparr>next_worker_id := next_worker_id c + 1,
               workers := AList.update wid (new_handle wid reg now) (workers c)\<rparr>))"

definition deregister_worker :: "string \<Rightarrow> coordinator \<Rightarrow> bool \<times> coordinator" where
  "deregister_worker wid c =
     (map_of (workers c) wid \<noteq> None, c\<lparr>workers := AList.delete wid (workers c)\<rparr>)"

definition heartbeat :: "string \<Rightarrow> nat \<Rightarrow> coordinator \<Rightarrow> bool \<times> coordinator" where
  "heartbeat wid now c =
     (case map_of (workers c) wid of
        None \<Rightarrow> (False, c)
      | Some w \<Rightarrow>
          let w1 = w\<lparr>last_heartbeat := now\<rparr>;
              w2 = (if worker_state w1 = Draining then w1\<lparr>worker_state := Active\<rparr> else w1)
          in (True, c\<lparr>workers := AList.update wid w2 (workers c)\<rparr>))"

text \<open>What iterates the hash map gets its order as an argument.\<close>

definition list_workers ::
  "(worker_handle list \<Rightarrow> worker_handle list) \<Rightarrow> coordinator \<Rightarrow> worker_handle list" where
  "list_workers order c = order (map snd (workers c))"

definition active_workers ::
  "(worker_handle list \<Rightarrow> worker_handle list) \<Rightarrow> coordinator \<Rightarrow> worker_handle list" where
  "active_workers order c = filter (\<lambda>w. worker_state w = Active) (order (map snd (workers c)))"

definition active_worker_count :: "coordinator \<Rightarrow> nat" where
  "active_worker_count c = length (filter (\<lambda>w. worker_state w = Active) (map snd (workers c)))"

definition duration_from_secs :: "u64 \<Rightarrow> nat" where
  "duration_from_secs s = unat s * 1000000000"

definition evict_after :: "cluster_config \<Rightarrow> nat" where
  "evict_after cfg = duration_from_secs (heartbeat_timeout_secs cfg)"

definition drain_after :: "cluster_config \<Rightarrow> nat" where
  "drain_after cfg = duration_from_secs (heartbeat_interval_secs cfg * 2)"

text \<open>The loop over the workers: the marked map and the ids to remove.\<close>

fun examine_workers ::
  "nat \<Rightarrow> nat \<Rightarrow> nat \<Rightarrow> registry \<Rightarrow> registry \<times> string list" where
  "examine_workers timeout drain now [] = ([], [])"
| "examine_workers timeout drain now ((wid, w) # ws) =
     (let (ws', to_remove) = examine_workers timeout drain now ws;
          elapsed = now - last_heartbeat w
      in if elapsed > timeout then ((wid, w) # ws', wid # to_remove)
         else if elapsed > drain \<and> worker_state w = Active
         then ((wid, w\<lparr>worker_state := Draining\<rparr>) # ws', to_remove)
         else ((wid, w) # ws', to_remove))"

definition check_worker_health :: "nat \<Rightarrow> coordinator \<Rightarrow> coordinator" where
  "check_worker_health now c =
     (let (ws, to_remove) =
            examine_workers (evict_after (cluster c)) (drain_after (cluster c)) now (workers c)
      in c\<lparr>workers := fold AList.delete to_remove ws\<rparr>)"

text \<open>The loop of \<open>seed_static_workers\<close>; the clock is read at each registration.\<close>

fun seed_loop :: "nat list \<Rightarrow> worker_config list \<Rightarrow> coordinator \<Rightarrow> coordinator" where
  "seed_loop (now # nows) (w # ws) c =
     seed_loop nows ws
       (snd (register_worker
          \<lparr>reg_endpoint = ''http://'' @ address w, reg_label = config_label w,
           reg_cpu_cores = 0, reg_memory_bytes = 0\<rparr> now c))"
| "seed_loop _ _ c = c"

definition seed_static_workers :: "(nat \<Rightarrow> nat) \<Rightarrow> coordinator \<Rightarrow> coordinator" where
  "seed_static_workers clock c =
     (if discovery (cluster c) \<noteq> Static then c
      else seed_loop (map clock [0..<length (static_workers (cluster c))])
             (static_workers (cluster c)) c)"

section \<open>Runs of the registry\<close>

datatype registry_op =
    Register worker_registration nat
  | Deregister string
  | Heartbeat string nat
  | Check_Health nat
  | Seed "nat \<Rightarrow> nat"

fun registry_step :: "registry_op \<Rightarrow> coordinator \<Rightarrow> coordinator" where
  "registry_step (Register reg now) c = snd (register_worker reg now c)"
| "registry_step (Deregister wid) c = snd (deregister_worker wid c)"
| "registry_step (Heartbeat wid now) c = snd (heartbeat wid now c)"
| "registry_step (Check_Health now) c = check_worker_health now c"
| "registry_step (Seed clock) c = seed_static_workers clock c"

definition worker_name :: "nat \<Rightarrow> string" where
  "worker_name n = ''worker-'' @ show_nat n"

definition handle_ok :: "string \<Rightarrow> worker_handle \<Rightarrow> bool" where
  "handle_ok wid w \<longleftrightarrow>
     handle_id w = wid \<and> worker_state w \<in> {Active, Draining} \<and>
     active_partitions w = 0 \<and> queries_executed w = 0"

definition registry_ok :: "coordinator \<Rightarrow> bool" where
  "registry_ok c \<longleftrightarrow> distinct (map fst (workers c)) \<and> (\<forall>(wid, w) \<in> set (workers c). handle_ok wid w)"

section \<open>What each operation does to a lookup\<close>

definition lookup_worker :: "coordinator \<Rightarrow> string \<Rightarrow> worker_handle option" where
  "lookup_worker c = map_of (workers c)"

text \<open>What a health check makes of one worker.\<close>

definition examined :: "cluster_config \<Rightarrow> nat \<Rightarrow> worker_handle \<Rightarrow> worker_handle option" where
  "examined cfg now w =
     (let elapsed = now - last_heartbeat w
      in if elapsed > evict_after cfg then None
         else if elapsed > drain_after cfg \<and> worker_state w = Active
         then Some (w\<lparr>worker_state := Draining\<rparr>) else Some w)"

lemma map_of_fold_delete: "map_of (fold AList.delete ids al) = map_of al |` (- set ids)"
proof (induction ids arbitrary: al)
  case (Cons a ids)
  then show ?case by (auto simp: delete_conv' restrict_map_def fun_eq_iff)
qed (simp add: restrict_map_def)

lemma distinct_fold_delete:
  "distinct (map fst al) \<Longrightarrow> distinct (map fst (fold AList.delete ids al))"
  by (induction ids arbitrary: al) (auto intro: distinct_delete)


lemma examine_workers_keys:
  "map fst (fst (examine_workers timeout drain now ws)) = map fst ws"
  by (induction timeout drain now ws rule: examine_workers.induct) (auto simp: Let_def split: prod.split)

lemma examine_workers_removed:
  "set (snd (examine_workers timeout drain now ws)) =
   {i. \<exists>w. (i, w) \<in> set ws \<and> now - last_heartbeat w > timeout}"
  by (induction timeout drain now ws rule: examine_workers.induct) (auto simp: Let_def split: prod.split)

lemma examine_workers_marked:
  "map_of (fst (examine_workers timeout drain now ws)) i =
   map_option (\<lambda>w. if \<not> now - last_heartbeat w > timeout \<and> now - last_heartbeat w > drain \<and>
       worker_state w = Active then w\<lparr>worker_state := Draining\<rparr> else w) (map_of ws i)"
  by (induction timeout drain now ws rule: examine_workers.induct) (auto simp: Let_def split: prod.split)

lemma lookup_new [registry_simps]: "lookup_worker (new_coordinator cfg) i = None"
  by (simp add: lookup_worker_def new_coordinator_def)

lemma lookup_register [registry_simps]:
  "lookup_worker (snd (register_worker reg now c)) i =
   (if i = worker_name (unat (next_worker_id c))
    then Some (new_handle i reg now) else lookup_worker c i)"
  by (simp add: lookup_worker_def register_worker_def worker_name_def update_conv Let_def)

lemma lookup_deregister [registry_simps]:
  "lookup_worker (snd (deregister_worker j c)) i = (if i = j then None else lookup_worker c i)"
  by (simp add: lookup_worker_def deregister_worker_def delete_conv)

lemma lookup_heartbeat [registry_simps]:
  "lookup_worker (snd (heartbeat j now c)) i =
   (if i = j
    then map_option (\<lambda>w. w\<lparr>last_heartbeat := now, worker_state :=
           if worker_state w = Draining then Active else worker_state w\<rparr>) (lookup_worker c i)
    else lookup_worker c i)"
  by (auto simp: lookup_worker_def heartbeat_def update_conv Let_def split: option.split)

lemma lookup_health [registry_simps]:
  assumes "distinct (map fst (workers c))"
  shows "lookup_worker (check_worker_health now c) i =
    Option.bind (lookup_worker c i) (examined (cluster c) now)"
proof -
  let ?e = "examine_workers (evict_after (cluster c)) (drain_after (cluster c)) now (workers c)"
  have "lookup_worker (check_worker_health now c) i = (map_of (fst ?e) |` (- set (snd ?e))) i"
    by (simp add: check_worker_health_def lookup_worker_def map_of_fold_delete split_beta Let_def)
  then show ?thesis
  proof (cases "map_of (workers c) i")
    case None
    then show ?thesis
      using \<open>lookup_worker (check_worker_health now c) i = _\<close>
      by (simp add: lookup_worker_def examine_workers_marked restrict_map_def)
  next
    case (Some w)
    with assms have "(i, v) \<in> set (workers c) \<longleftrightarrow> v = w" for v by (metis map_of_eq_Some_iff option.inject)
    then have "i \<in> set (snd ?e) \<longleftrightarrow> now - last_heartbeat w > evict_after (cluster c)"
      by (simp add: examine_workers_removed)
    with Some show ?thesis
      using \<open>lookup_worker (check_worker_health now c) i = _\<close>
      by (simp add: lookup_worker_def examine_workers_marked restrict_map_def examined_def Let_def)
  qed
qed

section \<open>The invariant of the registry\<close>

lemma handle_ok_new: "handle_ok i (new_handle i reg now)"
  by (simp add: handle_ok_def new_handle_def)

lemma registry_ok_iff:
  "registry_ok c \<longleftrightarrow> distinct (map fst (workers c)) \<and>
   (\<forall>i w. lookup_worker c i = Some w \<longrightarrow> handle_ok i w)"
  by (auto simp: registry_ok_def lookup_worker_def dest: map_of_SomeD intro: map_of_is_SomeI)

lemma registry_ok_register: "registry_ok c \<Longrightarrow> registry_ok (snd (register_worker reg now c))"
  unfolding registry_ok_iff
  by (auto simp: registry_simps handle_ok_new)
     (simp add: register_worker_def Let_def distinct_update)

lemma registry_ok_seed: "registry_ok c \<Longrightarrow> registry_ok (seed_loop nows ws c)"
  by (induction nows ws c rule: seed_loop.induct) (simp_all add: registry_ok_register)

lemma registry_ok_health:
  assumes "registry_ok c"
  shows "registry_ok (check_worker_health now c)"
proof -
  have "distinct (map fst (workers c))" using assms by (simp add: registry_ok_def)
  moreover from this have "distinct (map fst (workers (check_worker_health now c)))"
    by (simp add: check_worker_health_def split_beta Let_def distinct_fold_delete examine_workers_keys)
  ultimately show ?thesis using assms
    by (auto simp: registry_ok_iff registry_simps examined_def handle_ok_def Let_def
        split: bind_splits if_splits)
qed

lemma registry_ok_step: "registry_ok c \<Longrightarrow> registry_ok (registry_step op c)"
proof (cases op)
  case (Deregister j)
  moreover assume "registry_ok c"
  ultimately show ?thesis
    unfolding registry_ok_iff
    by (auto simp: registry_simps) (simp add: deregister_worker_def distinct_delete)
next
  case (Heartbeat j now)
  moreover assume "registry_ok c"
  moreover from this have "distinct (map fst (workers (snd (heartbeat j now c))))"
    by (auto simp: registry_ok_def heartbeat_def Let_def distinct_update split: option.split)
  ultimately show ?thesis
    unfolding registry_ok_iff by (auto simp: registry_simps handle_ok_def split: if_splits) blast+
qed (simp_all add: registry_ok_register registry_ok_health registry_ok_seed seed_static_workers_def)

interpretation registry: state_invariant registry_step "new_coordinator cfg" registry_ok
  by unfold_locales (simp_all add: registry_ok_step, simp add: registry_ok_def new_coordinator_def)

section \<open>Worker ids are never issued twice\<close>

fun new_ids :: "cluster_config \<Rightarrow> registry_op \<Rightarrow> nat" where
  "new_ids cfg (Register _ _) = 1"
| "new_ids cfg (Seed _) = (if discovery cfg = Static then length (static_workers cfg) else 0)"
| "new_ids cfg _ = 0"

definition registrations :: "cluster_config \<Rightarrow> registry_op list \<Rightarrow> nat" where
  "registrations cfg ops = sum_list (map (new_ids cfg) ops)"

lemma registrations_simps [simp]:
  "registrations cfg [] = 0"
  "registrations cfg (op # ops) = new_ids cfg op + registrations cfg ops"
  "registrations cfg (ops @ ops') = registrations cfg ops + registrations cfg ops'"
  by (simp_all add: registrations_def)

definition issued :: "cluster_config \<Rightarrow> nat \<Rightarrow> coordinator \<Rightarrow> bool" where
  "issued cfg n c \<longleftrightarrow>
     cluster c = cfg \<and> next_worker_id c = of_nat (Suc n) \<and>
     (\<forall>i. lookup_worker c i \<noteq> None \<longrightarrow> i \<in> worker_name ` {1..n})"

lemma worker_name_inj: "worker_name m = worker_name n \<longleftrightarrow> m = n"
  by (simp add: worker_name_def show_nat_inj)

lemma issued_new: "issued cfg 0 (new_coordinator cfg)"
  by (simp add: issued_def registry_simps) (simp add: new_coordinator_def)

lemma next_name: "issued cfg n c \<Longrightarrow> Suc n < 2 ^ 64 \<Longrightarrow> unat (next_worker_id c) = Suc n"
  unfolding issued_def by (simp only: unat_of_nat) simp

lemma issued_register:
  assumes "issued cfg n c" "Suc n < 2 ^ 64"
  shows "issued cfg (Suc n) (snd (register_worker reg now c))"
  using assms next_name [OF assms]
  by (auto simp: issued_def registry_simps) (simp_all add: register_worker_def Let_def)

lemma register_fresh:
  assumes "issued cfg n c" "Suc n < 2 ^ 64"
  shows "fst (register_worker reg now c) = worker_name (Suc n)" "lookup_worker c (worker_name (Suc n)) = None"
proof -
  show "fst (register_worker reg now c) = worker_name (Suc n)"
    using next_name [OF assms] by (simp add: register_worker_def worker_name_def Let_def)
  have "worker_name (Suc n) \<notin> worker_name ` {1..n}" by (auto simp: worker_name_inj)
  then show "lookup_worker c (worker_name (Suc n)) = None"
    using assms(1) unfolding issued_def by blast
qed

lemma register_keeps:
  assumes "issued cfg n c" "Suc n < 2 ^ 64" "i \<in> worker_name ` {1..n}"
  shows "lookup_worker (snd (register_worker reg now c)) i = lookup_worker c i"
  using assms next_name [OF assms(1,2)] by (auto simp: registry_simps worker_name_inj)

lemma seed_loop_issued:
  assumes "issued cfg n c" "n + length ws < 2 ^ 64" "length nows = length ws"
  shows "issued cfg (n + length ws) (seed_loop nows ws c) \<and>
    (\<forall>i \<in> worker_name ` {1..n}. lookup_worker (seed_loop nows ws c) i = lookup_worker c i)"
  using assms
proof (induction nows ws c arbitrary: n rule: seed_loop.induct)
  case (1 now nows w ws c)
  let ?c = "snd (register_worker \<lparr>reg_endpoint = ''http://'' @ address w, reg_label = config_label w,
    reg_cpu_cores = 0, reg_memory_bytes = 0\<rparr> now c)"
  have n: "Suc n < 2 ^ 64" using "1.prems" by simp
  have "issued cfg (Suc n) ?c" using "1.prems"(1) n by (rule issued_register)
  from "1.IH" [OF this] "1.prems" register_keeps [OF "1.prems"(1) n] show ?case by simp
qed auto

lemma issued_same:
  assumes "issued cfg n c" "cluster c' = cluster c" "next_worker_id c' = next_worker_id c"
    and "\<And>i. lookup_worker c i = None \<Longrightarrow> lookup_worker c' i = None"
  shows "issued cfg n c'"
  using assms unfolding issued_def by metis

lemma heartbeat_fields:
  "cluster (snd (heartbeat j now c)) = cluster c"
  "next_worker_id (snd (heartbeat j now c)) = next_worker_id c"
  by (simp_all add: heartbeat_def Let_def split: option.split)

lemma issued_step:
  assumes "issued cfg n c" "n + new_ids cfg op < 2 ^ 64" "registry_ok c"
  shows "issued cfg (n + new_ids cfg op) (registry_step op c)"
proof (cases op)
  case (Register reg now)
  with assms issued_register [of cfg n c reg now] show ?thesis by simp
next
  case (Seed clock)
  have "cluster c = cfg" using assms(1) by (simp add: issued_def)
  with Seed assms seed_loop_issued [of cfg n c "static_workers cfg" "map clock [0..<length (static_workers cfg)]"]
  show ?thesis by (cases "discovery cfg = Static") (simp_all add: seed_static_workers_def)
next
  case (Deregister j)
  then show ?thesis using assms
    by simp (rule issued_same, assumption, simp_all add: registry_simps, simp_all add: deregister_worker_def)
next
  case (Heartbeat j now)
  then show ?thesis using assms
    by simp (rule issued_same, assumption, auto simp: registry_simps heartbeat_fields)
next
  case (Check_Health now)
  then show ?thesis using assms
    by (simp add: registry_ok_def) (rule issued_same, assumption, simp_all add: registry_simps,
        simp_all add: check_worker_health_def Let_def split_beta)
qed

lemma issued_run:
  assumes "issued cfg n c" "n + registrations cfg ops < 2 ^ 64" "registry_ok c"
  shows "issued cfg (n + registrations cfg ops) (fold registry_step ops c)"
  using assms
proof (induction ops arbitrary: n c)
  case (Cons op ops)
  have "issued cfg (n + new_ids cfg op) (registry_step op c)"
    using Cons.prems by (intro issued_step) simp_all
  from Cons.IH [OF this] Cons.prems show ?case by (simp add: registry_ok_step add.assoc)
qed simp

text \<open>In every state that a run of the coordinator's operations reaches, every worker is filed
  under its own id, active or draining; a registration answers an id that no worker of the registry
  has, and adds exactly that worker, as long as fewer than 2 to the 64 workers have registered.\<close>

theorem registered_id_is_fresh:
  fixes cfg reg now
  assumes "registrations cfg ops + 1 < 2 ^ 64"
  defines "c \<equiv> fold registry_step ops (new_coordinator cfg)"
  defines "r \<equiv> register_worker reg now c"
  shows "registry_ok c \<and> lookup_worker c (fst r) = None \<and>
    lookup_worker (snd r) = (lookup_worker c)(fst r \<mapsto> new_handle (fst r) reg now)"
proof -
  have ok: "registry_ok c" unfolding c_def by (rule registry.inv_run)
  have i: "issued cfg (registrations cfg ops) c"
    using issued_run [OF issued_new, of cfg ops] assms(1) registry.inv_init by (simp add: c_def)
  have n: "Suc (registrations cfg ops) < 2 ^ 64" using assms(1) by simp
  from register_fresh [OF i n] next_name [OF i n] ok show ?thesis
    by (auto simp: r_def fun_eq_iff registry_simps)
qed

definition demo_registration :: worker_registration where
  "demo_registration = \<lparr>reg_endpoint = ''http://w'', reg_label = None, reg_cpu_cores = 4, reg_memory_bytes = 0\<rparr>"

lemma registered_id_is_fresh_witness:
  "lookup_worker (snd (register_worker demo_registration 7 (fold registry_step
       [Register demo_registration 3] (new_coordinator default_cluster_config)))) ''worker-2'' =
   Some (new_handle ''worker-2'' demo_registration 7)"
proof -
  have "show_nat 2 = ''2''" by code_simp
  then have "fst (register_worker demo_registration 7 (fold registry_step
       [Register demo_registration 3] (new_coordinator default_cluster_config))) = ''worker-2''"
    by (simp add: register_worker_def new_coordinator_def Let_def)
  with registered_id_is_fresh [of default_cluster_config "[Register demo_registration 3]" demo_registration 7]
  show ?thesis by simp
qed

section \<open>Which workers are kept\<close>

text \<open>The last heartbeat of a worker and whether it is late, as a run of operations goes on.\<close>

fun seen :: "cluster_config \<Rightarrow> string \<Rightarrow> registry_op \<Rightarrow> nat \<times> bool \<Rightarrow> nat \<times> bool" where
  "seen cfg i (Heartbeat j now) (t, late) = (if j = i then (now, False) else (t, late))"
| "seen cfg i (Check_Health now) (t, late) = (t, late \<or> now - t > drain_after cfg)"
| "seen cfg i op (t, late) = (t, late)"

text \<open>No health check comes later than the timeout after the last heartbeat before it.\<close>

fun timely :: "cluster_config \<Rightarrow> string \<Rightarrow> nat \<Rightarrow> registry_op list \<Rightarrow> bool" where
  "timely cfg i t [] = True"
| "timely cfg i t (Check_Health now # ops) = (now - t \<le> evict_after cfg \<and> timely cfg i t ops)"
| "timely cfg i t (Heartbeat j now # ops) = timely cfg i (if j = i then now else t) ops"
| "timely cfg i t (op # ops) = timely cfg i t ops"

definition seen_handle :: "worker_handle \<Rightarrow> nat \<times> bool \<Rightarrow> worker_handle" where
  "seen_handle h tm =
     h\<lparr>last_heartbeat := fst tm, worker_state := if snd tm then Draining else Active\<rparr>"

lemma step_keeps_absent:
  assumes "issued cfg n c" "n + new_ids cfg op < 2 ^ 64" "registry_ok c" "i \<in> worker_name ` {1..n}"
    and "lookup_worker c i = None"
  shows "lookup_worker (registry_step op c) i = None"
proof (cases op)
  case (Register reg now)
  with assms register_keeps [of cfg n c i reg now] show ?thesis by simp
next
  case (Seed clock)
  have "cluster c = cfg" using assms(1) by (simp add: issued_def)
  with Seed assms seed_loop_issued [of cfg n c "static_workers cfg" "map clock [0..<length (static_workers cfg)]"]
  show ?thesis by (cases "discovery cfg = Static") (auto simp: seed_static_workers_def)
qed (use assms in \<open>auto simp: registry_simps registry_ok_def\<close>)

lemma step_keeps_seen:
  assumes "issued cfg n c" "n + new_ids cfg op < 2 ^ 64" "registry_ok c" "i \<in> worker_name ` {1..n}"
    and "lookup_worker c i = Some (seen_handle h (t, late))" "op \<noteq> Deregister i"
  shows "lookup_worker (registry_step op c) i =
    (if timely cfg i t [op] then Some (seen_handle h (seen cfg i op (t, late))) else None)"
proof (cases op)
  case (Register reg now)
  with assms register_keeps [of cfg n c i reg now] show ?thesis by simp
next
  case (Seed clock)
  have "cluster c = cfg" using assms(1) by (simp add: issued_def)
  with Seed assms seed_loop_issued [of cfg n c "static_workers cfg" "map clock [0..<length (static_workers cfg)]"]
  show ?thesis by (cases "discovery cfg = Static") (auto simp: seed_static_workers_def)
next
  case (Check_Health now)
  have "cluster c = cfg" "distinct (map fst (workers c))" using assms(1,3) by (simp_all add: issued_def registry_ok_def)
  with assms(5) Check_Health show ?thesis
    by (auto simp: registry_simps examined_def seen_handle_def Let_def)
next
  case (Heartbeat j now)
  with assms(5) show ?thesis
    by (cases "j = i"; cases late) (simp_all add: registry_simps seen_handle_def)
qed (use assms(5,6) in \<open>auto simp: registry_simps seen_handle_def\<close>)

lemma timely_Cons: "timely cfg i t (op # ops) \<longleftrightarrow> timely cfg i t [op] \<and> timely cfg i (fst (seen cfg i op (t, late))) ops"
  by (cases op) auto

lemma run_keeps_absent:
  assumes "issued cfg n c" "n + registrations cfg ops < 2 ^ 64" "registry_ok c" "i \<in> worker_name ` {1..n}"
    and "lookup_worker c i = None"
  shows "lookup_worker (fold registry_step ops c) i = None"
  using assms
proof (induction ops arbitrary: n c)
  case (Cons op ops)
  have n: "n + new_ids cfg op < 2 ^ 64" using Cons.prems(2) by simp
  have "i \<in> worker_name ` {1..n + new_ids cfg op}" using Cons.prems(4) by fastforce
  with Cons.IH [OF issued_step [OF Cons.prems(1) n Cons.prems(3)]] Cons.prems
    step_keeps_absent [OF Cons.prems(1) n Cons.prems(3-5)]
  show ?case by (simp add: registry_ok_step add.assoc)
qed simp

lemma run_keeps_seen:
  assumes "issued cfg n c" "n + registrations cfg ops < 2 ^ 64" "registry_ok c" "i \<in> worker_name ` {1..n}"
    and "lookup_worker c i = Some (seen_handle h tm)" "Deregister i \<notin> set ops"
  shows "lookup_worker (fold registry_step ops c) i =
    (if timely cfg i (fst tm) ops then Some (seen_handle h (fold (seen cfg i) ops tm)) else None)"
  using assms
proof (induction ops arbitrary: n c tm)
  case (Cons op ops)
  obtain t late where tm: "tm = (t, late)" by (cases tm)
  have n: "n + new_ids cfg op < 2 ^ 64" using Cons.prems(2) by simp
  have i: "i \<in> worker_name ` {1..n + new_ids cfg op}" using Cons.prems(4) by fastforce
  have s: "issued cfg (n + new_ids cfg op) (registry_step op c)" "registry_ok (registry_step op c)"
    "n + new_ids cfg op + registrations cfg ops < 2 ^ 64"
    using issued_step [OF Cons.prems(1) n Cons.prems(3)] Cons.prems(2,3) by (simp_all add: registry_ok_step)
  have one: "lookup_worker (registry_step op c) i =
      (if timely cfg i t [op] then Some (seen_handle h (seen cfg i op (t, late))) else None)"
    using Cons.prems by (intro step_keeps_seen [OF Cons.prems(1) n Cons.prems(3,4)]) (auto simp: tm)
  show ?case
  proof (cases "timely cfg i t [op]")
    case True
    with Cons.IH [OF s(1,3,2) i, of "seen cfg i op (t, late)"] one Cons.prems(6)
    show ?thesis by (simp add: tm timely_Cons [of cfg i t op ops late])
  next
    case False
    with run_keeps_absent [OF s(1,3,2) i] one show ?thesis by (simp add: tm timely_Cons [of cfg i t op ops late])
  qed
qed simp

text \<open>C11. Heartbeats and eviction. A worker that registered is still there after any further run without
  its deregistration exactly when no health check came later than the timeout after its last
  heartbeat; then its handle holds that heartbeat, and it is draining exactly when a health check
  since then came later than twice the heartbeat interval. An evicted worker never comes back.\<close>

theorem worker_kept_iff_timely:
  fixes cfg reg now
  assumes "registrations cfg before + registrations cfg after + 1 < 2 ^ 64"
  defines "r \<equiv> register_worker reg now (fold registry_step before (new_coordinator cfg))"
  assumes "Deregister (fst r) \<notin> set after"
  shows "lookup_worker (fold registry_step after (snd r)) (fst r) =
    (if timely cfg (fst r) now after
     then Some (seen_handle (new_handle (fst r) reg now) (fold (seen cfg (fst r)) after (now, False)))
     else None)"
proof -
  let ?c = "fold registry_step before (new_coordinator cfg)" and ?n = "registrations cfg before"
  have ok: "registry_ok ?c" by (rule registry.inv_run)
  have i: "issued cfg ?n ?c"
    using issued_run [OF issued_new, of cfg before] assms(1) registry.inv_init by simp
  have n: "Suc ?n < 2 ^ 64" using assms(1) by simp
  have "seen_handle (new_handle j reg now) (now, False) = new_handle j reg now" for j
    by (simp add: seen_handle_def new_handle_def)
  with run_keeps_seen [OF issued_register [OF i n, of reg now], where ops = "after" and i = "fst r" and
      h = "new_handle (fst r) reg now" and tm = "(now, False)"]
    assms(1,3) next_name [OF i n] register_fresh(1) [OF i n, of reg now] registry_ok_register [OF ok]
  show ?thesis by (simp add: r_def registry_simps)
qed

lemma worker_kept_iff_timely_witness:
  "lookup_worker (fold registry_step [Check_Health 20000000001, Heartbeat ''worker-1'' 30000000000, Check_Health 60000000000]
      (snd (register_worker demo_registration 0 (new_coordinator default_cluster_config)))) ''worker-1'' =
     Some ((new_handle ''worker-1'' demo_registration 0)\<lparr>last_heartbeat := 30000000000, worker_state := Draining\<rparr>)"
proof -
  have "show_nat 1 = ''1''" by code_simp
  then have "fst (register_worker demo_registration 0 (new_coordinator default_cluster_config)) = ''worker-1''"
    by (simp add: register_worker_def new_coordinator_def Let_def)
  with worker_kept_iff_timely [where cfg = default_cluster_config and before = "[]" and reg = demo_registration and
      now = 0 and after = "[Check_Health 20000000001, Heartbeat ''worker-1'' 30000000000, Check_Health 60000000000]"]
  show ?thesis
    by (simp add: default_cluster_config_def evict_after_def drain_after_def duration_from_secs_def seen_handle_def)
qed

end
