(* ===== verification/Distributed_Query.thy ===== *)
theory Distributed_Query
  imports Worker_Registry
begin

text \<open>
  Distributed queries: the planner \<open>crates/rustlake-flight/src/planner.rs\<close> and the execution part of
  \<open>crates/rustlake-flight/src/coordinator.rs\<close>. The planner sees DataFusion's logical plan, of which
  \<open>logical_plan\<close> has the variants that it distinguishes. The local engine, the calls to workers with
  the milliseconds they take, DataFusion's planning and printing, and the iteration order of the
  hash maps are the fields of \<open>cluster_env\<close>. Row batches are lists of rows.
\<close>

section \<open>The planner\<close>

datatype distribution_strategy =
    Local
  | SingleWorker
  | RangePartition string string
  | ScatterGather
  | PartialAggregate string string

record worker_assignment =
  worker_endpoint :: string
  worker_sql :: string
  partition_range :: "(int \<times> int) option"

record distributed_plan =
  original_sql :: string
  strategy :: distribution_strategy
  worker_assignments :: "worker_assignment list"
  merge_sql :: "string option"
  estimated_cost :: rat

datatype 'e logical_plan =
    Projection "'e logical_plan"
  | Filter "'e logical_plan"
  | Sort "'e logical_plan"
  | Limit "'e logical_plan"
  | Aggregate "'e list" "'e list" "'e logical_plan"
  | Join "'e logical_plan" "'e logical_plan"
  | TableScan string
  | SubqueryAlias "'e logical_plan"
  | EmptyRelation
  | Other_Plan

datatype query_analysis =
    SimpleScan string
  | AggregateQuery string "string list" "string list"
  | JoinQuery string string
  | Simple
  | Complex

definition scanned_table :: "query_analysis \<Rightarrow> string" where
  "scanned_table a = (case a of SimpleScan table \<Rightarrow> table | _ \<Rightarrow> ''unknown'')"

fun analyze_plan :: "('e \<Rightarrow> string) \<Rightarrow> 'e logical_plan \<Rightarrow> query_analysis" where
  "analyze_plan show_expr (Projection p) = analyze_plan show_expr p"
| "analyze_plan show_expr (Filter p) = analyze_plan show_expr p"
| "analyze_plan show_expr (Sort p) = analyze_plan show_expr p"
| "analyze_plan show_expr (Limit p) = analyze_plan show_expr p"
| "analyze_plan show_expr (Aggregate groups aggs p) =
     AggregateQuery (scanned_table (analyze_plan show_expr p)) (map show_expr groups) (map show_expr aggs)"
| "analyze_plan show_expr (Join l r) =
     JoinQuery (scanned_table (analyze_plan show_expr l)) (scanned_table (analyze_plan show_expr r))"
| "analyze_plan show_expr (TableScan table) = SimpleScan table"
| "analyze_plan show_expr (SubqueryAlias p) = analyze_plan show_expr p"
| "analyze_plan show_expr EmptyRelation = Simple"
| "analyze_plan show_expr Other_Plan = Complex"

definition batch_size :: nat where "batch_size = 100000"

text \<open>The query of one worker, and the assignments \<open>workers.iter().enumerate()\<close> builds.\<close>

definition partition_sql :: "string \<Rightarrow> nat \<Rightarrow> nat \<Rightarrow> string" where
  "partition_sql sql limit offset =
     ''SELECT * FROM ('' @ sql @ '') AS __partitioned LIMIT '' @ show_nat limit @ '' OFFSET '' @ show_nat offset"

definition partition_assignments :: "string \<Rightarrow> worker_handle list \<Rightarrow> worker_assignment list" where
  "partition_assignments sql ws =
     map (\<lambda>(i, w). let offset = i * batch_size
            in \<lparr>worker_endpoint = endpoint w, worker_sql = partition_sql sql batch_size offset,
                partition_range = Some (int offset, int (offset + batch_size))\<rparr>)
       (enumerate 0 ws)"

definition plan_partitioned_scan :: "string \<Rightarrow> string \<Rightarrow> worker_handle list \<Rightarrow> distributed_plan" where
  "plan_partitioned_scan sql table ws =
     \<lparr>original_sql = sql, strategy = RangePartition table ''__offset'',
      worker_assignments = partition_assignments sql ws, merge_sql = None,
      estimated_cost = f64_div 100 (f64_of_nat (length ws))\<rparr>"

definition merge_func :: "string \<Rightarrow> string" where
  "merge_func f = (if starts_with f ''COUNT'' then replace_str ''COUNT'' ''SUM'' f else f)"

definition merge_query :: "string list \<Rightarrow> string list \<Rightarrow> string" where
  "merge_query group_cols agg_funcs =
     ''SELECT '' @ join_with '', '' (group_cols @ map merge_func agg_funcs) @ '' FROM __partial_results'' @
     (if group_cols = [] then [] else '' GROUP BY '' @ join_with '', '' group_cols)"

definition plan_partial_aggregate ::
  "string \<Rightarrow> string list \<Rightarrow> string list \<Rightarrow> worker_handle list \<Rightarrow> distributed_plan" where
  "plan_partial_aggregate sql group_cols agg_funcs ws =
     (let merge = merge_query group_cols agg_funcs
      in \<lparr>original_sql = sql, strategy = PartialAggregate sql merge,
          worker_assignments = partition_assignments sql ws, merge_sql = Some merge,
          estimated_cost = f64_div 80 (f64_of_nat (length ws))\<rparr>)"

definition full_assignment :: "string \<Rightarrow> worker_handle \<Rightarrow> worker_assignment" where
  "full_assignment sql w =
     \<lparr>worker_endpoint = endpoint w, worker_sql = sql, partition_range = None\<rparr>"

definition plan_scatter_gather :: "string \<Rightarrow> worker_handle list \<Rightarrow> distributed_plan" where
  "plan_scatter_gather sql ws =
     \<lparr>original_sql = sql, strategy = ScatterGather, worker_assignments = map (full_assignment sql) ws,
      merge_sql = None, estimated_cost = 50\<rparr>"

definition local_plan :: "string \<Rightarrow> rat \<Rightarrow> distributed_plan" where
  "local_plan sql cost =
     \<lparr>original_sql = sql, strategy = Local, worker_assignments = [], merge_sql = None,
      estimated_cost = cost\<rparr>"

definition single_worker_plan :: "string \<Rightarrow> worker_handle \<Rightarrow> distributed_plan" where
  "single_worker_plan sql w =
     \<lparr>original_sql = sql, strategy = SingleWorker, worker_assignments = [full_assignment sql w],
      merge_sql = None, estimated_cost = 50\<rparr>"

definition plan_query ::
  "(string \<Rightarrow> 'e logical_plan option) \<Rightarrow> ('e \<Rightarrow> string) \<Rightarrow> string \<Rightarrow> worker_handle list \<Rightarrow>
   distributed_plan" where
  "plan_query create_logical_plan show_expr sql ws =
     (if ws = [] then local_plan sql 0
      else case create_logical_plan sql of
             None \<Rightarrow> local_plan sql 0
           | Some p \<Rightarrow>
               (case analyze_plan show_expr p of
                  SimpleScan table \<Rightarrow> plan_partitioned_scan sql table ws
                | AggregateQuery table group_cols agg_funcs \<Rightarrow>
                    plan_partial_aggregate sql group_cols agg_funcs ws
                | JoinQuery _ _ \<Rightarrow> plan_scatter_gather sql ws
                | Simple \<Rightarrow> local_plan sql 1
                | Complex \<Rightarrow>
                    if 2 \<le> length ws then plan_scatter_gather sql ws
                    else single_worker_plan sql (hd ws)))"

section \<open>Execution\<close>

record ('row, 'e) cluster_env =
  ctx_sql :: "string \<Rightarrow> 'row list list result"
  pool_query :: "string \<Rightarrow> string \<Rightarrow> 'row list list option \<times> nat"
  create_logical_plan :: "string \<Rightarrow> 'e logical_plan option"
  show_expr :: "'e \<Rightarrow> string"
  worker_order :: "worker_handle list \<Rightarrow> worker_handle list"
  latency_order :: "rat list \<Rightarrow> rat list"

definition update_worker_latency :: "string \<Rightarrow> nat \<Rightarrow> coordinator \<Rightarrow> coordinator" where
  "update_worker_latency ep ms c =
     (let latency_ms = f64_of_nat ms;
          entry = unwrap_or latency_ms (map_of (worker_latency c) ep)
      in c\<lparr>worker_latency := AList.update ep
             (f64_add (f64_mult entry (rnd (7 / 10))) (f64_mult latency_ms (rnd (3 / 10))))
             (worker_latency c)\<rparr>)"

definition average_worker_latency :: "(rat list \<Rightarrow> rat list) \<Rightarrow> coordinator \<Rightarrow> rat" where
  "average_worker_latency order c =
     (let latencies = order (map snd (worker_latency c))
      in if latencies = [] then 0
         else f64_div (foldl f64_add 0 latencies) (f64_of_nat (length latencies)))"

definition execute_on_worker ::
  "('row, 'e) cluster_env \<Rightarrow> string \<Rightarrow> string \<Rightarrow> coordinator \<Rightarrow> 'row list list result \<times> coordinator" where
  "execute_on_worker env ep sql c =
     (case pool_query env ep sql of
        (Some batches, ms) \<Rightarrow> (Ok batches, update_worker_latency ep ms c)
      | (None, _) \<Rightarrow> (ctx_sql env sql, c))"

text \<open>The loop over the joined results, in the order of the assignments.\<close>

fun collect_results ::
  "(string \<times> 'row list list option \<times> nat) list \<Rightarrow> 'row list list \<Rightarrow> coordinator \<Rightarrow>
   'row list list \<times> coordinator" where
  "collect_results [] all_batches c = (all_batches, c)"
| "collect_results ((ep, r, ms) # rs) all_batches c =
     collect_results rs
       (case r of Some batches \<Rightarrow> all_batches @ batches | None \<Rightarrow> all_batches)
       (update_worker_latency ep ms c)"

definition execute_parallel ::
  "('row, 'e) cluster_env \<Rightarrow> worker_assignment list \<Rightarrow> coordinator \<Rightarrow> 'row list list \<times> coordinator" where
  "execute_parallel env assignments c =
     collect_results
       (map (\<lambda>a. (worker_endpoint a, pool_query env (worker_endpoint a) (worker_sql a))) assignments) [] c"

definition execute_distributed ::
  "('row, 'e) cluster_env \<Rightarrow> string \<Rightarrow> coordinator \<Rightarrow> 'row list list result \<times> coordinator" where
  "execute_distributed env sql c =
     (let ws = active_workers (worker_order env) c
      in if ws = [] then (ctx_sql env sql, c)
         else
           let plan = plan_query (create_logical_plan env) (show_expr env) sql ws;
               avg_latency = average_worker_latency (latency_order env) c;
               cost = estimated_cost plan
           in if cost < 5 \<or> cost < 20 \<and> avg_latency > 50 then (ctx_sql env sql, c)
              else (case strategy plan of
                      Local \<Rightarrow> (ctx_sql env sql, c)
                    | SingleWorker \<Rightarrow>
                        (case worker_assignments plan of
                           [] \<Rightarrow> (Panic, c)
                         | a # _ \<Rightarrow> execute_on_worker env (worker_endpoint a) (worker_sql a) c)
                    | RangePartition _ _ \<Rightarrow> apfst Ok (execute_parallel env (worker_assignments plan) c)
                    | ScatterGather \<Rightarrow> apfst Ok (execute_parallel env (worker_assignments plan) c)
                    | PartialAggregate _ _ \<Rightarrow> apfst Ok (execute_parallel env (worker_assignments plan) c)))"

text \<open>\<open>scatter_gather\<close> opens a connection to every active worker; a failed one is only logged.\<close>

definition scatter_gather ::
  "('row, 'e) cluster_env \<Rightarrow> (string \<Rightarrow> string \<Rightarrow> 'row list list option) \<Rightarrow> string \<Rightarrow> coordinator \<Rightarrow>
   'row list list result" where
  "scatter_gather env client_query sql c =
     (let ws = active_workers (worker_order env) c
      in if ws = [] then ctx_sql env sql
         else Ok (concat (map (\<lambda>w. unwrap_or [] (client_query (endpoint w) sql)) ws)))"

section \<open>What a distributed query answers\<close>

lemma collect_results_rows:
  "fst (collect_results rs acc c) = acc @ concat (map (\<lambda>(ep, r, ms). unwrap_or [] r) rs)"
  by (induction rs acc c rule: collect_results.induct) (auto split: option.split)

lemma collect_results_workers: "workers (snd (collect_results rs acc c)) = workers c"
  by (induction rs acc c rule: collect_results.induct) (simp_all add: update_worker_latency_def Let_def)

lemma execute_parallel_rows:
  "concat (fst (execute_parallel env as c)) =
   concat (map (\<lambda>a. concat (unwrap_or [] (fst (pool_query env (worker_endpoint a) (worker_sql a))))) as)"
proof -
  have "concat (concat (map f xs)) = concat (map (\<lambda>a. concat (f a)) xs)" for f :: "_ \<Rightarrow> 'a list list" and xs
    by (induction xs) simp_all
  then show ?thesis by (simp add: execute_parallel_def collect_results_rows comp_def split_beta)
qed

lemma execute_parallel_workers: "workers (snd (execute_parallel env as c)) = workers c"
  by (simp add: execute_parallel_def collect_results_workers)

lemma concat_slices: "concat (map (\<lambda>i. take b (drop (i * b) xs)) [0..<n]) = take (n * b) xs"
proof (induction n)
  case (Suc n)
  then show ?case by (simp add: take_add add.commute [of b])
qed simp

lemma map_enumerate: "map f (enumerate 0 xs) = map (\<lambda>i. f (i, xs ! i)) [0..<length xs]"
  by (rule nth_equalityI) (simp_all add: nth_enumerate_eq)

text \<open>The workers that are up answer slices of one result; the answer to the whole query.\<close>

definition serves_slices ::
  "('row, 'e) cluster_env \<Rightarrow> string \<Rightarrow> nat \<Rightarrow> (string \<Rightarrow> bool) \<Rightarrow> 'row list \<Rightarrow> bool" where
  "serves_slices env sql n up rows \<longleftrightarrow>
     (\<forall>ep. \<forall>i<n. case fst (pool_query env ep (partition_sql sql batch_size (i * batch_size))) of
        None \<Rightarrow> \<not> up ep
      | Some batches \<Rightarrow> up ep \<and> concat batches = take batch_size (drop (i * batch_size) rows))"

definition serves_all :: "('row, 'e) cluster_env \<Rightarrow> string \<Rightarrow> (string \<Rightarrow> bool) \<Rightarrow> 'row list \<Rightarrow> bool" where
  "serves_all env sql up rows \<longleftrightarrow>
     (\<forall>ep. case fst (pool_query env ep sql) of
        None \<Rightarrow> \<not> up ep | Some batches \<Rightarrow> up ep \<and> concat batches = rows)"

lemma partition_rows:
  assumes "serves_slices env sql (length ws) up rows"
  shows "concat (fst (execute_parallel env (partition_assignments sql ws) c)) =
    concat (map (\<lambda>i. if up (endpoint (ws ! i)) then take batch_size (drop (i * batch_size) rows) else [])
      [0..<length ws])"
proof -
  have "concat (unwrap_or [] (fst (pool_query env ep (partition_sql sql batch_size (i * batch_size))))) =
      (if up ep then take batch_size (drop (i * batch_size) rows) else [])" if "i < length ws" for ep i
    using assms that unfolding serves_slices_def by (fastforce split: option.splits)
  then have "map (\<lambda>i. concat (unwrap_or [] (fst (pool_query env (endpoint (ws ! i))
        (partition_sql sql batch_size (i * batch_size)))))) [0..<length ws] =
      map (\<lambda>i. if up (endpoint (ws ! i)) then take batch_size (drop (i * batch_size) rows) else []) [0..<length ws]"
    by (intro map_cong) simp_all
  from arg_cong [OF this, of concat] show ?thesis
    by (simp add: execute_parallel_rows partition_assignments_def map_enumerate comp_def Let_def del: map_eq_conv)
qed

lemma full_rows:
  assumes "serves_all env sql up rows"
  shows "concat (fst (execute_parallel env (map (full_assignment sql) ws) c)) =
    concat (replicate (length (filter (\<lambda>w. up (endpoint w)) ws)) rows)"
proof -
  have "concat (unwrap_or [] (fst (pool_query env ep sql))) = (if up ep then rows else [])" for ep
    using assms unfolding serves_all_def by (fastforce split: option.splits)
  then have "concat (fst (execute_parallel env (map (full_assignment sql) ws) c)) =
      concat (map (\<lambda>w. if up (endpoint w) then rows else []) ws)"
    by (simp add: execute_parallel_rows full_assignment_def comp_def)
  also have "\<dots> = concat (replicate (length (filter (\<lambda>w. up (endpoint w)) ws)) rows)"
    by (induction ws) simp_all
  finally show ?thesis .
qed

lemma scan_cost:
  assumes "0 < n"
  shows "f64_div 100 (f64_of_nat n) < 5 \<longleftrightarrow> 20 < n" "f64_div 100 (f64_of_nat n) < 20 \<longleftrightarrow> 5 < n"
  using f64_share_less_iff [OF assms, of 5 100] f64_share_less_iff [OF assms, of 20 100] by auto

text \<open>C10. A distributed scan. With up to 20 workers (up to 5 when the average latency is above 50 ms) every
  active worker is asked for one slice of 100000 rows, and the answer is what came back: when all
  workers answer, the first 100000 rows per worker of the result and nothing of the rest; the slice
  of a worker that fails is left out without an error. In all other cases the query runs locally.\<close>

theorem distributed_scan_answer:
  fixes env c
  defines "ws \<equiv> active_workers (worker_order env) c"
    and "slow \<equiv> average_worker_latency (latency_order env) c > 50"
  assumes "create_logical_plan env sql = Some p" and "analyze_plan (show_expr env) p = SimpleScan table"
    and "serves_slices env sql (length ws) up rows"
  shows "if ws = [] \<or> 20 < length ws \<or> 5 < length ws \<and> slow
    then execute_distributed env sql c = (ctx_sql env sql, c)
    else \<exists>batches c'. execute_distributed env sql c = (Ok batches, c') \<and> workers c' = workers c \<and>
      concat batches = concat (map (\<lambda>i. if up (endpoint (ws ! i))
        then take batch_size (drop (i * batch_size) rows) else []) [0..<length ws]) \<and>
      ((\<forall>w \<in> set ws. up (endpoint w)) \<longrightarrow> concat batches = take (length ws * batch_size) rows)"
proof (cases "ws = []")
  case True
  then show ?thesis by (simp add: execute_distributed_def flip: ws_def)
next
  case False
  then have n: "0 < length ws" by simp
  have plan: "plan_query (create_logical_plan env) (show_expr env) sql ws = plan_partitioned_scan sql table ws"
    using assms(3,4) False by (simp add: plan_query_def)
  have d: "execute_distributed env sql c =
      (if 20 < length ws \<or> 5 < length ws \<and> slow then (ctx_sql env sql, c)
       else apfst Ok (execute_parallel env (partition_assignments sql ws) c))"
    using False by (simp add: execute_distributed_def plan flip: ws_def slow_def)
      (simp add: plan_partitioned_scan_def Let_def scan_cost [OF n])
  have "concat (map (\<lambda>i. if up (endpoint (ws ! i)) then take batch_size (drop (i * batch_size) rows) else [])
      [0..<length ws]) = take (length ws * batch_size) rows" if "\<forall>w \<in> set ws. up (endpoint w)"
  proof -
    have "map (\<lambda>i. if up (endpoint (ws ! i)) then take batch_size (drop (i * batch_size) rows) else [])
        [0..<length ws] = map (\<lambda>i. take batch_size (drop (i * batch_size) rows)) [0..<length ws]"
      using that by (intro map_cong) simp_all
    from arg_cong [OF this, of concat] show ?thesis by (simp only: concat_slices)
  qed
  with False d partition_rows [OF assms(5)] execute_parallel_workers [of env "partition_assignments sql ws" c]
  show ?thesis by (auto simp: apfst_def map_prod_def split_beta)
qed

text \<open>A join is sent whole to every worker. When the workers hold the same data, every row of the
  result is answered once for each worker that does not fail, instead of once.\<close>

theorem distributed_join_repeats_rows:
  fixes env c
  defines "ws \<equiv> active_workers (worker_order env) c"
  assumes "ws \<noteq> []"
    and "create_logical_plan env sql = Some p" and "analyze_plan (show_expr env) p = JoinQuery l r"
    and "serves_all env sql up rows"
  shows "\<exists>batches c'. execute_distributed env sql c = (Ok batches, c') \<and> workers c' = workers c \<and>
    concat batches = concat (replicate (length (filter (\<lambda>w. up (endpoint w)) ws)) rows)"
proof -
  have "plan_query (create_logical_plan env) (show_expr env) sql ws = plan_scatter_gather sql ws"
    using assms(2-4) by (simp add: plan_query_def)
  then have "execute_distributed env sql c = apfst Ok (execute_parallel env (map (full_assignment sql) ws) c)"
    using assms(2) by (simp add: execute_distributed_def plan_scatter_gather_def flip: ws_def)
  with full_rows [OF assms(5)] execute_parallel_workers [of env "map (full_assignment sql) ws" c]
  show ?thesis by (auto simp: apfst_def map_prod_def split_beta)
qed

definition demo_cluster :: coordinator where
  "demo_cluster = fold registry_step [Register demo_registration 0, Register demo_registration 1]
     (new_coordinator default_cluster_config)"

definition demo_env :: "(int, unit) cluster_env" where
  "demo_env =
     \<lparr>ctx_sql = \<lambda>_. Err ''local'',
      pool_query = \<lambda>_ q. (if q = partition_sql ''q'' batch_size 0 then Some [[1, 2], [3]]
        else if q = ''j'' then Some [[7]] else Some [], 4),
      create_logical_plan = \<lambda>sql. Some (if sql = ''j'' then Join (TableScan ''a'') (TableScan ''b'')
        else Filter (TableScan ''t'')),
      show_expr = \<lambda>_. ''e'', worker_order = rev, latency_order = rev\<rparr>"

lemma demo_env_simps:
  "worker_order demo_env = rev" "latency_order demo_env = rev"
  "create_logical_plan demo_env ''q'' = Some (Filter (TableScan ''t''))"
  "create_logical_plan demo_env ''j'' = Some (Join (TableScan ''a'') (TableScan ''b''))"
  by (simp_all add: demo_env_def)

lemma demo_cluster_workers:
  "map worker_state (map snd (workers demo_cluster)) = [Active, Active]" "worker_latency demo_cluster = []"
proof -
  have "show_nat 1 = ''1''" "show_nat 2 = ''2''" by code_simp+
  then show "map worker_state (map snd (workers demo_cluster)) = [Active, Active]" "worker_latency demo_cluster = []"
    by (simp_all add: demo_cluster_def register_worker_def new_coordinator_def new_handle_def Let_def)
qed

lemma demo_cluster_active: "length (active_workers rev demo_cluster) = 2"
  using demo_cluster_workers(1) by (auto simp: active_workers_def map_eq_Cons_conv)

lemma distributed_scan_answer_witness:
  "\<exists>batches c'. execute_distributed demo_env ''q'' demo_cluster = (Ok batches, c') \<and> concat batches = [1, 2, 3]"
proof -
  have "partition_sql ''q'' batch_size batch_size \<noteq> partition_sql ''q'' batch_size 0"
    by (simp add: partition_sql_def show_nat_inj batch_size_def)
  moreover have "partition_sql ''q'' batch_size i \<noteq> ''j''" for i by (simp add: partition_sql_def)
  ultimately have "serves_slices demo_env ''q'' (length (active_workers (worker_order demo_env) demo_cluster))
      (\<lambda>_. True) [1, 2, 3]"
    using demo_cluster_active
    by (auto simp: serves_slices_def demo_env_def less_2_cases_iff batch_size_def)
  moreover have "average_worker_latency (latency_order demo_env) demo_cluster = 0"
    by (simp add: average_worker_latency_def demo_cluster_workers demo_env_def)
  ultimately show ?thesis
    using distributed_scan_answer [of demo_env "''q''" "Filter (TableScan ''t'')" "''t''" demo_cluster
        "\<lambda>_. True" "[1, 2, 3]"] demo_cluster_active
    by (auto simp: demo_env_simps batch_size_def split: if_splits)
qed

lemma distributed_join_repeats_rows_witness:
  "\<exists>batches c'. execute_distributed demo_env ''j'' demo_cluster = (Ok batches, c') \<and> concat batches = [7, 7]"
proof -
  have "partition_sql ''q'' batch_size 0 \<noteq> ''j''" by (simp add: partition_sql_def)
  then have "serves_all demo_env ''j'' (\<lambda>_. True) [7]" by (simp add: serves_all_def demo_env_def)
  moreover have "active_workers (worker_order demo_env) demo_cluster \<noteq> []"
    using demo_cluster_active by (auto simp: demo_env_def)
  ultimately show ?thesis
    using distributed_join_repeats_rows [of demo_env demo_cluster "''j''" "Join (TableScan ''a'') (TableScan ''b'')"
        "''a''" "''b''" "\<lambda>_. True" "[7]"] demo_cluster_active
    by (auto simp: demo_env_simps scanned_table_def numeral_2_eq_2)
qed

end
