(* ===== verification/Dag_Scheduler.thy ===== *)
theory Dag_Scheduler
  imports Prelude "HOL-Library.AList"
begin

text \<open>
  The task scheduler: \<open>crates/rustlake-scheduler/src/dag.rs\<close>. The graph of petgraph is the list of its
  node weights and the list of its edges; node indices are list positions. \<open>toposort\<close> of petgraph
  and the executor, a function of the task and a world, are arguments; \<open>toposort_law\<close> is what
  petgraph documents. Task ids are random UUIDs and come with the task.
\<close>

section \<open>Tasks\<close>

datatype task_status = Pending | Running | Completed | Failed string | Skipped

record task_def =
  task_id :: string
  task_name :: string
  task_sql :: "string option"
  task_status :: task_status

definition new_task :: "string \<Rightarrow> string \<Rightarrow> task_def" where
  "new_task uuid name = \<lparr>task_id = uuid, task_name = name, task_sql = None, task_status = Pending\<rparr>"

definition with_sql :: "string \<Rightarrow> task_def \<Rightarrow> task_def" where
  "with_sql sql t = t\<lparr>task_sql := Some sql\<rparr>"

section \<open>The scheduler\<close>

record dag_scheduler =
  nodes :: "task_def list"
  edges :: "(nat \<times> nat) list"
  node_map :: "(string \<times> nat) list"

definition new_scheduler :: dag_scheduler where
  "new_scheduler = \<lparr>nodes = [], edges = [], node_map = []\<rparr>"

definition add_task :: "task_def \<Rightarrow> dag_scheduler \<Rightarrow> string \<times> dag_scheduler" where
  "add_task t s =
     (task_id t, s\<lparr>nodes := nodes s @ [t],
        node_map := AList.update (task_id t) (length (nodes s)) (node_map s)\<rparr>)"

definition task_missing :: "string \<Rightarrow> string" where
  "task_missing t = ''Task '' @ quote t @ '' not found''"

definition add_dependency :: "string \<Rightarrow> string \<Rightarrow> dag_scheduler \<Rightarrow> unit result \<times> dag_scheduler" where
  "add_dependency from_id to_id s =
     (case map_of (node_map s) from_id of
        None \<Rightarrow> (Err (task_missing from_id), s)
      | Some a \<Rightarrow>
          (case map_of (node_map s) to_id of
             None \<Rightarrow> (Err (task_missing to_id), s)
           | Some b \<Rightarrow> (Ok (), s\<lparr>edges := edges s @ [(a, b)]\<rparr>)))"

definition set_status :: "nat \<Rightarrow> task_status \<Rightarrow> task_def list \<Rightarrow> task_def list" where
  "set_status i st ns = ns[i := (ns ! i)\<lparr>task_status := st\<rparr>]"

text \<open>The loop over the order. An executor answers an error message or nothing; an index outside
  the graph panics.\<close>

fun run_tasks ::
  "(task_def \<Rightarrow> 'w \<Rightarrow> string option \<times> 'w) \<Rightarrow> nat list \<Rightarrow> task_def list \<Rightarrow> 'w \<Rightarrow>
   unit result \<times> task_def list \<times> 'w" where
  "run_tasks executor [] ns w = (Ok (), ns, w)"
| "run_tasks executor (i # order) ns w =
     (if length ns \<le> i then (Panic, ns, w)
      else case executor (ns ! i) w of
             (None, w') \<Rightarrow> run_tasks executor order (set_status i Completed ns) w'
           | (Some e, w') \<Rightarrow>
               (Err (''Task '' @ quote (task_name (ns ! i)) @ '' failed: '' @ e),
                set_status i (Failed e) ns, w'))"

definition cycle_error :: string where
  "cycle_error = ''Cycle detected in task DAG''"

definition execute_dag ::
  "(nat \<Rightarrow> (nat \<times> nat) list \<Rightarrow> nat list option) \<Rightarrow> (task_def \<Rightarrow> 'w \<Rightarrow> string option \<times> 'w) \<Rightarrow>
   dag_scheduler \<Rightarrow> 'w \<Rightarrow> unit result \<times> dag_scheduler \<times> 'w" where
  "execute_dag toposort executor s w =
     (case toposort (length (nodes s)) (edges s) of
        None \<Rightarrow> (Err cycle_error, s, w)
      | Some order \<Rightarrow>
          (case run_tasks executor order (nodes s) w of (r, ns, w') \<Rightarrow> (r, s\<lparr>nodes := ns\<rparr>, w')))"

definition task_statuses :: "dag_scheduler \<Rightarrow> task_def list" where
  "task_statuses s = nodes s"

section \<open>Topological orders\<close>

definition before_in :: "nat list \<Rightarrow> nat \<Rightarrow> nat \<Rightarrow> bool" where
  "before_in order a b \<longleftrightarrow> (\<exists>xs ys. order = xs @ b # ys \<and> a \<in> set xs)"

definition toposort_law :: "(nat \<Rightarrow> (nat \<times> nat) list \<Rightarrow> nat list option) \<Rightarrow> dag_scheduler \<Rightarrow> bool" where
  "toposort_law toposort s \<longleftrightarrow>
     (case toposort (length (nodes s)) (edges s) of
        None \<Rightarrow> \<not> acyclic (set (edges s))
      | Some order \<Rightarrow>
          distinct order \<and> set order = {..<length (nodes s)} \<and>
          (\<forall>(a, b) \<in> set (edges s). before_in order a b))"

section \<open>Every edge joins two tasks\<close>

datatype 'w dag_op =
    Add_Task task_def
  | Add_Dependency string string
  | Execute_Dag "nat \<Rightarrow> (nat \<times> nat) list \<Rightarrow> nat list option" "task_def \<Rightarrow> 'w \<Rightarrow> string option \<times> 'w"

fun dag_step :: "'w dag_op \<Rightarrow> dag_scheduler \<times> 'w \<Rightarrow> dag_scheduler \<times> 'w" where
  "dag_step (Add_Task t) (s, w) = (snd (add_task t s), w)"
| "dag_step (Add_Dependency a b) (s, w) = (snd (add_dependency a b s), w)"
| "dag_step (Execute_Dag ts ex) (s, w) = snd (execute_dag ts ex s w)"

definition dag_ok :: "dag_scheduler \<Rightarrow> bool" where
  "dag_ok s \<longleftrightarrow>
     (\<forall>i k. map_of (node_map s) i = Some k \<longrightarrow> k < length (nodes s) \<and> task_id (nodes s ! k) = i) \<and>
     (\<forall>(a, b) \<in> set (edges s). a < length (nodes s) \<and> b < length (nodes s)) \<and>
     (\<forall>t \<in> set (nodes s). map_of (node_map s) (task_id t) \<noteq> None)"

lemma length_set_status [simp]: "length (set_status i st ns) = length ns"
  by (simp add: set_status_def)

lemma set_status_id: "j < length ns \<Longrightarrow> task_id (set_status i st ns ! j) = task_id (ns ! j)"
  by (cases "i = j") (simp_all add: set_status_def)

lemma run_tasks_ids:
  "run_tasks ex order ns w = (r, ns', w') \<Longrightarrow> map task_id ns' = map task_id ns"
proof (induction ex order ns w rule: run_tasks.induct)
  case (2 ex i order ns w)
  have "map task_id (set_status i st ns) = map task_id ns" for st
    by (rule nth_equalityI) (simp_all add: set_status_id)
  with 2 show ?case by (auto split: if_splits option.splits prod.splits)
qed simp

lemma dag_ok_cong:
  assumes "map task_id ns = map task_id (nodes s)"
  shows "dag_ok (s\<lparr>nodes := ns\<rparr>) = dag_ok s"
proof -
  have l: "length ns = length (nodes s)" using assms by (rule map_eq_imp_length_eq)
  have i: "task_id (ns ! k) = task_id (nodes s ! k)" if "k < length (nodes s)" for k
    using arg_cong [OF assms, of "\<lambda>xs. xs ! k"] that l by simp
  have "task_id ` set ns = task_id ` set (nodes s)" using arg_cong [OF assms, of set] by simp
  then have "(\<forall>t \<in> set ns. P (task_id t)) = (\<forall>t \<in> set (nodes s). P (task_id t))" for P
    by (metis (no_types, lifting) imageE image_eqI)
  from this [of "\<lambda>i. map_of (node_map s) i \<noteq> None"] l i show ?thesis
    by (simp add: dag_ok_def cong: conj_cong imp_cong)
qed

lemma dag_ok_add_task:
  assumes "dag_ok s"
  shows "dag_ok (snd (add_task t s))"
proof -
  let ?m = "(map_of (node_map s))(task_id t \<mapsto> length (nodes s))"
  have m: "map_of (node_map (snd (add_task t s))) = ?m"
    by (simp add: add_task_def update_conv')
  have "k < length (nodes s @ [t]) \<and> task_id ((nodes s @ [t]) ! k) = i" if "?m i = Some k" for i k
    using that assms by (cases "i = task_id t") (auto simp: dag_ok_def nth_append less_SucI)
  moreover have "a < length (nodes s @ [t]) \<and> b < length (nodes s @ [t])" if "(a, b) \<in> set (edges s)" for a b
    using that assms by (auto simp: dag_ok_def intro: less_SucI)
  moreover have "?m (task_id x) \<noteq> None" if "x \<in> set (nodes s @ [t])" for x
    using that assms by (auto simp: dag_ok_def)
  ultimately show ?thesis unfolding dag_ok_def m by (auto simp: add_task_def)
qed

lemma dag_ok_add_dependency: "dag_ok s \<Longrightarrow> dag_ok (snd (add_dependency a b s))"
  by (auto simp: dag_ok_def add_dependency_def split: option.split)

lemma dag_ok_execute: "dag_ok s \<Longrightarrow> dag_ok (fst (snd (execute_dag ts ex s w)))"
proof (cases "ts (length (nodes s)) (edges s)")
  case (Some order)
  obtain r ns w' where r: "run_tasks ex order (nodes s) w = (r, ns, w')" by (metis prod_cases3)
  moreover assume "dag_ok s"
  ultimately show ?thesis using Some dag_ok_cong [OF run_tasks_ids [OF r]] by (simp add: execute_dag_def)
qed (simp add: execute_dag_def)

interpretation dag: state_invariant dag_step "(new_scheduler, w)" "\<lambda>sw. dag_ok (fst sw)"
proof (unfold_locales, goal_cases)
  case 1
  show ?case by (simp add: dag_ok_def new_scheduler_def)
next
  case (2 sw op)
  then show ?case
    by (cases op; cases sw) (simp_all add: dag_ok_add_task dag_ok_add_dependency dag_ok_execute)
qed

section \<open>Execution\<close>

lemma before_in_acyclic:
  assumes "distinct order" "\<forall>(a, b) \<in> E. before_in order a b"
  shows "acyclic E"
proof -
  let ?pos = "\<lambda>x. length (takeWhile (\<lambda>y. y \<noteq> x) order)"
  have "?pos a < ?pos b" if "before_in order a b" for a b
  proof -
    from that obtain xs ys where o: "order = xs @ b # ys" and a: "a \<in> set xs"
      by (auto simp: before_in_def)
    with assms(1) have "?pos b = length xs" by (auto simp: takeWhile_append)
    moreover from a obtain us vs where "xs = us @ a # vs" "a \<notin> set us" by (meson split_list_first)
    then have "?pos a < length xs" by (auto simp: o takeWhile_append)
    ultimately show ?thesis by simp
  qed
  with assms(2) have "E \<subseteq> measure ?pos" by auto
  then show ?thesis using wf_subset [OF wf_measure] wf_acyclic by blast
qed

lemma before_in_prefix:
  assumes "distinct (executed @ rest)" "before_in (executed @ rest) a b" "b \<in> set executed"
  shows "before_in executed a b"
proof -
  from assms(2) obtain xs ys where o: "executed @ rest = xs @ b # ys" and a: "a \<in> set xs"
    by (auto simp: before_in_def)
  from assms(3) obtain us vs where r: "executed = us @ b # vs" by (meson split_list)
  have e: "us @ b # (vs @ rest) = xs @ b # ys" using o r by simp
  have "distinct (us @ b # (vs @ rest))" "distinct (xs @ b # ys)"
    using assms(1) unfolding o [symmetric] by (simp_all add: r)
  then have "b \<notin> set us" "b \<notin> set (vs @ rest)" by simp_all
  with e have "us = xs" using append_Cons_eq_iff [of b us "vs @ rest" xs ys] by simp
  with r a show ?thesis by (auto simp: before_in_def)
qed

text \<open>What a run of the loop did: the tasks executed, in order, each as it was before.\<close>

definition ran_tasks ::
  "(task_def \<Rightarrow> 'w \<Rightarrow> string option \<times> 'w) \<Rightarrow> task_def list \<Rightarrow> nat list \<Rightarrow> 'w \<Rightarrow> 'w" where
  "ran_tasks ex ns executed w = fold (\<lambda>i w. snd (ex (ns ! i) w)) executed w"

lemma ran_tasks_simps [simp]:
  "ran_tasks ex ns [] w = w"
  "ran_tasks ex ns (i # is) w = ran_tasks ex ns is (snd (ex (ns ! i) w))"
  by (simp_all add: ran_tasks_def)

lemma ran_tasks_set_status:
  "i \<notin> set is \<Longrightarrow> ran_tasks ex (set_status i st ns) is w = ran_tasks ex ns is w"
  by (induction "is" arbitrary: w) (simp_all add: set_status_def)

definition outcome_ok :: "nat list \<Rightarrow> nat list \<Rightarrow> task_def list \<Rightarrow> task_def list \<Rightarrow> unit result \<Rightarrow> bool" where
  "outcome_ok order executed ns ns' r \<longleftrightarrow>
     (\<forall>i \<in> - set executed. ns' ! i = ns ! i) \<and>
     (case r of
        Ok _ \<Rightarrow> executed = order \<and> (\<forall>i \<in> set executed. ns' ! i = (ns ! i)\<lparr>task_status := Completed\<rparr>)
      | Err m \<Rightarrow> executed \<noteq> [] \<and>
          (\<forall>i \<in> set (butlast executed). ns' ! i = (ns ! i)\<lparr>task_status := Completed\<rparr>) \<and>
          (\<exists>e. m = ''Task '' @ quote (task_name (ns ! last executed)) @ '' failed: '' @ e \<and>
            ns' ! last executed = (ns ! last executed)\<lparr>task_status := Failed e\<rparr>)
      | Panic \<Rightarrow> False)"

lemma run_tasks_outcome:
  assumes "run_tasks ex order ns w = (r, ns', w')" "distinct order" "set order \<subseteq> {..<length ns}"
  shows "\<exists>executed rest. order = executed @ rest \<and> w' = ran_tasks ex ns executed w \<and>
    length ns' = length ns \<and> outcome_ok order executed ns ns' r"
  using assms
proof (induction ex order ns w rule: run_tasks.induct)
  case (1 ex ns w)
  then show ?case by (auto simp: outcome_ok_def)
next
  case (2 ex i order ns w)
  obtain e w1 where ex: "ex (ns ! i) w = (e, w1)" by (cases "ex (ns ! i) w")
  have i: "i < length ns" "i \<notin> set order" using "2.prems"(2,3) by auto
  let ?ns = "set_status i Completed ns"
  have same: "?ns ! j = ns ! j" if "j \<noteq> i" for j using that by (simp add: set_status_def)
  show ?case
  proof (cases e)
    case None
    with "2.IH" [OF _ ex [symmetric] None] "2.prems" i ex obtain executed rest where
      e: "order = executed @ rest" "w' = ran_tasks ex ?ns executed w1" "length ns' = length ns"
      "outcome_ok order executed ?ns ns' r" by auto
    have ie: "i \<notin> set executed" using i(2) e(1) by simp
    have "outcome_ok (i # order) (i # executed) ns ns' r"
      unfolding outcome_ok_def
    proof (intro conjI)
      show "\<forall>j \<in> - set (i # executed). ns' ! j = ns ! j"
        using e(4) same by (simp add: outcome_ok_def)
      have n: "ns' ! i = (ns ! i)\<lparr>task_status := Completed\<rparr>"
        using e(4) ie i(1) by (simp add: outcome_ok_def) (simp add: set_status_def)
      have l: "executed \<noteq> [] \<Longrightarrow> last executed \<noteq> i" using ie by (metis last_in_set)
      have b: "\<And>j. j \<in> set (butlast executed) \<Longrightarrow> j \<noteq> i" "\<And>j. j \<in> set executed \<Longrightarrow> j \<noteq> i"
        using ie by (auto dest: in_set_butlastD)
      show "case r of
          Ok _ \<Rightarrow> i # executed = i # order \<and> (\<forall>j \<in> set (i # executed). ns' ! j = (ns ! j)\<lparr>task_status := Completed\<rparr>)
        | Err m \<Rightarrow> i # executed \<noteq> [] \<and>
            (\<forall>j \<in> set (butlast (i # executed)). ns' ! j = (ns ! j)\<lparr>task_status := Completed\<rparr>) \<and>
            (\<exists>e. m = ''Task '' @ quote (task_name (ns ! last (i # executed))) @ '' failed: '' @ e \<and>
              ns' ! last (i # executed) = (ns ! last (i # executed))\<lparr>task_status := Failed e\<rparr>)
        | Panic \<Rightarrow> False"
        using e(4) n l b same unfolding outcome_ok_def
        by (cases r) (auto simp del: append_Cons append_Nil)
    qed
    with e ie i ex show ?thesis
      by (intro exI [of _ "i # executed"] exI [of _ rest]) (simp add: ran_tasks_set_status)
  next
    case (Some m)
    with "2.prems" ex i have r: "r = Err (''Task '' @ quote (task_name (ns ! i)) @ '' failed: '' @ m)"
      "ns' = set_status i (Failed m) ns" "w' = w1" by simp_all
    have "outcome_ok (i # order) [i] ns ns' r"
      using i(1) unfolding outcome_ok_def r by (auto simp: set_status_def)
    with r ex i show ?thesis by (intro exI [of _ "[i]"] exI [of _ order]) simp
  qed
qed

text \<open>C12. Executing a task graph. A graph with a cycle runs nothing. Otherwise tasks run one after another,
  each at most once and after all it depends on, which are completed; on success all have run, and on
  the first failure the run stops there and every other task, in particular all that depends on the
  failed one, is left as it was.\<close>

theorem dag_execution_respects_dependencies:
  assumes "toposort_law toposort s" and "execute_dag toposort ex s w = (r, s', w')"
  shows "if \<not> acyclic (set (edges s)) then r = Err cycle_error \<and> s' = s \<and> w' = w
    else edges s' = edges s \<and> (\<exists>order executed. distinct executed \<and> set order = {..<length (nodes s)} \<and>
      w' = ran_tasks ex (nodes s) executed w \<and> outcome_ok order executed (nodes s) (nodes s') r \<and>
      (\<forall>(a, b) \<in> set (edges s). b \<in> set executed \<longrightarrow>
         before_in executed a b \<and> task_status (nodes s' ! a) = Completed))"
proof (cases "toposort (length (nodes s)) (edges s)")
  case None
  with assms show ?thesis by (simp add: toposort_law_def execute_dag_def)
next
  case (Some order)
  with assms(1) have o: "distinct order" "set order = {..<length (nodes s)}"
    "\<forall>(a, b) \<in> set (edges s). before_in order a b" by (simp_all add: toposort_law_def)
  obtain ns' where run: "run_tasks ex order (nodes s) w = (r, ns', w')" and s': "s' = s\<lparr>nodes := ns'\<rparr>"
    using assms(2) Some by (auto simp: execute_dag_def split: prod.splits)
  from run_tasks_outcome [OF run o(1)] o(2) obtain executed rest where
    e: "order = executed @ rest" "w' = ran_tasks ex (nodes s) executed w"
    "outcome_ok order executed (nodes s) ns' r" by auto
  have c: "before_in executed a b \<and> task_status (ns' ! a) = Completed"
    if "(a, b) \<in> set (edges s)" "b \<in> set executed" for a b
  proof -
    have "before_in (executed @ rest) a b" using o(3) that(1) e(1) by auto
    with before_in_prefix o(1) that(2) e(1) have f: "before_in executed a b" by blast
    then obtain xs ys where x: "executed = xs @ b # ys" "a \<in> set xs" by (auto simp: before_in_def)
    then have "a \<in> set (butlast executed)" by (auto simp: butlast_append)
    then have "ns' ! a = (nodes s ! a)\<lparr>task_status := Completed\<rparr>"
      using e(3) by (auto simp: outcome_ok_def dest: in_set_butlastD split: result.splits)
    with f show ?thesis by simp
  qed
  have "acyclic (set (edges s))" using before_in_acyclic o by blast
  then have a: "\<not> (\<not> acyclic (set (edges s)))" by simp
  have ns: "nodes s' = ns'" "edges s' = edges s" "distinct executed" using o(1) e(1) s' by simp_all
  have "\<forall>(a, b) \<in> set (edges s). b \<in> set executed \<longrightarrow>
      before_in executed a b \<and> task_status (nodes s' ! a) = Completed" using c ns(1) by auto
  with e(2,3) o(2) ns have "edges s' = edges s \<and> distinct executed \<and> set order = {..<length (nodes s)} \<and>
      w' = ran_tasks ex (nodes s) executed w \<and> outcome_ok order executed (nodes s) (nodes s') r \<and>
      (\<forall>(a, b) \<in> set (edges s). b \<in> set executed \<longrightarrow>
        before_in executed a b \<and> task_status (nodes s' ! a) = Completed)" by (intro conjI) simp_all
  then show ?thesis unfolding if_not_P [OF a] by blast
qed

definition demo_dag :: dag_scheduler where
  "demo_dag = fst (fold dag_step [Add_Task (new_task ''1'' ''load''), Add_Task (new_task ''2'' ''clean''),
     Add_Dependency ''1'' ''2''] (new_scheduler, ()))"

lemma demo_dag_parts: "nodes demo_dag = [new_task ''1'' ''load'', new_task ''2'' ''clean'']" "edges demo_dag = [(0, 1)]"
  by (simp_all add: demo_dag_def add_task_def add_dependency_def new_scheduler_def new_task_def)

lemma dag_execution_respects_dependencies_witness:
  "\<exists>s' executed. execute_dag (\<lambda>_ _. Some [0, 1]) (\<lambda>t w. (Some ''boom'', w @ [task_name t])) demo_dag [] =
     (Err ''Task 'load' failed: boom'', s', [''load'']) \<and>
     outcome_ok [0, 1] executed (nodes demo_dag) (nodes s') (Err ''Task 'load' failed: boom'')"
proof -
  let ?ex = "\<lambda>t w. (Some ''boom'', w @ [task_name t])"
  have "before_in [0, 1] 0 1" unfolding before_in_def by (rule exI [of _ "[0]"]) simp
  then have law: "toposort_law (\<lambda>_ _. Some [0, 1]) demo_dag"
    by (auto simp: toposort_law_def demo_dag_parts)
  obtain r s' w where x: "execute_dag (\<lambda>_ _. Some [0, 1]) ?ex demo_dag [] = (r, s', w)" by (metis prod_cases3)
  have "r = Err ''Task 'load' failed: boom''" "w = [''load'']"
    using x by (auto simp: execute_dag_def demo_dag_parts new_task_def quote_def)
  moreover have "acyclic (set (edges demo_dag))"
    by (simp add: demo_dag_parts acyclic_insert) (simp add: acyclic_def)
  ultimately show ?thesis
    using dag_execution_respects_dependencies [OF law x] x by (auto simp: outcome_ok_def)
qed

end
