(* ===== verification/Memory_Catalog.thy ===== *)
theory Memory_Catalog
  imports Prelude "HOL-Library.AList" "HOL-Library.Multiset"
begin

text \<open>
  The in-memory catalog: \<open>crates/rustlake-catalog/src/memory.rs\<close>, and the contract of the trait
  \<open>TableCatalog\<close> (\<open>lib.rs\<close>) as a locale. A table provider is a value of any type. The two levels of
  hash maps are association lists in some iteration order; what lists their keys gets the order of
  the answer as an argument. An operation holds the lock of the map for its whole body.
\<close>

section \<open>The catalog\<close>

type_synonym 'p namespace_map = "(string \<times> (string \<times> 'p) list) list"

definition new_memory_catalog :: "'p namespace_map" where
  "new_memory_catalog = []"

definition mem_list_tables ::
  "(string list \<Rightarrow> string list) \<Rightarrow> string \<Rightarrow> 'p namespace_map \<Rightarrow> string list result" where
  "mem_list_tables order namespace ts =
     Ok (case map_of ts namespace of Some ns \<Rightarrow> order (map fst ns) | None \<Rightarrow> [])"

definition mem_get_table :: "string \<Rightarrow> string \<Rightarrow> 'p namespace_map \<Rightarrow> 'p result" where
  "mem_get_table namespace name ts =
     ok_or (''Table '' @ quote (namespace @ ''.'' @ name) @ '' not found'')
       (Option.bind (map_of ts namespace) (\<lambda>ns. map_of ns name))"

definition mem_register_table ::
  "string \<Rightarrow> string \<Rightarrow> 'p \<Rightarrow> 'p namespace_map \<Rightarrow> unit result \<times> 'p namespace_map" where
  "mem_register_table namespace name provider ts =
     (Ok (), AList.update namespace
        (AList.update name provider (unwrap_or [] (map_of ts namespace))) ts)"

definition mem_drop_table ::
  "string \<Rightarrow> string \<Rightarrow> 'p namespace_map \<Rightarrow> unit result \<times> 'p namespace_map" where
  "mem_drop_table namespace name ts =
     (Ok (), case map_of ts namespace of
        Some ns \<Rightarrow> AList.update namespace (AList.delete name ns) ts
      | None \<Rightarrow> ts)"

definition mem_list_namespaces ::
  "(string list \<Rightarrow> string list) \<Rightarrow> 'p namespace_map \<Rightarrow> string list result" where
  "mem_list_namespaces order ts = Ok (order (map fst ts))"

section \<open>The contract of a table catalog\<close>

datatype 'p catalog_op = Register_Table string string 'p | Drop_Table string string

text \<open>The abstract catalog: which provider a qualified name has.\<close>

fun abs_step :: "'p catalog_op \<Rightarrow> (string \<times> string \<rightharpoonup> 'p) \<Rightarrow> (string \<times> string \<rightharpoonup> 'p)" where
  "abs_step (Register_Table ns n p) m = m((ns, n) \<mapsto> p)"
| "abs_step (Drop_Table ns n) m = m((ns, n) := None)"

locale table_catalog =
  fixes get :: "string \<Rightarrow> string \<Rightarrow> 's \<Rightarrow> 'p result"
    and register :: "string \<Rightarrow> string \<Rightarrow> 'p \<Rightarrow> 's \<Rightarrow> unit result \<times> 's"
    and drop_it :: "string \<Rightarrow> string \<Rightarrow> 's \<Rightarrow> unit result \<times> 's"
    and listed :: "string \<Rightarrow> 's \<Rightarrow> string list result"
    and init :: 's
    and inv :: "'s \<Rightarrow> bool"
  assumes inv_init: "inv init"
    and inv_register: "inv s \<Longrightarrow> inv (snd (register ns n p s))"
    and inv_drop: "inv s \<Longrightarrow> inv (snd (drop_it ns n s))"
    and get_init: "get ns n init = Err (''Table '' @ quote (ns @ ''.'' @ n) @ '' not found'')"
    and get_register: "get ns' n' (snd (register ns n p s)) = (if ns' = ns \<and> n' = n then Ok p else get ns' n' s)"
    and get_drop: "get ns' n' (snd (drop_it ns n s)) =
      (if ns' = ns \<and> n' = n then Err (''Table '' @ quote (ns @ ''.'' @ n) @ '' not found'') else get ns' n' s)"
    and listed_get: "inv s \<Longrightarrow> \<exists>xs. listed ns s = Ok xs \<and> distinct xs \<and> set xs = {n. is_ok (get ns n s)}"
begin

fun step :: "'p catalog_op \<Rightarrow> 's \<Rightarrow> 's" where
  "step (Register_Table ns n p) s = snd (register ns n p s)"
| "step (Drop_Table ns n) s = snd (drop_it ns n s)"

lemma inv_step: "inv s \<Longrightarrow> inv (step op s)"
  by (cases op) (simp_all add: inv_register inv_drop)

text \<open>The catalog implements the abstract one, run by run.\<close>

lemma get_run:
  "get ns n (fold step ops init) =
   ok_or (''Table '' @ quote (ns @ ''.'' @ n) @ '' not found'') (fold abs_step ops Map.empty (ns, n))"
proof (induction ops rule: rev_induct)
  case (snoc op ops)
  then show ?case by (cases op) (auto simp: get_register get_drop)
qed (simp add: get_init)

lemma inv_run: "inv (fold step ops init)"
  by (induction ops rule: rev_induct) (simp_all add: inv_init inv_step)

lemma listed_run:
  "\<exists>xs. listed ns (fold step ops init) = Ok xs \<and> distinct xs \<and>
     set xs = {n. (ns, n) \<in> dom (fold abs_step ops Map.empty)}"
proof -
  have "is_ok (ok_or e x) \<longleftrightarrow> x \<noteq> None" for e and x :: "'p option" by (cases x) simp_all
  with listed_get [OF inv_run, of ns ops] show ?thesis by (simp add: get_run domIff)
qed

end

section \<open>The in-memory catalog keeps the contract\<close>

definition mem_ok :: "'p namespace_map \<Rightarrow> bool" where
  "mem_ok ts \<longleftrightarrow> distinct (map fst ts) \<and> (\<forall>(_, ns) \<in> set ts. distinct (map fst ns))"

fun mem_step :: "'p catalog_op \<Rightarrow> 'p namespace_map \<Rightarrow> 'p namespace_map" where
  "mem_step (Register_Table ns n p) s = snd (mem_register_table ns n p s)"
| "mem_step (Drop_Table ns n) s = snd (mem_drop_table ns n s)"

lemma mem_ok_update:
  assumes "mem_ok ts" "distinct (map fst ns)"
  shows "mem_ok (AList.update k ns ts)"
proof -
  have "set (AList.update k ns ts) \<subseteq> insert (k, ns) (set ts)"
    by (induction ts) (auto split: if_splits)
  with assms show ?thesis by (auto simp: mem_ok_def distinct_update)
qed

lemma mem_ok_inner: "mem_ok ts \<Longrightarrow> map_of ts k = Some ns \<Longrightarrow> distinct (map fst ns)"
  by (auto simp: mem_ok_def dest: map_of_SomeD)

lemma mem_ok_register: "mem_ok ts \<Longrightarrow> mem_ok (snd (mem_register_table ns n p ts))"
  by (cases "map_of ts ns") (simp_all add: mem_register_table_def mem_ok_update mem_ok_inner distinct_update)

lemma mem_ok_drop: "mem_ok ts \<Longrightarrow> mem_ok (snd (mem_drop_table ns n ts))"
  by (cases "map_of ts ns") (simp_all add: mem_drop_table_def mem_ok_update mem_ok_inner distinct_delete)

lemma mem_get_register:
  "mem_get_table ns' n' (snd (mem_register_table ns n p ts)) =
   (if ns' = ns \<and> n' = n then Ok p else mem_get_table ns' n' ts)"
  by (cases "map_of ts ns") (auto simp: mem_get_table_def mem_register_table_def update_conv)

lemma mem_get_drop:
  "mem_get_table ns' n' (snd (mem_drop_table ns n ts)) =
   (if ns' = ns \<and> n' = n then Err (''Table '' @ quote (ns @ ''.'' @ n) @ '' not found'')
    else mem_get_table ns' n' ts)"
  by (cases "map_of ts ns") (auto simp: mem_get_table_def mem_drop_table_def update_conv delete_conv)

interpretation mem: table_catalog mem_get_table mem_register_table mem_drop_table
  "mem_list_tables (\<lambda>xs. xs)" new_memory_catalog mem_ok
proof (unfold_locales, goal_cases)
  case 1
  then show ?case by (simp add: mem_ok_def new_memory_catalog_def)
next
  case (7 s ns)
  show ?case
  proof (cases "map_of s ns")
    case None
    then show ?thesis by (simp add: mem_list_tables_def mem_get_table_def)
  next
    case (Some t)
    have "is_ok (ok_or e (map_of t n)) \<longleftrightarrow> map_of t n \<noteq> None" for e n
      by (cases "map_of t n") simp_all
    then have "is_ok (ok_or e (map_of t n)) \<longleftrightarrow> n \<in> fst ` set t" for e n
      by (simp only: map_of_eq_None_iff not_not)
    with Some mem_ok_inner [OF 7 Some] show ?thesis
      by (auto simp: mem_list_tables_def mem_get_table_def)
  qed
qed (simp_all add: mem_ok_register mem_ok_drop mem_get_register mem_get_drop,
    simp add: new_memory_catalog_def mem_get_table_def)

lemma mem_step_eq: "mem.step = mem_step"
proof (rule ext, rule ext)
  show "mem.step op s = mem_step op s" for op :: "'p catalog_op" and s by (cases op) simp_all
qed

lemma mem_namespaces:
  fixes ops :: "'p catalog_op list"
  shows "fst ` set (fold mem_step ops new_memory_catalog) = {ns. \<exists>n p. Register_Table ns n p \<in> set ops}"
proof (induction ops rule: rev_induct)
  case (snoc op ops)
  have k: "fst ` set (AList.update k v al) = insert k (fst ` set al)" for k v and al :: "'p namespace_map"
    by (induction al) auto
  have "fst ` set (snd (mem_drop_table ns n ts)) = fst ` set ts" for ns n and ts :: "'p namespace_map"
    by (auto simp: mem_drop_table_def k dest: map_of_SomeD split: option.split)
      (metis fst_conv image_eqI map_of_SomeD)
  with snoc show ?case by (cases op) (auto simp: mem_register_table_def k)
qed (simp add: new_memory_catalog_def)

text \<open>After any run of registrations and drops the catalog answers for each name the provider that was
  registered last, unless it was dropped since; it lists each such table once, in some order, and
  lists a namespace once as soon as a table was registered in it, also when all were dropped.\<close>

theorem memory_catalog_reads_last_write:
  fixes ops :: "'p catalog_op list"
  assumes "\<And>ys. mset (order ys) = mset ys"
  defines "ts \<equiv> fold mem_step ops new_memory_catalog" and "m \<equiv> fold abs_step ops Map.empty"
  shows "mem_get_table ns n ts = ok_or (''Table '' @ quote (ns @ ''.'' @ n) @ '' not found'') (m (ns, n)) \<and>
    (\<exists>xs. mem_list_tables order ns ts = Ok xs \<and> distinct xs \<and> set xs = {n. (ns, n) \<in> dom m}) \<and>
    (\<exists>xs. mem_list_namespaces order ts = Ok xs \<and> distinct xs \<and>
       set xs = {ns. \<exists>n p. Register_Table ns n p \<in> set ops})"
proof -
  have o: "distinct (order ys) = distinct ys" "set (order ys) = set ys" "order [] = []" for ys
    using assms(1) [of ys] assms(1) [of "[]"] by (auto dest: mset_eq_imp_distinct_iff mset_eq_setD)
  have "mem_ok ts" using mem.inv_run [of ops] by (simp add: ts_def mem_step_eq)
  moreover obtain xs where "mem_list_tables (\<lambda>xs. xs) ns ts = Ok xs" "distinct xs" "set xs = {n. (ns, n) \<in> dom m}"
    using mem.listed_run [of ns ops] by (auto simp: ts_def m_def mem_step_eq)
  then have "mem_list_tables order ns ts = Ok (order xs) \<and> distinct (order xs) \<and> set (order xs) = {n. (ns, n) \<in> dom m}"
    by (auto simp: mem_list_tables_def o split: option.splits)
  ultimately show ?thesis
    using mem.get_run [of ns n ops] mem_namespaces [of ops]
    by (simp add: ts_def m_def mem_step_eq mem_list_namespaces_def o mem_ok_def)
qed

lemma memory_catalog_reads_last_write_witness:
  "mem_get_table ''a'' ''t'' (fold mem_step [Register_Table ''a'' ''t'' (1::nat), Register_Table ''a'' ''u'' 2,
      Register_Table ''a'' ''t'' 3, Drop_Table ''a'' ''u''] new_memory_catalog) = Ok 3"
  using memory_catalog_reads_last_write [of rev "''a''" "''t''" "[Register_Table ''a'' ''t'' (1::nat),
      Register_Table ''a'' ''u'' 2, Register_Table ''a'' ''t'' 3, Drop_Table ''a'' ''u'']"] by simp

end
