(* ===== verification/Credential_Store.thy ===== *)
theory Credential_Store
  imports Json
begin

text \<open>
  The encrypted credential store: \<open>crates/rustlake-api/src/credential_store.rs\<close>. The file is a
  sequence of records \<open>[length][nonce][ciphertext]\<close>, each one sealed on its own; every change reads
  all records, edits the list and rewrites the file through a temporary one. AES-GCM, the text form
  of JSON and the nonces from the operating system are arguments; what is relied on of them is
  \<open>cipher_ok\<close>. The outcome of the two file operations is an argument as well.
\<close>

section \<open>Records\<close>

type_synonym bytes = "u8 list"

definition NONCE_SIZE :: nat where "NONCE_SIZE = 12"

record credential_entry =
  cred_id :: string
  cred_type :: string
  cred_data :: json

record cipher_env =
  seal :: "bytes \<Rightarrow> bytes \<Rightarrow> bytes result"
  unseal :: "bytes \<Rightarrow> bytes \<Rightarrow> bytes option"
  to_vec :: "json \<Rightarrow> bytes"
  from_slice :: "bytes \<Rightarrow> json result"

text \<open>The key: the hash of the configured secret, else of the host and user name.\<close>

definition store_key :: "(bytes \<Rightarrow> bytes) \<Rightarrow> string option \<Rightarrow> string \<Rightarrow> string \<Rightarrow> bytes" where
  "store_key sha256 secret host username =
     (case secret of
        Some s \<Rightarrow> if s \<noteq> [] then sha256 (as_bytes s)
                  else sha256 (as_bytes (''rustlake:'' @ host @ '':'' @ username))
      | None \<Rightarrow> sha256 (as_bytes (''rustlake:'' @ host @ '':'' @ username)))"

definition entry_json :: "credential_entry \<Rightarrow> json" where
  "entry_json e = jobj [(''id'', JStr (cred_id e)), (''type'', JStr (cred_type e)), (''data'', cred_data e)]"

definition entry_of_json :: "json \<Rightarrow> credential_entry option" where
  "entry_of_json j =
     (case (get_str ''id'' j, get_str ''type'' j, jget ''data'' j) of
        (Some i, Some t, Some d) \<Rightarrow> Some \<lparr>cred_id = i, cred_type = t, cred_data = d\<rparr>
      | _ \<Rightarrow> None)"

definition u32_to_le_bytes :: "u32 \<Rightarrow> bytes" where
  "u32_to_le_bytes w =
     [of_nat (unat w), of_nat (unat w div 2 ^ 8), of_nat (unat w div 2 ^ 16), of_nat (unat w div 2 ^ 24)]"

definition u32_from_le_bytes :: "bytes \<Rightarrow> u32" where
  "u32_from_le_bytes bs =
     of_nat (unat (bs ! 0) + 2 ^ 8 * unat (bs ! 1) + 2 ^ 16 * unat (bs ! 2) + 2 ^ 24 * unat (bs ! 3))"

text \<open>The length is cast to 32 bits, which drops what does not fit.\<close>

definition encrypt_entry :: "cipher_env \<Rightarrow> bytes \<Rightarrow> credential_entry \<Rightarrow> bytes result" where
  "encrypt_entry env nonce e =
     bind_result (seal env nonce (to_vec env (entry_json e)))
       (\<lambda>ciphertext.
          Ok (u32_to_le_bytes (of_nat (NONCE_SIZE + length ciphertext)) @ nonce @ ciphertext))"

definition decrypt_entry :: "cipher_env \<Rightarrow> bytes \<Rightarrow> (credential_entry \<times> nat) result" where
  "decrypt_entry env data =
     (if length data < 4 then Err ''Too short for length prefix''
      else let payload_len = unat (u32_from_le_bytes (take 4 data))
           in if length data < 4 + payload_len \<or> payload_len < NONCE_SIZE
              then Err ''Invalid payload length''
              else let nonce = take NONCE_SIZE (drop 4 data);
                       ciphertext = take (payload_len - NONCE_SIZE) (drop (4 + NONCE_SIZE) data)
                   in case unseal env nonce ciphertext of
                        None \<Rightarrow>
                          Err (''Decryption failed '' @ em_dash @
                            '' wrong key or corrupted data'')
                      | Some plaintext \<Rightarrow>
                          (case from_slice env plaintext of
                             Ok j \<Rightarrow>
                               (case entry_of_json j of
                                  Some e \<Rightarrow> Ok (e, 4 + payload_len)
                                | None \<Rightarrow> Err ''Invalid credential JSON: missing or mistyped field'')
                           | Err m \<Rightarrow> Err (''Invalid credential JSON: '' @ m)
                           | Panic \<Rightarrow> Panic))"

lemma decrypt_entry_consumes:
  "decrypt_entry env data = Ok (e, n) \<Longrightarrow> 4 \<le> n \<and> n \<le> length data"
  by (auto simp: decrypt_entry_def Let_def split: if_splits option.splits result.splits)

section \<open>The file\<close>

record credential_files =
  enc_file :: "bytes option"
  tmp_file :: "bytes option"

record file_outcome =
  write_error :: "string option"
  torn_tmp :: "bytes option"
  rename_error :: "string option"

text \<open>The loop of \<open>load_all\<close> over \<open>data[offset..]\<close>; the first record that does not open ends it.\<close>

function load_records :: "cipher_env \<Rightarrow> bytes \<Rightarrow> credential_entry list" where
  "load_records env data =
     (if data = [] then []
      else case decrypt_entry env data of
             Ok (e, consumed) \<Rightarrow> e # load_records env (drop consumed data)
           | _ \<Rightarrow> [])"
  by pat_completeness auto
termination
  by (relation "measure (\<lambda>(env, data). length data)") (auto dest!: decrypt_entry_consumes)

declare load_records.simps [simp del]

definition load_all :: "cipher_env \<Rightarrow> credential_files \<Rightarrow> credential_entry list" where
  "load_all env fs = (case enc_file fs of None \<Rightarrow> [] | Some data \<Rightarrow> load_records env data)"

fun encrypt_all :: "cipher_env \<Rightarrow> (nat \<Rightarrow> bytes) \<Rightarrow> nat \<Rightarrow> credential_entry list \<Rightarrow> bytes result" where
  "encrypt_all env nonces i [] = Ok []"
| "encrypt_all env nonces i (e # es) =
     bind_result (encrypt_entry env (nonces i) e)
       (\<lambda>b. bind_result (encrypt_all env nonces (Suc i) es) (\<lambda>bs. Ok (b @ bs)))"

definition save_all ::
  "cipher_env \<Rightarrow> (nat \<Rightarrow> bytes) \<Rightarrow> file_outcome \<Rightarrow> credential_entry list \<Rightarrow> credential_files \<Rightarrow>
   unit result \<times> credential_files" where
  "save_all env nonces io es fs =
     (case encrypt_all env nonces 0 es of
        Ok buf \<Rightarrow>
          (case write_error io of
             Some e \<Rightarrow> (Err e, fs\<lparr>tmp_file := torn_tmp io\<rparr>)
           | None \<Rightarrow>
               (case rename_error io of
                  Some e \<Rightarrow> (Err e, fs\<lparr>tmp_file := Some buf\<rparr>)
                | None \<Rightarrow> (Ok (), \<lparr>enc_file = Some buf, tmp_file = None\<rparr>)))
      | Err e \<Rightarrow> (Err e, fs)
      | Panic \<Rightarrow> (Panic, fs))"

section \<open>The public operations\<close>

definition is_entry :: "string \<Rightarrow> string \<Rightarrow> credential_entry \<Rightarrow> bool" where
  "is_entry cid kind e \<longleftrightarrow> cred_id e = cid \<and> cred_type e = kind"

definition password_entry :: "string \<Rightarrow> string \<Rightarrow> credential_entry" where
  "password_entry conn_id password =
     \<lparr>cred_id = conn_id, cred_type = ''password'', cred_data = jobj [(''password'', JStr password)]\<rparr>"

definition store_password ::
  "cipher_env \<Rightarrow> (nat \<Rightarrow> bytes) \<Rightarrow> file_outcome \<Rightarrow> string \<Rightarrow> string \<Rightarrow> credential_files \<Rightarrow>
   unit result \<times> credential_files" where
  "store_password env nonces io conn_id password fs =
     save_all env nonces io
       (filter (\<lambda>e. \<not> is_entry conn_id ''password'' e) (load_all env fs) @ [password_entry conn_id password]) fs"

definition remove_password ::
  "cipher_env \<Rightarrow> (nat \<Rightarrow> bytes) \<Rightarrow> file_outcome \<Rightarrow> string \<Rightarrow> credential_files \<Rightarrow>
   unit result \<times> credential_files" where
  "remove_password env nonces io conn_id fs =
     save_all env nonces io (filter (\<lambda>e. \<not> is_entry conn_id ''password'' e) (load_all env fs)) fs"

definition load_password :: "cipher_env \<Rightarrow> string \<Rightarrow> credential_files \<Rightarrow> string option" where
  "load_password env conn_id fs =
     Option.bind (find (is_entry conn_id ''password'') (load_all env fs))
       (\<lambda>e. get_str ''password'' (cred_data e))"

text \<open>Collecting into a hash map: a later entry replaces an earlier one.\<close>

definition load_all_passwords :: "cipher_env \<Rightarrow> credential_files \<Rightarrow> (string, string) fmap" where
  "load_all_passwords env fs =
     fold (\<lambda>e m. case get_str ''password'' (cred_data e) of Some p \<Rightarrow> fmupd (cred_id e) p m | None \<Rightarrow> m)
       (filter (\<lambda>e. cred_type e = ''password'') (load_all env fs)) fmempty"

record s3_bucket_creds =
  account_id :: string
  access_key :: string
  secret_key :: string
  session_token :: "string option"
  s3_region :: string

definition s3_creds_json :: "s3_bucket_creds \<Rightarrow> json" where
  "s3_creds_json c =
     jobj [(''account_id'', JStr (account_id c)), (''access_key'', JStr (access_key c)),
       (''secret_key'', JStr (secret_key c)),
       (''session_token'', case session_token c of None \<Rightarrow> JNull | Some t \<Rightarrow> JStr t),
       (''region'', JStr (s3_region c))]"

text \<open>\<open>serde_json::from_value\<close>: the token may be missing or null, every other field must be text.\<close>

definition s3_creds_of_json :: "json \<Rightarrow> s3_bucket_creds option" where
  "s3_creds_of_json j =
     (case (get_str ''account_id'' j, get_str ''access_key'' j, get_str ''secret_key'' j, get_str ''region'' j) of
        (Some a, Some k, Some s, Some r) \<Rightarrow>
          (case jget ''session_token'' j of
             None \<Rightarrow> Some \<lparr>account_id = a, access_key = k, secret_key = s, session_token = None, s3_region = r\<rparr>
           | Some JNull \<Rightarrow>
               Some \<lparr>account_id = a, access_key = k, secret_key = s, session_token = None, s3_region = r\<rparr>
           | Some (JStr t) \<Rightarrow>
               Some \<lparr>account_id = a, access_key = k, secret_key = s, session_token = Some t, s3_region = r\<rparr>
           | _ \<Rightarrow> None)
      | _ \<Rightarrow> None)"

definition store_s3_creds ::
  "cipher_env \<Rightarrow> (nat \<Rightarrow> bytes) \<Rightarrow> file_outcome \<Rightarrow> string \<Rightarrow> s3_bucket_creds \<Rightarrow> credential_files \<Rightarrow>
   unit result \<times> credential_files" where
  "store_s3_creds env nonces io bucket creds fs =
     save_all env nonces io
       (filter (\<lambda>e. \<not> is_entry bucket ''s3'' e) (load_all env fs) @
        [\<lparr>cred_id = bucket, cred_type = ''s3'', cred_data = s3_creds_json creds\<rparr>]) fs"

definition load_all_s3_creds :: "cipher_env \<Rightarrow> credential_files \<Rightarrow> (string, s3_bucket_creds) fmap" where
  "load_all_s3_creds env fs =
     fold (\<lambda>e m. case s3_creds_of_json (cred_data e) of Some c \<Rightarrow> fmupd (cred_id e) c m | None \<Rightarrow> m)
       (filter (\<lambda>e. cred_type e = ''s3'') (load_all env fs)) fmempty"

section \<open>Sequences of records\<close>

text \<open>
  What makes a file of records readable: a written record followed by anything is read back with
  the length it has. The parser may demand more of an item before it does so.
\<close>

locale record_sequence =
  fixes encodes :: "'a \<Rightarrow> 'b list \<Rightarrow> bool"
    and parse :: "'b list \<Rightarrow> ('a \<times> nat) option"
    and load_seq :: "'b list \<Rightarrow> 'a list"
  assumes parse_encodes: "encodes x b \<Longrightarrow> parse (b @ rest) = Some (x, length b)"
    and load_seq_step: "data \<noteq> [] \<Longrightarrow>
      load_seq data = (case parse data of Some (x, n) \<Rightarrow> x # load_seq (drop n data) | None \<Rightarrow> [])"
    and load_seq_Nil: "load_seq [] = []"
    and parse_pos: "parse data = Some (x, n) \<Longrightarrow> 0 < n"
begin

lemma load_written:
  assumes "list_all2 encodes xs bs"
  shows "load_seq (concat bs @ rest) = xs @ load_seq rest"
  using assms
proof (induction xs bs rule: list_all2_induct)
  case (Cons x xs b bs)
  have r: "parse (b @ concat bs @ rest) = Some (x, length b)" using Cons.hyps(1) by (rule parse_encodes)
  with parse_pos have "b \<noteq> []" by fastforce
  with r Cons.IH show ?case by (simp add: load_seq_step)
qed simp

lemma load_stops: "parse bad = None \<Longrightarrow> load_seq bad = []"
  by (cases "bad = []") (simp_all add: load_seq_step load_seq_Nil)

end

section \<open>The store is such a sequence\<close>

text \<open>What AES-GCM and \<open>serde_json\<close> promise, and that a record fits its 32-bit length.\<close>

definition cipher_ok :: "cipher_env \<Rightarrow> bool" where
  "cipher_ok env \<longleftrightarrow>
     (\<forall>n p c. length n = NONCE_SIZE \<and> seal env n p = Ok c \<longrightarrow> unseal env n c = Some p)"

definition fits_record :: "cipher_env \<Rightarrow> credential_entry \<Rightarrow> bool" where
  "fits_record env e \<longleftrightarrow>
     from_slice env (to_vec env (entry_json e)) = Ok (entry_json e) \<and>
     (\<forall>n c. seal env n (to_vec env (entry_json e)) = Ok c \<longrightarrow> NONCE_SIZE + length c < 2 ^ 32)"

definition written_record :: "cipher_env \<Rightarrow> credential_entry \<Rightarrow> bytes \<Rightarrow> bool" where
  "written_record env e b \<longleftrightarrow>
     cipher_ok env \<and> fits_record env e \<and>
     (\<exists>nonce. length nonce = NONCE_SIZE \<and> encrypt_entry env nonce e = Ok b)"

definition read_record :: "cipher_env \<Rightarrow> bytes \<Rightarrow> (credential_entry \<times> nat) option" where
  "read_record env data = (case decrypt_entry env data of Ok r \<Rightarrow> Some r | _ \<Rightarrow> None)"

lemma length_u32_to_le_bytes [simp]: "length (u32_to_le_bytes w) = 4"
  by (simp add: u32_to_le_bytes_def)

lemma u32_le_bytes: "u32_from_le_bytes (u32_to_le_bytes w @ r) = w"
proof -
  let ?n = "unat w"
  define a where "a = ?n div 256"
  define b where "b = a div 256"
  define c where "c = b div 256"
  have "?n < 2 ^ 32" using unsigned_less [where 'a = nat and w = w] by simp
  then have "c < 256" unfolding c_def b_def a_def by (simp flip: div_mult2_eq add: less_mult_imp_div_less)
  moreover have "?n div 65536 = b" "?n div 16777216 = c" unfolding a_def b_def c_def
    by (simp_all flip: div_mult2_eq)
  moreover have "?n mod 256 + 256 * a = ?n" "a mod 256 + 256 * b = a" "b mod 256 + 256 * c = b"
    by (simp_all add: a_def b_def c_def)
  then have "?n mod 256 + 256 * (a mod 256) + 65536 * (b mod 256) + 16777216 * c = ?n" by linarith
  ultimately have total: "?n mod 256 + 256 * (?n div 256 mod 256) + 65536 * (?n div 65536 mod 256) +
      16777216 * (?n div 16777216 mod 256) = ?n" by (simp flip: a_def)
  have nths: "(u32_to_le_bytes w @ r) ! 0 = of_nat ?n" "(u32_to_le_bytes w @ r) ! 1 = of_nat (?n div 256)"
    "(u32_to_le_bytes w @ r) ! 2 = of_nat (?n div 65536)" "(u32_to_le_bytes w @ r) ! 3 = of_nat (?n div 16777216)"
    by (simp_all add: u32_to_le_bytes_def)
  have u: "unat (of_nat k :: u8) = k mod 256" for k by (simp add: unat_of_nat)
  have p: "(2::nat) ^ 8 = 256" "(2::nat) ^ 16 = 65536" "(2::nat) ^ 24 = 16777216" by simp_all
  show ?thesis unfolding u32_from_le_bytes_def nths u p total by simp
qed

lemma entry_of_json_entry [simp]: "entry_of_json (entry_json e) = Some e"
  by (simp add: entry_of_json_def entry_json_def get_str_def)

lemma decrypt_written:
  assumes "written_record env e b"
  shows "decrypt_entry env (b @ rest) = Ok (e, length b)"
proof -
  from assms obtain nonce where ok: "cipher_ok env" and f: "fits_record env e"
    and n: "length nonce = NONCE_SIZE" and b: "encrypt_entry env nonce e = Ok b"
    by (auto simp: written_record_def)
  from b obtain c where s: "seal env nonce (to_vec env (entry_json e)) = Ok c"
    and c: "b = u32_to_le_bytes (of_nat (NONCE_SIZE + length c)) @ nonce @ c"
    by (auto simp: encrypt_entry_def)
  have u: "unseal env nonce c = Some (to_vec env (entry_json e))" "from_slice env (to_vec env (entry_json e)) = Ok (entry_json e)"
    using ok n s f by (auto simp: cipher_ok_def fits_record_def)
  have "NONCE_SIZE + length c < 2 ^ 32" using f s by (auto simp: fits_record_def)
  then have l: "unat (of_nat (NONCE_SIZE + length c) :: u32) = NONCE_SIZE + length c"
    by (simp only: unat_of_nat) simp
  have "take 4 (b @ rest) = u32_to_le_bytes (of_nat (NONCE_SIZE + length c)) @ []" by (simp add: c)
  then have "unat (u32_from_le_bytes (take 4 (b @ rest))) = NONCE_SIZE + length c"
    by (simp only: u32_le_bytes l)
  moreover have "drop 4 (b @ rest) = nonce @ c @ rest" by (simp add: c)
  moreover have "drop (4 + NONCE_SIZE) (b @ rest) = c @ rest" using n by (simp add: c)
  moreover have "length (b @ rest) = 4 + (NONCE_SIZE + length c) + length rest" "length b = 4 + (NONCE_SIZE + length c)"
    using n by (simp_all add: c)
  ultimately show ?thesis using n u unfolding decrypt_entry_def Let_def by simp
qed

interpretation credentials: record_sequence "written_record env" "read_record env" "load_records env"
proof (unfold_locales, goal_cases)
  case (1 x b rest)
  then show ?case by (simp add: read_record_def decrypt_written)
next
  case (2 data)
  then show ?case
    by (subst load_records.simps) (auto simp: read_record_def split: result.split)
next
  case 3
  show ?case by (subst load_records.simps) simp
next
  case (4 data x n)
  then show ?case by (auto simp: read_record_def dest: decrypt_entry_consumes split: result.splits)
qed

lemma encrypt_all_written:
  assumes "encrypt_all env nonces i es = Ok buf" "cipher_ok env" "\<And>i. length (nonces i) = NONCE_SIZE"
    and "\<And>e. e \<in> set es \<Longrightarrow> fits_record env e"
  shows "\<exists>bs. list_all2 (written_record env) es bs \<and> buf = concat bs"
  using assms
proof (induction es arbitrary: i buf)
  case (Cons e es)
  then obtain b rest where "encrypt_entry env (nonces i) e = Ok b" "encrypt_all env nonces (Suc i) es = Ok rest"
    "buf = b @ rest" by auto
  moreover from this Cons.IH [of "Suc i" rest] Cons.prems obtain bs where
    "list_all2 (written_record env) es bs" "rest = concat bs" by auto
  moreover have "written_record env e b"
    using Cons.prems(2-4) calculation(1) by (auto simp: written_record_def)
  ultimately show ?case by (intro exI [of _ "b # bs"]) simp
qed simp

lemma save_all_loads:
  assumes "save_all env nonces io es fs = (Ok u, fs')" "cipher_ok env" "\<And>i. length (nonces i) = NONCE_SIZE"
    and "\<And>e. e \<in> set es \<Longrightarrow> fits_record env e"
  shows "load_all env fs' = es"
proof -
  from assms(1) obtain buf where b: "encrypt_all env nonces 0 es = Ok buf" "enc_file fs' = Some buf"
    by (auto simp: save_all_def split: result.splits option.splits)
  from encrypt_all_written [OF b(1) assms(2-4)] obtain bs where
    "list_all2 (written_record env) es bs" "buf = concat bs" by blast
  with credentials.load_written [of env es bs "[]"] b(2) show ?thesis
    by (simp add: load_all_def credentials.load_seq_Nil)
qed

lemma save_all_error: "save_all env nonces io es fs = (r, fs') \<Longrightarrow> r \<noteq> Ok () \<Longrightarrow> enc_file fs' = enc_file fs"
  by (auto simp: save_all_def split: result.splits option.splits)

section \<open>What storing a password does\<close>

lemma find_filter_other:
  "d \<noteq> c \<Longrightarrow> find (is_entry d k) (filter (\<lambda>e. \<not> is_entry c k e) es @ [x]) =
     (case find (is_entry d k) es of None \<Rightarrow> if is_entry d k x then Some x else None | Some e \<Rightarrow> Some e)"
  by (induction es) (auto simp: is_entry_def)

lemma find_filter_same:
  "is_entry c k x \<Longrightarrow> find (is_entry c k) (filter (\<lambda>e. \<not> is_entry c k e) es @ [x]) = Some x"
  by (induction es) auto

text \<open>Storing a password. If it succeeds, the file holds the records it held before, without an
  earlier password of the connection, and the new one; so this password reads back and those of other
  connections are what they were. If it fails, the file is as before.\<close>

theorem stored_password_reads_back:
  assumes "cipher_ok env" and "\<And>i. length (nonces i) = NONCE_SIZE"
    and "\<And>e. e \<in> set (load_all env fs) \<union> {password_entry conn pw} \<Longrightarrow> fits_record env e"
    and "store_password env nonces io conn pw fs = (r, fs')"
  shows "if r = Ok ()
    then load_all env fs' =
        filter (\<lambda>e. \<not> is_entry conn ''password'' e) (load_all env fs) @ [password_entry conn pw] \<and>
      load_password env conn fs' = Some pw \<and>
      (\<forall>other. other \<noteq> conn \<longrightarrow> load_password env other fs' = load_password env other fs)
    else enc_file fs' = enc_file fs"
proof (cases "r = Ok ()")
  case True
  with assms(4) have l: "load_all env fs' =
      filter (\<lambda>e. \<not> is_entry conn ''password'' e) (load_all env fs) @ [password_entry conn pw]"
    unfolding store_password_def by (intro save_all_loads [OF _ assms(1,2)]) (auto intro: assms(3))
  have "is_entry conn ''password'' (password_entry conn pw)"
    and "other \<noteq> conn \<Longrightarrow> \<not> is_entry other ''password'' (password_entry conn pw)" for other
    by (simp_all add: is_entry_def password_entry_def)
  with True l show ?thesis
    by (auto simp: load_password_def find_filter_same find_filter_other split: option.split)
      (simp add: password_entry_def get_str_def)
next
  case False
  with assms(4) show ?thesis by (auto simp: store_password_def dest: save_all_error)
qed

text \<open>C25. When a record of the file does not open (a damaged byte, or a key that has changed), storing a
  password destroys that record and every one after it: the new file is the same whatever they were.\<close>

theorem store_drops_unreadable_records:
  assumes "cipher_ok env" and "\<And>i. length (nonces i) = NONCE_SIZE \<and> length (old_nonces i) = NONCE_SIZE"
    and "\<And>e. e \<in> set es \<union> {password_entry conn pw} \<Longrightarrow> fits_record env e"
    and "encrypt_all env old_nonces 0 es = Ok good" and "\<And>r. decrypt_entry env bad \<noteq> Ok r"
    and "store_password env nonces io conn pw (fs\<lparr>enc_file := Some (good @ bad)\<rparr>) = (Ok (), fs')"
  shows "load_all env (fs\<lparr>enc_file := Some (good @ bad)\<rparr>) = es \<and>
    (\<exists>buf. encrypt_all env nonces 0
        (filter (\<lambda>e. \<not> is_entry conn ''password'' e) es @ [password_entry conn pw]) = Ok buf \<and>
      enc_file fs' = Some buf)"
proof -
  obtain bs where bs: "list_all2 (written_record env) es bs" "good = concat bs"
    using encrypt_all_written [OF assms(4,1)] assms(2,3) by auto
  have "read_record env bad = None" using assms(5) by (simp add: read_record_def split: result.split)
  then have "load_records env bad = []" by (rule credentials.load_stops)
  with credentials.load_written [OF bs(1), of bad] bs(2)
  have l: "load_all env (fs\<lparr>enc_file := Some (good @ bad)\<rparr>) = es" by (simp add: load_all_def)
  with assms(6) show ?thesis
    by (auto simp: store_password_def save_all_def split: result.splits option.splits)
qed

definition demo_cipher :: cipher_env where
  "demo_cipher =
     \<lparr>seal = \<lambda>n p. Ok p, unseal = \<lambda>n c. Some c,
      to_vec = \<lambda>j. if j = entry_json (password_entry ''a'' ''x'') then [1] else [2],
      from_slice = \<lambda>b. Ok (entry_json (password_entry (if b = [1] then ''a'' else ''b'') (if b = [1] then ''x'' else ''y'')))\<rparr>"

lemma demo_cipher_ok: "cipher_ok demo_cipher" "fits_record demo_cipher (password_entry ''a'' ''x'')"
  "fits_record demo_cipher (password_entry ''b'' ''y'')"
proof -
  have "jget ''id'' (entry_json (password_entry ''b'' ''y'')) \<noteq> jget ''id'' (entry_json (password_entry ''a'' ''x''))"
    by (simp add: entry_json_def password_entry_def)
  then have "entry_json (password_entry ''b'' ''y'') \<noteq> entry_json (password_entry ''a'' ''x'')" by metis
  then show "cipher_ok demo_cipher" "fits_record demo_cipher (password_entry ''a'' ''x'')"
    "fits_record demo_cipher (password_entry ''b'' ''y'')"
    by (simp_all add: cipher_ok_def fits_record_def demo_cipher_def NONCE_SIZE_def)
qed

abbreviation io_succeeds :: file_outcome where
  "io_succeeds \<equiv> \<lparr>write_error = None, torn_tmp = None, rename_error = None\<rparr>"

lemma store_password_succeeds:
  "fst (store_password demo_cipher nonces io_succeeds c p fs) = Ok ()"
proof -
  have "\<exists>buf. encrypt_all demo_cipher nonces i es = Ok buf" for i es
    by (induction es arbitrary: i) (auto simp: encrypt_entry_def demo_cipher_def)
  then show ?thesis by (auto simp: store_password_def save_all_def split: result.split) (metis result.distinct)+
qed

lemma stored_password_reads_back_witness:
  "load_password demo_cipher ''b'' (snd (store_password demo_cipher (\<lambda>_. replicate 12 0) io_succeeds ''b'' ''y''
     \<lparr>enc_file = None, tmp_file = None\<rparr>)) = Some ''y''"
  using stored_password_reads_back [of demo_cipher "\<lambda>_. replicate 12 0" "\<lparr>enc_file = None, tmp_file = None\<rparr>"
      "''b''" "''y''" io_succeeds "Ok ()"] demo_cipher_ok store_password_succeeds
  by (simp add: load_all_def NONCE_SIZE_def prod_eq_iff)

lemma store_drops_unreadable_records_witness:
  "\<exists>good buf. encrypt_all demo_cipher (\<lambda>_. replicate 12 0) 0 [password_entry ''a'' ''x''] = Ok good \<and>
     load_all demo_cipher \<lparr>enc_file = Some (good @ [0]), tmp_file = None\<rparr> = [password_entry ''a'' ''x''] \<and>
     encrypt_all demo_cipher (\<lambda>_. replicate 12 0) 0 [password_entry ''a'' ''x'', password_entry ''b'' ''y''] = Ok buf \<and>
     enc_file (snd (store_password demo_cipher (\<lambda>_. replicate 12 0) io_succeeds ''b'' ''y''
       \<lparr>enc_file = Some (good @ [0]), tmp_file = None\<rparr>)) = Some buf"
proof -
  obtain good where g: "encrypt_all demo_cipher (\<lambda>_. replicate 12 0) 0 [password_entry ''a'' ''x''] = Ok good"
    by (auto simp: encrypt_entry_def demo_cipher_def)
  have "\<And>r. decrypt_entry demo_cipher [0] \<noteq> Ok r" by (simp add: decrypt_entry_def)
  moreover have "store_password demo_cipher (\<lambda>_. replicate 12 0) io_succeeds ''b'' ''y''
      (\<lparr>enc_file = None, tmp_file = None\<rparr>\<lparr>enc_file := Some (good @ [0])\<rparr>) =
    (Ok (), snd (store_password demo_cipher (\<lambda>_. replicate 12 0) io_succeeds ''b'' ''y''
       \<lparr>enc_file = Some (good @ [0]), tmp_file = None\<rparr>))"
    by (simp add: prod_eq_iff store_password_succeeds)
  moreover have "fits_record demo_cipher e" if "e \<in> set [password_entry ''a'' ''x''] \<union> {password_entry ''b'' ''y''}" for e
    using that demo_cipher_ok by auto
  ultimately have "load_all demo_cipher (\<lparr>enc_file = None, tmp_file = None\<rparr>\<lparr>enc_file := Some (good @ [0])\<rparr>) =
      [password_entry ''a'' ''x''] \<and>
    (\<exists>buf. encrypt_all demo_cipher (\<lambda>_. replicate 12 0) 0
        (filter (\<lambda>e. \<not> is_entry ''b'' ''password'' e) [password_entry ''a'' ''x''] @ [password_entry ''b'' ''y'']) = Ok buf \<and>
      enc_file (snd (store_password demo_cipher (\<lambda>_. replicate 12 0) io_succeeds ''b'' ''y''
       \<lparr>enc_file = Some (good @ [0]), tmp_file = None\<rparr>)) = Some buf)"
    using g demo_cipher_ok(1)
    by (intro store_drops_unreadable_records [where old_nonces = "\<lambda>_. replicate 12 0"]) (auto simp: NONCE_SIZE_def)
  moreover have "\<not> is_entry ''b'' ''password'' (password_entry ''a'' ''x'')" by (simp add: is_entry_def password_entry_def)
  ultimately show ?thesis using g by auto
qed

text \<open>S3 credentials survive their JSON form.\<close>

lemma s3_creds_roundtrip: "s3_creds_of_json (s3_creds_json c) = Some c"
  by (cases c; cases "session_token c") (auto simp: s3_creds_of_json_def s3_creds_json_def get_str_def)

end
