(* ===== verification/Quality_Gates.thy ===== *)
theory Quality_Gates
  imports Json Float64
begin

text \<open>
  Quality gates: \<open>crates/rustlake-api/src/quality_gates.rs\<close> and the check before a Parquet write
  (\<open>validate_batch_quality\<close> of \<open>parquet_sink.rs\<close>). An Arrow array is the list of its values, none for
  null: texts, integers, or the bits of floats; arrays of other types hold the debug text that the
  code compares. The text of a float and of a data type and the clock are arguments.
\<close>

section \<open>Record batches\<close>

datatype array_values =
    Strings "string option list"
  | Ints "int option list"
  | Floats32 "u32 option list"
  | Floats64 "u64 option list"
  | Opaque "string option list"

record column =
  column_type :: arrow_type
  column_values :: array_values

record record_batch =
  batch_schema :: "arrow_field list"
  batch_columns :: "column list"
  num_rows :: nat

fun null_mask :: "array_values \<Rightarrow> bool list" where
  "null_mask (Strings vs) = map (\<lambda>v. v = None) vs"
| "null_mask (Ints vs) = map (\<lambda>v. v = None) vs"
| "null_mask (Floats32 vs) = map (\<lambda>v. v = None) vs"
| "null_mask (Floats64 vs) = map (\<lambda>v. v = None) vs"
| "null_mask (Opaque vs) = map (\<lambda>v. v = None) vs"

definition array_len :: "column \<Rightarrow> nat" where
  "array_len a = length (null_mask (column_values a))"

definition null_count :: "column \<Rightarrow> nat" where
  "null_count a = length (filter (\<lambda>b. b) (null_mask (column_values a)))"

text \<open>\<open>schema.index_of\<close> finds the first field of that name.\<close>

fun index_of :: "string \<Rightarrow> arrow_field list \<Rightarrow> nat option" where
  "index_of name [] = None"
| "index_of name (f # fs) = (if field_name f = name then Some 0 else map_option Suc (index_of name fs))"

definition find_column :: "record_batch \<Rightarrow> string \<Rightarrow> column option" where
  "find_column b name = map_option (\<lambda>i. batch_columns b ! i) (index_of name (batch_schema b))"

section \<open>Gates\<close>

datatype quality_check =
    NotNull string
  | Unique string
  | Range string double double
  | RowCountMin nat
  | CustomSql string string

record quality_gate =
  gate_id :: string
  gate_table :: string
  gate_checks :: "quality_check list"
  gate_enabled :: bool

datatype severity = Warning | Error

record validation_failure =
  failure_check :: string
  failure_message :: string
  failure_severity :: severity

record validation_result =
  passed :: bool
  failures :: "validation_failure list"
  checked_at :: string
  checks_run :: nat
  rows_checked :: nat

record format_env =
  show_f64 :: "double \<Rightarrow> string"
  show_f64_6 :: "double \<Rightarrow> string"
  show_type :: "arrow_type \<Rightarrow> string"

fun check_name :: "quality_check \<Rightarrow> string" where
  "check_name (NotNull _) = ''not_null''"
| "check_name (Unique _) = ''unique''"
| "check_name (Range _ _ _) = ''range''"
| "check_name (RowCountMin _) = ''row_count_min''"
| "check_name (CustomSql _ _) = ''custom_sql''"

fun show_check :: "format_env \<Rightarrow> quality_check \<Rightarrow> string" where
  "show_check fe (NotNull c) = ''NotNull('' @ c @ '')''"
| "show_check fe (Unique c) = ''Unique('' @ c @ '')''"
| "show_check fe (Range c lo hi) =
     ''Range('' @ c @ '' in ['' @ show_f64 fe lo @ '', '' @ show_f64 fe hi @ ''])''"
| "show_check fe (RowCountMin n) = ''RowCountMin('' @ show_nat n @ '')''"
| "show_check fe (CustomSql sql d) = ''CustomSql('' @ d @ '')''"

definition column_missing :: "string \<Rightarrow> string" where
  "column_missing c = ''Column '' @ quote c @ '' not found in batch schema''"

section \<open>The checks\<close>

definition check_not_null :: "format_env \<Rightarrow> record_batch \<Rightarrow> string \<Rightarrow> validation_failure list" where
  "check_not_null fe b c =
     (case find_column b c of
        None \<Rightarrow> [\<lparr>failure_check = show_check fe (NotNull c), failure_message = column_missing c,
                 failure_severity = Error\<rparr>]
      | Some a \<Rightarrow>
          if 0 < null_count a
          then [\<lparr>failure_check = show_check fe (NotNull c),
                 failure_message = ''Column '' @ quote c @ '' contains '' @ show_nat (null_count a) @
                   '' null value(s) out of '' @ show_nat (array_len a) @ '' rows'',
                 failure_severity = Error\<rparr>]
          else [])"

text \<open>
  The texts a column is compared by: integers in decimal, floats by their bits. (Small integer types
  go through the debug text in the code, which wraps the same digits; only equality matters.)
\<close>

fun value_texts :: "array_values \<Rightarrow> string list" where
  "value_texts (Strings vs) = List.map_filter (\<lambda>v. v) vs"
| "value_texts (Ints vs) = List.map_filter (map_option show_int) vs"
| "value_texts (Floats32 vs) = List.map_filter (map_option (\<lambda>w. show_nat (unat w))) vs"
| "value_texts (Floats64 vs) = List.map_filter (map_option (\<lambda>w. show_nat (unat w))) vs"
| "value_texts (Opaque vs) = List.map_filter (\<lambda>v. v) vs"

fun count_duplicates :: "string list \<Rightarrow> string list \<Rightarrow> nat \<Rightarrow> string list \<times> nat" where
  "count_duplicates [] seen duplicates = (seen, duplicates)"
| "count_duplicates (v # vs) seen duplicates =
     (if v \<in> set seen then count_duplicates vs seen (duplicates + 1)
      else count_duplicates vs (v # seen) duplicates)"

definition check_unique :: "format_env \<Rightarrow> record_batch \<Rightarrow> string \<Rightarrow> validation_failure list" where
  "check_unique fe b c =
     (case find_column b c of
        None \<Rightarrow> [\<lparr>failure_check = show_check fe (Unique c), failure_message = column_missing c,
                 failure_severity = Error\<rparr>]
      | Some a \<Rightarrow>
          if array_len a = 0 then []
          else let (seen, duplicates) = count_duplicates (value_texts (column_values a)) [] 0
               in if 0 < duplicates
                  then [\<lparr>failure_check = show_check fe (Unique c),
                         failure_message = ''Column '' @ quote c @ '' has '' @ show_nat duplicates @
                           '' duplicate(s): '' @ show_nat (length seen) @ '' distinct values out of '' @
                           show_nat (array_len a - null_count a) @ '' non-null rows'',
                         failure_severity = Error\<rparr>]
                  else [])"

text \<open>The values a range check compares, and the loop that keeps the least and the greatest.\<close>

fun as_f64_values :: "array_values \<Rightarrow> double option list option" where
  "as_f64_values (Ints vs) = Some (map (map_option int_as_f64) vs)"
| "as_f64_values (Floats32 vs) = Some (map (map_option f32_of_bits) vs)"
| "as_f64_values (Floats64 vs) = Some (map (map_option f64_of_bits) vs)"
| "as_f64_values _ = None"

fun compute_min_max ::
  "double option list \<Rightarrow> double option \<Rightarrow> double option \<Rightarrow> double option \<times> double option" where
  "compute_min_max [] lo hi = (lo, hi)"
| "compute_min_max (None # vs) lo hi = compute_min_max vs lo hi"
| "compute_min_max (Some v # vs) lo hi =
     compute_min_max vs
       (Some (case lo of None \<Rightarrow> v | Some m \<Rightarrow> double_min m v))
       (Some (case hi of None \<Rightarrow> v | Some m \<Rightarrow> double_max m v))"

definition check_range ::
  "format_env \<Rightarrow> record_batch \<Rightarrow> string \<Rightarrow> double \<Rightarrow> double \<Rightarrow> validation_failure list" where
  "check_range fe b c lo hi =
     (case find_column b c of
        None \<Rightarrow> [\<lparr>failure_check = show_check fe (Range c lo hi), failure_message = column_missing c,
                 failure_severity = Error\<rparr>]
      | Some a \<Rightarrow>
          if array_len a = 0 then []
          else (case as_f64_values (column_values a) of
                  None \<Rightarrow>
                    [\<lparr>failure_check = show_check fe (Range c lo hi),
                      failure_message = ''Column '' @ quote c @ '' has non-numeric type '' @
                        show_type fe (column_type a) @ '' '' @ em_dash @
                        '' range check not applicable'',
                      failure_severity = Warning\<rparr>]
                | Some vs \<Rightarrow>
                    (case compute_min_max vs None None of
                       (Some actual_min, Some actual_max) \<Rightarrow>
                         if double_less actual_min lo \<or> double_less hi actual_max
                         then [\<lparr>failure_check = show_check fe (Range c lo hi),
                                failure_message = ''Column '' @ quote c @ '' values ['' @
                                  show_f64_6 fe actual_min @ '', '' @ show_f64_6 fe actual_max @
                                  ''] exceed allowed range ['' @ show_f64 fe lo @ '', '' @
                                  show_f64 fe hi @ '']'',
                                failure_severity = Error\<rparr>]
                         else []
                     | _ \<Rightarrow> [])))"

definition check_row_count_min :: "format_env \<Rightarrow> record_batch \<Rightarrow> nat \<Rightarrow> validation_failure list" where
  "check_row_count_min fe b n =
     (if num_rows b < n
      then [\<lparr>failure_check = show_check fe (RowCountMin n),
             failure_message = ''Batch has '' @ show_nat (num_rows b) @ '' rows, minimum required is '' @ show_nat n,
             failure_severity = Error\<rparr>]
      else [])"

section \<open>Running a gate\<close>

fun check_batch :: "format_env \<Rightarrow> record_batch \<Rightarrow> quality_check \<Rightarrow> validation_failure list" where
  "check_batch fe b (NotNull c) = check_not_null fe b c"
| "check_batch fe b (Unique c) = check_unique fe b c"
| "check_batch fe b (Range c lo hi) = check_range fe b c lo hi"
| "check_batch fe b (RowCountMin n) = check_row_count_min fe b n"
| "check_batch fe b (CustomSql _ _) = []"

definition validate_batch :: "format_env \<Rightarrow> string \<Rightarrow> quality_gate \<Rightarrow> record_batch \<Rightarrow> validation_result" where
  "validate_batch fe now gate b =
     (if \<not> gate_enabled gate
      then \<lparr>passed = True, failures = [], checked_at = now, checks_run = 0, rows_checked = num_rows b\<rparr>
      else let fs = concat (map (check_batch fe b) (gate_checks gate))
           in \<lparr>passed = (fs = []), failures = fs, checked_at = now,
               checks_run = length (gate_checks gate), rows_checked = num_rows b\<rparr>)"

definition annotate :: "nat \<Rightarrow> validation_failure \<Rightarrow> validation_failure" where
  "annotate i f = f\<lparr>failure_message := ''[batch '' @ show_nat i @ ''] '' @ failure_message f\<rparr>"

fun check_in_batch :: "format_env \<Rightarrow> nat \<Rightarrow> record_batch \<Rightarrow> quality_check \<Rightarrow> validation_failure list" where
  "check_in_batch fe i b (RowCountMin _) = []"
| "check_in_batch fe i b (CustomSql _ _) = []"
| "check_in_batch fe i b check = map (annotate i) (check_batch fe b check)"

fun check_total :: "format_env \<Rightarrow> nat \<Rightarrow> nat \<Rightarrow> quality_check \<Rightarrow> validation_failure list" where
  "check_total fe rows batches (RowCountMin n) =
     (if rows < n
      then [\<lparr>failure_check = show_check fe (RowCountMin n),
             failure_message = ''Total row count '' @ show_nat rows @ '' is below minimum '' @ show_nat n @
               '' (across '' @ show_nat batches @ '' batches)'',
             failure_severity = Error\<rparr>]
      else [])"
| "check_total fe rows batches _ = []"

definition total_rows :: "record_batch list \<Rightarrow> nat" where
  "total_rows bs = sum_list (map num_rows bs)"

definition validate_batches ::
  "format_env \<Rightarrow> string \<Rightarrow> quality_gate \<Rightarrow> record_batch list \<Rightarrow> validation_result" where
  "validate_batches fe now gate bs =
     (if \<not> gate_enabled gate \<or> bs = []
      then \<lparr>passed = True, failures = [], checked_at = now, checks_run = 0, rows_checked = total_rows bs\<rparr>
      else let fs = concat (map (\<lambda>(i, b). concat (map (check_in_batch fe i b) (gate_checks gate))) (enumerate 0 bs)) @
                 concat (map (check_total fe (total_rows bs) (length bs)) (gate_checks gate))
           in \<lparr>passed = (fs = []), failures = fs, checked_at = now,
               checks_run = length (gate_checks gate), rows_checked = total_rows bs\<rparr>)"

text \<open>The sink checks a batch before it writes it.\<close>

definition validate_batch_quality ::
  "format_env \<Rightarrow> string \<Rightarrow> record_batch \<Rightarrow> quality_gate option \<Rightarrow> unit result" where
  "validate_batch_quality fe now b gate =
     (case gate of
        None \<Rightarrow> Ok ()
      | Some g \<Rightarrow>
          let r = validate_batch fe now g b
          in if passed r then Ok ()
             else Err (''Quality gate failed: '' @
                    join_with ''; '' (map (\<lambda>f. failure_check f @ '': '' @ failure_message f) (failures r))))"

section \<open>What each check decides\<close>

named_theorems gate_simps \<open>when a check reports nothing\<close>

lemma show_int_inj: "show_int i = show_int j \<longleftrightarrow> i = j"
proof
  assume eq: "show_int i = show_int j"
  have minus: "CHR ''-'' \<noteq> hd (show_nat n)" for n
    using hd_show_nat_digit [of n] by (auto dest: digit_char_not_sign)
  have "hd (show_int k) = CHR ''-'' \<longleftrightarrow> k < 0" for k
    using minus [of "nat k"] by (auto simp: show_int_def)
  with eq have "i < 0 \<longleftrightarrow> j < 0" by metis
  with eq show "i = j" by (auto simp: show_int_def show_nat_inj split: if_splits)
qed simp

lemma count_duplicates_pos:
  "0 < snd (count_duplicates vs seen d) \<longleftrightarrow> 0 < d \<or> \<not> distinct vs \<or> set vs \<inter> set seen \<noteq> {}"
  by (induction vs seen d rule: count_duplicates.induct) auto

fun non_null :: "'a option list \<Rightarrow> 'a list" where
  "non_null vs = List.map_filter (\<lambda>v. v) vs"

lemma map_filter_map_option: "List.map_filter (map_option f) vs = map f (List.map_filter (\<lambda>v. v) vs)"
  by (induction vs) (auto simp: List.map_filter_def)

lemma map_filter_None_mask: "List.map_filter (\<lambda>v. v) vs = [] \<longleftrightarrow> set vs \<subseteq> {None}"
  by (induction vs) (auto simp: List.map_filter_def)

text \<open>The values of an array that are not null are pairwise different.\<close>

fun distinct_values :: "array_values \<Rightarrow> bool" where
  "distinct_values (Strings vs) = distinct (non_null vs)"
| "distinct_values (Ints vs) = distinct (non_null vs)"
| "distinct_values (Floats32 vs) = distinct (non_null vs)"
| "distinct_values (Floats64 vs) = distinct (non_null vs)"
| "distinct_values (Opaque vs) = distinct (non_null vs)"

lemma distinct_value_texts: "distinct (value_texts a) = distinct_values a"
proof -
  have "inj_on show_int A" "inj_on (\<lambda>w :: u32. show_nat (unat w)) B" "inj_on (\<lambda>w :: u64. show_nat (unat w)) C" for A B C
    by (auto simp: inj_on_def show_int_inj show_nat_inj dest: unsigned_word_eqI)
  then show ?thesis by (cases a) (simp_all add: map_filter_map_option distinct_map)
qed

lemma value_texts_empty: "null_mask a = [] \<Longrightarrow> distinct_values a"
  by (cases a) (simp_all add: List.map_filter_def)

text \<open>Every value that is not null lies in a range; a value that is not a number lies in each.\<close>

definition in_range :: "double \<Rightarrow> double \<Rightarrow> double option list \<Rightarrow> bool" where
  "in_range lo hi vs \<longleftrightarrow> (\<forall>v. Some v \<in> set vs \<longrightarrow> \<not> double_less v lo \<and> \<not> double_less hi v)"

lemma compute_min_max_from:
  "\<exists>l h. compute_min_max vs (Some a) (Some b) = (Some l, Some h) \<and>
     (double_less l x \<longleftrightarrow> double_less a x \<or> (\<exists>v. Some v \<in> set vs \<and> double_less v x)) \<and>
     (double_less y h \<longleftrightarrow> double_less y b \<or> (\<exists>v. Some v \<in> set vs \<and> double_less y v))"
proof (induction vs arbitrary: a b)
  case (Cons v vs)
  then show ?case
  proof (cases v)
    case (Some w)
    with Cons [of "double_min a w" "double_max b w"] show ?thesis
      by (auto simp: double_less_min double_less_max)
  qed auto
qed simp

lemma compute_min_max_range:
  "(case compute_min_max vs None None of
      (Some l, Some h) \<Rightarrow> \<not> (double_less l lo \<or> double_less hi h) | _ \<Rightarrow> True) \<longleftrightarrow> in_range lo hi vs"
proof (induction vs)
  case (Cons v vs)
  show ?case
  proof (cases v)
    case None
    with Cons show ?thesis by (simp add: in_range_def)
  next
    case (Some w)
    obtain l h where "compute_min_max vs (Some w) (Some w) = (Some l, Some h)"
      "double_less l lo \<longleftrightarrow> double_less w lo \<or> (\<exists>v. Some v \<in> set vs \<and> double_less v lo)"
      "double_less hi h \<longleftrightarrow> double_less hi w \<or> (\<exists>v. Some v \<in> set vs \<and> double_less hi v)"
      using compute_min_max_from [of vs w w lo hi] by blast
    with Some show ?thesis by (auto simp: in_range_def)
  qed
qed (simp add: in_range_def)

lemma check_not_null_ok [gate_simps]:
  "check_not_null fe b c = [] \<longleftrightarrow> (\<exists>a. find_column b c = Some a \<and> True \<notin> set (null_mask (column_values a)))"
  by (auto simp: check_not_null_def null_count_def filter_empty_conv split: option.split)

lemma check_unique_ok [gate_simps]:
  "check_unique fe b c = [] \<longleftrightarrow> (\<exists>a. find_column b c = Some a \<and> distinct_values (column_values a))"
proof (cases "find_column b c")
  case (Some a)
  obtain seen d where cd: "count_duplicates (value_texts (column_values a)) [] 0 = (seen, d)" by fastforce
  then have "0 < d \<longleftrightarrow> \<not> distinct_values (column_values a)"
    using count_duplicates_pos [of "value_texts (column_values a)" "[]" 0] by (simp add: distinct_value_texts)
  with Some cd value_texts_empty [of "column_values a"] show ?thesis
    by (auto simp: check_unique_def array_len_def)
qed (simp add: check_unique_def)

lemma check_range_ok [gate_simps]:
  "check_range fe b c lo hi = [] \<longleftrightarrow> (\<exists>a. find_column b c = Some a \<and>
     (array_len a = 0 \<or> (\<exists>vs. as_f64_values (column_values a) = Some vs \<and> in_range lo hi vs)))"
  unfolding compute_min_max_range [symmetric] by (auto simp: check_range_def split: option.splits prod.splits)

text \<open>What a gate demands of the batches together.\<close>

fun satisfies :: "record_batch list \<Rightarrow> quality_check \<Rightarrow> bool" where
  "satisfies bs (NotNull c) =
     (\<forall>b \<in> set bs. \<exists>a. find_column b c = Some a \<and> True \<notin> set (null_mask (column_values a)))"
| "satisfies bs (Unique c) =
     (\<forall>b \<in> set bs. \<exists>a. find_column b c = Some a \<and> distinct_values (column_values a))"
| "satisfies bs (Range c lo hi) =
     (\<forall>b \<in> set bs. \<exists>a. find_column b c = Some a \<and>
        (array_len a = 0 \<or> (\<exists>vs. as_f64_values (column_values a) = Some vs \<and> in_range lo hi vs)))"
| "satisfies bs (RowCountMin n) = (n \<le> total_rows bs)"
| "satisfies bs (CustomSql _ _) = True"

lemma satisfies_iff:
  "satisfies bs check \<longleftrightarrow>
     (\<forall>(i, b) \<in> set (enumerate 0 bs). check_in_batch fe i b check = []) \<and>
     check_total fe (total_rows bs) (length bs) check = []"
proof -
  have "(\<forall>(i, b) \<in> set (enumerate 0 bs). P b) \<longleftrightarrow> (\<forall>b \<in> set bs. P b)" for P
  proof -
    have "set bs = snd ` set (enumerate 0 bs)" by (metis map_snd_enumerate set_map)
    then show ?thesis by (simp add: split_beta)
  qed
  then show ?thesis by (cases check) (simp_all add: gate_simps)
qed

lemma no_failures_iff:
  "concat (map (\<lambda>(i, b). concat (map (check_in_batch fe i b) checks)) (enumerate 0 bs)) @
   concat (map (check_total fe (total_rows bs) (length bs)) checks) = [] \<longleftrightarrow>
     (\<forall>check \<in> set checks. satisfies bs check)"
  unfolding satisfies_iff [of bs _ fe] by (auto simp: split_beta)

text \<open>C26. A gate over batches passes exactly when it is disabled, when there is no batch at all, or when each
  of its checks is met: no null, no value twice within one batch, every number within the bounds
  after its conversion to a double (NaN always is), enough rows in total.\<close>

theorem validate_batches_passes_iff:
  "passed (validate_batches fe now gate bs) \<longleftrightarrow>
     \<not> gate_enabled gate \<or> bs = [] \<or> (\<forall>check \<in> set (gate_checks gate). satisfies bs check)"
  using no_failures_iff [of fe "gate_checks gate" bs] by (simp add: validate_batches_def Let_def)

definition demo_format :: format_env where
  "demo_format = \<lparr>show_f64 = \<lambda>_. ''f'', show_f64_6 = \<lambda>_. ''f'', show_type = \<lambda>_. ''t''\<rparr>"

definition demo_batch :: "int option list \<Rightarrow> record_batch" where
  "demo_batch vs =
     \<lparr>batch_schema = [\<lparr>field_name = ''id'', data_type = Int64, is_nullable = False\<rparr>],
      batch_columns = [\<lparr>column_type = Int64, column_values = Ints vs\<rparr>], num_rows = length vs\<rparr>"

text \<open>A value that occurs in two batches is not a duplicate; in one batch it is.\<close>

lemma validate_batches_passes_iff_witness:
  "passed (validate_batches demo_format ''now'' \<lparr>gate_id = ''g'', gate_table = ''t'',
     gate_checks = [Unique ''id'', RowCountMin 2], gate_enabled = True\<rparr> [demo_batch [Some 1], demo_batch [Some 1]]) \<and>
   \<not> passed (validate_batches demo_format ''now'' \<lparr>gate_id = ''g'', gate_table = ''t'',
     gate_checks = [Unique ''id''], gate_enabled = True\<rparr> [demo_batch [Some 1, Some 1]])"
  unfolding validate_batches_passes_iff
  by (simp add: demo_batch_def find_column_def total_rows_def List.map_filter_def)

end
