(* ===== verification/Output_Regression.thy ===== *)
theory Output_Regression
  imports Quality_Gates
begin

text \<open>
  What decides whether a new output of an executable table may replace the old one
  (\<open>crates/rustlake-api/src/executable_table.rs\<close>): the comparison of row counts, durations and costs
  (\<open>detect_regression\<close>), of the data itself (\<open>detect_data_regression\<close>), of two versions run side by
  side (\<open>compare_ab_outputs\<close>), the quality gates of the table (\<open>validate_gates\<close>), and the cost
  estimates. Percentages are computed with the rounded operations of \<open>Float64\<close>. The text Arrow shows
  for a value is an argument.
\<close>

section \<open>Counts, durations and costs of two runs\<close>

record regression_metric =
  metric_name :: string
  old_value :: rat
  new_value :: rat
  change_pct :: rat
  is_regression :: bool

record regression_result =
  has_regression :: bool
  regression_severity :: string
  metrics :: "regression_metric list"
  recommendation :: string

text \<open>The three comparisons, each with its metric if it is made at all.\<close>

definition percent_change :: "rat \<Rightarrow> rat \<Rightarrow> rat" where
  "percent_change old new = f64_percent (f64_sub new old) old"

definition row_metric :: "nat option \<Rightarrow> nat option \<Rightarrow> regression_metric option" where
  "row_metric old_rows new_rows =
     (case (old_rows, new_rows) of
        (Some old_r, Some new_r) \<Rightarrow>
          (let old_f = f64_of_nat old_r; new_f = f64_of_nat new_r; change = percent_change old_f new_f
           in if 0 < old_f
              then Some \<lparr>metric_name = ''row_count'', old_value = old_f, new_value = new_f,
                         change_pct = change, is_regression = change < - 10\<rparr>
              else None)
      | _ \<Rightarrow> None)"

definition duration_metric :: "nat \<Rightarrow> nat \<Rightarrow> regression_metric option" where
  "duration_metric old_ms new_ms =
     (if 0 < old_ms
      then let old_f = f64_of_nat old_ms; new_f = f64_of_nat new_ms; change = percent_change old_f new_f
           in Some \<lparr>metric_name = ''duration_ms'', old_value = old_f, new_value = new_f,
                    change_pct = change, is_regression = 100 < change\<rparr>
      else None)"

definition cost_metric :: "rat \<Rightarrow> rat \<Rightarrow> regression_metric option" where
  "cost_metric old_cost new_cost =
     (if 0 < old_cost
      then let change = percent_change old_cost new_cost
           in Some \<lparr>metric_name = ''cost_usd'', old_value = old_cost, new_value = new_cost,
                    change_pct = change, is_regression = 50 < change\<rparr>
      else None)"

definition regressed :: "regression_metric option \<Rightarrow> bool" where
  "regressed m = (case m of None \<Rightarrow> False | Some x \<Rightarrow> is_regression x)"

definition recommend :: "bool \<Rightarrow> string \<Rightarrow> string" where
  "recommend regression severity =
     (if \<not> regression then ''No regression detected. Safe to deploy.''
      else if severity = ''critical''
      then ''CRITICAL: Transform produces zero rows. Do NOT deploy. Investigate immediately.''
      else if severity = ''major''
      then ''MAJOR: Significant row count change detected. Review transform logic before deploying.''
      else if severity = ''minor''
      then ''MINOR: Performance regression detected. Consider optimizing before deploying.''
      else ''Review changes before deploying.'')"

definition detect_regression ::
  "nat option \<Rightarrow> nat option \<Rightarrow> nat \<Rightarrow> nat \<Rightarrow> rat \<Rightarrow> rat \<Rightarrow> regression_result" where
  "detect_regression old_rows new_rows old_ms new_ms old_cost new_cost =
     (let rows = row_metric old_rows new_rows;
          duration = duration_metric old_ms new_ms;
          cost = cost_metric old_cost new_cost;
          (found, max_severity) = (if regressed rows then (True, ''major'') else (False, ''none''));
          (found, max_severity) =
            (if regressed duration
             then (True, if max_severity = ''none'' then ''minor'' else max_severity)
             else (found, max_severity));
          (found, max_severity) =
            (if regressed cost
             then (True, if max_severity = ''none'' then ''minor'' else max_severity)
             else (found, max_severity));
          (found, max_severity) =
            (if new_rows = Some 0 \<and> (case old_rows of None \<Rightarrow> False | Some r \<Rightarrow> 0 < r)
             then (True, ''critical'') else (found, max_severity))
      in \<lparr>has_regression = found, regression_severity = max_severity,
          metrics = List.map_filter (\<lambda>m. m) [rows, duration, cost],
          recommendation = recommend found max_severity\<rparr>)"

section \<open>The data of two runs\<close>

definition field_names :: "record_batch \<Rightarrow> string list" where
  "field_names b = map field_name (batch_schema b)"

definition count_nulls_across_batches :: "record_batch list \<Rightarrow> string \<Rightarrow> nat" where
  "count_nulls_across_batches bs c =
     sum_list (map (\<lambda>b. case find_column b c of None \<Rightarrow> 0 | Some a \<Rightarrow> null_count a) bs)"

text \<open>The texts of the values that are not null; a value Arrow cannot show counts as the empty text.\<close>

definition shown_values :: "(column \<Rightarrow> nat \<Rightarrow> string option) \<Rightarrow> column \<Rightarrow> string list" where
  "shown_values show_cell a =
     map (\<lambda>i. unwrap_or [] (show_cell a i)) (filter (\<lambda>i. \<not> null_mask (column_values a) ! i) [0..<array_len a])"

definition count_distinct_across_batches ::
  "(column \<Rightarrow> nat \<Rightarrow> string option) \<Rightarrow> record_batch list \<Rightarrow> string \<Rightarrow> nat" where
  "count_distinct_across_batches show_cell bs c =
     length (remdups (concat (map (\<lambda>b. case find_column b c of None \<Rightarrow> [] | Some a \<Rightarrow> shown_values show_cell a) bs)))"

definition schema_drift :: "string list \<Rightarrow> string list \<Rightarrow> regression_metric list" where
  "schema_drift old_fields new_fields =
     (let removed = filter (\<lambda>f. f \<notin> set new_fields) old_fields
      in if removed = [] then []
         else [\<lparr>metric_name = ''schema_drift'', old_value = f64_of_nat (length old_fields),
                new_value = f64_of_nat (length new_fields),
                change_pct = - f64_percent (f64_of_nat (length removed)) (f64_of_nat (length old_fields)),
                is_regression = True\<rparr>])"

definition null_increase :: "string \<Rightarrow> nat \<Rightarrow> nat \<Rightarrow> nat \<Rightarrow> nat \<Rightarrow> regression_metric list" where
  "null_increase c old_nulls old_rows new_nulls new_rows =
     (if 0 < old_rows \<and> 0 < new_rows
      then let old_pct = f64_percent (f64_of_nat old_nulls) (f64_of_nat old_rows);
               new_pct = f64_percent (f64_of_nat new_nulls) (f64_of_nat new_rows)
           in if old_pct < 5 \<and> 20 < new_pct
              then [\<lparr>metric_name = ''null_increase.'' @ c, old_value = old_pct, new_value = new_pct,
                     change_pct = f64_sub new_pct old_pct, is_regression = True\<rparr>]
              else []
      else [])"

definition cardinality_drop :: "string \<Rightarrow> nat \<Rightarrow> nat \<Rightarrow> regression_metric list" where
  "cardinality_drop c old_distinct new_distinct =
     (if 0 < old_distinct
      then let drop_pct = f64_percent (f64_sub (f64_of_nat old_distinct) (f64_of_nat new_distinct))
                                      (f64_of_nat old_distinct)
           in if 50 < drop_pct
              then [\<lparr>metric_name = ''cardinality_drop.'' @ c, old_value = f64_of_nat old_distinct,
                     new_value = f64_of_nat new_distinct, change_pct = - drop_pct, is_regression = True\<rparr>]
              else []
      else [])"

definition column_regressions ::
  "(column \<Rightarrow> nat \<Rightarrow> string option) \<Rightarrow> record_batch list \<Rightarrow> record_batch list \<Rightarrow> string \<Rightarrow> regression_metric list" where
  "column_regressions show_cell old_bs new_bs c =
     null_increase c (count_nulls_across_batches old_bs c) (total_rows old_bs)
       (count_nulls_across_batches new_bs c) (total_rows new_bs) @
     cardinality_drop c (count_distinct_across_batches show_cell old_bs c)
       (count_distinct_across_batches show_cell new_bs c)"

fun detect_data_regression ::
  "(column \<Rightarrow> nat \<Rightarrow> string option) \<Rightarrow> record_batch list \<Rightarrow> record_batch list \<Rightarrow> regression_metric list" where
  "detect_data_regression show_cell (b # bs) (b' # bs') =
     (let old_fields = field_names b; new_fields = field_names b'
      in schema_drift old_fields new_fields @
         concat (map (column_regressions show_cell (b # bs) (b' # bs'))
           (filter (\<lambda>c. c \<in> set new_fields) old_fields)))"
| "detect_data_regression show_cell _ _ = []"

section \<open>Two versions side by side\<close>

record ab_comparison =
  row_count_diff :: int
  row_count_pct :: rat
  schema_match :: bool
  columns_added :: "string list"
  columns_removed :: "string list"
  duration_diff_ms :: int
  cost_diff_usd :: rat
  data_regressions :: "regression_metric list"

definition u64_as_i64 :: "nat \<Rightarrow> int" where "u64_as_i64 n = wrap_i64 (int n)"

definition rows_u64 :: "record_batch list \<Rightarrow> nat" where "rows_u64 bs = total_rows bs mod 2 ^ 64"

definition first_columns :: "record_batch list \<Rightarrow> string list" where
  "first_columns bs = (case bs of [] \<Rightarrow> [] | b # _ \<Rightarrow> field_names b)"

definition compare_ab_outputs ::
  "(column \<Rightarrow> nat \<Rightarrow> string option) \<Rightarrow> record_batch list \<Rightarrow> record_batch list \<Rightarrow> nat \<Rightarrow> nat \<Rightarrow> rat \<Rightarrow> rat \<Rightarrow> ab_comparison" where
  "compare_ab_outputs show_cell a_bs b_bs a_ms b_ms a_cost b_cost =
     (let a_rows = rows_u64 a_bs; b_rows = rows_u64 b_bs;
          a_cols = first_columns a_bs; b_cols = first_columns b_bs;
          added = filter (\<lambda>c. c \<notin> set a_cols) b_cols;
          removed = filter (\<lambda>c. c \<notin> set b_cols) a_cols;
          row_diff = wrap_i64 (u64_as_i64 b_rows - u64_as_i64 a_rows)
      in \<lparr>row_count_diff = row_diff,
          row_count_pct = (if 0 < a_rows then f64_percent (rnd (of_int row_diff)) (f64_of_nat a_rows) else 0),
          schema_match = (added = [] \<and> removed = []),
          columns_added = added, columns_removed = removed,
          duration_diff_ms = wrap_i64 (u64_as_i64 b_ms - u64_as_i64 a_ms),
          cost_diff_usd = f64_sub b_cost a_cost,
          data_regressions = detect_data_regression show_cell a_bs b_bs\<rparr>)"

section \<open>The gates of an executable table\<close>

record quality_gate_ref =
  gate_type :: string
  gate_column :: "string option"
  threshold :: "double option"
  description :: string

record gate_result =
  result_gate_type :: string
  result_column :: "string option"
  result_passed :: bool
  result_detail :: string

definition f64_MAX :: double where "f64_MAX = Finite ((2 ^ 53 - 1) * 2 ^ 971)"

text \<open>The check a reference stands for, or its result if there is nothing to run.\<close>

definition no_column :: "quality_gate_ref \<Rightarrow> gate_result" where
  "no_column g = \<lparr>result_gate_type = gate_type g, result_column = None, result_passed = False,
     result_detail = gate_type g @ '' gate requires a column''\<rparr>"

definition gate_check :: "quality_gate_ref \<Rightarrow> gate_result + quality_check" where
  "gate_check g =
     (if gate_type g = ''not_null''
      then (case gate_column g of None \<Rightarrow> Inl (no_column g) | Some c \<Rightarrow> Inr (NotNull c))
      else if gate_type g = ''unique''
      then (case gate_column g of None \<Rightarrow> Inl (no_column g) | Some c \<Rightarrow> Inr (Unique c))
      else if gate_type g = ''range''
      then (case gate_column g of None \<Rightarrow> Inl (no_column g)
            | Some c \<Rightarrow> Inr (Range c (Finite 0) (unwrap_or f64_MAX (threshold g))))
      else if gate_type g = ''row_count''
      then Inr (RowCountMin (f64_as_usize (unwrap_or (Finite 1) (threshold g))))
      else if gate_type g = ''custom_sql''
      then Inl \<lparr>result_gate_type = gate_type g, result_column = gate_column g, result_passed = True,
                result_detail = ''custom_sql gate skipped (requires query context)''\<rparr>
      else Inl \<lparr>result_gate_type = gate_type g, result_column = gate_column g, result_passed = True,
                result_detail = ''Unknown gate type '' @ quote (gate_type g) @ '' '' @ em_dash @ '' skipped''\<rparr>)"

definition validate_gate :: "format_env \<Rightarrow> string \<Rightarrow> record_batch list \<Rightarrow> quality_gate_ref \<Rightarrow> gate_result" where
  "validate_gate fe now bs g =
     (case gate_check g of
        Inl r \<Rightarrow> r
      | Inr check \<Rightarrow>
          (let v = validate_batches fe now
                 \<lparr>gate_id = ''exec-gate-'' @ gate_type g, gate_table = [], gate_checks = [check], gate_enabled = True\<rparr> bs
           in \<lparr>result_gate_type = gate_type g, result_column = gate_column g, result_passed = passed v,
               result_detail =
                 (if passed v
                  then description g @ '' '' @ em_dash @ '' passed ('' @ show_nat (rows_checked v) @ '' rows checked)''
                  else join_with ''; '' (map failure_message (failures v)))\<rparr>))"

definition validate_gates ::
  "format_env \<Rightarrow> string \<Rightarrow> quality_gate_ref list \<Rightarrow> record_batch list \<Rightarrow> gate_result list" where
  "validate_gates fe now gates bs = map (validate_gate fe now bs) gates"

section \<open>Cost estimates\<close>

record cost_estimate =
  platform :: string
  cost_per_execution_usd :: rat
  monthly_cost_usd :: rat
  cold_start_ms :: u64
  execution_ms :: u64
  always_on :: bool
  cluster_required :: bool

record cost_comparison =
  rustlake :: cost_estimate
  databricks :: cost_estimate
  snowflake :: cost_estimate
  lambda_cost :: cost_estimate

text \<open>A decimal literal of the source is the nearest double.\<close>

definition estimate_costs :: "u64 \<Rightarrow> u64 \<Rightarrow> u32 \<Rightarrow> cost_comparison" where
  "estimate_costs binary_size_kb exec_ms executions_per_day =
     (let monthly_runs = f64_mult (f64_of_nat (unat executions_per_day)) 30;
          ms = f64_of_nat (unat exec_ms);
          compute = f64_mult (rnd (1 / 1000000)) ms;
          per_lambda = f64_add (rnd (2 / 10000000))
            (f64_mult (f64_mult (rnd (166667 / 10000000000)) (f64_div ms 1000)) (rnd (125 / 1000)))
      in \<lparr>rustlake = \<lparr>platform = ''RustLake (cached binary)'', cost_per_execution_usd = compute,
            monthly_cost_usd = f64_add (f64_mult compute monthly_runs)
              (f64_mult (rnd (23 / 1000)) (f64_div (f64_div (f64_of_nat (unat binary_size_kb)) 1024) 1024)),
            cold_start_ms = 2, execution_ms = exec_ms, always_on = False, cluster_required = False\<rparr>,
          databricks = \<lparr>platform = ''Databricks (jobs cluster)'',
            cost_per_execution_usd = f64_mult (rnd (7 / 100)) (max (f64_div (f64_div ms 1000) 60) 1),
            monthly_cost_usd = f64_mult (rnd (7 / 100)) monthly_runs,
            cold_start_ms = 45000, execution_ms = exec_ms + 5000, always_on = False, cluster_required = True\<rparr>,
          snowflake = \<lparr>platform = ''Snowflake (X-Small warehouse)'',
            cost_per_execution_usd = f64_div 2 60,
            monthly_cost_usd = f64_mult (f64_div 2 60) monthly_runs,
            cold_start_ms = 5000, execution_ms = exec_ms + 2000, always_on = False, cluster_required = True\<rparr>,
          lambda_cost = \<lparr>platform = ''AWS Lambda (RustLake binary)'', cost_per_execution_usd = per_lambda,
            monthly_cost_usd = f64_mult per_lambda monthly_runs,
            cold_start_ms = 100, execution_ms = exec_ms, always_on = False, cluster_required = False\<rparr>\<rparr>)"

section \<open>When an output counts as a regression\<close>

lemma f64_percent_minus: "f64_percent (- x) y = - f64_percent x y"
  using rnd_minus [of "x / y"] rnd_minus [of "rnd (x / y) * 100"]
  by (simp add: f64_percent_def f64_div_def f64_mult_def)

lemma f64_sub_nat:
  assumes "m < 2 ^ 53" "n < 2 ^ 53"
  shows "f64_sub (of_nat m) (of_nat n) = of_int (int m - int n)"
  using assms rnd_of_int [of "int m - int n"] by (simp add: f64_sub_def abs_less_iff)

lemma percent_increase:
  assumes "m < 2 ^ 53" "n \<le> m"
  shows "percent_change (of_nat n) (of_nat m) = f64_percent (of_nat (m - n)) (of_nat n)"
proof -
  have "int m - int n = int (m - n)" using assms(2) by simp
  then show ?thesis using f64_sub_nat [of m n] assms by (simp add: percent_change_def del: of_nat_diff)
qed

lemma percent_decrease:
  assumes "n < 2 ^ 53" "m \<le> n"
  shows "percent_change (of_nat n) (of_nat m) = - f64_percent (of_nat (n - m)) (of_nat n)"
proof -
  have "int m - int n = - int (n - m)" using assms(2) by simp
  then show ?thesis using f64_sub_nat [of m n] assms by (simp add: percent_change_def f64_percent_minus del: of_nat_diff)
qed

lemma f64_percent_nonneg: "0 \<le> f64_percent (of_nat m) (of_nat n)"
proof (cases "m = 0 \<or> n = 0")
  case False
  then have "0 < rnd (rnd (of_nat m / of_nat n) * 100)" by (intro rnd_pos mult_pos_pos) (simp_all add: rnd_pos)
  then show ?thesis by (simp add: f64_percent_def f64_div_def f64_mult_def)
qed (auto simp: f64_percent_def f64_div_def f64_mult_def)

lemma row_metric_regressed:
  assumes "\<And>r. old_rows = Some r \<or> new_rows = Some r \<Longrightarrow> r < 2 ^ 43"
  shows "regressed (row_metric old_rows new_rows) \<longleftrightarrow>
    (\<exists>n m. old_rows = Some n \<and> new_rows = Some m \<and> 10 * m < 9 * n)"
proof (cases "\<exists>n m. old_rows = Some n \<and> new_rows = Some m")
  case True
  then obtain n m where e: "old_rows = Some n" "new_rows = Some m" by blast
  with assms have b: "n < 2 ^ 43" "m < 2 ^ 43" by auto
  then have f: "f64_of_nat n = of_nat n" "f64_of_nat m = of_nat m" by (simp_all add: f64_of_nat_exact)
  have r: "regressed (row_metric old_rows new_rows) \<longleftrightarrow> 0 < n \<and> percent_change (of_nat n) (of_nat m) < - 10"
    by (simp add: regressed_def row_metric_def e f Let_def)
  show ?thesis
  proof (cases "n \<le> m")
    case True
    with b percent_increase [of m n] f64_percent_nonneg [of "m - n" n]
    have "\<not> percent_change (of_nat n) (of_nat m) < - 10" by (simp del: of_nat_diff)
    with True show ?thesis unfolding r using e by auto
  next
    case False
    with b percent_decrease [of n m]
    have "percent_change (of_nat n) (of_nat m) < - 10 \<longleftrightarrow> 10 < f64_percent (of_nat (n - m)) (of_nat n)"
      by (simp del: of_nat_diff)
    also have "\<dots> \<longleftrightarrow> 10 * n < 100 * (n - m)"
      using False f64_percent_greater_iff [of n 10 "n - m"] b rnd_percent_exact(2) by (simp del: of_nat_diff)
    also have "\<dots> \<longleftrightarrow> 10 * m < 9 * n" using False by linarith
    finally show ?thesis unfolding r using False e by auto
  qed
qed (auto simp: regressed_def row_metric_def split: option.splits)

lemma duration_metric_regressed:
  assumes "old_ms < 2 ^ 43" "new_ms < 2 ^ 43"
  shows "regressed (duration_metric old_ms new_ms) \<longleftrightarrow> 0 < old_ms \<and> 2 * old_ms < new_ms"
proof -
  have f: "f64_of_nat old_ms = of_nat old_ms" "f64_of_nat new_ms = of_nat new_ms"
    using assms by (simp_all add: f64_of_nat_exact)
  have r: "regressed (duration_metric old_ms new_ms) \<longleftrightarrow>
      0 < old_ms \<and> 100 < percent_change (of_nat old_ms) (of_nat new_ms)"
    by (simp add: regressed_def duration_metric_def f Let_def)
  show ?thesis
  proof (cases "old_ms \<le> new_ms \<and> 0 < old_ms")
    case True
    then have "100 < percent_change (of_nat old_ms) (of_nat new_ms) \<longleftrightarrow> 100 * old_ms < 100 * (new_ms - old_ms)"
      using percent_increase [of new_ms old_ms] f64_percent_greater_iff [of old_ms 100 "new_ms - old_ms"]
        assms rnd_percent_exact(5) by (simp del: of_nat_diff)
    then show ?thesis using True by (auto simp: r)
  next
    case False
    then have "0 < old_ms \<Longrightarrow> \<not> 100 < percent_change (of_nat old_ms) (of_nat new_ms)"
      using percent_decrease [of old_ms new_ms] assms f64_percent_nonneg [of "old_ms - new_ms" old_ms]
      by (simp del: of_nat_diff)
    with False show ?thesis by (auto simp: r)
  qed
qed

lemma detect_regression_verdict:
  "let r = detect_regression old_rows new_rows old_ms new_ms old_cost new_cost
   in regression_severity r =
       (if new_rows = Some 0 \<and> (case old_rows of None \<Rightarrow> False | Some r \<Rightarrow> 0 < r) then ''critical''
        else if regressed (row_metric old_rows new_rows) then ''major''
        else if regressed (duration_metric old_ms new_ms) \<or> regressed (cost_metric old_cost new_cost)
        then ''minor'' else ''none'') \<and>
      (has_regression r \<longleftrightarrow> regression_severity r \<noteq> ''none'')"
  unfolding detect_regression_def Let_def
  by (cases "regressed (row_metric old_rows new_rows)"; cases "regressed (duration_metric old_ms new_ms)";
      cases "regressed (cost_metric old_cost new_cost)";
      cases "new_rows = Some 0 \<and> (case old_rows of None \<Rightarrow> False | Some r \<Rightarrow> 0 < r)";
      simp only: if_True if_False prod.case) simp_all

text \<open>The verdict on a new output, for counts and durations below 2 to the 43: it is critical exactly
  when the rows vanish, otherwise major when more than a tenth of them is gone, otherwise minor when
  the run takes more than twice as long or costs over half as much again, and none else; rounding
  never moves one of these bounds. Any severity but none counts as a regression.\<close>

theorem detect_regression_severity:
  assumes "\<And>r. old_rows = Some r \<or> new_rows = Some r \<Longrightarrow> r < 2 ^ 43"
    and "old_ms < 2 ^ 43" and "new_ms < 2 ^ 43"
    and "detect_regression old_rows new_rows old_ms new_ms old_cost new_cost = res"
  shows "regression_severity res =
      (if new_rows = Some 0 \<and> (\<exists>n > 0. old_rows = Some n) then ''critical''
       else if \<exists>n m. old_rows = Some n \<and> new_rows = Some m \<and> 10 * m < 9 * n then ''major''
       else if 0 < old_ms \<and> 2 * old_ms < new_ms \<or> 0 < old_cost \<and> 50 < percent_change old_cost new_cost
       then ''minor'' else ''none'') \<and>
    (has_regression res \<longleftrightarrow> regression_severity res \<noteq> ''none'')"
proof -
  have c: "regressed (cost_metric old_cost new_cost) \<longleftrightarrow> 0 < old_cost \<and> 50 < percent_change old_cost new_cost"
    by (simp add: regressed_def cost_metric_def Let_def)
  have r: "regressed (row_metric old_rows new_rows) \<longleftrightarrow>
      (\<exists>n m. old_rows = Some n \<and> new_rows = Some m \<and> 10 * m < 9 * n)"
    using assms(1) by (rule row_metric_regressed)
  have z: "(case old_rows of None \<Rightarrow> False | Some r \<Rightarrow> 0 < r) \<longleftrightarrow> (\<exists>n > 0. old_rows = Some n)"
    by (auto split: option.split)
  show ?thesis
    using detect_regression_verdict [of old_rows new_rows old_ms new_ms old_cost new_cost]
    unfolding assms(4) Let_def z r duration_metric_regressed [OF assms(2,3)] c .
qed

section \<open>What counts as a regression of the data\<close>

text \<open>The invariant of Arrow's \<open>RecordBatch\<close>.\<close>

definition batch_ok :: "record_batch \<Rightarrow> bool" where
  "batch_ok b \<longleftrightarrow> length (batch_columns b) = length (batch_schema b) \<and>
     (\<forall>a \<in> set (batch_columns b). array_len a = num_rows b)"

lemma index_of_bound: "index_of c fs = Some i \<Longrightarrow> i < length fs"
  by (induction fs arbitrary: i) (auto split: if_splits)

lemma find_column_len: "batch_ok b \<Longrightarrow> find_column b c = Some a \<Longrightarrow> array_len a = num_rows b"
  unfolding batch_ok_def find_column_def by (auto dest: index_of_bound simp: nth_mem)

lemma null_count_le: "null_count a \<le> array_len a"
  by (simp add: null_count_def array_len_def)

lemma shown_values_le: "length (shown_values show_cell a) \<le> array_len a"
  using length_filter_le [of "\<lambda>i. \<not> null_mask (column_values a) ! i" "[0..<array_len a]"]
  by (simp add: shown_values_def)

lemma nulls_le:
  assumes "\<And>b. b \<in> set bs \<Longrightarrow> batch_ok b"
  shows "count_nulls_across_batches bs c \<le> total_rows bs"
  unfolding count_nulls_across_batches_def total_rows_def
proof (rule sum_list_mono)
  fix b assume "b \<in> set bs"
  then show "(case find_column b c of None \<Rightarrow> 0 | Some a \<Rightarrow> null_count a) \<le> num_rows b"
    using find_column_len [OF assms, of b c] null_count_le by (auto split: option.split) (metis)
qed

lemma distinct_le:
  assumes "\<And>b. b \<in> set bs \<Longrightarrow> batch_ok b"
  shows "count_distinct_across_batches show_cell bs c \<le> total_rows bs"
proof -
  have "length (concat (map (\<lambda>b. case find_column b c of None \<Rightarrow> [] | Some a \<Rightarrow> shown_values show_cell a) bs))
      \<le> total_rows bs"
    unfolding length_concat total_rows_def map_map
  proof (rule sum_list_mono)
    fix b assume "b \<in> set bs"
    then show "(length \<circ> (\<lambda>b. case find_column b c of None \<Rightarrow> [] | Some a \<Rightarrow> shown_values show_cell a)) b
        \<le> num_rows b"
      using find_column_len [OF assms, of b c] shown_values_le by (auto split: option.split) (metis)
  qed
  then show ?thesis
    unfolding count_distinct_across_batches_def using length_remdups_leq order_trans by blast
qed

lemma null_increase_iff:
  assumes "old_nulls \<le> old_rows" "new_nulls \<le> new_rows" "old_rows < 2 ^ 43" "new_rows < 2 ^ 43"
  shows "null_increase c old_nulls old_rows new_nulls new_rows = [] \<longleftrightarrow>
    \<not> (20 * old_nulls < old_rows \<and> new_rows < 5 * new_nulls)"
proof (cases "0 < old_rows \<and> 0 < new_rows")
  case True
  have f: "f64_of_nat old_nulls = of_nat old_nulls" "f64_of_nat old_rows = of_nat old_rows"
    "f64_of_nat new_nulls = of_nat new_nulls" "f64_of_nat new_rows = of_nat new_rows"
    using assms by (simp_all add: f64_of_nat_exact)
  have "f64_percent (of_nat old_nulls) (of_nat old_rows) < 5 \<longleftrightarrow> 100 * old_nulls < 5 * old_rows"
    using f64_percent_less_iff [of old_rows 5 old_nulls] True assms(3) rnd_percent_exact(1) by simp
  moreover have "20 < f64_percent (of_nat new_nulls) (of_nat new_rows) \<longleftrightarrow> 20 * new_rows < 100 * new_nulls"
    using f64_percent_greater_iff [of new_rows 20 new_nulls] True assms(4) rnd_percent_exact(3) by simp
  ultimately show ?thesis using True by (simp add: null_increase_def f Let_def)
next
  case False
  then show ?thesis using assms(1,2) by (auto simp: null_increase_def)
qed

lemma cardinality_drop_iff:
  assumes "old_distinct < 2 ^ 43" "new_distinct < 2 ^ 43"
  shows "cardinality_drop c old_distinct new_distinct = [] \<longleftrightarrow> \<not> 2 * new_distinct < old_distinct"
proof -
  have f: "f64_of_nat old_distinct = of_nat old_distinct" "f64_of_nat new_distinct = of_nat new_distinct"
    using assms by (simp_all add: f64_of_nat_exact)
  have s: "f64_sub (of_nat old_distinct) (of_nat new_distinct) = of_int (int old_distinct - int new_distinct)"
    using assms by (intro f64_sub_nat) simp_all
  show ?thesis
  proof (cases "new_distinct < old_distinct")
    case True
    then have "f64_sub (of_nat old_distinct) (of_nat new_distinct) = of_nat (old_distinct - new_distinct)"
      by (simp add: s)
    moreover have "50 < f64_percent (of_nat (old_distinct - new_distinct)) (of_nat old_distinct) \<longleftrightarrow>
        50 * old_distinct < 100 * (old_distinct - new_distinct)"
      using f64_percent_greater_iff [of old_distinct 50 "old_distinct - new_distinct"] True assms(1)
        rnd_percent_exact(4) by (simp del: of_nat_diff)
    ultimately show ?thesis using True by (auto simp: cardinality_drop_def f Let_def)
  next
    case False
    then have "f64_sub (of_nat old_distinct) (of_nat new_distinct) = - of_nat (new_distinct - old_distinct)"
      by (simp add: s)
    with False show ?thesis using f64_percent_nonneg [of "new_distinct - old_distinct" old_distinct]
      by (simp add: cardinality_drop_def f Let_def f64_percent_minus del: of_nat_diff)
  qed
qed

text \<open>Two outputs of consistent batches with fewer than 2 to the 43 rows each show no regression of the
  data exactly when one of them has no batch or every column of the old one is still there, has not
  come to be null in over a fifth of the rows from under a twentieth, and keeps at least half of its
  distinct values; rounding never moves these bounds.\<close>

theorem no_data_regression_iff:
  assumes "list_all batch_ok (old_bs @ new_bs)"
    and "total_rows old_bs < 2 ^ 43" and "total_rows new_bs < 2 ^ 43"
  shows "detect_data_regression show_cell old_bs new_bs = [] \<longleftrightarrow> old_bs = [] \<or> new_bs = [] \<or>
    (\<forall>c \<in> set (first_columns old_bs). c \<in> set (first_columns new_bs) \<and>
       \<not> (20 * count_nulls_across_batches old_bs c < total_rows old_bs \<and>
          total_rows new_bs < 5 * count_nulls_across_batches new_bs c) \<and>
       count_distinct_across_batches show_cell old_bs c \<le> 2 * count_distinct_across_batches show_cell new_bs c)"
proof -
  have n: "count_nulls_across_batches old_bs c \<le> total_rows old_bs" "count_nulls_across_batches new_bs c \<le> total_rows new_bs"
    and d: "count_distinct_across_batches show_cell old_bs c < 2 ^ 43" "count_distinct_across_batches show_cell new_bs c < 2 ^ 43" for c
    using assms nulls_le [of old_bs c] nulls_le [of new_bs c]
      distinct_le [of old_bs show_cell c] distinct_le [of new_bs show_cell c] by (auto simp: list_all_iff)
  have "column_regressions show_cell old_bs new_bs c = [] \<longleftrightarrow>
      \<not> (20 * count_nulls_across_batches old_bs c < total_rows old_bs \<and>
         total_rows new_bs < 5 * count_nulls_across_batches new_bs c) \<and>
      count_distinct_across_batches show_cell old_bs c \<le> 2 * count_distinct_across_batches show_cell new_bs c" for c
    unfolding column_regressions_def append_is_Nil_conv null_increase_iff [OF n assms(2,3)] cardinality_drop_iff [OF d]
      not_less ..
  then show ?thesis
    by (cases old_bs; cases new_bs)
      (auto simp: schema_drift_def first_columns_def Let_def filter_empty_conv)
qed

text \<open>A column of which half the values are gone passes, one more and it does not.\<close>

definition demo_cell :: "column \<Rightarrow> nat \<Rightarrow> string option" where
  "demo_cell a i = (case column_values a of Ints vs \<Rightarrow> map_option show_int (vs ! i) | _ \<Rightarrow> None)"

lemma no_data_regression_iff_witness:
  "detect_data_regression demo_cell [demo_batch [Some 1, Some 2]] [demo_batch [Some 1]] = [] \<and>
   detect_data_regression demo_cell [demo_batch [Some 1, Some 2, Some 3]] [demo_batch [Some 1]] \<noteq> []"
proof -
  have ok: "batch_ok (demo_batch vs)" and t: "total_rows [demo_batch vs] = length vs" for vs
    by (simp_all add: batch_ok_def demo_batch_def array_len_def total_rows_def)
  have f: "first_columns [demo_batch vs] = [''id'']" for vs
    by (simp add: first_columns_def field_names_def demo_batch_def)
  have d: "count_distinct_across_batches demo_cell [demo_batch [Some 1]] ''id'' = 1"
    "count_distinct_across_batches demo_cell [demo_batch [Some 1, Some 2]] ''id'' = 2"
    "count_distinct_across_batches demo_cell [demo_batch [Some 1, Some 2, Some 3]] ''id'' = 3"
    by code_simp+
  have z: "count_nulls_across_batches [demo_batch [Some 1]] ''id'' = 0" by code_simp
  show ?thesis
    using no_data_regression_iff [of "[demo_batch [Some 1, Some 2]]" "[demo_batch [Some 1]]" demo_cell]
      no_data_regression_iff [of "[demo_batch [Some 1, Some 2, Some 3]]" "[demo_batch [Some 1]]" demo_cell]
    by (simp add: ok t f d z del: detect_data_regression.simps)
qed

lemma detect_regression_severity_witness:
  "regression_severity (detect_regression (Some 100) (Some 89) 1000 2500 1 1) = ''major'' \<and>
   regression_severity (detect_regression (Some 100) (Some 90) 1000 2001 1 1) = ''minor'' \<and>
   \<not> has_regression (detect_regression (Some 100) (Some 90) 1000 2000 1 1)"
proof -
  have b: "r < 2 ^ 43" if "Some (100::nat) = Some r \<or> Some (89::nat) = Some r" for r
    using that by auto
  have b': "r < 2 ^ 43" if "Some (100::nat) = Some r \<or> Some (90::nat) = Some r" for r
    using that by auto
  show ?thesis
    using detect_regression_severity [of "Some 100" "Some 89" 1000 2500 1 1, OF b _ _ refl]
      detect_regression_severity [of "Some 100" "Some 90" 1000 2001 1 1, OF b' _ _ refl]
      detect_regression_severity [of "Some 100" "Some 90" 1000 2000 1 1, OF b' _ _ refl]
    by (simp add: percent_change_def f64_percent_def f64_sub_def f64_div_def f64_mult_def)
qed

section \<open>What the gates demand\<close>

definition gate_holds :: "record_batch list \<Rightarrow> quality_gate_ref \<Rightarrow> bool" where
  "gate_holds bs g \<longleftrightarrow>
     (if gate_type g \<in> {''not_null'', ''unique'', ''range''}
      then (\<exists>c. gate_column g = Some c \<and>
             (bs = [] \<or> satisfies bs
                (if gate_type g = ''not_null'' then NotNull c
                 else if gate_type g = ''unique'' then Unique c
                 else Range c (Finite 0) (unwrap_or f64_MAX (threshold g)))))
      else gate_type g = ''row_count'' \<longrightarrow>
        bs = [] \<or> f64_as_usize (unwrap_or (Finite 1) (threshold g)) \<le> total_rows bs)"

lemma passed_single:
  "passed (validate_batches fe now \<lparr>gate_id = i, gate_table = t, gate_checks = [check], gate_enabled = True\<rparr> bs)
    \<longleftrightarrow> bs = [] \<or> satisfies bs check"
  using no_failures_iff [of fe "[check]" bs] by (simp add: validate_batches_def Let_def)

text \<open>The gates of an executable table over its output. One of a known type with its column passes
  when the output has no batch or meets the check; row_count demands the threshold cut to a whole
  number, at least one row without it, and range the numbers from zero to the threshold; a missing
  column fails, and custom SQL or an unknown type passes whatever the data.\<close>

theorem validate_gates_iff:
  "map result_passed (validate_gates fe now gates bs) = map (gate_holds bs) gates"
proof -
  have "result_passed (validate_gate fe now bs g) = gate_holds bs g" for g
    unfolding gate_holds_def
    by (simp add: validate_gate_def gate_check_def Let_def passed_single no_column_def split: option.split)
  then show ?thesis by (simp add: validate_gates_def)
qed

end
