(* ===== verification/Executable_Lifecycle.thy ===== *)
theory Executable_Lifecycle
  imports Executable_Table Output_Regression "HOL-Library.Finite_Map"
begin

text \<open>
  The life of an executable table: the records of \<open>crates/rustlake-api/src/executable_table.rs\<close>, its
  Iceberg properties, and the handlers of \<open>routes.rs\<close> that create a table, change its source, roll it
  back and record executions. The state is the list of tables behind its lock; a handler works on the
  first table of a name. Version numbers are 32-bit words, counters 64-bit words, costs and times are
  finite doubles; clock texts, random ids and the text of a double are arguments.
\<close>

section \<open>State\<close>

record table_transform =
  transform_type :: string
  source_code :: string
  source_hash :: string
  binary_path :: "string option"
  binary_size :: "u64 option"
  binary_cached :: bool
  compiler_version :: "string option"
  target_arch :: "string option"

record table_status =
  run_state :: string
  health :: string
  last_error :: "string option"
  staleness_hours :: rat
  data_freshness :: string

record execution_record =
  execution_id :: string
  started_at :: string
  completed_at :: "string option"
  duration_ms :: u64
  exec_status :: string
  rows_produced :: "u64 option"
  bytes_written :: "u64 option"
  cost_usd :: rat
  used_cache :: bool
  compile_ms :: u64
  run_ms :: u64
  exec_error :: "string option"
  execution_location :: string
  exec_version :: u32

record transform_version =
  version :: u32
  version_source :: string
  version_hash :: string
  version_created_at :: string
  created_by :: string
  change_description :: string
  binary_size_bytes :: "u64 option"
  snapshot_ids :: "int list"

record executable_table =
  table_name :: string
  table_location :: string
  transform_of :: table_transform
  schedule :: "string option"
  quality_gates :: "quality_gate_ref list"
  input_tables :: "string list"
  status_of :: table_status
  history :: "execution_record list"
  versions :: "transform_version list"
  created_at :: string
  last_refresh :: "string option"
  next_refresh :: "string option"
  estimated_cost_usd :: rat
  total_executions :: u64
  total_cost_usd :: rat
  incremental :: bool
  watermark_column :: "string option"
  last_watermark :: "string option"
  executions_skipped :: u64
  cost_saved_usd :: rat
  auto_refresh :: bool
  refresh_interval_seconds :: u64

type_synonym tables = "executable_table list"

text \<open>\<open>iter().find\<close> and \<open>iter_mut().find\<close> by name.\<close>

definition find_table :: "string \<Rightarrow> tables \<Rightarrow> executable_table option" where
  "find_table name ts = find (\<lambda>t. table_name t = name) ts"

fun update_table :: "string \<Rightarrow> (executable_table \<Rightarrow> executable_table) \<Rightarrow> tables \<Rightarrow> tables" where
  "update_table name f [] = []"
| "update_table name f (t # ts) = (if table_name t = name then f t # ts else t # update_table name f ts)"

text \<open>An HTTP answer is the value of a success or the status code and message of an error.\<close>

type_synonym 'a http = "(nat \<times> string) + 'a"

section \<open>Iceberg properties\<close>

fun gate_properties :: "nat \<Rightarrow> quality_gate_ref list \<Rightarrow> (string, string) fmap \<Rightarrow> (string, string) fmap" where
  "gate_properties i [] m = m"
| "gate_properties i (g # gs) m =
     (let pfx = ''rustlake.quality-gate.'' @ show_nat i;
          m1 = fmupd (pfx @ ''.type'') (gate_type g) m;
          m2 = (case gate_column g of Some c \<Rightarrow> fmupd (pfx @ ''.column'') c m1 | None \<Rightarrow> m1)
      in gate_properties (i + 1) gs (fmupd (pfx @ ''.description'') (description g) m2))"

fun input_properties :: "nat \<Rightarrow> string list \<Rightarrow> (string, string) fmap \<Rightarrow> (string, string) fmap" where
  "input_properties i [] m = m"
| "input_properties i (x # xs) m =
     input_properties (i + 1) xs (fmupd (''rustlake.input-table.'' @ show_nat i) x m)"

definition opt_property :: "string \<Rightarrow> string option \<Rightarrow> (string, string) fmap \<Rightarrow> (string, string) fmap" where
  "opt_property k v m = (case v of Some x \<Rightarrow> fmupd k x m | None \<Rightarrow> m)"

definition to_iceberg_properties :: "(rat \<Rightarrow> string) \<Rightarrow> executable_table \<Rightarrow> (string, string) fmap" where
  "to_iceberg_properties show6 t =
     (let tr = transform_of t;
          m1 = fmupd ''rustlake.transform.source-hash'' (source_hash tr)
            (fmupd ''rustlake.transform.type'' (transform_type tr)
            (fmupd ''rustlake.executable'' ''true'' fmempty));
          m2 = opt_property ''rustlake.schedule'' (schedule t)
            (opt_property ''rustlake.transform.binary-path'' (binary_path tr) m1);
          m3 = input_properties 0 (input_tables t) (gate_properties 0 (quality_gates t) m2)
      in fmupd ''rustlake.estimated-cost-per-run'' (show6 (estimated_cost_usd t))
        (fmupd ''rustlake.total-cost-usd'' (show6 (total_cost_usd t))
        (fmupd ''rustlake.total-executions'' (show_nat (unat (total_executions t))) m3)))"

definition from_iceberg_properties ::
  "(string \<Rightarrow> rat option) \<Rightarrow> string \<Rightarrow> (string, string) fmap \<Rightarrow> string \<Rightarrow> executable_table option" where
  "from_iceberg_properties parse_f64 now props name =
     (if fmlookup props ''rustlake.executable'' \<noteq> Some ''true'' then None
      else case fmlookup props ''rustlake.transform.type'' of
        None \<Rightarrow> None
      | Some ty \<Rightarrow>
          (let path = fmlookup props ''rustlake.transform.binary-path'';
               number = (\<lambda>k. unwrap_or 0 (Option.bind (fmlookup props k) parse_f64))
           in Some \<lparr>table_name = name, table_location = [],
             transform_of = \<lparr>transform_type = ty, source_code = [],
               source_hash = unwrap_or [] (fmlookup props ''rustlake.transform.source-hash''),
               binary_path = path, binary_size = None, binary_cached = (path \<noteq> None),
               compiler_version = None, target_arch = None\<rparr>,
             schedule = fmlookup props ''rustlake.schedule'', quality_gates = [], input_tables = [],
             status_of = \<lparr>run_state = ''active'', health = ''healthy'', last_error = None,
               staleness_hours = 0, data_freshness = ''unknown''\<rparr>,
             history = [], versions = [], created_at = now, last_refresh = None, next_refresh = None,
             estimated_cost_usd = number ''rustlake.estimated-cost-per-run'',
             total_executions = unwrap_or 0
               (Option.bind (fmlookup props ''rustlake.total-executions'') parse_u64),
             total_cost_usd = number ''rustlake.total-cost-usd'',
             incremental = False, watermark_column = None, last_watermark = None,
             executions_skipped = 0, cost_saved_usd = 0, auto_refresh = False,
             refresh_interval_seconds = 0\<rparr>))"

section \<open>Versions of the source\<close>

definition max_version :: "transform_version list \<Rightarrow> u32" where
  "max_version vs = (case vs of [] \<Rightarrow> 1 | v # r \<Rightarrow> fold max (map version r) (version v))"

definition initial_version :: "executable_table \<Rightarrow> transform_version" where
  "initial_version t =
     \<lparr>version = 1, version_source = source_code (transform_of t), version_hash = source_hash (transform_of t),
      version_created_at = created_at t, created_by = ''user'', change_description = ''Initial transform'',
      binary_size_bytes = binary_size (transform_of t), snapshot_ids = map (\<lambda>i. int i + 1) [0..<length (history t)]\<rparr>"

definition list_transform_versions :: "string \<Rightarrow> tables \<Rightarrow> (transform_version list \<times> u32 \<times> string) http" where
  "list_transform_versions name ts =
     (case find_table name ts of
        None \<Rightarrow> Inl (404, ''Table not found'')
      | Some t \<Rightarrow>
          (let vs = (if versions t = [] then [initial_version t] else versions t)
           in Inr (vs, max_version vs, source_hash (transform_of t))))"

text \<open>Two executions in the order they ran are compared.\<close>

definition compare_executions :: "execution_record \<Rightarrow> execution_record \<Rightarrow> regression_result" where
  "compare_executions prev cur =
     detect_regression (map_option unat (rows_produced prev)) (map_option unat (rows_produced cur))
       (unat (duration_ms prev)) (unat (duration_ms cur)) (cost_usd prev) (cost_usd cur)"

definition last_regression :: "execution_record list \<Rightarrow> regression_result option" where
  "last_regression hist =
     (case rev hist of cur # prev # _ \<Rightarrow> Some (compare_executions prev cur) | _ \<Rightarrow> None)"

record update_report =
  new_version :: u32
  report_description :: string
  from_hash :: string
  to_hash :: string
  report_diff :: "diff_line list \<times> nat \<times> nat \<times> nat"
  report_regression :: "regression_result option"

definition diff_counts :: "diff_line list \<times> nat \<times> nat \<times> nat \<Rightarrow> string" where
  "diff_counts d = (case d of (_, a, r, c) \<Rightarrow>
     ''Code update: +'' @ show_nat a @ '' -'' @ show_nat r @ '' ~'' @ show_nat c @ '' lines'')"

definition updated_table :: "string \<Rightarrow> string \<Rightarrow> string \<Rightarrow> executable_table \<Rightarrow> executable_table" where
  "updated_table now new_source desc t =
     (let tr = transform_of t; h = hash_source new_source;
          n = (if versions t = [] then 2 else max_version (versions t) + 1);
          vs = (if versions t = [] then [initial_version t] else versions t)
      in t\<lparr>versions := vs @ [\<lparr>version = n, version_source = new_source, version_hash = h,
              version_created_at = now, created_by = ''user'', change_description = desc,
              binary_size_bytes = binary_size tr, snapshot_ids = []\<rparr>],
           transform_of := tr\<lparr>source_code := new_source, source_hash := h, binary_cached := False,
              binary_path := None\<rparr>\<rparr>)"

definition update_executable_table ::
  "string \<Rightarrow> string \<Rightarrow> string \<Rightarrow> string option \<Rightarrow> tables \<Rightarrow> update_report option http \<times> tables" where
  "update_executable_table now name new_source desc ts =
     (case find_table name ts of
        None \<Rightarrow> (Inl (404, ''Executable table '' @ quote name @ '' not found''), ts)
      | Some t \<Rightarrow>
          (let tr = transform_of t; h = hash_source new_source
           in if source_hash tr = h then (Inr None, ts)
              else let d = diff_transforms (source_code tr) new_source;
                       text = (case desc of Some x \<Rightarrow> x | None \<Rightarrow> diff_counts d);
                       t' = updated_table now new_source text t
                   in (Inr (Some \<lparr>new_version = version (last (versions t')), report_description = text,
                         from_hash = source_hash tr, to_hash = h, report_diff = d,
                         report_regression = last_regression (history t)\<rparr>),
                       update_table name (updated_table now new_source text) ts)))"

definition find_version :: "u32 \<Rightarrow> transform_version list \<Rightarrow> transform_version option" where
  "find_version n vs = find (\<lambda>v. version v = n) vs"

text \<open>A rollback, by hand or by the scheduler, appends a copy of the old version and restores its source;
  \<open>binary_path\<close> is left as it is.\<close>

definition push_rollback :: "string \<Rightarrow> string \<Rightarrow> string \<Rightarrow> transform_version \<Rightarrow> executable_table \<Rightarrow> executable_table" where
  "push_rollback now who desc v t =
     t\<lparr>versions := versions t @ [\<lparr>version = max_version (versions t) + 1, version_source = version_source v,
          version_hash = version_hash v, version_created_at = now, created_by = who,
          change_description = desc, binary_size_bytes = binary_size_bytes v, snapshot_ids = []\<rparr>],
       transform_of := (transform_of t)\<lparr>source_code := version_source v, source_hash := version_hash v,
          binary_cached := False\<rparr>\<rparr>"

definition rollback_executable_table ::
  "string \<Rightarrow> string \<Rightarrow> u32 \<Rightarrow> tables \<Rightarrow> (u32 \<times> string \<times> (diff_line list \<times> nat \<times> nat \<times> nat)) http \<times> tables" where
  "rollback_executable_table now name n ts =
     (case find_table name ts of
        None \<Rightarrow> (Inl (404, ''Executable table '' @ quote name @ '' not found''), ts)
      | Some t \<Rightarrow>
          (if versions t = []
           then (Inl (400, ''No version history available. Update the table at least once before rolling back.''), ts)
           else case find_version n (versions t) of
                  None \<Rightarrow> (Inl (404, ''Version '' @ show_nat (unat n) @ '' not found''), ts)
                | Some v \<Rightarrow>
                    (Inr (max_version (versions t) + 1, version_hash v,
                          diff_transforms (source_code (transform_of t)) (version_source v)),
                     update_table name
                       (push_rollback now ''user'' (''Rollback to version '' @ show_nat (unat n)) v) ts)))"

section \<open>Tables fed by a pipeline\<close>

text \<open>New events of a streaming pipeline: every table whose first version is the marker of the pipeline
  counts as refreshed, and its last execution gets the new event count.\<close>

definition pipeline_marker :: "string \<Rightarrow> string" where
  "pipeline_marker pipeline = ''streaming_cdc:'' @ pipeline"

definition linked_to :: "string \<Rightarrow> executable_table \<Rightarrow> bool" where
  "linked_to pipeline t \<longleftrightarrow> transform_type (transform_of t) = ''streaming_cdc'' \<and>
     (case versions t of v # _ \<Rightarrow> version_source v = pipeline_marker pipeline | [] \<Rightarrow> False)"

definition set_last_rows :: "u64 \<Rightarrow> string \<Rightarrow> execution_record list \<Rightarrow> execution_record list" where
  "set_last_rows events now hist =
     (if hist = [] then []
      else butlast hist @ [(last hist)\<lparr>rows_produced := Some events, completed_at := Some now\<rparr>])"

definition pipeline_refresh :: "string \<Rightarrow> u64 \<Rightarrow> executable_table \<Rightarrow> executable_table" where
  "pipeline_refresh now events t =
     t\<lparr>status_of := (status_of t)\<lparr>data_freshness := ''fresh'', health := ''healthy'', staleness_hours := 0\<rparr>,
       last_refresh := Some now, history := set_last_rows events now (history t)\<rparr>"

definition update_glacier_from_pipeline :: "string \<Rightarrow> string \<Rightarrow> u64 \<Rightarrow> tables \<Rightarrow> tables" where
  "update_glacier_from_pipeline now pipeline events ts =
     map (\<lambda>t. if linked_to pipeline t then pipeline_refresh now events t else t) ts"

section \<open>Lookup and update by name\<close>

lemma find_table_simps [simp]:
  "find_table n [] = None"
  "find_table n (t # ts) = (if table_name t = n then Some t else find_table n ts)"
  by (simp_all add: find_table_def)

lemma find_update_same:
  assumes "\<And>t. table_name (f t) = table_name t"
  shows "find_table n (update_table n f ts) = map_option f (find_table n ts)"
  using assms by (induction ts) auto

lemma find_update_other:
  assumes "\<And>t. table_name (f t) = table_name t" and "m \<noteq> n"
  shows "find_table m (update_table n f ts) = find_table m ts"
  using assms by (induction ts) auto

lemma update_table_all:
  assumes "list_all P ts" and "\<And>t. P t \<Longrightarrow> P (f t)"
  shows "list_all P (update_table n f ts)"
  using assms by (induction ts) auto

lemma update_table_all2:
  assumes "\<And>t. R t t" and "\<And>t. R t (f t)"
  shows "list_all2 R ts (update_table n f ts)"
  using assms by (induction ts) (auto simp: list.rel_refl)

lemma update_found:
  assumes "find_table n ts = Some t" and "f t = g t"
  shows "update_table n f ts = update_table n g ts"
  using assms by (induction ts) (auto split: if_splits)

lemma find_table_name: "find_table n ts = Some t \<Longrightarrow> table_name t = n"
  by (induction ts) (auto split: if_splits)

end
