(* ===== verification/Parquet_Sink.thy ===== *)
theory Parquet_Sink
  imports Quality_Gates Iceberg_History
begin

text \<open>
  The sink that writes query results: \<open>crates/rustlake-api/src/parquet_sink.rs\<close>. Batches are buffered
  until the row threshold, each flush puts one Parquet file, and the list of files becomes the first
  or the next snapshot of an Iceberg table. The Parquet writer, the store client and the clock (the
  date and time of each flush) are arguments. Counters are 64-bit words.
\<close>

section \<open>Configuration and state\<close>

record parquet_sink_config =
  config_bucket :: string
  config_prefix :: string
  config_endpoint :: "string option"
  config_access_key :: string
  config_secret_key :: string
  config_region :: string

definition from_s3_uri ::
  "string \<Rightarrow> string option \<Rightarrow> string \<Rightarrow> string \<Rightarrow> string \<Rightarrow> parquet_sink_config result" where
  "from_s3_uri uri endpoint access_key secret_key region =
     (case (case strip_prefix ''s3://'' uri of Some r \<Rightarrow> Some r | None \<Rightarrow> strip_prefix ''s3a://'' uri) of
        None \<Rightarrow> Err (''Invalid S3 URI: '' @ uri)
      | Some stripped \<Rightarrow>
          (let slash_pos = unwrap_or (length stripped) (find_str stripped ''/'')
           in Ok \<lparr>config_bucket = take slash_pos stripped,
                  config_prefix = (if slash_pos < length stripped
                    then trim_end_matches (CHR ''/'') (drop (slash_pos + 1) stripped) else []),
                  config_endpoint = endpoint, config_access_key = access_key,
                  config_secret_key = secret_key, config_region = region\<rparr>))"

record parquet_sink =
  sink_prefix :: string
  flush_threshold :: u64
  buffer :: "record_batch list"
  buffer_rows :: u64
  files_written :: u64
  total_rows_written :: u64
  sink_data_files :: "data_file_info list"
  last_schema :: "arrow_field list option"
  sink_bucket :: string

text \<open>The steps at which the Arrow writer can fail.\<close>

datatype parquet_step = WriterInit | WriteBatch | WriterClose

fun step_message :: "parquet_step \<Rightarrow> string" where
  "step_message WriterInit = ''Parquet writer init: ''"
| "step_message WriteBatch = ''Parquet write batch: ''"
| "step_message WriterClose = ''Parquet close: ''"

record 's sink_env =
  sink_store :: "'s env"
  build_store :: "parquet_sink_config \<Rightarrow> string + unit"
  parquet_bytes :: "arrow_field list \<Rightarrow> record_batch list \<Rightarrow> (parquet_step \<times> string) + string"
  flush_time :: "u64 \<Rightarrow> string \<times> string"

definition new_sink :: "'s sink_env \<Rightarrow> parquet_sink_config \<Rightarrow> u64 \<Rightarrow> parquet_sink result" where
  "new_sink E config threshold =
     (case build_store E config of
        Inl e \<Rightarrow> Err (''Failed to build S3 store: '' @ e)
      | Inr _ \<Rightarrow> Ok \<lparr>sink_prefix = config_prefix config, flush_threshold = threshold, buffer = [],
          buffer_rows = 0, files_written = 0, total_rows_written = 0, sink_data_files = [],
          last_schema = None, sink_bucket = config_bucket config\<rparr>)"

section \<open>Writing\<close>

definition batch_file :: "string \<Rightarrow> string \<times> string \<Rightarrow> u64 \<Rightarrow> string" where
  "batch_file pfx time n =
     pfx @ ''/'' @ fst time @ ''/batch-'' @ snd time @ ''-'' @ pad4 (unat n) @ ''.parquet''"

definition flush :: "'s sink_env \<Rightarrow> parquet_sink \<Rightarrow> 's \<Rightarrow> unit result \<times> parquet_sink \<times> 's" where
  "flush E k s =
     (case buffer k of
        [] \<Rightarrow> (Ok (), k, s)
      | b # _ \<Rightarrow>
          (case parquet_bytes E (batch_schema b) (buffer k) of
             Inl (step, e) \<Rightarrow> (Err (step_message step @ e), k, s)
           | Inr bytes \<Rightarrow>
               (let k1 = k\<lparr>files_written := files_written k + 1\<rparr>;
                    file = batch_file (sink_prefix k) (flush_time E (files_written k1)) (files_written k1)
                in case store_put (sink_store E) s file bytes of
                     (Inl e, s1) \<Rightarrow> (Err (''S3 PUT failed for '' @ quote file @ '': '' @ e), k1, s1)
                   | (Inr _, s1) \<Rightarrow>
                       (Ok (), k1\<lparr>total_rows_written := total_rows_written k + buffer_rows k,
                          sink_data_files := sink_data_files k @
                            [\<lparr>file_path = file, file_size = of_nat (length bytes), row_count = buffer_rows k\<rparr>],
                          last_schema := Some (batch_schema b), buffer := [], buffer_rows := 0\<rparr>, s1))))"

definition write_batch ::
  "'s sink_env \<Rightarrow> record_batch \<Rightarrow> parquet_sink \<Rightarrow> 's \<Rightarrow> unit result \<times> parquet_sink \<times> 's" where
  "write_batch E b k s =
     (let k1 = k\<lparr>buffer := buffer k @ [b], buffer_rows := buffer_rows k + of_nat (num_rows b)\<rparr>
      in if flush_threshold k1 \<le> buffer_rows k1 then flush E k1 s else (Ok (), k1, s))"

section \<open>Iceberg metadata for the files written\<close>

definition finalize_iceberg_incremental ::
  "'s sink_env \<Rightarrow> int \<Rightarrow> string \<Rightarrow> table_state option \<Rightarrow> parquet_sink \<Rightarrow> 's \<Rightarrow> string result \<times> 's" where
  "finalize_iceberg_incremental E now uuid existing k s =
     (if sink_data_files k = [] then (Err ''No data files to create Iceberg metadata for'', s)
      else (case last_schema k of
              None \<Rightarrow> (Err ''No schema available for Iceberg metadata'', s)
            | Some schema \<Rightarrow>
                (case existing of
                   Some st \<Rightarrow> append_snapshot (sink_store E) now st (sink_data_files k) schema ''append'' s
                 | None \<Rightarrow> write_iceberg_metadata (sink_store E) now (sink_prefix k) schema
                             (sink_data_files k) uuid (sink_bucket k) s)))"

definition finalize_iceberg :: "'s sink_env \<Rightarrow> int \<Rightarrow> string \<Rightarrow> parquet_sink \<Rightarrow> 's \<Rightarrow> string result \<times> 's" where
  "finalize_iceberg E now uuid k s = finalize_iceberg_incremental E now uuid None k s"

definition s3_data_uri :: "parquet_sink \<Rightarrow> string \<Rightarrow> string" where
  "s3_data_uri k b = ''s3://'' @ b @ ''/'' @ sink_prefix k @ ''/''"

section \<open>File names\<close>

lemma replicate_zero_digits:
  "parse_digits 0 (replicate n (CHR ''0'') @ ds) = parse_digits 0 ds"
  by (induction n) (simp_all add: digit_val_def)

lemma pad4_inj: "pad4 m = pad4 n \<Longrightarrow> m = n"
proof -
  assume "pad4 m = pad4 n"
  then have "parse_digits 0 (pad4 m) = parse_digits 0 (pad4 n)" by simp
  then show ?thesis by (simp add: pad4_def replicate_zero_digits parse_digits_show_nat)
qed

lemma pad4_no_char: "c \<noteq> CHR ''0'' \<Longrightarrow> (of_char c :: nat) < 48 \<or> 57 < (of_char c :: nat) \<Longrightarrow> c \<notin> set (pad4 n)"
  using digits_no_char [of c n] by (auto simp: pad4_def)

lemma after_last: "c \<notin> set x \<Longrightarrow> c \<notin> set y \<Longrightarrow> a @ c # x = b @ c # y \<Longrightarrow> x = y"
proof -
  have t: "takeWhile (\<lambda>d. d \<noteq> c) (rev (z @ c # w)) = rev w" if "c \<notin> set w" for z w :: "'a list"
    using that takeWhile_append2 [of "rev w" "\<lambda>d. d \<noteq> c" "c # rev z"] by auto
  assume "c \<notin> set x" "c \<notin> set y" "a @ c # x = b @ c # y"
  with t [of x a] t [of y b] have "rev x = rev y" by simp
  then show ?thesis by simp
qed

lemma batch_file_segments:
  assumes "path_segments (batch_file p t m) = path_segments (batch_file q u n)"
    and "CHR ''/'' \<notin> set (snd t)" and "CHR ''/'' \<notin> set (snd u)"
  shows "m = n"
proof -
  have l: "last (path_segments (batch_file p t k)) = ''batch-'' @ snd t @ ''-'' @ pad4 (unat k) @ ''.parquet''"
    if "CHR ''/'' \<notin> set (snd t)" for p t k
    using path_segments_last [of "''batch-'' @ snd t @ ''-'' @ pad4 (unat k) @ ''.parquet''" "p @ ''/'' @ fst t"]
      that pad4_no_char [of "CHR ''/''"] by (simp add: batch_file_def)
  have "''batch-'' @ snd t @ ''-'' @ pad4 (unat m) @ ''.parquet'' = ''batch-'' @ snd u @ ''-'' @ pad4 (unat n) @ ''.parquet''"
    using assms(1) l [OF assms(2), of p m] l [OF assms(3), of q n] by argo
  then have "(snd t) @ CHR ''-'' # (pad4 (unat m) @ ''.parquet'') = (snd u) @ CHR ''-'' # (pad4 (unat n) @ ''.parquet'')"
    by simp
  then have "pad4 (unat m) @ ''.parquet'' = pad4 (unat n) @ ''.parquet''"
    by (rule after_last [rotated 2]) (use pad4_no_char [of "CHR ''-''"] in auto)
  then show ?thesis using pad4_inj by (auto dest: unsigned_word_eqI)
qed

section \<open>Every row is written once\<close>

text \<open>The loop of the table executor (\<open>execute_executable_table\<close> in \<open>routes.rs\<close>): empty batches are left
  out, the first failure ends it.\<close>

fun write_all ::
  "'s sink_env \<Rightarrow> record_batch list \<Rightarrow> parquet_sink \<Rightarrow> 's \<Rightarrow> bool \<times> parquet_sink \<times> 's" where
  "write_all E [] k s = (True, k, s)"
| "write_all E (b # bs) k s =
     (if num_rows b = 0 then write_all E bs k s
      else case write_batch E b k s of
             (Ok _, k1, s1) \<Rightarrow> write_all E bs k1 s1
           | (_, k1, s1) \<Rightarrow> (False, k1, s1))"

text \<open>A data file holds a group of batches: its counters are those of the group and its content in
  the store is what the Parquet writer made of it.\<close>

definition holds_group :: "'s sink_env \<Rightarrow> 's \<Rightarrow> record_batch list \<Rightarrow> data_file_info \<Rightarrow> bool" where
  "holds_group E s g f \<longleftrightarrow> g \<noteq> [] \<and> row_count f = of_nat (total_rows g) \<and>
     (\<exists>bytes. parquet_bytes E (batch_schema (hd g)) g = Inr bytes \<and> file_size f = of_nat (length bytes) \<and>
        store_get (sink_store E) s (file_path f) = Inr (Inr bytes))"

definition own_file :: "'s sink_env \<Rightarrow> parquet_sink \<Rightarrow> data_file_info \<Rightarrow> bool" where
  "own_file E k f \<longleftrightarrow> (\<exists>p n. file_path f = batch_file p (flush_time E n) n \<and> n \<le> files_written k)"

definition sink_ok :: "'s sink_env \<Rightarrow> parquet_sink \<Rightarrow> 's \<Rightarrow> record_batch list list \<Rightarrow> bool" where
  "sink_ok E k s groups \<longleftrightarrow>
     list_all2 (holds_group E s) groups (sink_data_files k) \<and>
     (\<forall>f \<in> set (sink_data_files k). own_file E k f) \<and>
     total_rows_written k = of_nat (total_rows (concat groups)) \<and>
     buffer_rows k = of_nat (total_rows (buffer k)) \<and>
     (last_schema k = None \<longleftrightarrow> sink_data_files k = []) \<and>
     unat (files_written k) = length groups"

lemma total_rows_append [simp]: "total_rows (xs @ ys) = total_rows xs + total_rows ys"
  by (simp add: total_rows_def)

lemma total_rows_Nil [simp]: "total_rows [] = 0"
  by (simp add: total_rows_def)

definition plain_times :: "'s sink_env \<Rightarrow> bool" where
  "plain_times E \<longleftrightarrow> (\<forall>n. CHR ''/'' \<notin> set (snd (flush_time E n)))"

lemma flush_Ok:
  assumes "flush E k s = (Ok (), k', s')" and "buffer k = b # bs" and "n = files_written k + 1"
    and "file = batch_file (sink_prefix k) (flush_time E n) n"
  shows "\<exists>bytes. parquet_bytes E (batch_schema b) (buffer k) = Inr bytes \<and>
    store_put (sink_store E) s file bytes = (Inr (), s') \<and>
    k' = k\<lparr>files_written := n, total_rows_written := total_rows_written k + buffer_rows k,
      sink_data_files := sink_data_files k @ [\<lparr>file_path = file, file_size = of_nat (length bytes), row_count = buffer_rows k\<rparr>],
      last_schema := Some (batch_schema b), buffer := [], buffer_rows := 0\<rparr>"
proof (cases "parquet_bytes E (batch_schema b) (buffer k)")
  case (Inl e)
  with assms(1,2) show ?thesis by (cases e) (simp add: flush_def)
next
  case (Inr bytes)
  obtain r s1 where r: "store_put (sink_store E) s file bytes = (r, s1)" by fastforce
  show ?thesis
    using assms(1) Inr r unfolding flush_def assms(2) list.case Let_def assms(3,4)
    by (cases r) (simp_all add: assms(2))
qed

lemma flush_keeps:
  assumes "env_ok (sink_store E)" and "plain_times E" and "sink_ok E k s groups"
    and "length groups + 1 < 2 ^ 64" and "flush E k s = (Ok (), k', s')"
  shows "sink_ok E k' s' (if buffer k = [] then groups else groups @ [buffer k]) \<and> buffer k' = [] \<and>
    flush_threshold k' = flush_threshold k \<and> sink_prefix k' = sink_prefix k \<and> sink_bucket k' = sink_bucket k"
proof (cases "buffer k")
  case Nil
  with assms(3,5) show ?thesis by (simp add: flush_def)
next
  case (Cons b bs)
  let ?n = "files_written k + 1"
  let ?file = "batch_file (sink_prefix k) (flush_time E ?n) ?n"
  obtain bytes where bytes: "parquet_bytes E (batch_schema b) (buffer k) = Inr bytes"
    and put: "store_put (sink_store E) s ?file bytes = (Inr (), s')"
    and k': "k' = k\<lparr>files_written := ?n, total_rows_written := total_rows_written k + buffer_rows k,
      sink_data_files := sink_data_files k @ [\<lparr>file_path = ?file, file_size = of_nat (length bytes), row_count = buffer_rows k\<rparr>],
      last_schema := Some (batch_schema b), buffer := [], buffer_rows := 0\<rparr>"
    using flush_Ok [OF assms(5) Cons refl refl] by blast
  have n: "unat ?n = length groups + 1"
    using assms(3,4) unat_word_ariths(1) [of "files_written k" 1] by (simp add: sink_ok_def)
  have frame: "store_get (sink_store E) s' (file_path f) = store_get (sink_store E) s (file_path f)"
    if f: "f \<in> set (sink_data_files k)" for f
  proof -
    from f assms(3) obtain p m where m: "file_path f = batch_file p (flush_time E m) m" "m \<le> files_written k"
      unfolding sink_ok_def own_file_def by blast
    have "m \<noteq> ?n" using m(2) n assms(3) by (auto simp: sink_ok_def word_le_nat_alt)
    then have "path_segments (file_path f) \<noteq> path_segments ?file"
      using batch_file_segments [of p "flush_time E m" m "sink_prefix k" "flush_time E ?n" ?n] assms(2) m(1)
      by (auto simp: plain_times_def)
    with assms(1) put show ?thesis unfolding env_ok_def by blast
  qed
  have "list_all2 (holds_group E s') groups (sink_data_files k)"
    using assms(3) frame unfolding sink_ok_def holds_group_def
    by (auto simp: list_all2_conv_all_nth)
  moreover have "store_get (sink_store E) s' ?file = Inr (Inr bytes)" using assms(1) put unfolding env_ok_def by blast
  then have "holds_group E s' (buffer k) \<lparr>file_path = ?file, file_size = of_nat (length bytes), row_count = buffer_rows k\<rparr>"
    using assms(3) bytes Cons by (simp add: holds_group_def sink_ok_def)
  ultimately have "list_all2 (holds_group E s') (groups @ [buffer k]) (sink_data_files k')"
    by (simp add: k' list_all2_appendI)
  moreover have "own_file E k' f" if "f \<in> set (sink_data_files k')" for f
  proof -
    have "files_written k \<le> ?n" using n assms(3) by (simp add: word_le_nat_alt sink_ok_def)
    with that assms(3) show ?thesis unfolding k' sink_ok_def own_file_def by (fastforce intro: order_trans)
  qed
  ultimately show ?thesis using n assms(3) Cons by (simp add: sink_ok_def k')
qed

definition full_groups :: "parquet_sink \<Rightarrow> record_batch list list \<Rightarrow> bool" where
  "full_groups k groups \<longleftrightarrow> (\<forall>g \<in> set groups. flush_threshold k \<le> of_nat (total_rows g))"

lemma write_batch_keeps:
  assumes "env_ok (sink_store E)" and "plain_times E" and "sink_ok E k s groups" and "full_groups k groups"
    and "length groups + 1 < 2 ^ 64" and "write_batch E b k s = (Ok (), k', s')"
  shows "\<exists>groups'. sink_ok E k' s' groups' \<and> full_groups k' groups' \<and>
    concat groups' @ buffer k' = concat groups @ buffer k @ [b] \<and> length groups' \<le> length groups + 1 \<and>
    flush_threshold k' = flush_threshold k \<and> sink_prefix k' = sink_prefix k \<and> sink_bucket k' = sink_bucket k"
proof -
  let ?k = "k\<lparr>buffer := buffer k @ [b], buffer_rows := buffer_rows k + of_nat (num_rows b)\<rparr>"
  have ok: "sink_ok E ?k s groups"
    using assms(3) by (simp add: sink_ok_def own_file_def total_rows_def)
  show ?thesis
  proof (cases "flush_threshold ?k \<le> buffer_rows ?k")
    case True
    with assms(6) have "flush E ?k s = (Ok (), k', s')" by (simp add: write_batch_def Let_def)
    from flush_keeps [OF assms(1,2) ok assms(5) this]
    have "sink_ok E k' s' (groups @ [buffer ?k]) \<and> buffer k' = [] \<and>
      flush_threshold k' = flush_threshold k \<and> sink_prefix k' = sink_prefix k \<and> sink_bucket k' = sink_bucket k"
      by simp
    moreover have "buffer_rows ?k = of_nat (total_rows (buffer ?k))" using ok by (simp add: sink_ok_def)
    then have "flush_threshold k \<le> of_nat (total_rows (buffer ?k))" using True by simp
    ultimately show ?thesis using assms(4)
      by (intro exI [of _ "groups @ [buffer ?k]"]) (simp add: full_groups_def)
  next
    case False
    with assms(6) have "k' = ?k" "s' = s" by (auto simp: write_batch_def Let_def)
    with ok assms(4) show ?thesis by (intro exI [of _ groups]) (simp add: full_groups_def)
  qed
qed

lemma write_all_keeps:
  assumes "env_ok (sink_store E)" and "plain_times E"
  shows "sink_ok E k s groups \<Longrightarrow> full_groups k groups \<Longrightarrow> length groups + length bs < 2 ^ 64 \<Longrightarrow>
    write_all E bs k s = (True, k', s') \<Longrightarrow>
    \<exists>groups'. sink_ok E k' s' groups' \<and> full_groups k' groups' \<and>
      concat groups' @ buffer k' = concat groups @ buffer k @ filter (\<lambda>b. num_rows b \<noteq> 0) bs \<and>
      length groups' \<le> length groups + length bs \<and>
      flush_threshold k' = flush_threshold k \<and> sink_prefix k' = sink_prefix k \<and> sink_bucket k' = sink_bucket k"
proof (induction bs arbitrary: k s groups)
  case Nil
  then show ?case by auto
next
  case (Cons b bs)
  show ?case
  proof (cases "num_rows b = 0")
    case True
    with Cons.prems obtain groups' where "sink_ok E k' s' groups' \<and> full_groups k' groups' \<and>
      concat groups' @ buffer k' = concat groups @ buffer k @ filter (\<lambda>b. num_rows b \<noteq> 0) bs \<and>
      length groups' \<le> length groups + length bs \<and>
      flush_threshold k' = flush_threshold k \<and> sink_prefix k' = sink_prefix k \<and> sink_bucket k' = sink_bucket k"
      using Cons.IH [of k s groups] by auto
    with True show ?thesis by (intro exI [of _ groups']) simp
  next
    case False
    obtain r k1 s1 where w: "write_batch E b k s = (r, k1, s1)" by (metis prod_cases3)
    with False Cons.prems(4) have r: "r = Ok ()" and rest: "write_all E bs k1 s1 = (True, k', s')"
      by (cases r; simp)+
    obtain g1 where g1: "sink_ok E k1 s1 g1" "full_groups k1 g1"
        "concat g1 @ buffer k1 = concat groups @ buffer k @ [b]" "length g1 \<le> length groups + 1"
        "flush_threshold k1 = flush_threshold k \<and> sink_prefix k1 = sink_prefix k \<and> sink_bucket k1 = sink_bucket k"
      using write_batch_keeps [OF assms Cons.prems(1,2) _ w [unfolded r]] Cons.prems(3) by auto
    then have "length g1 + length bs < 2 ^ 64" using Cons.prems(3) by simp
    from Cons.IH [OF g1(1,2) this rest] obtain groups' where
      g: "sink_ok E k' s' groups'" "full_groups k' groups'"
        "concat groups' @ buffer k' = (concat g1 @ buffer k1) @ filter (\<lambda>b. num_rows b \<noteq> 0) bs"
        "length groups' \<le> length g1 + length bs"
        "flush_threshold k' = flush_threshold k1 \<and> sink_prefix k' = sink_prefix k1 \<and> sink_bucket k' = sink_bucket k1"
      by auto
    then show ?thesis using g1 False by (intro exI [of _ groups']) simp
  qed
qed

lemma new_sink_ok:
  assumes "new_sink E config threshold = Ok k"
  shows "sink_ok E k s []" and "full_groups k []" and "buffer k = []" and "flush_threshold k = threshold"
    and "sink_prefix k = config_prefix config" and "sink_bucket k = config_bucket config"
  using assms by (auto simp: new_sink_def sink_ok_def full_groups_def total_rows_def split: sum.splits)

lemma holds_group_rows:
  "list_all2 (holds_group E s) groups files \<Longrightarrow> total_records files = of_nat (total_rows (concat groups))"
  by (induction rule: list_all2_induct) (simp_all add: total_records_def holds_group_def total_rows_def)

lemma total_rows_non_empty: "total_rows (filter (\<lambda>b. num_rows b \<noteq> 0) bs) = total_rows bs"
  by (induction bs) (simp_all add: total_rows_def)

lemma put_json_store_frame:
  assumes "env_ok E" and "put_json E jm pm p j s = (Ok (), s')" and "path_segments q \<noteq> path_segments p"
  shows "store_get E s' q = store_get E s q"
proof -
  from assms(2) obtain t where "store_put E s p t = (Inr (), s')"
    by (auto simp: put_json_def split: sum.splits prod.splits)
  with assms(1,3) show ?thesis unfolding env_ok_def by blast
qed

lemma batch_file_last:
  "CHR ''/'' \<notin> set (snd t) \<Longrightarrow>
    last (path_segments (batch_file p t k)) = ''batch-'' @ snd t @ ''-'' @ pad4 (unat k) @ ''.parquet''"
  using path_segments_last [of "''batch-'' @ snd t @ ''-'' @ pad4 (unat k) @ ''.parquet''" "p @ ''/'' @ fst t"]
    pad4_no_char [of "CHR ''/''"] by (simp add: batch_file_def)

lemma batch_file_not_metadata:
  assumes "CHR ''/'' \<notin> set (snd t)"
  shows "path_segments (batch_file p t k) \<noteq> path_segments (metadata_path d 1)"
    and "path_segments (batch_file p t k) \<noteq> path_segments (manifest_list_file d i)"
proof -
  have "last (path_segments ((d @ ''/metadata'') @ CHR ''/'' # (''v'' @ show_int 1 @ ''.metadata.json''))) =
      ''v'' @ show_int 1 @ ''.metadata.json''"
    using digits_no_char [of "CHR ''/''"] by (intro path_segments_last) (auto simp: show_int_def)
  then show "path_segments (batch_file p t k) \<noteq> path_segments (metadata_path d 1)"
    using batch_file_last [OF assms, of p k] by (auto simp: metadata_path_def)
  have "CHR ''/'' \<notin> set (show_int i)"
    using digits_no_char [of "CHR ''/''"] by (simp add: show_int_def)
  then have "last (path_segments ((d @ ''/metadata'') @ CHR ''/'' # (''snap-'' @ show_int i @ ''-manifest-list.json''))) =
      ''snap-'' @ show_int i @ ''-manifest-list.json''"
    by (intro path_segments_last) auto
  then show "path_segments (batch_file p t k) \<noteq> path_segments (manifest_list_file d i)"
    using batch_file_last [OF assms, of p k] by (auto simp: manifest_list_file_def)
qed

lemma write_iceberg_metadata_frame:
  assumes "env_ok E" and "write_iceberg_metadata E now pfx schema files uuid bucket s = (Ok path, s')"
    and "path_segments q \<noteq> path_segments (metadata_path pfx 1)"
    and "path_segments q \<noteq> path_segments (manifest_list_file pfx now)"
  shows "store_get E s' q = store_get E s q"
proof -
  let ?loc = "''s3://'' @ bucket @ ''/'' @ pfx"
  let ?m = "first_metadata now uuid ?loc schema files" and ?ml = "manifest_list_json ?loc now files"
  have files: "files \<noteq> []" using assms(2) by (auto simp: write_iceberg_metadata_def)
  obtain r s1 where r: "put_json E ''Metadata JSON: '' ''S3 PUT metadata: '' (metadata_path pfx 1) ?m s = (r, s1)"
    by fastforce
  obtain r2 s2 where r2: "put_json E ''Manifest JSON: '' ''S3 PUT manifest: '' (manifest_list_file pfx now) ?ml s1 = (r2, s2)"
    by fastforce
  have e: "r = Ok () \<and> r2 = Ok () \<and> s' = s2"
    using assms(2) files unfolding write_iceberg_metadata_def Let_def first_path r if_not_P [OF files]
    by (cases r; cases r2) (simp_all add: r2 del: append_Cons append_Nil)
  have "store_get E s2 q = store_get E s1 q"
    using e r2 by (intro put_json_store_frame [OF assms(1) _ assms(4)]) simp
  also have "\<dots> = store_get E s q"
    using e r by (intro put_json_store_frame [OF assms(1) _ assms(3)]) simp
  finally show ?thesis using e by simp
qed

lemma finalized_new_table:
  assumes "env_ok (sink_store E)" and "plain_times E" and "sink_ok E k s groups"
    and "finalize_iceberg E now uuid k s = (Ok path, s')" and "fits_i64 now"
    and "last_schema k = Some schema" and "int (length schema) < 2 ^ 31"
  shows "list_all2 (holds_group E s') groups (sink_data_files k) \<and>
    (\<exists>st n. load_table_state (sink_store E) s' path = Ok st \<and> snapshots st = [n] \<and>
      summary_total ''total-records'' n = of_nat (total_rows (concat groups)))"
proof
  let ?loc = "''s3://'' @ sink_bucket k @ ''/'' @ sink_prefix k"
  have files: "list_all2 (holds_group E s) groups (sink_data_files k)"
    and own: "\<forall>f \<in> set (sink_data_files k). own_file E k f"
    using assms(3) by (simp_all add: sink_ok_def)
  have w: "write_iceberg_metadata (sink_store E) now (sink_prefix k) schema (sink_data_files k) uuid
      (sink_bucket k) s = (Ok path, s')"
    using assms(4,6) by (simp add: finalize_iceberg_def finalize_iceberg_incremental_def split: if_splits)
  have "store_get (sink_store E) s' (file_path f) = store_get (sink_store E) s (file_path f)"
    if i: "f \<in> set (sink_data_files k)" for f
  proof -
    obtain p n where f: "file_path f = batch_file p (flush_time E n) n"
      using own i by (auto simp: own_file_def)
    have "CHR ''/'' \<notin> set (snd (flush_time E n))" using assms(2) by (simp add: plain_times_def)
    note d = batch_file_not_metadata [OF this]
    show ?thesis unfolding f by (rule write_iceberg_metadata_frame [OF assms(1) w d])
  qed
  with files show "list_all2 (holds_group E s') groups (sink_data_files k)"
    unfolding holds_group_def list_all2_conv_all_nth by simp
  let ?st = "state_of_metadata (first_metadata now uuid ?loc schema (sink_data_files k)) (metadata_path (sink_prefix k) 1)"
  have "path = metadata_path (sink_prefix k) 1" and load: "load_table_state (sink_store E) s' path = Ok ?st"
    using write_iceberg_metadata_Ok [OF assms(1) w] by auto
  moreover obtain n where "snapshots ?st = [n]" "summary_total ''total-records'' n = total_records (sink_data_files k)"
    using state_of_first_metadata(7) [OF assms(5,7) refl, where pfx = "sink_prefix k" and uuid = uuid and loc = ?loc
      and files = "sink_data_files k"] by blast
  ultimately show "\<exists>st n. load_table_state (sink_store E) s' path = Ok st \<and> snapshots st = [n] \<and>
      summary_total ''total-records'' n = of_nat (total_rows (concat groups))"
    using holds_group_rows [OF files] by metis
qed

text \<open>C24. A new sink that accepts every batch and the final flush has written each non-empty batch to
  exactly one file, in order, all groups but the last reaching the threshold; every file holds in the
  store what the Parquet writer made of its group, with the right row count and size. Finalized as a
  new table, the metadata reads back with one snapshot that counts all rows, and the files are still
  there.\<close>

theorem sink_writes_every_row:
  assumes "env_ok (sink_store E)" and "plain_times E" and "length bs + 1 < 2 ^ 64"
    and "new_sink E config threshold = Ok k" and "write_all E bs k s = (True, k1, s1)"
    and "flush E k1 s1 = (Ok (), k2, s2)"
  shows "\<exists>groups. concat groups = filter (\<lambda>b. num_rows b \<noteq> 0) bs \<and>
      list_all2 (holds_group E s2) groups (sink_data_files k2) \<and>
      (\<forall>g \<in> set (butlast groups). threshold \<le> of_nat (total_rows g)) \<and>
      total_rows_written k2 = of_nat (total_rows bs) \<and>
      (\<forall>now uuid path s3 schema. finalize_iceberg E now uuid k2 s2 = (Ok path, s3) \<and> fits_i64 now \<and>
         last_schema k2 = Some schema \<and> int (length schema) < 2 ^ 31 \<longrightarrow>
         list_all2 (holds_group E s3) groups (sink_data_files k2) \<and>
         (\<exists>st n. load_table_state (sink_store E) s3 path = Ok st \<and> snapshots st = [n] \<and>
            summary_total ''total-records'' n = of_nat (total_rows bs)))"
proof -
  note k = new_sink_ok [OF assms(4)]
  obtain g1 where g1: "sink_ok E k1 s1 g1" "full_groups k1 g1" "concat g1 @ buffer k1 = filter (\<lambda>b. num_rows b \<noteq> 0) bs"
      "length g1 \<le> length bs" "flush_threshold k1 = threshold"
    using write_all_keeps [OF assms(1,2) k(1,2) _ assms(5)] assms(3) k(3,4) by auto
  let ?g = "if buffer k1 = [] then g1 else g1 @ [buffer k1]"
  have ok: "sink_ok E k2 s2 ?g" "buffer k2 = []"
    using flush_keeps [OF assms(1,2) g1(1) _ assms(6)] g1(4) assms(3) by auto
  have c: "concat ?g = filter (\<lambda>b. num_rows b \<noteq> 0) bs" using g1(3) by auto
  then have t: "total_rows (concat ?g) = total_rows bs" by (simp only: total_rows_non_empty)
  have files: "list_all2 (holds_group E s2) ?g (sink_data_files k2)" using ok(1) by (simp only: sink_ok_def)
  have full: "\<forall>g \<in> set (butlast ?g). threshold \<le> of_nat (total_rows g)"
    using g1(2,5) by (auto simp: full_groups_def dest: in_set_butlastD)
  have "total_rows_written k2 = of_nat (total_rows bs)" using ok(1) t unfolding sink_ok_def by simp
  with c files full finalized_new_table [OF assms(1,2) ok(1)] t show ?thesis by metis
qed

definition demo_sink_env :: "(string \<times> string) list sink_env" where
  "demo_sink_env = \<lparr>sink_store = mem_env [], build_store = \<lambda>_. Inr (), parquet_bytes = \<lambda>_ _. Inr ''PAR1'',
     flush_time = \<lambda>_. (''2024-01-01'', ''120000'')\<rparr>"

definition demo_config :: parquet_sink_config where
  "demo_config = \<lparr>config_bucket = ''b'', config_prefix = ''t'', config_endpoint = None, config_access_key = ''a'',
     config_secret_key = ''s'', config_region = ''r''\<rparr>"

lemma sink_writes_every_row_witness:
  "\<exists>k k1 s1 k2 s2. new_sink demo_sink_env demo_config 500 = Ok k \<and>
     write_all demo_sink_env [demo_batch [Some 1, None], demo_batch [], demo_batch [Some 2]] k [] = (True, k1, s1) \<and>
     flush demo_sink_env k1 s1 = (Ok (), k2, s2) \<and> total_rows_written k2 = 3 \<and>
     list_all2 (holds_group demo_sink_env s2) [[demo_batch [Some 1, None], demo_batch [Some 2]]] (sink_data_files k2)"
proof -
  let ?bs = "[demo_batch [Some 1, None], demo_batch [], demo_batch [Some 2]]"
  have E: "env_ok (sink_store demo_sink_env)" "plain_times demo_sink_env"
    by (simp_all add: demo_sink_env_def mem_env_ok plain_times_def)
  obtain k where k: "new_sink demo_sink_env demo_config 500 = Ok k"
    by (simp add: new_sink_def demo_sink_env_def)
  obtain k1 where w: "write_all demo_sink_env ?bs k [] = (True, k1, [])" and b: "buffer k1 = [demo_batch [Some 1, None], demo_batch [Some 2]]"
    "sink_data_files k1 = []"
    using k by (auto simp: new_sink_def demo_sink_env_def write_batch_def demo_batch_def Let_def)
  obtain k2 s2 f where f: "flush demo_sink_env k1 [] = (Ok (), k2, s2)" and l: "sink_data_files k2 = [f]"
    using b by (auto simp: flush_def demo_sink_env_def mem_env_def Let_def)
  obtain groups where g: "concat groups = filter (\<lambda>b. num_rows b \<noteq> 0) ?bs"
      "list_all2 (holds_group demo_sink_env s2) groups (sink_data_files k2)" "total_rows_written k2 = of_nat (total_rows ?bs)"
    using sink_writes_every_row [OF E _ k w f] by auto
  from g(2) l obtain g where "groups = [g]" by (auto simp: list_all2_Cons2)
  with g k w f show ?thesis by (auto simp: demo_batch_def total_rows_def)
qed

text \<open>The file names count per sink: two sinks that first flush to one prefix within the same second
  write the same file.\<close>

lemma sinks_share_names:
  assumes "new_sink E config threshold = Ok k" and "new_sink E' config' threshold' = Ok k'"
    and "config_prefix config = config_prefix config'" and "flush_time E 1 = flush_time E' 1"
    and "write_batch E b k s = (Ok (), k1, s1)" and "write_batch E' b' k' s1 = (Ok (), k2, s2)"
    and "threshold \<le> of_nat (num_rows b)" and "threshold' \<le> of_nat (num_rows b')"
  shows "map file_path (sink_data_files k1) = map file_path (sink_data_files k2) \<and> sink_data_files k1 \<noteq> []"
proof -
  have 1: "map file_path (sink_data_files k1) = [batch_file (config_prefix config) (flush_time E 1) 1]"
    if n: "new_sink E config threshold = Ok k" and w: "write_batch E b k s = (Ok (), k1, s1)"
      and t: "threshold \<le> of_nat (num_rows b)" for E :: "'s sink_env" and config threshold k s b k1 s1
  proof -
    let ?k = "k\<lparr>buffer := buffer k @ [b], buffer_rows := buffer_rows k + of_nat (num_rows b)\<rparr>"
    from n have k: "buffer k = []" "buffer_rows k = 0" "flush_threshold k = threshold" "files_written k = 0"
        "sink_data_files k = []" "sink_prefix k = config_prefix config"
      by (auto simp: new_sink_def split: sum.splits)
    with w t have "flush E ?k s = (Ok (), k1, s1)" by (simp add: write_batch_def Let_def)
    from flush_Ok [OF this _ refl refl, of b "[]"] k show ?thesis by auto
  qed
  show ?thesis using 1 [OF assms(1,5,7)] 1 [OF assms(2,6,8)] assms(3,4) by auto
qed

end
