(* ===== verification/Table_Execution.thy ===== *)
theory Table_Execution
  imports Executable_Lifecycle Parquet_Sink Credential_Store
begin

text \<open>
  Executing an executable table: \<open>execute_executable_table\<close>, \<open>execute_version\<close> and what they use in
  \<open>crates/rustlake-api/src/routes.rs\<close>. A run gives batches, these go to Parquet files and an Iceberg
  snapshot under the prefix of the version, a compiled binary is uploaded beside them, the gates are
  evaluated, and the execution is recorded. The SQL engine, the Rust compiler, the local binary cache,
  the clock and random ids are arguments; the HTTP call by which the server registers the new files
  with itself, and logging, are left out.
\<close>

section \<open>Running the transform\<close>

record rust_outcome =
  rust_success :: bool
  rust_stdout :: string
  rust_compile_output :: string
  rust_compile_ms :: u64
  rust_run_ms :: u64
  rust_error :: "string option"

record s3_config_entry =
  cfg_bucket :: string
  cfg_endpoint :: string
  cfg_access_key :: string
  cfg_secret_key :: string
  cfg_region :: string

record 's run_env =
  sink_of :: "'s sink_env"
  run_sql :: "string \<Rightarrow> string + record_batch list"
  run_rust :: "string \<Rightarrow> rust_outcome"
  parse_f64_bits :: "string \<Rightarrow> u64 option"
  format_of :: format_env
  run_elapsed :: u64
  total_elapsed :: u64
  clock_text :: "nat \<Rightarrow> string"
  clock_ms :: int
  clock_ns :: int
  report_ms :: int
  fresh_id :: "nat \<Rightarrow> string"
  s3_configs :: "s3_config_entry list"
  s3_creds :: "(string, s3_bucket_creds) fmap"
  first_creds :: "s3_bucket_creds option"
  local_binary :: "string \<Rightarrow> string option"
  target_texts :: "string \<times> string"

text \<open>\<open>parse_csv_stdout_to_batches\<close>: a header line and rows of cells, a missing cell is empty; a column
  whose every cell parses as a number is one.\<close>

definition csv_cells :: "string \<Rightarrow> string list" where
  "csv_cells line = map trim (split_char (CHR '','') line)"

definition csv_column :: "string list list \<Rightarrow> nat \<Rightarrow> string list" where
  "csv_column rows i = map (\<lambda>r. if i < length r then r ! i else []) rows"

definition csv_array :: "(string \<Rightarrow> u64 option) \<Rightarrow> string list \<Rightarrow> column" where
  "csv_array parse vs =
     (if vs \<noteq> [] \<and> list_all (\<lambda>v. parse v \<noteq> None) vs
      then \<lparr>column_type = Float64, column_values = Floats64 (map (\<lambda>v. Some (unwrap_or 0 (parse v))) vs)\<rparr>
      else \<lparr>column_type = Utf8, column_values = Strings (map Some vs)\<rparr>)"

definition parse_csv_stdout_to_batches :: "(string \<Rightarrow> u64 option) \<Rightarrow> string \<Rightarrow> record_batch list option" where
  "parse_csv_stdout_to_batches parse out =
     (let lines = str_lines (trim out)
      in if length lines < 2 then None
         else let headers = csv_cells (hd lines);
                  rows = map csv_cells (tl lines);
                  arrays = map (\<lambda>i. csv_array parse (csv_column rows i)) [0..<length headers]
              in Some [\<lparr>batch_schema = map2 (\<lambda>h a. \<lparr>field_name = h, data_type = column_type a, is_nullable = True\<rparr>)
                          headers arrays,
                        batch_columns = arrays, num_rows = length rows\<rparr>])"

text \<open>The SQL of a streaming table: its lines that are neither blank nor comments.\<close>

definition extract_sql_from_streaming_cdc :: "string \<Rightarrow> string" where
  "extract_sql_from_streaming_cdc code =
     (let ls = filter (\<lambda>l. trim l \<noteq> [] \<and> \<not> starts_with (trim l) ''--'') (str_lines code)
      in if ls = [] then code else join_with [CHR 0x0A] ls)"

record run_outcome =
  out_status :: string
  out_rows :: "u64 option"
  out_error :: "string option"
  out_compile_ms :: u64
  out_run_ms :: u64
  out_cached :: bool
  out_batches :: "record_batch list option"

definition run_sql_code :: "'s run_env \<Rightarrow> string \<Rightarrow> run_outcome" where
  "run_sql_code V sql =
     (case run_sql V sql of
        Inr batches \<Rightarrow> \<lparr>out_status = ''success'', out_rows = Some (of_nat (total_rows batches)), out_error = None,
          out_compile_ms = 0, out_run_ms = run_elapsed V, out_cached = False, out_batches = Some batches\<rparr>
      | Inl e \<Rightarrow> \<lparr>out_status = ''failed'', out_rows = None, out_error = Some e, out_compile_ms = 0,
          out_run_ms = 0, out_cached = False, out_batches = None\<rparr>)"

definition run_rust_code :: "'s run_env \<Rightarrow> string \<Rightarrow> run_outcome" where
  "run_rust_code V code =
     (let r = run_rust V code; cached = (rust_compile_output r = ''(cached)'')
      in if rust_success r
         then let batches = parse_csv_stdout_to_batches (parse_f64_bits V) (rust_stdout r)
              in \<lparr>out_status = ''success'', out_rows = map_option (\<lambda>bs. of_nat (total_rows bs)) batches,
                  out_error = None, out_compile_ms = rust_compile_ms r, out_run_ms = rust_run_ms r,
                  out_cached = cached, out_batches = batches\<rparr>
         else \<lparr>out_status = ''failed'', out_rows = None, out_error = rust_error r,
               out_compile_ms = rust_compile_ms r, out_run_ms = rust_run_ms r, out_cached = cached,
               out_batches = None\<rparr>)"

definition unsupported :: "string \<Rightarrow> run_outcome" where
  "unsupported msg = \<lparr>out_status = ''unsupported'', out_rows = None, out_error = Some msg,
     out_compile_ms = 0, out_run_ms = 0, out_cached = False, out_batches = None\<rparr>"

definition run_transform :: "'s run_env \<Rightarrow> string \<Rightarrow> string \<Rightarrow> run_outcome" where
  "run_transform V ty code =
     (if ty = ''sql'' then run_sql_code V code
      else if ty = ''rust'' then run_rust_code V code
      else if ty = ''streaming_cdc'' then run_sql_code V (extract_sql_from_streaming_cdc code)
      else unsupported (''Transform type '' @ quote ty @ '' not yet supported''))"

definition run_version :: "'s run_env \<Rightarrow> string \<Rightarrow> string \<Rightarrow> run_outcome" where
  "run_version V ty code =
     (if ty = ''sql'' then run_sql_code V code
      else if ty = ''rust'' then run_rust_code V code
      else unsupported ''Unsupported transform type'')"

section \<open>Writing the output\<close>

definition sanitize :: "string \<Rightarrow> string" where
  "sanitize tname = replace_char (CHR '' '') ''_'' (replace_char (CHR ''-'') ''_'' tname)"

definition version_prefix :: "string \<Rightarrow> u32 \<Rightarrow> string" where
  "version_prefix tname n = ''executable_tables/'' @ sanitize tname @ ''/v'' @ show_nat (unat n)"

text \<open>The keys of the configuration, else stored ones of the bucket, else any stored ones.\<close>

definition resolve_credentials :: "'s run_env \<Rightarrow> s3_config_entry \<Rightarrow> string \<times> string" where
  "resolve_credentials V c =
     (if cfg_access_key c \<noteq> [] \<and> cfg_secret_key c \<noteq> [] then (cfg_access_key c, cfg_secret_key c)
      else case fmlookup (s3_creds V) (cfg_bucket c) of
        Some k \<Rightarrow> (access_key k, secret_key k)
      | None \<Rightarrow> (case first_creds V of Some k \<Rightarrow> (access_key k, secret_key k) | None \<Rightarrow> ([], [])))"

definition open_sink :: "'s run_env \<Rightarrow> string \<Rightarrow> u32 \<Rightarrow> parquet_sink option" where
  "open_sink V tname n =
     (case s3_configs V of
        [] \<Rightarrow> None
      | c # _ \<Rightarrow>
          (let (key, secret) = resolve_credentials V c
           in if key = [] then None
              else case from_s3_uri (''s3://'' @ cfg_bucket c @ ''/'' @ version_prefix tname n @ ''/data/'')
                          (if cfg_endpoint c = [] then None else Some (cfg_endpoint c)) key secret (cfg_region c) of
                     Ok sc \<Rightarrow> (case new_sink (sink_of V) sc 500 of Ok k \<Rightarrow> Some k | _ \<Rightarrow> None)
                   | _ \<Rightarrow> None))"

text \<open>The metadata of the files: appended to the table found under the prefix, or that of a new one.\<close>

definition commit_files :: "'s run_env \<Rightarrow> parquet_sink \<Rightarrow> 's \<Rightarrow> string result \<times> 's" where
  "commit_files V k s =
     (let E = sink_of V; fresh = finalize_iceberg E (clock_ms V) (fresh_id V 1) k s
      in case find_latest_metadata (sink_store E) s (sink_prefix k) of
           Ok (Some path) \<Rightarrow>
             (case load_table_state (sink_store E) s path of
                Ok st \<Rightarrow> finalize_iceberg_incremental E (clock_ms V) (fresh_id V 1) (Some st) k s
              | Err _ \<Rightarrow> fresh
              | Panic \<Rightarrow> (Panic, s))
         | Panic \<Rightarrow> (Panic, s)
         | _ \<Rightarrow> fresh)"

record write_report =
  rep_files :: "u64 option"
  rep_bytes :: "u64 option"
  rep_snapshot :: int

definition nothing_written :: write_report where
  "nothing_written = \<lparr>rep_files = None, rep_bytes = None, rep_snapshot = 0\<rparr>"

definition write_output :: "'s run_env \<Rightarrow> string \<Rightarrow> u32 \<Rightarrow> run_outcome \<Rightarrow> 's \<Rightarrow> write_report result \<times> 's" where
  "write_output V tname n out s =
     (case out_batches out of
        None \<Rightarrow> (Ok nothing_written, s)
      | Some batches \<Rightarrow>
          (if out_status out \<noteq> ''success'' \<or> list_all (\<lambda>b. num_rows b = 0) batches then (Ok nothing_written, s)
           else case open_sink V tname n of
             None \<Rightarrow> (Ok nothing_written, s)
           | Some k \<Rightarrow>
               (case write_all (sink_of V) batches k s of
                  (False, k1, s1) \<Rightarrow> (Ok nothing_written, s1)
                | (True, k1, s1) \<Rightarrow>
                    (case flush (sink_of V) k1 s1 of
                       (Ok _, k2, s2) \<Rightarrow>
                         (case commit_files V k2 s2 of
                            (Panic, s3) \<Rightarrow> (Panic, s3)
                          | (r, s3) \<Rightarrow>
                              (Ok \<lparr>rep_files = Some (files_written k2),
                                   rep_bytes = Some (total_size (sink_data_files k2)),
                                   rep_snapshot = (if is_ok r then report_ms V else 0)\<rparr>, s3))
                     | (_, k2, s2) \<Rightarrow> (Ok nothing_written, s2)))))"

section \<open>Uploading the binary\<close>

record binary_report =
  bin_path :: "string option"
  bin_size :: "u64 option"

definition binary_manifest :: "'s run_env \<Rightarrow> string \<Rightarrow> u32 \<Rightarrow> string \<Rightarrow> string \<Rightarrow> u64 \<Rightarrow> json" where
  "binary_manifest V tname n h path bytes_len = jobj
     [(''format-version'', JInt 1), (''type'', JStr ''rustlake-executable-binary''),
      (''table-name'', JStr tname), (''version'', JInt (uint n)), (''source-hash'', JStr h),
      (''binary-path'', JStr path), (''binary-size'', JInt (uint bytes_len)),
      (''compiled-at'', JStr (clock_text V 0)), (''compiler'', JStr ''rustc''),
      (''target'', JStr (fst (target_texts V))), (''os'', JStr (snd (target_texts V))),
      (''properties'', jobj
         [(''rustlake.executable'', JStr ''true''), (''rustlake.transform.type'', JStr ''rust''),
          (''rustlake.transform.source-hash'', JStr h), (''rustlake.function.cacheable'', JStr ''true''),
          (''rustlake.function.binary-format'', JStr ''native'')])]"

text \<open>A failed upload leaves the report as it was; a failed manifest does not matter.\<close>

definition upload_binary ::
  "'s run_env \<Rightarrow> string \<Rightarrow> u32 \<Rightarrow> string \<Rightarrow> write_report \<Rightarrow> 's \<Rightarrow> (write_report \<times> binary_report) \<times> 's" where
  "upload_binary V tname n code w s =
     (let h = hash_source code; none = (w, \<lparr>bin_path = None, bin_size = None\<rparr>)
      in case (local_binary V h, open_sink V tname n) of
           (Some data, Some k) \<Rightarrow>
             (let E = sink_store (sink_of V);
                  dir = version_prefix tname n @ ''/binary'';
                  path = dir @ ''/bin-'' @ h; bytes_len = of_nat (length data)
              in case store_put E s path data of
                   (Inl e, s1) \<Rightarrow> (none, s1)
                 | (Inr _, s1) \<Rightarrow>
                     ((w\<lparr>rep_files := Some (unwrap_or 0 (rep_files w) + 1),
                         rep_bytes := Some (unwrap_or 0 (rep_bytes w) + bytes_len)\<rparr>,
                       \<lparr>bin_path = Some path, bin_size = Some bytes_len\<rparr>),
                      snd (store_put E s1 (dir @ ''/manifest-'' @ h @ ''.json'')
                        (case json_print E (binary_manifest V tname n h path bytes_len) of Inr t \<Rightarrow> t | Inl _ \<Rightarrow> []))))
         | _ \<Rightarrow> (none, s))"

section \<open>Recording the execution\<close>

definition run_cost :: "'s run_env \<Rightarrow> rat" where
  "run_cost V = f64_mult (rnd (1 / 1000000)) (f64_of_nat (unat (total_elapsed V)))"

definition execution_entry :: "'s run_env \<Rightarrow> u32 \<Rightarrow> run_outcome \<Rightarrow> u64 option \<Rightarrow> execution_record" where
  "execution_entry V n out bytes =
     \<lparr>execution_id = fresh_id V 0, started_at = clock_text V 1, completed_at = Some (clock_text V 2),
      duration_ms = total_elapsed V, exec_status = out_status out, rows_produced = out_rows out,
      bytes_written = bytes, cost_usd = run_cost V, used_cache = out_cached out,
      compile_ms = out_compile_ms out, run_ms = out_run_ms out, exec_error = out_error out,
      execution_location = ''local'', exec_version = n\<rparr>"

definition add_execution :: "execution_record \<Rightarrow> executable_table \<Rightarrow> executable_table" where
  "add_execution r t =
     t\<lparr>history := history t @ [r], total_executions := total_executions t + 1,
       total_cost_usd := f64_add (total_cost_usd t) (cost_usd r)\<rparr>"

definition mark_status :: "'s run_env \<Rightarrow> run_outcome \<Rightarrow> executable_table \<Rightarrow> executable_table" where
  "mark_status V out t =
     (if out_status out = ''success''
      then t\<lparr>last_refresh := Some (clock_text V 3),
             status_of := (status_of t)\<lparr>run_state := ''active'', health := ''healthy'',
               data_freshness := ''fresh'', staleness_hours := 0\<rparr>\<rparr>
      else t\<lparr>status_of := (status_of t)\<lparr>run_state := ''error'', health := ''critical'',
               last_error := out_error out\<rparr>\<rparr>)"

fun link_snapshot :: "u32 \<Rightarrow> int \<Rightarrow> transform_version list \<Rightarrow> transform_version list" where
  "link_snapshot n sid [] = []"
| "link_snapshot n sid (v # vs) =
     (if version v = n then v\<lparr>snapshot_ids := snapshot_ids v @ [sid]\<rparr> # vs
      else v # link_snapshot n sid vs)"

definition record_snapshot :: "u32 \<Rightarrow> int \<Rightarrow> executable_table \<Rightarrow> executable_table" where
  "record_snapshot n sid t = (if sid \<noteq> 0 then t\<lparr>versions := link_snapshot n sid (versions t)\<rparr> else t)"

text \<open>The last step of both handlers; the tables may have changed since the run began.\<close>

definition record_run ::
  "'s run_env \<Rightarrow> string \<Rightarrow> u32 \<Rightarrow> run_outcome \<Rightarrow> u64 option \<Rightarrow> int \<Rightarrow> tables \<Rightarrow> tables" where
  "record_run V tname n out bytes sid ts =
     update_table tname (\<lambda>t. record_snapshot n sid
       (mark_status V out (add_execution (execution_entry V n out bytes) t))) ts"

definition record_version_run ::
  "'s run_env \<Rightarrow> string \<Rightarrow> u32 \<Rightarrow> run_outcome \<Rightarrow> u64 option \<Rightarrow> int \<Rightarrow> tables \<Rightarrow> tables" where
  "record_version_run V tname n out bytes sid ts =
     update_table tname (\<lambda>t. record_snapshot n sid (add_execution (execution_entry V n out bytes) t)) ts"

section \<open>The handlers\<close>

record exec_report =
  rep_id :: string
  rep_version :: u32
  rep_outcome :: run_outcome
  rep_duration :: u64
  rep_cost :: rat
  rep_written :: write_report
  rep_gates :: "gate_result list"
  rep_regression :: "regression_result option"
  rep_binary :: binary_report

text \<open>The gates are read from the table and evaluated over the output when everything else is done.\<close>

definition gate_report :: "'s run_env \<Rightarrow> string \<Rightarrow> run_outcome \<Rightarrow> tables \<Rightarrow> gate_result list" where
  "gate_report V tname out ts =
     (if out_status out = ''success''
      then (case (out_batches out, find_table tname ts) of
              (Some batches, Some t) \<Rightarrow> validate_gates (format_of V) (clock_text V 4) (quality_gates t) batches
            | _ \<Rightarrow> [])
      else [])"

definition recorded_regression :: "string \<Rightarrow> tables \<Rightarrow> regression_result option" where
  "recorded_regression tname ts = Option.bind (find_table tname ts) (\<lambda>t. last_regression (history t))"

definition execute_executable_table ::
  "'s run_env \<Rightarrow> string \<Rightarrow> tables \<Rightarrow> 's \<Rightarrow> (exec_report http) result \<times> tables \<times> 's" where
  "execute_executable_table V tname ts s =
     (case find_table tname ts of
        None \<Rightarrow> (Ok (Inl (404, ''Executable table '' @ quote tname @ '' not found'')), ts, s)
      | Some t \<Rightarrow>
          (let code = source_code (transform_of t); n = max_version (versions t);
               out = run_transform V (transform_type (transform_of t)) code
           in case write_output V tname n out s of
                (Ok w, s1) \<Rightarrow>
                  (let ((w2, b), s2) =
                         (if out_status out = ''success'' \<and> transform_type (transform_of t) = ''rust''
                          then upload_binary V tname n code w s1
                          else ((w, \<lparr>bin_path = None, bin_size = None\<rparr>), s1));
                       gates = gate_report V tname out ts;
                       ts' = record_run V tname n out (rep_bytes w2) (rep_snapshot w) ts
                   in (Ok (Inr \<lparr>rep_id = fresh_id V 0, rep_version = n, rep_outcome = out,
                         rep_duration = total_elapsed V, rep_cost = run_cost V, rep_written = w2,
                         rep_gates = gates, rep_regression = recorded_regression tname ts', rep_binary = b\<rparr>),
                       ts', s2))
              | (Err e, s1) \<Rightarrow> (Err e, ts, s1)
              | (Panic, s1) \<Rightarrow> (Panic, ts, s1)))"

definition execute_version ::
  "'s run_env \<Rightarrow> string \<Rightarrow> u32 \<Rightarrow> tables \<Rightarrow> 's \<Rightarrow> (exec_report http) result \<times> tables \<times> 's" where
  "execute_version V tname n ts s =
     (case find_table tname ts of
        None \<Rightarrow> (Ok (Inl (404, ''Table '' @ quote tname @ '' not found'')), ts, s)
      | Some t \<Rightarrow>
          (case find_version n (versions t) of
             None \<Rightarrow> (Ok (Inl (404, ''Version '' @ show_nat (unat n) @ '' not found'')), ts, s)
           | Some v \<Rightarrow>
               (let out = run_version V (transform_type (transform_of t)) (version_source v)
                in case write_output V tname n out s of
                     (Ok w, s1) \<Rightarrow>
                       (let ts' = record_version_run V tname n out (rep_bytes w) (rep_snapshot w) ts
                        in (Ok (Inr \<lparr>rep_id = fresh_id V 0, rep_version = n, rep_outcome = out,
                              rep_duration = total_elapsed V, rep_cost = run_cost V, rep_written = w,
                              rep_gates = gate_report V tname out ts,
                              rep_regression = recorded_regression tname ts',
                              rep_binary = \<lparr>bin_path = None, bin_size = None\<rparr>\<rparr>), ts', s1))
                   | (Err e, s1) \<Rightarrow> (Err e, ts, s1)
                   | (Panic, s1) \<Rightarrow> (Panic, ts, s1))))"

end
