(* ===== verification/Table_Scheduler.thy ===== *)
theory Table_Scheduler
  imports Table_Execution
begin

text \<open>
  The background scheduler of \<open>crates/rustlake-api/src/main.rs\<close>: the tick that goes through the
  scheduled jobs of executable tables, skips a table whose upstream tables have not refreshed, runs
  the others, rolls a table back when its gates fail, and refreshes materialized views. A tick gets one
  environment per job and per view, since engine and clock may answer differently each time; time
  stamps are compared as texts, as the code does. Nothing in a tick writes the jobs.
\<close>

section \<open>Jobs\<close>

record scheduled_job =
  job_id :: string
  job_name :: string
  job_type :: string
  cron :: string
  job_target :: string
  job_enabled :: bool
  last_run :: "int option"
  next_run :: "int option"

text \<open>Instants are nanoseconds since the epoch. Creating a table pushes what the client sent, and a job without a next run if it has a schedule.\<close>

definition create_executable_table ::
  "(rat \<Rightarrow> string) \<Rightarrow> string \<Rightarrow> executable_table \<Rightarrow> tables \<times> scheduled_job list \<Rightarrow>
   (string, string) fmap \<times> tables \<times> scheduled_job list" where
  "create_executable_table show6 fresh t st =
     (case st of (ts, jobs) \<Rightarrow>
        (to_iceberg_properties show6 t, ts @ [t],
         (case schedule t of
            None \<Rightarrow> jobs
          | Some c \<Rightarrow> jobs @ [\<lparr>job_id = fresh, job_name = ''exec-table:'' @ table_name t,
              job_type = ''executable_table'', cron = c, job_target = table_name t, job_enabled = True,
              last_run = None, next_run = None\<rparr>])))"

text \<open>The comparison of two time stamps as byte strings.\<close>

fun text_less :: "string \<Rightarrow> string \<Rightarrow> bool" where
  "text_less _ [] = False"
| "text_less [] (_ # _) = True"
| "text_less (x # xs) (y # ys) =
     ((of_char x :: nat) < of_char y \<or> x = y \<and> text_less xs ys)"

definition upstream_changed :: "executable_table \<Rightarrow> tables \<Rightarrow> bool" where
  "upstream_changed t ts =
     list_ex (\<lambda>i. case find_table i ts of
         None \<Rightarrow> False
       | Some u \<Rightarrow> (case (last_refresh t, last_refresh u) of
             (Some mine, Some theirs) \<Rightarrow> text_less mine theirs
           | _ \<Rightarrow> True))
       (input_tables t)"

definition skip_execution :: "executable_table \<Rightarrow> tables \<Rightarrow> bool" where
  "skip_execution t ts \<longleftrightarrow> input_tables t \<noteq> [] \<and> \<not> upstream_changed t ts"

definition count_skip :: "rat \<Rightarrow> executable_table \<Rightarrow> executable_table" where
  "count_skip cost t =
     t\<lparr>executions_skipped := executions_skipped t + 1, cost_saved_usd := f64_add (cost_saved_usd t) cost\<rparr>"

text \<open>With a watermark the filter is written behind the source text.\<close>

definition scheduled_code :: "executable_table \<Rightarrow> string" where
  "scheduled_code t =
     (case (watermark_column t, last_watermark t) of
        (Some c, Some v) \<Rightarrow>
          (if incremental t
           then source_code (transform_of t) @ '' WHERE '' @ c @ '' > '' @ quote v
           else source_code (transform_of t))
      | _ \<Rightarrow> source_code (transform_of t))"

text \<open>The version before the last one, automatic rollbacks not counted.\<close>

definition previous_version :: "executable_table \<Rightarrow> transform_version option" where
  "previous_version t =
     (case rev (filter (\<lambda>v. \<not> starts_with (change_description v) ''Auto-rollback'') (versions t)) of
        _ # v # _ \<Rightarrow> Some v
      | _ \<Rightarrow> None)"

section \<open>Running a job\<close>

definition auto_rollback :: "string \<Rightarrow> transform_version \<Rightarrow> executable_table \<Rightarrow> executable_table" where
  "auto_rollback now v t =
     (let t' = push_rollback now ''auto-heal''
            (''Auto-rollback to v'' @ show_nat (unat (version v)) @ '' (gate failure)'') v t
      in t'\<lparr>status_of := (status_of t')\<lparr>health := ''warning''\<rparr>\<rparr>)"

definition mark_refreshed :: "string \<Rightarrow> executable_table \<Rightarrow> executable_table" where
  "mark_refreshed now t =
     t\<lparr>last_refresh := Some now,
       status_of := (status_of t)\<lparr>health :=
         (if health (status_of t) = ''warning'' then ''healthy'' else health (status_of t))\<rparr>\<rparr>"

definition gates_failed :: "'s run_env \<Rightarrow> executable_table \<Rightarrow> record_batch list \<Rightarrow> bool" where
  "gates_failed V t batches =
     list_ex (\<lambda>r. \<not> result_passed r) (validate_gates (format_of V) (clock_text V 4) (quality_gates t) batches)"

text \<open>A Rust transform is only run; the result is logged.\<close>

definition run_job :: "'s run_env \<Rightarrow> executable_table \<Rightarrow> tables \<Rightarrow> tables" where
  "run_job V t ts =
     (if skip_execution t ts then update_table (table_name t) (count_skip (estimated_cost_usd t)) ts
      else if transform_type (transform_of t) = ''sql''
      then (case run_sql V (scheduled_code t) of
              Inl _ \<Rightarrow> ts
            | Inr batches \<Rightarrow>
                (if gates_failed V t batches
                 then (case previous_version t of
                         Some v \<Rightarrow> update_table (table_name t) (auto_rollback (clock_text V 1) v) ts
                       | None \<Rightarrow> ts)
                 else update_table (table_name t) (mark_refreshed (clock_text V 3)) ts))
      else ts)"

definition job_due :: "int \<Rightarrow> 'j scheduled_job_scheme \<Rightarrow> bool" where
  "job_due now j \<longleftrightarrow> job_enabled j \<and> job_type j = ''executable_table'' \<and>
     (case next_run j of Some n \<Rightarrow> \<not> now < n | None \<Rightarrow> True)"

definition tick_job :: "'s run_env \<Rightarrow> 'j scheduled_job_scheme \<Rightarrow> tables \<Rightarrow> tables" where
  "tick_job V j ts =
     (if job_due (clock_ns V) j
      then (case find_table (job_target j) ts of Some t \<Rightarrow> run_job V t ts | None \<Rightarrow> ts)
      else ts)"

fun tick_jobs :: "(nat \<Rightarrow> 's run_env) \<Rightarrow> nat \<Rightarrow> 'j scheduled_job_scheme list \<Rightarrow> tables \<Rightarrow> tables" where
  "tick_jobs V i [] ts = ts"
| "tick_jobs V i (j # js) ts = tick_jobs V (i + 1) js (tick_job (V i) j ts)"

section \<open>Materialized views\<close>

text \<open>\<open>age\<close> is the number of seconds since a time stamp, none when it does not parse; the difference is
  cast to an unsigned word.\<close>

definition refresh_due :: "(string \<Rightarrow> int option) \<Rightarrow> executable_table \<Rightarrow> bool" where
  "refresh_due age t \<longleftrightarrow>
     (transform_type (transform_of t) = ''matview'' \<or> auto_refresh t \<and> 0 < refresh_interval_seconds t) \<and>
     (case Option.bind (last_refresh t) age of
        Some s \<Rightarrow> refresh_interval_seconds t \<le> word_of_int s
      | None \<Rightarrow> True)"

definition refresh_entry :: "'s run_env \<Rightarrow> u64 \<Rightarrow> u32 \<Rightarrow> execution_record" where
  "refresh_entry V rows n =
     \<lparr>execution_id = fresh_id V 0, started_at = clock_text V 1, completed_at = Some (clock_text V 2),
      duration_ms = 0, exec_status = ''success'', rows_produced = Some rows, bytes_written = None,
      cost_usd = 0, used_cache = False, compile_ms = 0, run_ms = 0, exec_error = None,
      execution_location = ''local'', exec_version = n\<rparr>"

definition record_refresh :: "'s run_env \<Rightarrow> u64 \<Rightarrow> executable_table \<Rightarrow> executable_table" where
  "record_refresh V rows t =
     t\<lparr>last_refresh := Some (clock_text V 3),
       history := history t @ [refresh_entry V rows (max_version (versions t))],
       total_executions := total_executions t + 1\<rparr>"

definition refresh_view :: "'s run_env \<Rightarrow> executable_table \<Rightarrow> tables \<Rightarrow> tables" where
  "refresh_view V t ts =
     (if transform_type (transform_of t) \<in> {''sql'', ''matview''}
      then (case run_sql V (source_code (transform_of t)) of
              Inr batches \<Rightarrow> update_table (table_name t) (record_refresh V (of_nat (total_rows batches))) ts
            | Inl _ \<Rightarrow> ts)
      else ts)"

fun refresh_views :: "(nat \<Rightarrow> 's run_env) \<Rightarrow> nat \<Rightarrow> tables \<Rightarrow> tables \<Rightarrow> tables" where
  "refresh_views V i [] ts = ts"
| "refresh_views V i (t # due) ts = refresh_views V (i + 1) due (refresh_view (V i) t ts)"

definition scheduler_tick ::
  "(nat \<Rightarrow> 's run_env) \<Rightarrow> (nat \<Rightarrow> 's run_env) \<Rightarrow> (string \<Rightarrow> int option) \<Rightarrow> 'j scheduled_job_scheme list \<Rightarrow> tables \<Rightarrow> tables" where
  "scheduler_tick V W age jobs ts =
     (let ts1 = tick_jobs V 0 jobs ts in refresh_views W 0 (filter (refresh_due age) ts1) ts1)"

section \<open>The scheduler against failing gates\<close>

lemma auto_rollback_fields [simp]:
  "table_name (auto_rollback now v t) = table_name t" "quality_gates (auto_rollback now v t) = quality_gates t"
  "input_tables (auto_rollback now v t) = input_tables t"
  "transform_type (transform_of (auto_rollback now v t)) = transform_type (transform_of t)"
  "source_code (transform_of (auto_rollback now v t)) = version_source v"
  "length (versions (auto_rollback now v t)) = length (versions t) + 1"
  by (simp_all add: auto_rollback_def push_rollback_def Let_def)

lemma previous_auto_rollback [simp]: "previous_version (auto_rollback now v t) = previous_version t"
  by (simp add: previous_version_def auto_rollback_def push_rollback_def Let_def starts_with_def)

lemma gates_failed_cong: "quality_gates t = quality_gates u \<Longrightarrow> gates_failed V t bs = gates_failed V u bs"
  by (simp add: gates_failed_def)

lemma failing_tick:
  assumes "find_table (job_target j) ts = Some t" and "job_due (clock_ns V) j"
    and "transform_type (transform_of t) = ''sql''" and "\<not> skip_execution t ts"
    and "\<And>code. \<exists>bs. run_sql V code = Inr bs \<and> gates_failed V t bs" and "previous_version t = Some v"
  shows "tick_job V j ts = update_table (job_target j) (auto_rollback (clock_text V 1) v) ts"
proof -
  obtain bs where "run_sql V (scheduled_code t) = Inr bs" "gates_failed V t bs" using assms(5) by blast
  with assms find_table_name [OF assms(1)] show ?thesis by (simp add: tick_job_def run_job_def)
qed

text \<open>C17. A scheduled SQL table without input tables whose gates fail whatever its source. The first tick restores the version
  before the last one, and so does every later tick: after any positive number of them the source is
  still that version's, one more version per tick has been recorded, and no older version is tried.\<close>

theorem failing_gates_repeat_one_rollback:
  assumes "find_table (job_target j) ts = Some t" and "\<And>i. job_due (clock_ns (V i)) j"
    and "transform_type (transform_of t) = ''sql''" and "input_tables t = []"
    and "\<And>i code. \<exists>bs. run_sql (V i) code = Inr bs \<and> gates_failed (V i) t bs"
    and "previous_version t = Some v"
  shows "\<exists>t'. find_table (job_target j) (fold (\<lambda>i. tick_job (V i) j) [0..<n] ts) = Some t' \<and>
    length (versions t') = length (versions t) + n \<and> previous_version t' = Some v \<and>
    source_code (transform_of t') = (if n = 0 then source_code (transform_of t) else version_source v)"
proof -
  have "\<exists>t'. find_table (job_target j) (fold (\<lambda>i. tick_job (V i) j) [0..<n] ts) = Some t' \<and>
    length (versions t') = length (versions t) + n \<and> previous_version t' = Some v \<and>
    source_code (transform_of t') = (if n = 0 then source_code (transform_of t) else version_source v) \<and>
    transform_type (transform_of t') = ''sql'' \<and> input_tables t' = [] \<and> quality_gates t' = quality_gates t"
  proof (induction n)
    case 0
    then show ?case using assms(1,3,4,6) by simp
  next
    case (Suc n)
    let ?ts = "fold (\<lambda>i. tick_job (V i) j) [0..<n] ts"
    from Suc obtain t' where t': "find_table (job_target j) ?ts = Some t'" "length (versions t') = length (versions t) + n"
      "previous_version t' = Some v" "transform_type (transform_of t') = ''sql''" "input_tables t' = []"
      "quality_gates t' = quality_gates t" by blast
    have "tick_job (V n) j ?ts = update_table (job_target j) (auto_rollback (clock_text (V n) 1) v) ?ts"
    proof (rule failing_tick [OF t'(1) assms(2) t'(4) _ _ t'(3)])
      show "\<not> skip_execution t' ?ts" using t'(5) by (simp add: skip_execution_def)
      show "\<exists>bs. run_sql (V n) code = Inr bs \<and> gates_failed (V n) t' bs" for code
        using assms(5) [of n code] unfolding gates_failed_cong [OF t'(6)] .
    qed
    then have "find_table (job_target j) (fold (\<lambda>i. tick_job (V i) j) [0..<Suc n] ts) =
        Some (auto_rollback (clock_text (V n) 1) v t')"
      using t'(1) by (simp add: find_update_same)
    with t' show ?case by simp
  qed
  then show ?thesis by blast
qed

definition demo_run_env :: "(string \<times> string) list run_env" where
  "demo_run_env =
     \<lparr>sink_of = demo_sink_env, run_sql = \<lambda>_. Inr [demo_batch [Some 1, None]],
      run_rust = \<lambda>_. \<lparr>rust_success = False, rust_stdout = [], rust_compile_output = [], rust_compile_ms = 0,
        rust_run_ms = 0, rust_error = None\<rparr>,
      parse_f64_bits = \<lambda>_. None, format_of = demo_format, run_elapsed = 5, total_elapsed = 7,
      clock_text = \<lambda>_. ''2024-01-01'', clock_ms = 9, clock_ns = 9000000, report_ms = 10, fresh_id = \<lambda>_. ''id'', s3_configs = [],
      s3_creds = fmempty, first_creds = None, local_binary = \<lambda>_. None, target_texts = (''x'', ''y'')\<rparr>"

definition demo_version :: "u32 \<Rightarrow> string \<Rightarrow> transform_version" where
  "demo_version n code =
     \<lparr>version = n, version_source = code, version_hash = hash_source code, version_created_at = ''t'',
      created_by = ''user'', change_description = [], binary_size_bytes = None, snapshot_ids = []\<rparr>"

definition demo_table :: "string list \<Rightarrow> quality_gate_ref list \<Rightarrow> transform_version list \<Rightarrow> string \<Rightarrow> executable_table" where
  "demo_table inputs gates vs code =
     \<lparr>table_name = ''t'', table_location = [],
      transform_of = \<lparr>transform_type = ''sql'', source_code = code, source_hash = ''h'',
        binary_path = None, binary_size = None, binary_cached = False, compiler_version = None, target_arch = None\<rparr>,
      schedule = None, quality_gates = gates, input_tables = inputs,
      status_of = \<lparr>run_state = ''active'', health = ''healthy'', last_error = None, staleness_hours = 0,
        data_freshness = ''unknown''\<rparr>,
      history = [], versions = vs, created_at = ''t'', last_refresh = None, next_refresh = None,
      estimated_cost_usd = 1, total_executions = 0, total_cost_usd = 0, incremental = False,
      watermark_column = None, last_watermark = None, executions_skipped = 0, cost_saved_usd = 0,
      auto_refresh = False, refresh_interval_seconds = 0\<rparr>"

definition demo_job :: scheduled_job where
  "demo_job = \<lparr>job_id = ''j'', job_name = ''j'', job_type = ''executable_table'', cron = ''@daily'', job_target = ''t'',
     job_enabled = True, last_run = None, next_run = None\<rparr>"

definition null_gate :: quality_gate_ref where
  "null_gate = \<lparr>gate_type = ''not_null'', gate_column = Some ''id'', threshold = None, description = []\<rparr>"

lemma demo_gate_fails: "gates_failed demo_run_env (demo_table xs [null_gate] vs code) [demo_batch [Some 1, None]]"
proof -
  have "\<not> satisfies [demo_batch [Some 1, None]] (NotNull ''id'')"
    by (simp add: find_column_def demo_batch_def)
  then show ?thesis
    by (simp add: gates_failed_def demo_table_def null_gate_def validate_gates_def validate_gate_def gate_check_def
        Let_def passed_single)
qed

text \<open>A table at version 2 with one column that holds a null, under a gate against nulls.\<close>

lemma failing_gates_repeat_one_rollback_witness:
  "\<exists>t'. find_table ''t'' (fold (\<lambda>i. tick_job demo_run_env demo_job) [0..<3]
      [demo_table [] [null_gate] [demo_version 1 ''a'', demo_version 2 ''b''] ''b'']) = Some t' \<and>
    length (versions t') = 5 \<and> source_code (transform_of t') = ''a''"
proof -
  let ?t = "demo_table [] [null_gate] [demo_version 1 ''a'', demo_version 2 ''b''] ''b''"
  have f: "find_table (job_target demo_job) [?t] = Some ?t" by (simp add: demo_table_def demo_job_def)
  have d: "job_due (clock_ns demo_run_env) demo_job" by (simp add: job_due_def demo_job_def)
  have ty: "transform_type (transform_of ?t) = ''sql''" and inp: "input_tables ?t = []"
    and p: "previous_version ?t = Some (demo_version 1 ''a'')"
    by (simp_all add: demo_table_def previous_version_def demo_version_def starts_with_def)
  have r: "\<exists>bs. run_sql demo_run_env code = Inr bs \<and> gates_failed demo_run_env ?t bs" for code
    using demo_gate_fails by (simp add: demo_run_env_def)
  obtain t' where "find_table (job_target demo_job) (fold (\<lambda>i. tick_job demo_run_env demo_job) [0..<3] [?t]) = Some t'"
    and "length (versions t') = length (versions ?t) + 3" and "source_code (transform_of t') = version_source (demo_version 1 ''a'')"
    using failing_gates_repeat_one_rollback [of demo_job "[?t]" ?t "\<lambda>_. demo_run_env" "demo_version 1 ''a''" 3,
      OF f d ty inp r p] by auto
  then show ?thesis by (intro exI [of _ t']) (simp add: demo_job_def demo_table_def demo_version_def)
qed

text \<open>A due job whose table reads only tables that are not executable tables themselves: every tick
  skips it, whatever its schedule; it is never run, only its counter of skipped executions grows.\<close>

theorem plain_inputs_never_run:
  assumes "find_table (job_target j) ts = Some t" and "\<And>i. job_due (clock_ns (V i)) j"
    and "input_tables t \<noteq> []" and "\<And>i. i \<in> set (input_tables t) \<Longrightarrow> find_table i ts = None"
  shows "\<exists>t'. find_table (job_target j) (fold (\<lambda>i. tick_job (V i) j) [0..<n] ts) = Some t' \<and>
    executions_skipped t' = executions_skipped t + of_nat n \<and> history t' = history t \<and>
    last_refresh t' = last_refresh t \<and> versions t' = versions t \<and> transform_of t' = transform_of t"
proof -
  have "\<exists>t'. find_table (job_target j) (fold (\<lambda>i. tick_job (V i) j) [0..<n] ts) = Some t' \<and>
    executions_skipped t' = executions_skipped t + of_nat n \<and> history t' = history t \<and>
    last_refresh t' = last_refresh t \<and> versions t' = versions t \<and> transform_of t' = transform_of t \<and>
    input_tables t' = input_tables t \<and>
    (\<forall>i \<in> set (input_tables t). find_table i (fold (\<lambda>i. tick_job (V i) j) [0..<n] ts) = None)"
  proof (induction n)
    case 0
    then show ?case using assms(1,4) by simp
  next
    case (Suc n)
    let ?ts = "fold (\<lambda>i. tick_job (V i) j) [0..<n] ts"
    from Suc obtain t' where t': "find_table (job_target j) ?ts = Some t'"
      "executions_skipped t' = executions_skipped t + of_nat n" "history t' = history t"
      "last_refresh t' = last_refresh t" "versions t' = versions t" "transform_of t' = transform_of t"
      "input_tables t' = input_tables t" "\<forall>i \<in> set (input_tables t). find_table i ?ts = None" by blast
    have "\<not> upstream_changed t' ?ts" using t'(7,8) by (auto simp: upstream_changed_def list_ex_iff)
    then have e: "tick_job (V n) j ?ts = update_table (job_target j) (count_skip (estimated_cost_usd t')) ?ts"
      using t'(1,7) assms(2,3) find_table_name [OF t'(1)]
      by (simp add: tick_job_def run_job_def skip_execution_def)
    have name: "table_name (count_skip c u) = table_name u" for c u by (simp add: count_skip_def)
    have "find_table i (tick_job (V n) j ?ts) = None" if i: "i \<in> set (input_tables t)" for i
      using i t'(1,8) find_update_other [OF name, of i "job_target j"] unfolding e
      by (cases "i = job_target j") auto
    moreover have "find_table (job_target j) (tick_job (V n) j ?ts) = Some (count_skip (estimated_cost_usd t') t')"
      unfolding e using t'(1) by (simp add: find_update_same name)
    ultimately show ?case using t' by (simp add: count_skip_def add.commute add.left_commute)
  qed
  then show ?thesis by blast
qed

lemma plain_inputs_never_run_witness:
  "\<exists>t'. find_table ''t'' (fold (\<lambda>i. tick_job demo_run_env demo_job) [0..<2] [demo_table [''orders''] [] [] ''b'']) = Some t' \<and>
    executions_skipped t' = 2 \<and> history t' = []"
proof -
  let ?t = "demo_table [''orders''] [] [] ''b''"
  have f: "find_table (job_target demo_job) [?t] = Some ?t" by (simp add: demo_table_def demo_job_def)
  have d: "job_due (clock_ns demo_run_env) demo_job" by (simp add: job_due_def demo_job_def)
  have i: "input_tables ?t \<noteq> []" by (simp add: demo_table_def)
  have o: "find_table i [?t] = None" if "i \<in> set (input_tables ?t)" for i
    using that by (simp add: demo_table_def)
  obtain t' where "find_table (job_target demo_job) (fold (\<lambda>i. tick_job demo_run_env demo_job) [0..<2] [?t]) = Some t'"
    and "executions_skipped t' = executions_skipped ?t + of_nat 2" and "history t' = history ?t"
    using plain_inputs_never_run [of demo_job "[?t]" ?t "\<lambda>_. demo_run_env" 2, OF f d i o] by blast
  then show ?thesis by (intro exI [of _ t']) (simp add: demo_job_def demo_table_def)
qed

end
