(* ===== verification/Table_Services.thy ===== *)
theory Table_Services
  imports Table_Scheduler Dependency_Order Column_Lineage
begin

text \<open>
  The services around executable tables in \<open>rustlake-api/src/routes.rs\<close>: A/B tests of two versions, data
  contracts, the marketplace, column lineage, the replay of everything upstream, debugging of a failed
  execution, pipelines of tables, and data products with their audit.

  A run of a transform works on a world \<open>'w\<close> that the SQL engine and the Rust executor may change; the
  clock is read off it. The iteration order of hash maps, Arrow's texts and the clock are parameters. A
  handler is one step on the lists it works on; \<open>http\<close> is its answer, and a handler that may panic or
  never return says so in its type.
\<close>

section \<open>Running a transform\<close>

record 'w services =
  eng_sql :: "'w \<Rightarrow> string \<Rightarrow> (string + record_batch list) \<times> 'w"
  eng_rust :: "'w \<Rightarrow> string \<Rightarrow> rust_outcome \<times> 'w"
  elapsed_ms :: "'w \<Rightarrow> u64"
  now_text :: "'w \<Rightarrow> string"
  minutes_since :: "'w \<Rightarrow> string \<Rightarrow> int option"
  csv_number :: "string \<Rightarrow> u64 option"
  texts :: format_env
  cell_text :: "column \<Rightarrow> nat \<Rightarrow> string option"
  fixed1 :: "rat \<Rightarrow> string"
  shown :: "rat \<Rightarrow> string"
  upper_of :: "string \<Rightarrow> string"
  hash_set_order :: "string list \<Rightarrow> string list"
  hash_map_order :: "degrees \<Rightarrow> degrees"

definition execute_transform_code ::
  "'w services \<Rightarrow> string \<Rightarrow> string \<Rightarrow> 'w \<Rightarrow> (record_batch list option \<times> u64 \<times> u64) \<times> 'w" where
  "execute_transform_code V ty code w =
     (if ty = ''sql''
      then (case eng_sql V w code of
              (Inr bs, w') \<Rightarrow> ((Some bs, of_nat (total_rows bs), elapsed_ms V w'), w')
            | (Inl _, w') \<Rightarrow> ((None, 0, elapsed_ms V w'), w'))
      else if ty = ''rust''
      then (case eng_rust V w code of
              (r, w') \<Rightarrow>
                (if rust_success r
                 then let bs = parse_csv_stdout_to_batches (csv_number V) (rust_stdout r)
                      in ((bs, (case bs of Some b \<Rightarrow> of_nat (total_rows b) | None \<Rightarrow> 0), elapsed_ms V w'), w')
                 else ((None, 0, elapsed_ms V w'), w')))
      else ((None, 0, 0), w))"

section \<open>A/B tests\<close>

record ab_metrics =
  ab_version :: u32
  ab_rows :: u64
  ab_ms :: u64
  ab_cost :: rat
  ab_columns :: "string list"

record ab_result =
  ab_table :: string
  metrics_a :: ab_metrics
  metrics_b :: ab_metrics
  ab_compared :: ab_comparison
  winner :: string
  confidence :: rat
  ab_recommendation :: string

definition ms_cost :: "u64 \<Rightarrow> rat" where
  "ms_cost ms = f64_mult (rnd (1 / 1000000)) (f64_of_nat (unat ms))"

definition ab_scores :: "ab_metrics \<Rightarrow> ab_metrics \<Rightarrow> ab_comparison \<Rightarrow> int \<times> int" where
  "ab_scores a b cmp =
     ((if ab_rows a \<ge> ab_rows b then 1 else 0) + (if ab_ms a \<le> ab_ms b then 1 else 0) +
        (if data_regressions cmp = [] then 0 else - 1),
      (if ab_rows b \<ge> ab_rows a then 1 else 0) + (if ab_ms b \<le> ab_ms a then 1 else 0) +
        (if data_regressions cmp = [] then 0 else 1))"

definition pick_winner :: "int \<times> int \<Rightarrow> string" where
  "pick_winner = (\<lambda>(a, b). if a > b then ''version_a'' else if b > a then ''version_b'' else ''tie'')"

definition ab_confidence :: "int \<times> int \<Rightarrow> rat" where
  "ab_confidence = (\<lambda>(a, b). min (f64_div (of_int \<bar>a - b\<bar>) 3) 1)"

definition ab_advice :: "u32 \<Rightarrow> u32 \<Rightarrow> string \<Rightarrow> string" where
  "ab_advice va vb win =
     (if win = ''version_a'' then ''Version '' @ show_nat (unat va) @ '' is the winner. More rows, better performance.''
      else if win = ''version_b'' then ''Version '' @ show_nat (unat vb) @ '' is the winner. Better overall metrics.''
      else ''Tie '' @ em_dash @ '' both versions perform similarly. Choose based on code clarity.'')"

definition ab_metrics_of :: "u32 \<Rightarrow> record_batch list option \<times> u64 \<times> u64 \<Rightarrow> ab_metrics" where
  "ab_metrics_of n = (\<lambda>(bs, rows, ms).
     \<lparr>ab_version = n, ab_rows = rows, ab_ms = ms, ab_cost = ms_cost ms, ab_columns = first_columns (unwrap_or [] bs)\<rparr>)"

definition ab_test_executable_table ::
  "'w services \<Rightarrow> string \<Rightarrow> u32 \<Rightarrow> u32 \<Rightarrow> tables \<Rightarrow> 'w \<Rightarrow> ab_result http \<times> 'w" where
  "ab_test_executable_table V tname va vb ts w =
     (case find_table tname ts of
        None \<Rightarrow> (Inl (404, ''Table '' @ quote tname @ '' not found''), w)
      | Some t \<Rightarrow>
          (case (find_version va (versions t), find_version vb (versions t)) of
             (None, _) \<Rightarrow> (Inl (404, ''Version '' @ show_nat (unat va) @ '' not found''), w)
           | (_, None) \<Rightarrow> (Inl (404, ''Version '' @ show_nat (unat vb) @ '' not found''), w)
           | (Some ver_a, Some ver_b) \<Rightarrow>
               (let ty = transform_type (transform_of t);
                    (ra, w1) = execute_transform_code V ty (version_source ver_a) w;
                    (rb, w2) = execute_transform_code V ty (version_source ver_b) w1;
                    a = ab_metrics_of va ra; b = ab_metrics_of vb rb;
                    cmp = compare_ab_outputs (cell_text V) (unwrap_or [] (fst ra)) (unwrap_or [] (fst rb))
                            (unat (ab_ms a)) (unat (ab_ms b)) (ab_cost a) (ab_cost b);
                    scores = ab_scores a b cmp; win = pick_winner scores
                in (Inr \<lparr>ab_table = tname, metrics_a = a, metrics_b = b, ab_compared = cmp, winner = win,
                         confidence = ab_confidence scores, ab_recommendation = ab_advice va vb win\<rparr>, w2))))"

section \<open>Data contracts\<close>

fun update_first :: "('a \<Rightarrow> bool) \<Rightarrow> ('a \<Rightarrow> 'a) \<Rightarrow> 'a list \<Rightarrow> 'a list" where
  "update_first P f [] = []"
| "update_first P f (x # xs) = (if P x then f x # xs else x # update_first P f xs)"

record contract_request =
  req_producer :: string
  req_consumers :: "string list"
  req_checks :: "schema_check list"
  req_freshness :: "rat option"
  req_gates :: "string list"

definition create_data_contract ::
  "string \<Rightarrow> string \<Rightarrow> contract_request \<Rightarrow> data_contract list \<Rightarrow> (string \<times> string) \<times> data_contract list" where
  "create_data_contract new_id now req cs =
     ((new_id, req_producer req),
      cs @ [\<lparr>contract_id = new_id, producer_table = req_producer req, consumer_tables = req_consumers req,
             schema_checks = req_checks req, freshness_sla_hours = req_freshness req, contract_gates = req_gates req,
             contract_status = ''unknown'', last_validated = None, contract_created_at = now\<rparr>])"

definition run_contract :: "'w services \<Rightarrow> data_contract \<Rightarrow> record_batch list \<Rightarrow> 'w \<Rightarrow> contract_result" where
  "run_contract V c bs w = validate_contract (show_type (texts V)) (now_text V w) c (map batch_schema bs)"

definition failed_validation :: "string \<Rightarrow> string \<Rightarrow> contract_result" where
  "failed_validation cid now =
     \<lparr>result_id = cid, passed = False,
      violations = [\<lparr>violation_type = ''execution_failed'', violation_column = ''*'',
        expected = ''successful execution'', actual = ''producer execution failed''\<rparr>], validated_at = now\<rparr>"

definition validate_data_contract ::
  "'w services \<Rightarrow> string \<Rightarrow> tables \<Rightarrow> data_contract list \<Rightarrow> 'w \<Rightarrow> contract_result http \<times> data_contract list \<times> 'w" where
  "validate_data_contract V cid ts cs w =
     (case find (\<lambda>c. contract_id c = cid) cs of
        None \<Rightarrow> (Inl (404, ''Contract not found''), cs, w)
      | Some c \<Rightarrow>
          (case find_table (producer_table c) ts of
             None \<Rightarrow> (Inl (404, ''Producer table '' @ quote (producer_table c) @ '' not found''), cs, w)
           | Some t \<Rightarrow>
               (case execute_transform_code V (transform_type (transform_of t)) (source_code (transform_of t)) w of
                  ((batches, _), w') \<Rightarrow>
                    (let v = (case batches of Some bs \<Rightarrow> run_contract V c bs w' | None \<Rightarrow> failed_validation cid (now_text V w'))
                     in (Inr v,
                         update_first (\<lambda>c. contract_id c = cid)
                           (\<lambda>c. c\<lparr>contract_status := (if contract_result.passed v then ''passing'' else ''failing''),
                                  last_validated := Some (validated_at v)\<rparr>) cs, w')))))"

section \<open>The marketplace\<close>

record marketplace_package =
  package_id :: string
  package_name :: string
  package_description :: string
  author :: string
  package_version :: string
  table_definition :: executable_table
  tags :: "string list"
  category :: string
  install_count :: u64
  published_at :: string

record publish_request =
  pub_table :: string
  pub_description :: string
  pub_author :: string
  pub_tags :: "string list"
  pub_category :: "string option"

definition default_category :: string where "default_category = ''analytics''"

definition new_package :: "string \<Rightarrow> string \<Rightarrow> publish_request \<Rightarrow> executable_table \<Rightarrow> marketplace_package" where
  "new_package new_id now req t =
     \<lparr>package_id = new_id, package_name = pub_table req, package_description = pub_description req, author = pub_author req,
      package_version = show_nat (length (versions t)) @ ''.0.0'', table_definition = t, tags = pub_tags req,
      category = unwrap_or default_category (pub_category req), install_count = 0, published_at = now\<rparr>"

text \<open>The copy in the object store, with the keys of the first configuration or any stored ones.\<close>

definition upload_package ::
  "'s sink_env \<Rightarrow> s3_config_entry list \<Rightarrow> s3_bucket_creds option \<Rightarrow> (marketplace_package \<Rightarrow> string) \<Rightarrow>
   marketplace_package \<Rightarrow> 's \<Rightarrow> bool \<times> 's" where
  "upload_package E configs creds print p s =
     (case configs of
        [] \<Rightarrow> (False, s)
      | c # _ \<Rightarrow>
          (let (key, secret) = (if cfg_access_key c \<noteq> [] \<and> cfg_secret_key c \<noteq> [] then (cfg_access_key c, cfg_secret_key c)
                                else case creds of Some k \<Rightarrow> (access_key k, secret_key k) | None \<Rightarrow> ([], []))
           in if key = [] then (False, s)
              else case from_s3_uri (''s3://'' @ cfg_bucket c @ ''/rustlake-marketplace/'')
                          (if cfg_endpoint c = [] then None else Some (cfg_endpoint c)) key secret (cfg_region c) of
                     Ok sc \<Rightarrow>
                       (case new_sink E sc 500 of
                          Ok k \<Rightarrow>
                            (case store_put (sink_store E) s
                                    (''rustlake-marketplace/'' @ package_name p @ ''-'' @ package_version p @ ''.json'') (print p) of
                               (Inr _, s') \<Rightarrow> (True, s')
                             | (Inl _, s') \<Rightarrow> (False, s'))
                        | _ \<Rightarrow> (False, s))
                   | _ \<Rightarrow> (False, s)))"

definition publish_to_marketplace ::
  "'s sink_env \<Rightarrow> s3_config_entry list \<Rightarrow> s3_bucket_creds option \<Rightarrow> (marketplace_package \<Rightarrow> string) \<Rightarrow> string \<Rightarrow> string \<Rightarrow>
   publish_request \<Rightarrow> tables \<Rightarrow> marketplace_package list \<Rightarrow> 's \<Rightarrow> (string \<times> string \<times> bool) http \<times> marketplace_package list \<times> 's" where
  "publish_to_marketplace E configs creds print new_id now req ts ps s =
     (case find_table (pub_table req) ts of
        None \<Rightarrow> (Inl (404, ''Table '' @ quote (pub_table req) @ '' not found''), ps, s)
      | Some t \<Rightarrow>
          (let p = new_package new_id now req t; (up, s') = upload_package E configs creds print p s
           in (Inr (package_id p, package_name p, up), ps @ [p], s')))"

definition clean_install :: "executable_table \<Rightarrow> executable_table" where
  "clean_install t =
     t\<lparr>history := [], total_executions := 0, total_cost_usd := 0, last_refresh := None,
       status_of := (status_of t)\<lparr>run_state := ''active'', health := ''healthy'', data_freshness := ''unknown''\<rparr>,
       versions := map (\<lambda>v. v\<lparr>snapshot_ids := []\<rparr>) (versions t)\<rparr>"

definition find_package :: "string option \<Rightarrow> string option \<Rightarrow> marketplace_package list \<Rightarrow> marketplace_package option" where
  "find_package by_id by_name ps =
     (case by_id of
        Some i \<Rightarrow> find (\<lambda>p. package_id p = i) ps
      | None \<Rightarrow> (case by_name of Some n \<Rightarrow> find (\<lambda>p. package_name p = n) ps | None \<Rightarrow> None))"

definition install_from_marketplace ::
  "string option \<Rightarrow> string option \<Rightarrow> tables \<Rightarrow> marketplace_package list \<Rightarrow>
   (string \<times> string) http \<times> tables \<times> marketplace_package list" where
  "install_from_marketplace by_id by_name ts ps =
     (case find_package by_id by_name ps of
        None \<Rightarrow> (Inl (404, ''Package not found''), ts, ps)
      | Some p \<Rightarrow>
          (let t = clean_install (table_definition p);
               n = (if \<exists>x \<in> set ts. table_name x = table_name t then table_name t @ ''_installed'' else table_name t)
           in (Inr (n, package_name p), ts @ [t\<lparr>table_name := n\<rparr>],
               update_first (\<lambda>q. package_name q = package_name p) (\<lambda>q. q\<lparr>install_count := install_count q + 1\<rparr>) ps)))"

section \<open>Column lineage\<close>

definition column_lineage :: "'w services \<Rightarrow> string \<Rightarrow> tables \<Rightarrow> (string \<times> lineage_entry list \<times> string list) http result" where
  "column_lineage V tname ts =
     (case find_table tname ts of
        None \<Rightarrow> Ok (Inl (404, ''Table '' @ quote tname @ '' not found''))
      | Some t \<Rightarrow>
          (let tr = transform_of t
           in bind_result
                (if transform_type tr = ''sql'' then parse_sql_column_lineage (upper_of V) (source_code tr) (input_tables t)
                 else Ok [\<lparr>output_column = ''*'', source_table = (case input_tables t of [] \<Rightarrow> None | i # _ \<Rightarrow> Some i),
                           source_column = None, transform_expression = ''rust_binary/computed ('' @ source_hash tr @ '')''\<rparr>])
                (\<lambda>l. Ok (Inr (transform_type tr, l, input_tables t)))))"

section \<open>Replaying what is upstream\<close>

definition tables_dag :: "tables \<Rightarrow> dag" where
  "tables_dag ts = build_dependency_dag (map (\<lambda>t. (table_name t, input_tables t)) ts)"

text \<open>One table: run its transform, evaluate its gates, and check the first contract it produces for.\<close>

record checked_run =
  run_batches :: "record_batch list option"
  run_rows :: u64
  run_duration :: u64
  run_gates :: "gate_result list"
  run_gates_passed :: bool
  run_contract_ok :: bool

definition run_checked :: "'w services \<Rightarrow> data_contract list \<Rightarrow> executable_table \<Rightarrow> 'w \<Rightarrow> checked_run \<times> 'w" where
  "run_checked V cs t w =
     (case execute_transform_code V (transform_type (transform_of t)) (source_code (transform_of t)) w of
        ((batches, rows, dur), w') \<Rightarrow>
          (let gates = (case batches of Some bs \<Rightarrow> validate_gates (texts V) (now_text V w') (quality_gates t) bs | None \<Rightarrow> []);
               ok = (case (find (\<lambda>c. producer_table c = table_name t) cs, batches) of
                       (Some c, Some bs) \<Rightarrow> contract_result.passed (run_contract V c bs w')
                     | _ \<Rightarrow> True)
           in (\<lparr>run_batches = batches, run_rows = rows, run_duration = dur, run_gates = gates,
                run_gates_passed = list_all result_passed gates, run_contract_ok = ok\<rparr>, w')))"

record cascade_node =
  node_table :: string
  node_version :: u32
  node_run :: checked_run
  node_status :: string
  node_error :: "string option"

record cascade_result =
  cascade_target :: string
  cascade_nodes :: "cascade_node list"
  all_gates_passed :: bool
  all_contracts_valid :: bool

definition run_status :: "checked_run \<Rightarrow> string" where
  "run_status r = (if run_batches r \<noteq> None then ''success'' else ''failed'')"

definition run_error :: "checked_run \<Rightarrow> string option" where
  "run_error r = (if run_batches r = None then Some ''Execution failed'' else None)"

fun replay_nodes :: "'w services \<Rightarrow> tables \<Rightarrow> data_contract list \<Rightarrow> string list \<Rightarrow> 'w \<Rightarrow> cascade_node list \<times> 'w" where
  "replay_nodes V ts cs [] w = ([], w)"
| "replay_nodes V ts cs (n # ns) w =
     (case find_table n ts of
        None \<Rightarrow> replay_nodes V ts cs ns w
      | Some t \<Rightarrow>
          (let (r, w1) = run_checked V cs t w; (rest, w2) = replay_nodes V ts cs ns w1
           in (\<lparr>node_table = n, node_version = max_version (versions t), node_run = r, node_status = run_status r,
                node_error = run_error r\<rparr> # rest, w2)))"

definition cascade_replay ::
  "'w services \<Rightarrow> string \<Rightarrow> tables \<Rightarrow> data_contract list \<Rightarrow> 'w \<Rightarrow> (cascade_result http result \<times> 'w) option" where
  "cascade_replay V tname ts cs w =
     (if find_table tname ts = None then Some (Ok (Inl (404, ''Table '' @ quote tname @ '' not found'')), w)
      else case topological_sort_upstream (hash_set_order V) (hash_map_order V) (tables_dag ts) tname of
             None \<Rightarrow> None
           | Some (Ok order) \<Rightarrow>
               (let (nodes, w') = replay_nodes V ts cs order w
                in Some (Ok (Inr \<lparr>cascade_target = tname, cascade_nodes = nodes,
                         all_gates_passed = list_all (run_gates_passed \<circ> node_run) nodes,
                         all_contracts_valid = list_all (run_contract_ok \<circ> node_run) nodes\<rparr>), w'))
           | Some (Err e) \<Rightarrow> Some (Err e, w)
           | Some Panic \<Rightarrow> Some (Panic, w))"

section \<open>Pipelines\<close>

record pipeline_stage =
  stage_table :: string
  stage_depends_on :: "string list"
  gate_required :: bool
  contract_required :: bool

record exec_pipeline =
  pipeline_id :: string
  pipeline_name :: string
  pipeline_stages :: "pipeline_stage list"
  pipeline_status :: string
  last_run :: "string option"
  total_runs :: u64

record stage_result =
  stage_name :: string
  stage_run :: checked_run
  stage_status :: string
  stage_error :: "string option"

record pipeline_run =
  ran_id :: string
  ran_name :: string
  ran_status :: string
  ran_stages :: "stage_result list"

definition create_executable_pipeline ::
  "string \<Rightarrow> string \<Rightarrow> pipeline_stage list \<Rightarrow> exec_pipeline list \<Rightarrow> (string \<times> string) \<times> exec_pipeline list" where
  "create_executable_pipeline new_id tname stages ps =
     ((new_id, tname), ps @ [\<lparr>pipeline_id = new_id, pipeline_name = tname, pipeline_stages = stages,
        pipeline_status = ''created'', last_run = None, total_runs = 0\<rparr>])"

fun add_stages :: "string list \<Rightarrow> string list \<Rightarrow> string list \<Rightarrow> string list" where
  "add_stages names [] acc = acc"
| "add_stages names (n # ns) acc = add_stages names ns (if n \<in> set names \<and> n \<notin> set acc then acc @ [n] else acc)"

fun order_stages :: "'w services \<Rightarrow> dag \<Rightarrow> string list \<Rightarrow> string list \<Rightarrow> string list \<Rightarrow> string list result option" where
  "order_stages V dag names [] acc = Some (Ok acc)"
| "order_stages V dag names (n # ns) acc =
     (case topological_sort_upstream (hash_set_order V) (hash_map_order V) dag n of
        None \<Rightarrow> None
      | Some (Ok up) \<Rightarrow> order_stages V dag names ns (add_stages names up acc)
      | Some (Err e) \<Rightarrow> Some (Err e)
      | Some Panic \<Rightarrow> Some Panic)"

definition should_stop :: "pipeline_stage list \<Rightarrow> string \<Rightarrow> checked_run \<Rightarrow> bool" where
  "should_stop stages n r =
     (case find (\<lambda>s. stage_table s = n) stages of
        Some sd \<Rightarrow> gate_required sd \<and> \<not> run_gates_passed r \<or> contract_required sd \<and> \<not> run_contract_ok r \<or> run_batches r = None
      | None \<Rightarrow> run_batches r = None)"

fun run_stages ::
  "'w services \<Rightarrow> tables \<Rightarrow> data_contract list \<Rightarrow> pipeline_stage list \<Rightarrow> string list \<Rightarrow> 'w \<Rightarrow> (stage_result list \<times> string) \<times> 'w" where
  "run_stages V ts cs stages [] w = (([], ''success''), w)"
| "run_stages V ts cs stages (n # ns) w =
     (case find_table n ts of
        None \<Rightarrow> run_stages V ts cs stages ns w
      | Some t \<Rightarrow>
          (let (r, w1) = run_checked V cs t w;
               x = \<lparr>stage_name = n, stage_run = r, stage_status = run_status r, stage_error = run_error r\<rparr>
           in if should_stop stages n r then (([x], ''failed''), w1)
              else let ((rest, st), w2) = run_stages V ts cs stages ns w1 in ((x # rest, st), w2)))"

definition run_executable_pipeline ::
  "'w services \<Rightarrow> string \<Rightarrow> tables \<Rightarrow> data_contract list \<Rightarrow> exec_pipeline list \<Rightarrow> 'w \<Rightarrow>
   (pipeline_run http result \<times> exec_pipeline list \<times> 'w) option" where
  "run_executable_pipeline V pid ts cs ps w =
     (case find (\<lambda>p. pipeline_id p = pid) ps of
        None \<Rightarrow> Some (Ok (Inl (404, ''Pipeline not found'')), ps, w)
      | Some p \<Rightarrow>
          (let names = map stage_table (pipeline_stages p)
           in case order_stages V (tables_dag ts) names names [] of
                None \<Rightarrow> None
              | Some (Ok order) \<Rightarrow>
                  (let ((results, status), w') = run_stages V ts cs (pipeline_stages p) order w
                   in Some (Ok (Inr \<lparr>ran_id = pipeline_id p, ran_name = pipeline_name p, ran_status = status, ran_stages = results\<rparr>),
                        update_first (\<lambda>q. pipeline_id q = pipeline_id p)
                          (\<lambda>q. q\<lparr>total_runs := total_runs q + 1, last_run := Some (now_text V w'), pipeline_status := status\<rparr>) ps, w'))
              | Some (Err e) \<Rightarrow> Some (Err e, ps, w)
              | Some Panic \<Rightarrow> Some (Panic, ps, w)))"

section \<open>Debugging an execution\<close>

record execution_summary =
  sum_id :: string
  sum_version :: u32
  sum_status :: string
  sum_rows :: "u64 option"
  sum_ms :: u64
  sum_cost :: rat
  sum_started :: string

definition summary_of :: "execution_record \<Rightarrow> execution_summary" where
  "summary_of e =
     \<lparr>sum_id = execution_id e, sum_version = exec_version e, sum_status = exec_status e, sum_rows = rows_produced e,
      sum_ms = duration_ms e, sum_cost = cost_usd e, sum_started = started_at e\<rparr>"

record transform_diff =
  diff_from :: u32
  diff_to :: u32
  diff_from_hash :: string
  diff_to_hash :: string
  diff_of :: "diff_line list \<times> nat \<times> nat \<times> nat"

record data_diff =
  dd_rows :: int
  dd_rows_pct :: rat
  dd_ms :: int
  dd_cost :: rat
  dd_metrics :: "regression_metric list"

record upstream_change =
  up_table :: string
  up_changed_at :: "string option"
  up_before :: "u32 option"
  up_after :: "u32 option"

record debug_result =
  dbg_table :: string
  dbg_bad :: execution_summary
  dbg_good :: "execution_summary option"
  dbg_code :: "transform_diff option"
  dbg_data :: data_diff
  dbg_causes :: "string list"
  dbg_upstream :: "upstream_change list"

text \<open>The execution to look at: the one asked for, else the last that failed, else the last.\<close>

definition bad_execution :: "string option \<Rightarrow> execution_record list \<Rightarrow> execution_record option" where
  "bad_execution eid hist =
     (case eid of
        Some i \<Rightarrow> find (\<lambda>e. execution_id e = i) hist
      | None \<Rightarrow> (case find (\<lambda>e. exec_status e = ''failed'') (rev hist) of
                  Some e \<Rightarrow> Some e
                | None \<Rightarrow> if hist = [] then None else Some (last hist)))"

definition good_execution :: "execution_record \<Rightarrow> execution_record list \<Rightarrow> execution_record option" where
  "good_execution bad hist =
     find (\<lambda>e. exec_status e = ''success'') (rev (takeWhile (\<lambda>e. execution_id e \<noteq> execution_id bad) hist))"

definition code_between :: "executable_table \<Rightarrow> execution_record \<Rightarrow> execution_record \<Rightarrow> transform_diff option" where
  "code_between t good bad =
     (if exec_version bad = exec_version good then None
      else let old = find_version (exec_version good) (versions t); new = find_version (exec_version bad) (versions t)
           in Some \<lparr>diff_from = exec_version good, diff_to = exec_version bad,
                    diff_from_hash = (case old of Some v \<Rightarrow> version_hash v | None \<Rightarrow> []),
                    diff_to_hash = (case new of Some v \<Rightarrow> version_hash v | None \<Rightarrow> source_hash (transform_of t)),
                    diff_of = diff_transforms (case old of Some v \<Rightarrow> version_source v | None \<Rightarrow> [])
                      (case new of Some v \<Rightarrow> version_source v | None \<Rightarrow> source_code (transform_of t))\<rparr>)"

definition rows_i64 :: "execution_record \<Rightarrow> int" where
  "rows_i64 e = u64_as_i64 (unat (unwrap_or 0 (rows_produced e)))"

definition data_between :: "execution_record \<Rightarrow> execution_record \<Rightarrow> data_diff" where
  "data_between good bad =
     (let d = wrap_i64 (rows_i64 bad - rows_i64 good)
      in \<lparr>dd_rows = d,
          dd_rows_pct = (if 0 < rows_i64 good then f64_percent (rnd (of_int d)) (rnd (of_int (rows_i64 good))) else 0),
          dd_ms = wrap_i64 (u64_as_i64 (unat (duration_ms bad)) - u64_as_i64 (unat (duration_ms good))),
          dd_cost = f64_sub (cost_usd bad) (cost_usd good),
          dd_metrics = metrics (compare_executions good bad)\<rparr>)"

definition no_data_diff :: data_diff where
  "no_data_diff = \<lparr>dd_rows = 0, dd_rows_pct = 0, dd_ms = 0, dd_cost = 0, dd_metrics = []\<rparr>"

definition root_causes :: "'w services \<Rightarrow> execution_record \<Rightarrow> transform_diff option \<Rightarrow> data_diff \<Rightarrow> string list" where
  "root_causes V bad code data =
     (if exec_status bad = ''failed'' then (case exec_error bad of Some e \<Rightarrow> [''Error: '' @ e] | None \<Rightarrow> []) else []) @
     (case code of
        None \<Rightarrow> []
      | Some d \<Rightarrow> (case diff_of d of (_, _, _, changed) \<Rightarrow>
          if 0 < changed
          then [''Code changed: '' @ show_nat changed @ '' lines modified between v'' @ show_nat (unat (diff_from d)) @
                '' and v'' @ show_nat (unat (diff_to d))]
          else [])) @
     (if dd_rows data < 0 \<and> dd_rows_pct data < - 10
      then [''Row count dropped '' @ fixed1 V (dd_rows_pct data) @ ''% ('' @ show_int (dd_rows data) @ '' rows)''] else [])"

definition upstream_change_of :: "tables \<Rightarrow> string \<Rightarrow> upstream_change" where
  "upstream_change_of ts i =
     (case find_table i ts of
        None \<Rightarrow> \<lparr>up_table = i, up_changed_at = None, up_before = None, up_after = None\<rparr>
      | Some u \<Rightarrow>
          \<lparr>up_table = i, up_changed_at = (if history u = [] then None else Some (started_at (last (history u)))),
           up_before = Some (if 2 \<le> length (versions u) then version (versions u ! (length (versions u) - 2)) else 1),
           up_after = (if versions u = [] then None else Some (version (last (versions u))))\<rparr>)"

definition debug_execution :: "'w services \<Rightarrow> string \<Rightarrow> string option \<Rightarrow> tables \<Rightarrow> debug_result http" where
  "debug_execution V tname eid ts =
     (case find_table tname ts of
        None \<Rightarrow> Inl (404, ''Table '' @ quote tname @ '' not found'')
      | Some t \<Rightarrow>
          (if history t = [] then Inl (400, ''No execution history available'')
           else case bad_execution eid (history t) of
             None \<Rightarrow> Inl (404, ''Execution not found'')
           | Some bad \<Rightarrow>
               (let good = good_execution bad (history t);
                    code = Option.bind good (\<lambda>g. code_between t g bad);
                    data = (case good of Some g \<Rightarrow> data_between g bad | None \<Rightarrow> no_data_diff)
                in Inr \<lparr>dbg_table = tname, dbg_bad = summary_of bad, dbg_good = map_option summary_of good, dbg_code = code,
                       dbg_data = data, dbg_causes = root_causes V bad code data,
                       dbg_upstream = map (upstream_change_of ts) (input_tables t)\<rparr>)))"

section \<open>Data products\<close>

record data_product =
  product_id :: string
  product_name :: string
  product_table :: string
  product_contract :: "string option"
  sla_freshness :: rat
  sla_quality :: rat
  owner :: string
  consumers :: "string list"
  certification :: string
  product_description :: string

record product_request =
  want_name :: string
  want_table :: string
  want_contract :: "string option"
  want_freshness :: "rat option"
  want_quality :: "rat option"
  want_owner :: string
  want_consumers :: "string list"
  want_description :: string

definition create_data_product ::
  "string \<Rightarrow> product_request \<Rightarrow> data_product list \<Rightarrow> (string \<times> string) \<times> data_product list" where
  "create_data_product new_id r ps =
     ((new_id, want_name r),
      ps @ [\<lparr>product_id = new_id, product_name = want_name r, product_table = want_table r, product_contract = want_contract r,
             sla_freshness = unwrap_or 24 (want_freshness r), sla_quality = unwrap_or (rnd (95 / 100)) (want_quality r),
             owner = (if want_owner r = [] then ''platform'' else want_owner r), consumers = want_consumers r,
             certification = ''pending'', product_description = want_description r\<rparr>])"

record product_audit =
  audit_product :: data_product
  provenance_chain_length :: nat
  contract_validation :: "contract_result option"
  gate_pass_rate :: rat
  actual_hours :: rat
  within_sla :: bool
  quality_score :: rat
  audit_costs :: "rat \<times> rat \<times> u64 \<times> u64"
  upstream_chain :: "string list"
  certification_eligible :: bool
  compliance_issues :: "string list"

definition hours_old :: "'w services \<Rightarrow> 'w \<Rightarrow> executable_table option \<Rightarrow> rat" where
  "hours_old V w t =
     (case Option.bind (Option.bind t last_refresh) (minutes_since V w) of
        Some m \<Rightarrow> f64_div (rnd (of_int m)) 60
      | None \<Rightarrow> 999)"

definition pass_rate :: "executable_table option \<Rightarrow> rat" where
  "pass_rate t =
     (case t of
        None \<Rightarrow> 0
      | Some t \<Rightarrow>
          (if history t = [] then 1
           else f64_div (f64_of_nat (length (filter (\<lambda>e. exec_status e = ''success'') (history t)))) (f64_of_nat (length (history t)))))"

definition audit_contract ::
  "'w services \<Rightarrow> data_product \<Rightarrow> executable_table option \<Rightarrow> data_contract list \<Rightarrow> 'w \<Rightarrow> contract_result option \<times> 'w" where
  "audit_contract V p t cs w =
     (case (Option.bind (product_contract p) (\<lambda>i. find (\<lambda>c. contract_id c = i) cs), t) of
        (Some c, Some t) \<Rightarrow>
          (case execute_transform_code V (transform_type (transform_of t)) (source_code (transform_of t)) w of
             ((batches, _), w') \<Rightarrow> (map_option (\<lambda>bs. run_contract V c bs w') batches, w'))
      | _ \<Rightarrow> (None, w))"

definition audit_issues :: "'w services \<Rightarrow> data_product \<Rightarrow> rat \<Rightarrow> bool \<Rightarrow> rat \<Rightarrow> contract_result option \<Rightarrow> string list" where
  "audit_issues V p hours fresh score cv =
     (if \<not> fresh then [''SLA violation: data is '' @ fixed1 V hours @ ''h old (SLA: '' @ shown V (sla_freshness p) @ ''h)''] else []) @
     (if score < sla_quality p
      then [''Quality below threshold: '' @ fixed1 V (f64_mult score 100) @ ''% (required: '' @ fixed1 V (f64_mult (sla_quality p) 100) @ ''%)'']
      else []) @
     (case cv of
        Some v \<Rightarrow> if contract_result.passed v then [] else [''Contract violations: '' @ show_nat (length (contract_result.violations v))]
      | None \<Rightarrow> [])"

definition audit_data_product ::
  "'w services \<Rightarrow> string \<Rightarrow> tables \<Rightarrow> data_contract list \<Rightarrow> data_product list \<Rightarrow> 'w \<Rightarrow>
   (product_audit http result \<times> 'w) option" where
  "audit_data_product V pname ts cs ps w =
     (case find (\<lambda>p. product_name p = pname) ps of
        None \<Rightarrow> Some (Ok (Inl (404, ''Data product '' @ quote pname @ '' not found'')), w)
      | Some p \<Rightarrow>
          (let t = find_table (product_table p) ts;
               hours = hours_old V w t;
               fresh = (t \<noteq> None \<and> hours \<le> sla_freshness p);
               rate = pass_rate t;
               score = f64_mult rate (if fresh then 1 else 1 / 2);
               costs = (case t of Some x \<Rightarrow> (total_cost_usd x, cost_saved_usd x, total_executions x, executions_skipped x)
                        | None \<Rightarrow> (0, 0, 0, 0));
               (cv, w') = audit_contract V p t cs w
           in case topological_sort_upstream (hash_set_order V) (hash_map_order V) (tables_dag ts) (product_table p) of
                None \<Rightarrow> None
              | Some (Ok chain) \<Rightarrow>
                  Some (Ok (Inr \<lparr>audit_product = p, provenance_chain_length = length chain, contract_validation = cv,
                     gate_pass_rate = rate, actual_hours = hours, within_sla = fresh, quality_score = score, audit_costs = costs,
                     upstream_chain = chain,
                     certification_eligible = (fresh \<and> score \<ge> sla_quality p \<and>
                       (case cv of Some v \<Rightarrow> contract_result.passed v | None \<Rightarrow> True)),
                     compliance_issues = audit_issues V p hours fresh score cv\<rparr>), w')
              | Some (Err e) \<Rightarrow> Some (Err e, w')
              | Some Panic \<Rightarrow> Some (Panic, w')))"


section \<open>A/B tests\<close>

text \<open>C33. Who wins an A/B test. Without data regressions a version wins exactly when it is at least as good in
  rows and time and better in one of them, and it is a tie when neither is. With regressions of version B
  against version A the score of B goes up and that of A down: A never wins, and B wins unless A has more
  rows and less time.\<close>

theorem regressed_version_never_loses:
  assumes "ab_test_executable_table V t va vb ts w = (Inr r, w')"
  defines "beats \<equiv> \<lambda>x y. ab_rows x \<ge> ab_rows y \<and> ab_ms x \<le> ab_ms y \<and> (ab_rows x > ab_rows y \<or> ab_ms x < ab_ms y)"
  shows "(data_regressions (ab_compared r) \<noteq> [] \<longrightarrow>
      winner r = (if ab_rows (metrics_a r) > ab_rows (metrics_b r) \<and> ab_ms (metrics_a r) < ab_ms (metrics_b r)
                  then ''tie'' else ''version_b'')) \<and>
    (data_regressions (ab_compared r) = [] \<longrightarrow>
      winner r = (if beats (metrics_a r) (metrics_b r) then ''version_a''
                  else if beats (metrics_b r) (metrics_a r) then ''version_b'' else ''tie''))"
proof -
  obtain a b cmp where w: "winner r = pick_winner (ab_scores a b cmp)" "a = metrics_a r" "b = metrics_b r" "cmp = ab_compared r"
    using assms(1) by (auto simp: ab_test_executable_table_def Let_def split: option.splits prod.splits)
  show ?thesis unfolding w(1) pick_winner_def ab_scores_def w(2-4) beats_def by auto
qed

section \<open>The order of replays and pipelines\<close>

lemma upstream_self: "n \<in> upstream_of dag n"
  by (simp add: upstream_of_def)

lemma replay_nodes_tables:
  "map node_table (fst (replay_nodes V ts cs ns w)) = filter (\<lambda>n. find_table n ts \<noteq> None) ns"
proof (induction ns arbitrary: w)
  case (Cons n ns)
  show ?case
  proof (cases "find_table n ts")
    case (Some t)
    obtain r w1 where r: "run_checked V cs t w = (r, w1)" by fastforce
    obtain rest w2 where "replay_nodes V ts cs ns w1 = (rest, w2)" by fastforce
    with Cons [of w1] Some r show ?thesis by simp
  qed (simp add: Cons)
qed simp

lemma run_checked_failed:
  assumes "run_checked V cs t w = (r, w')" and "run_batches r = None"
  shows "run_gates_passed r \<and> run_contract_ok r"
  using assms by (auto simp: run_checked_def Let_def split: prod.splits option.splits)

lemma replay_failed:
  assumes "x \<in> set (fst (replay_nodes V ts cs ns w))" and "node_status x = ''failed''"
  shows "run_gates_passed (node_run x) \<and> run_contract_ok (node_run x)"
  using assms(1)
proof (induction ns arbitrary: w)
  case (Cons n ns)
  show ?case
  proof (cases "find_table n ts")
    case (Some t)
    obtain r w1 where r: "run_checked V cs t w = (r, w1)" by fastforce
    obtain rest w2 where R: "replay_nodes V ts cs ns w1 = (rest, w2)" by fastforce
    with Cons.prems Some r have "node_run x = r \<and> node_status x = run_status r \<or> x \<in> set rest" by auto
    with assms(2) run_checked_failed [OF r] Cons.IH [of w1] R show ?thesis
      by (auto simp: run_status_def split: if_splits)
  qed (use Cons in simp)
qed simp

lemma filter_split:
  "filter P zs = xs @ n # ys \<Longrightarrow> \<exists>us vs. zs = us @ n # vs \<and> xs = filter P us"
proof (induction zs arbitrary: xs)
  case (Cons z zs)
  show ?case
  proof (cases "P z \<and> xs \<noteq> []")
    case True
    then obtain xs' where xs: "xs = z # xs'" using Cons.prems by (cases xs) auto
    then obtain us vs where "zs = us @ n # vs" "xs' = filter P us" using Cons True by auto
    then have "z # zs = (z # us) @ n # vs" "xs = filter P (z # us)" using xs True by simp_all
    then show ?thesis by blast
  next
    case False
    show ?thesis
    proof (cases "P z")
      case True
      with False Cons.prems have "z # zs = [] @ n # zs" "xs = filter P []" by auto
      then show ?thesis by blast
    next
      case False
      then obtain us vs where "zs = us @ n # vs" "xs = filter P us" using Cons by auto
      then have "z # zs = (z # us) @ n # vs" "xs = filter P (z # us)" using False by simp_all
      then show ?thesis by blast
    qed
  qed
qed simp

text \<open>C32. A replay always answers. It runs exactly the executable tables that are upstream of the target and from
  which no dependency cycle can be reached, each once and after everything upstream of it that it runs; the
  target may be missing. A table whose run failed counts as having passed its gates and its contract, so
  the totals of a replay in which everything fails are positive.\<close>

theorem cascade_replays_upstream:
  assumes "\<And>xs. mset (hash_set_order V xs) = mset xs" and "\<And>m. mset (hash_map_order V m) = mset m"
    and "find_table t ts \<noteq> None"
  shows "\<exists>r w'. cascade_replay V t ts cs w = Some (Ok (Inr r), w') \<and>
    distinct (map node_table (cascade_nodes r)) \<and>
    set (map node_table (cascade_nodes r)) =
      {n \<in> upstream_of (tables_dag ts) t. \<not> hits_cycle (tables_dag ts) n \<and> find_table n ts \<noteq> None} \<and>
    (\<forall>xs n ys. map node_table (cascade_nodes r) = xs @ n # ys \<longrightarrow>
       (\<forall>m \<in> upstream_of (tables_dag ts) n. m \<noteq> n \<longrightarrow> find_table m ts \<noteq> None \<longrightarrow> m \<in> set xs)) \<and>
    (list_all (\<lambda>x. node_status x = ''failed'') (cascade_nodes r) \<longrightarrow> all_gates_passed r \<and> all_contracts_valid r)"
proof -
  let ?dag = "tables_dag ts"
  from topological_sort_order [OF assms(1,2)] obtain order where
    o': "topological_sort_upstream (hash_set_order V) (hash_map_order V) ?dag t = Some (Ok order)" "in_order ?dag order"
    "set order = {n \<in> upstream_of ?dag t. \<not> hits_cycle ?dag n}" by blast
  obtain nodes w' where n: "replay_nodes V ts cs order w = (nodes, w')" by fastforce
  have names: "map node_table nodes = filter (\<lambda>n. find_table n ts \<noteq> None) order"
    using replay_nodes_tables [of V ts cs order w] n by simp
  let ?r = "\<lparr>cascade_target = t, cascade_nodes = nodes, all_gates_passed = list_all (run_gates_passed \<circ> node_run) nodes,
    all_contracts_valid = list_all (run_contract_ok \<circ> node_run) nodes\<rparr>"
  have "cascade_replay V t ts cs w = Some (Ok (Inr ?r), w')" using assms(3) o'(1) n by (simp add: cascade_replay_def)
  moreover have "distinct (map node_table nodes)" unfolding names using o'(2) by (simp add: in_order_def)
  moreover have "set (map node_table nodes) = {n \<in> upstream_of ?dag t. \<not> hits_cycle ?dag n \<and> find_table n ts \<noteq> None}"
    unfolding names using o'(3) by auto
  moreover have "m \<in> set xs" if "map node_table nodes = xs @ n # ys" "m \<in> upstream_of ?dag n" "m \<noteq> n" "find_table m ts \<noteq> None"
    for xs n ys m
  proof -
    from that(1) obtain us vs where "order = us @ n # vs" "xs = filter (\<lambda>n. find_table n ts \<noteq> None) us"
      unfolding names by (metis filter_split)
    with that in_order_closed [of ?dag us n vs] o'(2) show ?thesis by auto
  qed
  moreover have "list_all (run_gates_passed \<circ> node_run) nodes \<and> list_all (run_contract_ok \<circ> node_run) nodes"
    if "list_all (\<lambda>x. node_status x = ''failed'') nodes"
    using that replay_failed [of _ V ts cs order w] n by (auto simp: list_all_iff)
  ultimately show ?thesis by (intro exI [of _ ?r] exI [of _ w']) auto
qed


text \<open>The order of stages built so far: each once, none behind a cycle, and each after the stages upstream of it.\<close>

definition stages_ordered :: "dag \<Rightarrow> string list \<Rightarrow> string list \<Rightarrow> bool" where
  "stages_ordered dag names acc \<longleftrightarrow> distinct acc \<and> set acc \<subseteq> {n \<in> set names. \<not> hits_cycle dag n} \<and>
     (\<forall>i < length acc. set names \<inter> upstream_of dag (acc ! i) - {acc ! i} \<subseteq> set (take i acc))"

lemma stages_ordered_snoc:
  assumes "stages_ordered dag names acc" and "n \<in> set names" and "n \<notin> set acc" and "\<not> hits_cycle dag n"
    and "set names \<inter> upstream_of dag n - {n} \<subseteq> set acc"
  shows "stages_ordered dag names (acc @ [n])"
  unfolding stages_ordered_def
proof (intro conjI allI impI)
  show "distinct (acc @ [n])" "set (acc @ [n]) \<subseteq> {n \<in> set names. \<not> hits_cycle dag n}"
    using assms by (auto simp: stages_ordered_def)
  fix i assume "i < length (acc @ [n])"
  then consider "i < length acc" | "i = length acc" by fastforce
  then show "set names \<inter> upstream_of dag ((acc @ [n]) ! i) - {(acc @ [n]) ! i} \<subseteq> set (take i (acc @ [n]))"
    using assms(1,5) by cases (auto simp: stages_ordered_def nth_append)
qed

lemma add_stages_ordered:
  assumes "in_order dag (us @ vs)" and "stages_ordered dag names acc" and "set names \<inter> set us \<subseteq> set acc"
  shows "stages_ordered dag names (add_stages names vs acc) \<and>
    set (add_stages names vs acc) = set acc \<union> (set names \<inter> set vs)"
  using assms
proof (induction vs arbitrary: us acc)
  case (Cons n vs)
  let ?acc = "if n \<in> set names \<and> n \<notin> set acc then acc @ [n] else acc"
  have c: "upstream_of dag n \<subseteq> insert n (set us)" using in_order_closed Cons.prems(1) by blast
  have "\<not> hits_cycle dag n" using in_order_no_cycle [OF Cons.prems(1)] by simp
  with Cons.prems(2,3) c have "stages_ordered dag names ?acc" by (auto intro!: stages_ordered_snoc)
  moreover have "set names \<inter> set (us @ [n]) \<subseteq> set ?acc" using Cons.prems(3) by auto
  ultimately show ?case using Cons.IH [of "us @ [n]" ?acc] Cons.prems(1) by auto
qed simp

lemma order_stages_total:
  assumes "\<And>xs. mset (hash_set_order V xs) = mset xs" and "\<And>m. mset (hash_map_order V m) = mset m"
    and "stages_ordered dag names acc"
  shows "\<exists>order. order_stages V dag names ns acc = Some (Ok order) \<and> stages_ordered dag names order \<and>
    set acc \<union> {n \<in> set names \<inter> set ns. \<not> hits_cycle dag n} \<subseteq> set order"
  using assms(3)
proof (induction ns arbitrary: acc)
  case (Cons n ns)
  from topological_sort_order [OF assms(1,2)] obtain up where
    up: "topological_sort_upstream (hash_set_order V) (hash_map_order V) dag n = Some (Ok up)" "in_order dag up"
    "set up = {m \<in> upstream_of dag n. \<not> hits_cycle dag m}" by blast
  from add_stages_ordered [of dag "[]" up names acc] up(2) Cons.prems
  have a: "stages_ordered dag names (add_stages names up acc)"
    "set (add_stages names up acc) = set acc \<union> (set names \<inter> set up)" by auto
  from Cons.IH [OF a(1)] up(1,3) a(2) show ?case using upstream_self [of n dag] by fastforce
qed auto

lemma run_stages_names:
  assumes "run_stages V ts cs stages ns w = ((rs, st), w')"
  shows "\<exists>rest. filter (\<lambda>n. find_table n ts \<noteq> None) ns = map stage_name rs @ rest \<and> (st = ''success'' \<longrightarrow> rest = [])"
    and "list_all (\<lambda>x. \<not> should_stop stages (stage_name x) (stage_run x)) (if st = ''success'' then rs else butlast rs)"
    and "st = ''success'' \<or> st = ''failed'' \<and> rs \<noteq> [] \<and> should_stop stages (stage_name (last rs)) (stage_run (last rs))"
proof -
  have "(\<exists>rest. filter (\<lambda>n. find_table n ts \<noteq> None) ns = map stage_name rs @ rest \<and> (st = ''success'' \<longrightarrow> rest = [])) \<and>
      list_all (\<lambda>x. \<not> should_stop stages (stage_name x) (stage_run x)) (if st = ''success'' then rs else butlast rs) \<and>
      (st = ''success'' \<or> st = ''failed'' \<and> rs \<noteq> [] \<and> should_stop stages (stage_name (last rs)) (stage_run (last rs)))"
    using assms
  proof (induction ns arbitrary: w rs)
    case (Cons n ns)
    show ?case
    proof (cases "find_table n ts")
      case (Some t)
      obtain r w1 where r: "run_checked V cs t w = (r, w1)" by fastforce
      obtain rest st2 w2 where R: "run_stages V ts cs stages ns w1 = ((rest, st2), w2)" by (metis prod.exhaust)
      show ?thesis
      proof (cases "should_stop stages n r")
        case True
        with Cons.prems Some r show ?thesis by (auto simp: Let_def)
      next
        case False
        with Cons.prems Some r R have "st2 = st" "w2 = w'" and rs: "rs = \<lparr>stage_name = n, stage_run = r, stage_status = run_status r, stage_error = run_error r\<rparr> # rest"
          by (simp_all add: Let_def)
        with Cons.IH R Some False show ?thesis by auto
      qed
    qed (use Cons in simp)
  qed simp
  then show "\<exists>rest. filter (\<lambda>n. find_table n ts \<noteq> None) ns = map stage_name rs @ rest \<and> (st = ''success'' \<longrightarrow> rest = [])"
    "list_all (\<lambda>x. \<not> should_stop stages (stage_name x) (stage_run x)) (if st = ''success'' then rs else butlast rs)"
    "st = ''success'' \<or> st = ''failed'' \<and> rs \<noteq> [] \<and> should_stop stages (stage_name (last rs)) (stage_run (last rs))"
    by blast+
qed

lemma prefix_ordered:
  assumes "stages_ordered dag names ns" and "filter P ns = xs @ n # ys"
    and "m \<in> set names" and "m \<in> upstream_of dag n" and "m \<noteq> n" and "P m"
  shows "m \<in> set xs"
proof -
  obtain us vs where u: "ns = us @ n # vs" "xs = filter P us" using filter_split [OF assms(2)] by blast
  then have "set names \<inter> upstream_of dag n - {n} \<subseteq> set us"
    using assms(1) unfolding stages_ordered_def by (auto dest!: spec [of _ "length us"])
  with u(2) assms(3-6) show ?thesis by auto
qed

text \<open>C20. A run of a pipeline always answers. Every stage runs at most once and after the stages upstream of it,
  also when the way leads over tables outside the pipeline; the run stops at the first stage that fails or
  misses what it requires. It reports success exactly when no stage stopped it, and then has run every
  stage that is an executable table - except those from which a dependency cycle can be reached, which are
  left out without a word. The declared dependencies of stages play no role.\<close>

theorem pipeline_runs_in_order:
  assumes "\<And>xs. mset (hash_set_order V xs) = mset xs" and "\<And>m. mset (hash_map_order V m) = mset m"
    and "find (\<lambda>p. pipeline_id p = pid) ps = Some p"
  shows "\<exists>run ps' w'. run_executable_pipeline V pid ts cs ps w = Some (Ok (Inr run), ps', w') \<and>
    (let ran = map stage_name (ran_stages run); names = map stage_table (pipeline_stages p);
         runnable = {n \<in> set names. \<not> hits_cycle (tables_dag ts) n \<and> find_table n ts \<noteq> None};
         stops = (\<lambda>x. should_stop (pipeline_stages p) (stage_name x) (stage_run x))
     in distinct ran \<and> set ran \<subseteq> runnable \<and>
        (\<forall>xs n ys. ran = xs @ n # ys \<longrightarrow> runnable \<inter> upstream_of (tables_dag ts) n - {n} \<subseteq> set xs) \<and>
        (\<forall>x \<in> set (butlast (ran_stages run)). \<not> stops x) \<and>
        (ran_status run = ''success'' \<longleftrightarrow> (\<forall>x \<in> set (ran_stages run). \<not> stops x)) \<and>
        (ran_status run = ''success'' \<longrightarrow> set ran = runnable))"
proof -
  let ?dag = "tables_dag ts" and ?names = "map stage_table (pipeline_stages p)" and ?P = "\<lambda>n. find_table n ts \<noteq> None"
  let ?runnable = "{n \<in> set ?names. \<not> hits_cycle ?dag n \<and> ?P n}"
  have "stages_ordered ?dag ?names []" by (simp add: stages_ordered_def)
  from order_stages_total [OF assms(1,2) this, of ?names] obtain order where
    o': "order_stages V ?dag ?names ?names [] = Some (Ok order)" and so: "stages_ordered ?dag ?names order"
    and all: "{n \<in> set ?names. \<not> hits_cycle ?dag n} \<subseteq> set order" by auto
  obtain rs st w' where R: "run_stages V ts cs (pipeline_stages p) order w = ((rs, st), w')" by (metis prod.exhaust)
  note names = run_stages_names [OF R]
  obtain rest where rest: "filter ?P order = map stage_name rs @ rest" "st = ''success'' \<longrightarrow> rest = []" using names(1) by blast
  have eq: "set (filter ?P order) = ?runnable" using so all by (auto simp: stages_ordered_def)
  have "distinct (filter ?P order)" using so by (simp add: stages_ordered_def)
  then have d: "distinct (map stage_name rs)" unfolding rest(1) by simp
  have sub: "set (map stage_name rs) \<subseteq> ?runnable" unfolding eq [symmetric] rest(1) by simp
  have "?runnable \<inter> upstream_of ?dag n - {n} \<subseteq> set xs" if "map stage_name rs = xs @ n # ys" for xs n ys
    using prefix_ordered [OF so, of ?P xs n "ys @ rest"] rest(1) that by auto
  then have ord: "\<forall>xs n ys. map stage_name rs = xs @ n # ys \<longrightarrow> ?runnable \<inter> upstream_of ?dag n - {n} \<subseteq> set xs" by blast
  have bl: "\<forall>x \<in> set (butlast rs). \<not> should_stop (pipeline_stages p) (stage_name x) (stage_run x)"
    using names(2) by (auto simp: list_all_iff split: if_splits dest: in_set_butlastD)
  have iff: "st = ''success'' \<longleftrightarrow> (\<forall>x \<in> set rs. \<not> should_stop (pipeline_stages p) (stage_name x) (stage_run x))"
    using names(2,3) last_in_set [of rs] by (auto simp: list_all_iff split: if_splits)
  have suc: "st = ''success'' \<longrightarrow> set (map stage_name rs) = ?runnable" using eq rest by (metis append_Nil2)
  have "pipeline_id p = pid" using assms(3) by (auto simp: find_Some_iff)
  then show ?thesis using assms(3) o' R d sub ord bl iff suc by (simp add: run_executable_pipeline_def Let_def)
qed

section \<open>Installing\<close>

text \<open>An installation that is answered appends a table without history under the answered name. It can be found
  under that name only if the name was free: when both the name and the name with the suffix are taken, the
  new table is hidden behind the old one and no operation reaches it.\<close>

theorem installed_table_may_be_hidden:
  assumes "install_from_marketplace by_id by_name ts ps = (Inr (n, pkg), ts', ps')"
  shows "\<exists>t'. ts' = ts @ [t'] \<and> table_name t' = n \<and> history t' = [] \<and> total_executions t' = 0 \<and>
    (n \<notin> table_name ` set ts \<longrightarrow> find_table n ts' = Some t') \<and>
    (n \<in> table_name ` set ts \<longrightarrow> (\<forall>m. find_table m ts' = find_table m ts))"
proof -
  obtain p where p: "find_package by_id by_name ps = Some p"
    using assms by (auto simp: install_from_marketplace_def split: option.splits)
  let ?t = "(clean_install (table_definition p))\<lparr>table_name := n\<rparr>"
  have ts': "ts' = ts @ [?t]" using assms p by (auto simp: install_from_marketplace_def Let_def)
  have app: "find_table m (ts @ [?t]) = (if m \<in> table_name ` set ts then find_table m ts else if n = m then Some ?t else None)" for m
    by (induction ts) auto
  have none: "m \<notin> table_name ` set ts \<Longrightarrow> find_table m ts = None" for m by (induction ts) auto
  have "find_table m ts' = find_table m ts" if "n \<in> table_name ` set ts" for m
    unfolding ts' app using none [of m] that by (cases "m \<in> table_name ` set ts") (simp, metis)
  moreover have "find_table n ts' = Some ?t" if "n \<notin> table_name ` set ts" unfolding ts' app using that by simp
  moreover have "table_name ?t = n \<and> history ?t = [] \<and> total_executions ?t = 0" by (simp add: clean_install_def)
  ultimately show ?thesis using ts' by blast
qed


section \<open>Debugging\<close>

lemma find_rev: "find P (rev xs) = (if filter P xs = [] then None else Some (last (filter P xs)))"
  by (induction xs rule: rev_induct) auto

lemma takeWhile_distinct:
  assumes "distinct (map f (pre @ x # post))"
  shows "takeWhile (\<lambda>y. f y \<noteq> f x) (pre @ x # post) = pre"
  using assms by (subst takeWhile_append2) (auto, metis image_eqI)

text \<open>Without an execution id the debugger looks at the last failed execution, or at the last one if none failed,
  and compares it with the last successful execution before it, if there is one.\<close>

theorem debug_compares_with_last_success:
  assumes "find_table n ts = Some t" and "debug_execution V n None ts = Inr r"
    and "distinct (map execution_id (history t))"
  shows "\<exists>pre bad post. history t = pre @ bad # post \<and> dbg_bad r = summary_of bad \<and>
    list_all (\<lambda>e. exec_status e \<noteq> ''failed'') post \<and>
    (exec_status bad \<noteq> ''failed'' \<longrightarrow> post = [] \<and> list_all (\<lambda>e. exec_status e \<noteq> ''failed'') pre) \<and>
    dbg_good r = (let good = filter (\<lambda>e. exec_status e = ''success'') pre
                  in if good = [] then None else Some (summary_of (last good)))"
proof -
  let ?F = "\<lambda>e. exec_status e = ''failed''"
  obtain bad where b: "bad_execution None (history t) = Some bad" "dbg_bad r = summary_of bad"
    "dbg_good r = map_option summary_of (good_execution bad (history t))" and ne: "history t \<noteq> []"
    using assms(1,2) by (auto simp: debug_execution_def Let_def split: if_splits option.splits)
  have "\<exists>pre post. history t = pre @ bad # post \<and> list_all (\<lambda>e. \<not> ?F e) post \<and> (\<not> ?F bad \<longrightarrow> post = [] \<and> list_all (\<lambda>e. \<not> ?F e) pre)"
  proof (cases "\<exists>e \<in> set (history t). ?F e")
    case True
    then obtain ys e zs where "history t = ys @ e # zs" "?F e" "\<forall>z \<in> set zs. \<not> ?F z"
      using split_list_last_prop [of "history t" ?F] by blast
    moreover from this have "filter ?F (history t) = filter ?F ys @ [e]" by simp
    then have "bad = e" using b(1) unfolding bad_execution_def find_rev by simp
    ultimately show ?thesis by (auto simp: list_all_iff)
  next
    case False
    then have "bad = last (history t)" using b(1) ne by (simp add: bad_execution_def find_rev filter_empty_conv)
    moreover have "list_all (\<lambda>e. \<not> ?F e) (butlast (history t))" using False by (auto simp: list_all_iff dest: in_set_butlastD)
    ultimately show ?thesis using ne by (intro exI [of _ "butlast (history t)"] exI [of _ "[]"]) simp
  qed
  then obtain pre post where p: "history t = pre @ bad # post" "list_all (\<lambda>e. \<not> ?F e) post"
    "\<not> ?F bad \<longrightarrow> post = [] \<and> list_all (\<lambda>e. \<not> ?F e) pre" by blast
  have "good_execution bad (history t) = (let good = filter (\<lambda>e. exec_status e = ''success'') pre
      in if good = [] then None else Some (last good))"
    using takeWhile_distinct [of execution_id pre bad post] assms(3) by (simp add: good_execution_def p(1) find_rev)
  then show ?thesis using p b(2,3) by (intro exI [of _ pre] exI [of _ bad] exI [of _ post]) (simp add: Let_def)
qed

section \<open>Audits\<close>

text \<open>A contract that cannot be checked because the run of its table fails does not count against a product.\<close>

lemma failing_producer_has_no_validation:
  assumes "find_table (product_table p) ts = Some t"
    and "execute_transform_code V (transform_type (transform_of t)) (source_code (transform_of t)) w = ((None, x), w')"
  shows "fst (audit_contract V p (find_table (product_table p) ts) cs w) = None"
  using assms by (simp add: audit_contract_def split: option.splits)

section \<open>Instances\<close>

definition drifted_batch :: record_batch where
  "drifted_batch = (demo_batch [Some 1])\<lparr>batch_schema := [\<lparr>field_name = ''y'', data_type = Int64, is_nullable = True\<rparr>]\<rparr>"

definition demo_services :: "unit services" where
  "demo_services =
     \<lparr>eng_sql = \<lambda>w q. (if q = ''fail'' then Inl ''error'' else if q = ''old'' then Inr [demo_batch [Some 1]] else Inr [drifted_batch], w),
      eng_rust = \<lambda>w _. (\<lparr>rust_success = False, rust_stdout = [], rust_compile_output = [], rust_compile_ms = 0,
        rust_run_ms = 0, rust_error = None\<rparr>, w),
      elapsed_ms = \<lambda>_. 7, now_text = \<lambda>_. ''now'', minutes_since = \<lambda>_ _. Some 30, csv_number = \<lambda>_. None, texts = demo_format,
      cell_text = demo_cell, fixed1 = \<lambda>_. [], shown = \<lambda>_. [], upper_of = to_uppercase, hash_set_order = rev, hash_map_order = rev\<rparr>"

definition demo_tables :: tables where
  "demo_tables =
     [demo_table [''u''] [] [demo_version 1 ''old'', demo_version 2 ''new''] ''fail'',
      (demo_table [''v''] [] [] ''fail'')\<lparr>table_name := ''u''\<rparr>, (demo_table [''v''] [] [] ''old'')\<lparr>table_name := ''v''\<rparr>]"

lemma regressed_version_never_loses_witness:
  "\<exists>r w'. ab_test_executable_table demo_services ''t'' 1 2 demo_tables () = (Inr r, w') \<and>
     data_regressions (ab_compared r) \<noteq> [] \<and> winner r = ''version_b''"
proof -
  obtain r w' where r: "ab_test_executable_table demo_services ''t'' 1 2 demo_tables () = (Inr r, w')"
    and d: "data_regressions (ab_compared r) = detect_data_regression demo_cell [demo_batch [Some 1]] [drifted_batch]"
      "ab_ms (metrics_a r) = 7" "ab_ms (metrics_b r) = 7"
    by (simp add: ab_test_executable_table_def demo_tables_def demo_table_def demo_version_def find_version_def demo_services_def
        execute_transform_code_def ab_metrics_of_def compare_ab_outputs_def Let_def del: detect_data_regression.simps)
  have "detect_data_regression demo_cell [demo_batch [Some 1]] [drifted_batch] \<noteq> []"
    by (simp add: schema_drift_def field_names_def demo_batch_def drifted_batch_def Let_def)
  with regressed_version_never_loses [OF r] r d show ?thesis by auto
qed

lemma cascade_replays_upstream_witness:
  "\<exists>r w'. cascade_replay demo_services ''t'' demo_tables [] () = Some (Ok (Inr r), w') \<and> distinct (map node_table (cascade_nodes r))"
  using cascade_replays_upstream [of demo_services "''t''" demo_tables "[]" "()"]
  by (fastforce simp: demo_services_def demo_tables_def demo_table_def)

definition demo_pipeline :: exec_pipeline where
  "demo_pipeline = \<lparr>pipeline_id = ''p'', pipeline_name = ''p'', pipeline_stages =
      [\<lparr>stage_table = ''v'', stage_depends_on = [''t''], gate_required = True, contract_required = False\<rparr>],
      pipeline_status = ''created'', last_run = None, total_runs = 0\<rparr>"

lemma pipeline_runs_in_order_witness:
  "\<exists>run ps' w'. run_executable_pipeline demo_services ''p'' demo_tables [] [demo_pipeline] () = Some (Ok (Inr run), ps', w') \<and>
     distinct (map stage_name (ran_stages run))"
  using pipeline_runs_in_order [of demo_services "''p''" "[demo_pipeline]" demo_pipeline demo_tables "[]" "()"]
  by (fastforce simp: demo_services_def demo_pipeline_def Let_def)

definition demo_package :: "string \<Rightarrow> marketplace_package" where
  "demo_package n = new_package ''id'' ''now'' \<lparr>pub_table = n, pub_description = [], pub_author = [], pub_tags = [], pub_category = None\<rparr>
     ((demo_table [] [] [] ''old'')\<lparr>table_name := n\<rparr>)"

lemma installed_table_may_be_hidden_witness:
  "let ts = demo_tables @ [(demo_table [] [] [] ''old'')\<lparr>table_name := ''t_installed''\<rparr>]
   in \<exists>n pkg ts' ps'. install_from_marketplace (Some ''id'') None ts [demo_package ''t''] = (Inr (n, pkg), ts', ps') \<and>
        (\<forall>m. find_table m ts' = find_table m ts)"
proof -
  let ?ts = "demo_tables @ [(demo_table [] [] [] ''old'')\<lparr>table_name := ''t_installed''\<rparr>]"
  obtain pkg ts' ps' where i: "install_from_marketplace (Some ''id'') None ?ts [demo_package ''t''] = (Inr (''t_installed'', pkg), ts', ps')"
    by (simp add: install_from_marketplace_def find_package_def demo_package_def new_package_def demo_tables_def demo_table_def
        clean_install_def Let_def)
  have "''t_installed'' \<in> table_name ` set ?ts" by simp
  with installed_table_may_be_hidden [OF i] i show ?thesis unfolding Let_def by blast
qed

end
