(* ===== verification/Rust_Executor.thy ===== *)
theory Rust_Executor
  imports Executable_Table Iceberg_History "HOL-Library.Char_ord" "HOL-Library.List_Lexorder"
begin

text \<open>
  \<open>rustlake-api/src/rust_executor.rs\<close>: compiling and running Rust code, with the cache of compiled
  binaries and its copy in an object store, and the Rust program that is generated around a SQL text.

  The state is the cache (source hash to entry), the files of the machine and the object store, if one is
  configured. The compiler, a run of a binary, the order in which a hash map is iterated, the clock and
  failures of the file system are parameters; process output is the text \<open>from_utf8_lossy\<close> makes of it.
  The upload to the object store runs in a task of its own: whether it reads the binary before the
  temporary directory is removed is a parameter too, and it is placed before the run of the program.
\<close>

section \<open>Generated programs\<close>

definition nl :: string where "nl = [CHR 0x0A]"
definition dq :: string where "dq = [CHR 0x22]"

definition wrap_in_main :: "string \<Rightarrow> string" where
  "wrap_in_main code =
     (if contains code ''fn main()'' \<or> contains code ''fn main ()'' then code
      else join_with nl
        [''#![allow(unused_imports, unused_variables, dead_code)]'',
         ''use std::collections::{HashMap, HashSet, BTreeMap, VecDeque};'',
         ''use std::io::{self, Read, Write};'', [], ''fn main() {'', code, ''}''])"

text \<open>The three replacements, of the backslash, of the double quote and of the line feed.\<close>

definition escape_sql :: "string \<Rightarrow> string" where
  "escape_sql sql =
     replace_str nl [CHR 0x5C, CHR ''n''] (replace_str dq [CHR 0x5C, CHR 0x22] (replace_str [CHR 0x5C] [CHR 0x5C, CHR 0x5C] sql))"

definition first_line :: "string \<Rightarrow> string" where
  "first_line sql = (case str_lines sql of [] \<Rightarrow> [] | l # _ \<Rightarrow> l)"

definition wrap_sql_in_rust :: "string \<Rightarrow> string" where
  "wrap_sql_in_rust sql = join_with nl
     [''//! Auto-generated Glacier binary from SQL transform.'', ''//! Source SQL: '' @ first_line sql, ''//!'',
      ''//! This binary embeds the SQL query and can be executed standalone.'',
      ''//! When run by the RustLake scheduler, it outputs CSV to stdout'',
      ''//! which is parsed into Arrow RecordBatches.'', [], ''fn main() {'',
      ''    // The SQL transform this glacier executes:'',
      ''    let sql = '' @ dq @ escape_sql sql @ dq @ '';'', [],
      ''    // Print the SQL as a header comment for traceability'',
      ''    eprintln!('' @ dq @ ''[glacier] Executing SQL: {}'' @ dq @ '', sql);'', [],
      ''    // For standalone execution, we echo the SQL and metadata.'',
      ''    // The RustLake scheduler executes this SQL via DataFusion'',
      ''    // and uses the binary for versioning, caching, and deployment.'',
      ''    println!('' @ dq @ ''glacier_sql,status'' @ dq @ '');'',
      ''    println!('' @ dq @ escape_sql sql @ '',compiled'' @ dq @ '');'', ''}'', []]"

definition wrap_sql_with_rust_logic :: "string \<Rightarrow> string \<Rightarrow> string" where
  "wrap_sql_with_rust_logic sql rust_logic = join_with nl
     [''//! Auto-generated Glacier binary with SQL source + Rust processing.'', ''//! Source SQL: '' @ first_line sql, [],
      ''fn main() {'', ''    let _source_sql = '' @ dq @ escape_sql sql @ dq @ '';'', [],
      ''    // User-provided Rust processing logic:'', ''    '' @ rust_logic, ''}'', []]"

section \<open>Output\<close>

definition max_output_bytes :: nat where "max_output_bytes = 64 * 1024"

definition truncate_output :: "string \<Rightarrow> string result" where
  "truncate_output s =
     (if max_output_bytes < length s
      then if char_boundary s max_output_bytes
           then Ok (take max_output_bytes s @ ''...'' @ nl @ ''[output truncated at '' @ show_nat max_output_bytes @ '' bytes]'')
           else Panic
      else Ok s)"

section \<open>The state\<close>

record cached_binary =
  cache_path :: string
  cache_hits :: u64
  last_used :: nat

datatype compile_outcome =
    Compiled string string
  | Rejected string string
  | Compiler_missing string
  | Compile_timeout

datatype process_outcome =
    Exited "int option" string string
  | Not_started string
  | Run_timeout

record 's machine =
  binaries :: "(string, cached_binary) fmap"
  disk :: "(string, string) fmap"
  objects :: "'s option"

record 's toolchain =
  object_env :: "'s env"
  rustc :: "string \<Rightarrow> compile_outcome"
  run_binary :: "string \<Rightarrow> process_outcome"
  temp_dir_error :: "string option"
  write_source_error :: "string option"
  copy_error :: "string \<Rightarrow> string option"
  removes :: "string \<Rightarrow> bool"
  upload_read_error :: "string option"
  entry_order :: "(string, cached_binary) fmap \<Rightarrow> string list"
  compiled_at :: string
  target_arch_os :: "string \<times> string"
  clocks :: "u64 \<times> u64 \<times> u64"

record rust_result =
  compile_output :: string
  out_text :: string
  err_text :: string
  compiled :: bool
  success :: bool
  all_ms :: u64
  compiling_ms :: u64
  running_ms :: u64
  error_text :: "string option"

section \<open>The cache\<close>

definition cache_dir :: string where "cache_dir = ''.rustlake-cache/rust-bins''"
definition max_cache_entries :: nat where "max_cache_entries = 100"

definition local_path :: "string \<Rightarrow> string" where
  "local_path h = cache_dir @ ''/bin-'' @ h"

definition get_cached_binary :: "nat \<Rightarrow> string \<Rightarrow> 's machine \<Rightarrow> string option \<times> 's machine" where
  "get_cached_binary now h M =
     (case fmlookup (binaries M) h of
        None \<Rightarrow> (None, M)
      | Some e \<Rightarrow>
          (if fmlookup (disk M) (cache_path e) \<noteq> None
           then (Some (cache_path e),
                 M\<lparr>binaries := fmupd h (e\<lparr>cache_hits := cache_hits e + 1, last_used := now\<rparr>) (binaries M)\<rparr>)
           else (None, M\<lparr>binaries := fmdrop h (binaries M)\<rparr>)))"

definition remove_entry :: "'s toolchain \<Rightarrow> string \<Rightarrow> 's machine \<Rightarrow> 's machine" where
  "remove_entry T k M =
     (case fmlookup (binaries M) k of
        None \<Rightarrow> M
      | Some e \<Rightarrow> M\<lparr>binaries := fmdrop k (binaries M),
                    disk := (if removes T (cache_path e) then fmdrop (cache_path e) (disk M) else disk M)\<rparr>)"

text \<open>The oldest fifth; \<open>sort_by_key\<close> is stable.\<close>

definition victims :: "'s toolchain \<Rightarrow> (string, cached_binary) fmap \<Rightarrow> string list" where
  "victims T m =
     take (max_cache_entries div 5)
       (sort_key (\<lambda>k. case fmlookup m k of Some e \<Rightarrow> last_used e | None \<Rightarrow> 0) (entry_order T m))"

definition evict :: "'s toolchain \<Rightarrow> 's machine \<Rightarrow> 's machine" where
  "evict T M =
     (if max_cache_entries \<le> fcard (fmdom (binaries M))
      then fold (remove_entry T) (victims T (binaries M)) M else M)"

definition add_entry :: "nat \<Rightarrow> string \<Rightarrow> 's machine \<Rightarrow> 's machine" where
  "add_entry now h M =
     M\<lparr>binaries := fmupd h \<lparr>cache_path = local_path h, cache_hits = 0, last_used = now\<rparr> (binaries M)\<rparr>"

definition cache_binary :: "'s toolchain \<Rightarrow> nat \<Rightarrow> string \<Rightarrow> string \<Rightarrow> 's machine \<Rightarrow> 's machine" where
  "cache_binary T now h bin M =
     (if copy_error T (local_path h) = None
      then add_entry now h (evict T (M\<lparr>disk := fmupd (local_path h) bin (disk M)\<rparr>))
      else M)"

definition cache_stats :: "'s machine \<Rightarrow> nat \<times> u64" where
  "cache_stats M =
     (fcard (fmdom (binaries M)),
      (\<Sum>k \<in> fmdom' (binaries M). case fmlookup (binaries M) k of Some e \<Rightarrow> cache_hits e | None \<Rightarrow> 0))"

section \<open>The object store\<close>

definition object_path :: "string \<Rightarrow> string" where
  "object_path h = ''rustlake-functions/bin-'' @ h"

definition manifest_path :: "string \<Rightarrow> string" where
  "manifest_path h = ''rustlake-functions/manifest-'' @ h @ ''.json''"

definition function_manifest :: "'s toolchain \<Rightarrow> string \<Rightarrow> string \<Rightarrow> nat \<Rightarrow> json" where
  "function_manifest T h code n = jobj
     [(''format-version'', JInt 1), (''type'', JStr ''rustlake-function''), (''source-hash'', JStr h),
      (''source-code'', JStr code), (''binary-path'', JStr (object_path h)), (''binary-size'', JInt (int n)),
      (''compiled-at'', JStr (compiled_at T)), (''compiler'', JStr ''rustc''),
      (''target'', JStr (fst (target_arch_os T))), (''os'', JStr (snd (target_arch_os T))),
      (''properties'', jobj
         [(''rustlake.function.type'', JStr ''notebook-cell''), (''rustlake.function.cacheable'', JStr ''true''),
          (''rustlake.function.binary-format'', JStr ''native'')])]"

definition upload_binary_to_s3 ::
  "'s toolchain \<Rightarrow> string \<Rightarrow> string \<Rightarrow> string + string \<Rightarrow> 's \<Rightarrow> string result \<times> 's" where
  "upload_binary_to_s3 T h code bin s =
     (case bin of
        Inl e \<Rightarrow> (Err (''Failed to read binary: '' @ e), s)
      | Inr b \<Rightarrow>
          (case store_put (object_env T) s (object_path h) b of
             (Inl e, s1) \<Rightarrow> (Err (''S3 PUT binary: '' @ e), s1)
           | (Inr _, s1) \<Rightarrow>
               (case json_print (object_env T) (function_manifest T h code (length b)) of
                  Inl e \<Rightarrow> (Err (''Manifest JSON: '' @ e), s1)
                | Inr txt \<Rightarrow>
                    (case store_put (object_env T) s1 (manifest_path h) txt of
                       (Inl e, s2) \<Rightarrow> (Err (''S3 PUT manifest: '' @ e), s2)
                     | (Inr _, s2) \<Rightarrow> (Ok (object_path h), s2)))))"

definition download_binary_from_s3 :: "'s toolchain \<Rightarrow> nat \<Rightarrow> string \<Rightarrow> 's \<Rightarrow> 's machine \<Rightarrow> string result \<times> 's machine" where
  "download_binary_from_s3 T now h s M =
     (case store_get (object_env T) s (object_path h) of
        Inl e \<Rightarrow> (Err (''S3 GET binary: '' @ e), M)
      | Inr (Inl e) \<Rightarrow> (Err (''S3 read bytes: '' @ e), M)
      | Inr (Inr b) \<Rightarrow>
          (case copy_error T (local_path h) of
             None \<Rightarrow> (Ok (local_path h), add_entry now h (M\<lparr>disk := fmupd (local_path h) b (disk M)\<rparr>))
           | Some e \<Rightarrow> (Err (''Write cached binary: '' @ e), M)))"

definition list_s3_binaries :: "'s toolchain \<Rightarrow> 's \<Rightarrow> json list result" where
  "list_s3_binaries T s =
     (case store_list (object_env T) s ''rustlake-functions'' of
        Inl e \<Rightarrow> Err (''S3 list: '' @ e)
      | Inr items \<Rightarrow> Ok (List.map_filter (\<lambda>(p, _).
          if ends_with p ''.json''
          then (case store_get (object_env T) s p of
                  Inr (Inr txt) \<Rightarrow> (case json_parse (object_env T) txt of Inr j \<Rightarrow> Some j | Inl _ \<Rightarrow> None)
                | _ \<Rightarrow> None)
          else None) items))"

section \<open>Running code\<close>

definition max_execution_secs :: nat where "max_execution_secs = 10"
definition max_compile_secs :: nat where "max_compile_secs = 30"

definition run_ms_of :: "'s toolchain \<Rightarrow> u64" where "run_ms_of T = fst (snd (clocks T))"
definition total_ms_of :: "'s toolchain \<Rightarrow> u64" where "total_ms_of T = snd (snd (clocks T))"

text \<open>What a run gives; \<open>exit_text\<close> makes the message of a failed exit from its code and error output.\<close>

definition run_report ::
  "'s toolchain \<Rightarrow> string \<Rightarrow> u64 \<Rightarrow> (int \<Rightarrow> string \<Rightarrow> string) \<Rightarrow> string \<Rightarrow> process_outcome \<Rightarrow> rust_result result" where
  "run_report T compile_txt c_ms exit_text start_text p =
     (let base = \<lparr>compile_output = compile_txt, out_text = [], err_text = [], compiled = True, success = False,
                  all_ms = total_ms_of T, compiling_ms = c_ms, running_ms = run_ms_of T, error_text = None\<rparr>
      in case p of
        Exited code so se \<Rightarrow>
          bind_result (truncate_output so) (\<lambda>stdout.
          bind_result (truncate_output se) (\<lambda>stderr.
            Ok (base\<lparr>out_text := stdout, err_text := stderr, success := (code = Some 0),
                     error_text := (if code = Some 0 then None else Some (exit_text (unwrap_or (- 1) code) stderr))\<rparr>)))
      | Not_started e \<Rightarrow> Ok (base\<lparr>error_text := Some (start_text @ e)\<rparr>)
      | Run_timeout \<Rightarrow> Ok (base\<lparr>error_text := Some (''Execution timed out after '' @ show_nat max_execution_secs @ ''s'')\<rparr>))"

definition run_cached :: "'s toolchain \<Rightarrow> string \<Rightarrow> rust_result result" where
  "run_cached T bin =
     run_report T ''(cached)'' 0 (\<lambda>code stderr. ''Exit code '' @ show_int code @ nl @ stderr)
       ''Cached binary execution error: '' (run_binary T bin)"

definition run_compiled :: "'s toolchain \<Rightarrow> string \<Rightarrow> string \<Rightarrow> rust_result result" where
  "run_compiled T warnings bin =
     run_report T warnings (fst (clocks T))
       (\<lambda>code stderr. ''Process exited with code '' @ show_int code @ (if stderr = [] then [] else nl @ stderr))
       ''Execution error: '' (run_binary T bin)"

definition not_compiled :: "'s toolchain \<Rightarrow> u64 \<Rightarrow> u64 \<Rightarrow> string \<Rightarrow> string \<Rightarrow> string \<Rightarrow> rust_result" where
  "not_compiled T d_ms c_ms out err msg =
     \<lparr>compile_output = out, out_text = [], err_text = err, compiled = False, success = False, all_ms = d_ms,
      compiling_ms = c_ms, running_ms = 0, error_text = Some msg\<rparr>"

definition restore_from_s3 :: "'s toolchain \<Rightarrow> nat \<Rightarrow> string \<Rightarrow> 's machine \<Rightarrow> 's machine" where
  "restore_from_s3 T now h M =
     (case get_cached_binary now h M of
        (Some _, M1) \<Rightarrow> M1
      | (None, M1) \<Rightarrow>
          (case objects M1 of None \<Rightarrow> M1 | Some s \<Rightarrow> snd (download_binary_from_s3 T now h s M1)))"

definition spawn_upload :: "'s toolchain \<Rightarrow> string \<Rightarrow> string \<Rightarrow> string \<Rightarrow> 's machine \<Rightarrow> 's machine" where
  "spawn_upload T h code bin M =
     (case objects M of
        None \<Rightarrow> M
      | Some s \<Rightarrow> M\<lparr>objects := Some (snd (upload_binary_to_s3 T h code (case upload_read_error T of None \<Rightarrow> Inr bin | Some e \<Rightarrow> Inl e) s))\<rparr>)"

definition compile_and_run :: "'s toolchain \<Rightarrow> nat \<Rightarrow> string \<Rightarrow> string \<Rightarrow> 's machine \<Rightarrow> rust_result result \<times> 's machine" where
  "compile_and_run T now code h M =
     (let c_ms = fst (clocks T); total = total_ms_of T
      in case temp_dir_error T of
        Some e \<Rightarrow> (Ok (not_compiled T 0 0 [] [] (''Failed to create temp dir: '' @ e)), M)
      | None \<Rightarrow>
        (case write_source_error T of
           Some e \<Rightarrow> (Ok (not_compiled T total 0 [] [] (''Failed to write source: '' @ e)), M)
         | None \<Rightarrow>
           (case rustc T code of
              Rejected so se \<Rightarrow>
                (bind_result (truncate_output se) (\<lambda>stderr. bind_result (truncate_output so) (\<lambda>stdout.
                   Ok (not_compiled T total c_ms (stdout @ stderr) stderr (''Compilation failed:'' @ nl @ stderr)))), M)
            | Compiler_missing e \<Rightarrow>
                (Ok (not_compiled T total c_ms [] [] (''Compiler error: '' @ e @ '' '' @ em_dash @ '' is `rustc` installed?'')), M)
            | Compile_timeout \<Rightarrow>
                (Ok (not_compiled T total c_ms [] [] (''Compilation timed out after '' @ show_nat max_compile_secs @ ''s'')), M)
            | Compiled bin warnings \<Rightarrow>
                (case truncate_output warnings of
                   Ok w \<Rightarrow> (run_compiled T w bin, spawn_upload T h code bin (cache_binary T now h bin M))
                 | Err e \<Rightarrow> (Err e, M)
                 | Panic \<Rightarrow> (Panic, M)))))"

definition execute_rust :: "'s toolchain \<Rightarrow> nat \<Rightarrow> string \<Rightarrow> 's machine \<Rightarrow> rust_result result \<times> 's machine" where
  "execute_rust T now code M =
     (let full_code = wrap_in_main code;
          h = hash_source full_code;
          M1 = restore_from_s3 T now h M
      in case get_cached_binary now h M1 of
           (Some p, M2) \<Rightarrow> (run_cached T (unwrap_or [] (fmlookup (disk M2) p)), M2)
         | (None, M2) \<Rightarrow> compile_and_run T now full_code h M2)"

fun run_cells :: "'s toolchain \<Rightarrow> nat \<Rightarrow> string list \<Rightarrow> 's machine \<Rightarrow> 's machine" where
  "run_cells T now [] M = M"
| "run_cells T now (c # cs) M = run_cells T (now + 1) cs (snd (execute_rust T now c M))"

section \<open>The embedded SQL\<close>

text \<open>A Rust string literal after its opening quote: its content and what follows the closing quote.\<close>

definition escaped_char :: "char \<Rightarrow> char option" where
  "escaped_char d = (if d = CHR ''n'' then Some (CHR 0x0A) else if d = CHR 0x5C \<or> d = CHR 0x22 then Some d else None)"

fun read_literal :: "string \<Rightarrow> (string \<times> string) option" where
  "read_literal [] = None"
| "read_literal (c # cs) =
     (if c = CHR 0x22 then Some ([], cs)
      else if c = CHR 0x5C
      then (case cs of
              [] \<Rightarrow> None
            | d # r \<Rightarrow> (case escaped_char d of
                None \<Rightarrow> None
              | Some x \<Rightarrow> (case read_literal r of None \<Rightarrow> None | Some (t, r') \<Rightarrow> Some (x # t, r'))))
      else (case read_literal cs of None \<Rightarrow> None | Some (t, r') \<Rightarrow> Some (c # t, r')))"

lemma replace_str_single: "replace_str [c] r s = replace_char c r s"
  by (induction "[c]" r s rule: replace_str.induct) (auto simp: replace_char_def)

definition escape_char :: "char \<Rightarrow> string" where
  "escape_char c = (if c = CHR 0x5C then [CHR 0x5C, CHR 0x5C] else if c = CHR 0x22 then [CHR 0x5C, CHR 0x22]
     else if c = CHR 0x0A then [CHR 0x5C, CHR ''n''] else [c])"

lemma escape_sql_chars: "escape_sql sql = concat (map escape_char sql)"
  by (induction sql) (simp_all add: escape_sql_def nl_def dq_def replace_str_single replace_char_def escape_char_def)

lemma read_escaped: "read_literal (concat (map escape_char sql) @ CHR 0x22 # r) = Some (sql, r)"
  by (induction sql) (simp_all add: escape_char_def escaped_char_def)

lemma join_with_part: "y \<in> set xs \<Longrightarrow> \<exists>pre post. join_with sep xs = pre @ y @ post"
proof (induction sep xs rule: join_with.induct)
  case (3 sep x x' xs)
  show ?case
  proof (cases "y = x")
    case True
    then show ?thesis by (metis append_Nil join_with.simps(3))
  next
    case False
    with 3 obtain pre post where "join_with sep (x' # xs) = pre @ y @ post" by auto
    then have "join_with sep (x # x' # xs) = (x @ sep @ pre) @ y @ post" by simp
    then show ?thesis by blast
  qed
qed (auto intro: exI [of _ "[]"])

text \<open>The SQL text cannot leave the string literal it is embedded in: for every SQL text the generated
  program has the escaped text in double quotes, and read as a Rust literal this gives the SQL text back
  and ends at the closing quote.\<close>

theorem embedded_sql_is_one_literal:
  "(\<exists>pre post. wrap_sql_in_rust sql = pre @ ''let sql = '' @ dq @ escape_sql sql @ dq @ post) \<and>
   read_literal (escape_sql sql @ dq @ rest) = Some (sql, rest)"
proof
  show "\<exists>pre post. wrap_sql_in_rust sql = pre @ ''let sql = '' @ dq @ escape_sql sql @ dq @ post"
  proof -
    let ?line = "''    let sql = '' @ dq @ escape_sql sql @ dq @ '';''"
    have "\<exists>pre post. wrap_sql_in_rust sql = pre @ ?line @ post"
      unfolding wrap_sql_in_rust_def by (rule join_with_part) simp
    then obtain pre post where "wrap_sql_in_rust sql = pre @ ?line @ post" by blast
    then have "wrap_sql_in_rust sql = (pre @ ''    '') @ ''let sql = '' @ dq @ escape_sql sql @ dq @ ('';'' @ post)" by simp
    then show ?thesis by blast
  qed
  show "read_literal (escape_sql sql @ dq @ rest) = Some (sql, rest)"
    by (simp add: escape_sql_chars read_escaped dq_def)
qed

section \<open>Truncation\<close>

lemma valid_after_ascii: "valid_utf8 (replicate n 97 @ r) = valid_utf8 r"
  by (induction n) auto

lemma split_character:
  assumes "max_output_bytes = Suc n" and "k = Suc (Suc n)"
  shows "\<exists>u. valid_str u \<and> length u = k \<and> truncate_output u = Panic"
  by (rule exI [of _ "replicate n (CHR ''a'') @ [CHR 0xC3, CHR 0xA9]"])
    (simp add: valid_str_def valid_after_ascii utf8_cont_def truncate_output_def assms char_boundary_def nth_append)

lemma truncated_length:
  assumes "truncate_output s = Ok t"
  shows "prefix (take max_output_bytes s) t \<and> length t \<le> max_output_bytes + (32 + length (show_nat max_output_bytes))"
proof (cases "max_output_bytes < length s")
  case True
  with assms have "t = take max_output_bytes s @ ''...'' @ nl @ ''[output truncated at '' @ show_nat max_output_bytes @ '' bytes]''"
    by (simp add: truncate_output_def split: if_splits)
  then show ?thesis by (simp add: nl_def)
qed (use assms in \<open>simp add: truncate_output_def take_is_prefix\<close>)

text \<open>Output longer than 64 KB panics exactly when a character crosses that boundary; there are texts
  in UTF-8 that do. Otherwise the output is kept, or its first 64 KB with a note.\<close>

theorem truncation_panics_iff:
  "(truncate_output s = Panic \<longleftrightarrow> 65536 < length s \<and> utf8_cont (of_char (s ! 65536))) \<and>
   (truncate_output s = Ok t \<longrightarrow> prefix (take 65536 s) t \<and> length t \<le> 65536 + 37) \<and>
   (\<exists>u. valid_str u \<and> length u = 65537 \<and> truncate_output u = Panic)"
proof (intro conjI)
  show "truncate_output s = Panic \<longleftrightarrow> 65536 < length s \<and> utf8_cont (of_char (s ! 65536))"
    by (auto simp: truncate_output_def max_output_bytes_def char_boundary_def)
  have n: "length (show_nat max_output_bytes) = 5" by (simp add: max_output_bytes_def show_nat.simps)
  show "truncate_output s = Ok t \<longrightarrow> prefix (take 65536 s) t \<and> length t \<le> 65536 + 37"
  proof
    assume "truncate_output s = Ok t"
    from truncated_length [OF this] have "prefix (take max_output_bytes s) t \<and> length t \<le> max_output_bytes + (32 + 5)"
      by (simp only: n)
    moreover have "max_output_bytes = 65536" by (simp add: max_output_bytes_def)
    ultimately show "prefix (take 65536 s) t \<and> length t \<le> 65536 + 37" by auto
  qed
  show "\<exists>u. valid_str u \<and> length u = 65537 \<and> truncate_output u = Panic"
    by (rule split_character [of 65535]) (simp_all add: max_output_bytes_def)
qed

section \<open>The cache is transparent\<close>

text \<open>What is relied on of the object store: a write that succeeds is read back, one that fails changes
  nothing, and neither touches another path.\<close>

definition atomic_store :: "'s env \<Rightarrow> bool" where
  "atomic_store E \<longleftrightarrow>
     (\<forall>s p t r s'. store_put E s p t = (r, s') \<longrightarrow>
        (r = Inr () \<longrightarrow> store_get E s' p = Inr (Inr t)) \<and> (r \<noteq> Inr () \<longrightarrow> store_get E s' p = store_get E s p) \<and>
        (\<forall>q. path_segments q \<noteq> path_segments p \<longrightarrow> store_get E s' q = store_get E s q))"

definition built :: "'s toolchain \<Rightarrow> string set \<Rightarrow> string \<Rightarrow> string \<Rightarrow> bool" where
  "built T C h b \<longleftrightarrow> (\<exists>c \<in> C. \<exists>w v. hash_source c = h \<and> rustc T c = Compiled b w \<and> truncate_output w = Ok v)"

text \<open>Every binary the machine or its object store would use is the compiled form of one of the programs.\<close>

definition sound_cache :: "'s toolchain \<Rightarrow> string set \<Rightarrow> 's machine \<Rightarrow> bool" where
  "sound_cache T C M \<longleftrightarrow>
     (\<forall>h e. fmlookup (binaries M) h = Some e \<longrightarrow> cache_path e = local_path h) \<and>
     (\<forall>h b. fmlookup (binaries M) h \<noteq> None \<longrightarrow> fmlookup (disk M) (local_path h) = Some b \<longrightarrow> built T C h b) \<and>
     (\<forall>s h b. objects M = Some s \<longrightarrow> CHR ''/'' \<notin> set h \<longrightarrow>
        store_get (object_env T) s (object_path h) = Inr (Inr b) \<longrightarrow> built T C h b)"

lemma local_path_eq [simp]: "local_path h = local_path h' \<longleftrightarrow> h = h'"
  by (simp add: local_path_def)

lemma path_segments_object:
  assumes "CHR ''/'' \<notin> set h"
  shows "path_segments (object_path h) = [''rustlake-functions'', ''bin-'' @ h]"
    and "path_segments (manifest_path h) = [''rustlake-functions'', ''manifest-'' @ h @ ''.json'']"
  using assms by (simp_all add: path_segments_def object_path_def manifest_path_def split_char_no_sep)

lemma hash_no_slash: "CHR ''/'' \<notin> set (hash_source c)"
proof -
  have "list_all (\<lambda>n. hex_digit n \<noteq> CHR ''/'') [0..<16]" by code_simp
  then have "hex_digit (n mod 16) \<noteq> CHR ''/''" for n by (simp only: list_all_iff set_upt) (simp add: Ball_def)
  then have "CHR ''/'' \<noteq> hex_digit (n mod 16)" for n by metis
  then show ?thesis unfolding hash_source_def hex16_def set_map by blast
qed

lemma sound_get_cached:
  assumes "sound_cache T C M" and "get_cached_binary now h M = (p, M')"
  shows "sound_cache T C M'"
    and "objects M' = objects M" and "disk M' = disk M"
    and "p = Some x \<Longrightarrow> \<exists>b. fmlookup (disk M') x = Some b \<and> built T C h b"
proof -
  from assms show "sound_cache T C M'"
    by (auto simp: sound_cache_def get_cached_binary_def split: option.splits if_splits)
  from assms show "objects M' = objects M" "disk M' = disk M"
    by (auto simp: get_cached_binary_def split: option.splits if_splits)
  from assms show "p = Some x \<Longrightarrow> \<exists>b. fmlookup (disk M') x = Some b \<and> built T C h b"
    by (fastforce simp: sound_cache_def get_cached_binary_def split: option.splits if_splits)
qed

lemma sound_remove_entry: "sound_cache T C M \<Longrightarrow> sound_cache T C (remove_entry T k M)"
  by (auto simp: sound_cache_def remove_entry_def split: option.splits if_splits)

lemma sound_evict: "sound_cache T C M \<Longrightarrow> sound_cache T C (evict T M)"
proof -
  assume "sound_cache T C M"
  moreover have "sound_cache T C M \<Longrightarrow> sound_cache T C (fold (remove_entry T) ks M)" for ks
    by (induction ks arbitrary: M) (auto simp: sound_remove_entry)
  ultimately show ?thesis by (simp add: evict_def)
qed

lemma sound_add_entry:
  assumes "sound_cache T C M" and "built T C h b"
  shows "sound_cache T C (add_entry now h (M\<lparr>disk := fmupd (local_path h) b (disk M)\<rparr>))"
  using assms by (auto simp: sound_cache_def add_entry_def)

lemma objects_cache_binary: "objects (cache_binary T now h b M) = objects M"
proof -
  have r: "objects (remove_entry T k M) = objects M" for k M by (simp add: remove_entry_def split: option.splits)
  have "objects (fold (remove_entry T) ks M) = objects M" for ks M by (induction ks arbitrary: M) (simp_all add: r)
  then show ?thesis by (simp add: cache_binary_def add_entry_def evict_def)
qed

lemma sound_cache_binary:
  assumes "sound_cache T C M" and "built T C h b"
  shows "sound_cache T C (cache_binary T now h b M)"
proof -
  let ?M = "M\<lparr>disk := fmupd (local_path h) b (disk M)\<rparr>"
  have "sound_cache T C ?M" using assms by (auto simp: sound_cache_def)
  then have e: "sound_cache T C (evict T ?M)" by (rule sound_evict)
  have keeps: "fmlookup (disk (remove_entry T k N)) x = Some y \<Longrightarrow> fmlookup (disk N) x = Some y" for k N x y
    by (auto simp: remove_entry_def split: option.splits if_splits)
  have "fmlookup (disk (fold (remove_entry T) ks N)) x = Some y \<Longrightarrow> fmlookup (disk N) x = Some y" for ks N x y
    by (induction ks arbitrary: N) (auto dest: keeps)
  from this [of _ ?M "local_path h"] have "fmlookup (disk (evict T ?M)) (local_path h) = Some y \<Longrightarrow> y = b" for y
    by (auto simp: evict_def split: if_splits)
  then have "sound_cache T C (add_entry now h (evict T ?M))"
    using e assms(2) by (auto simp: sound_cache_def add_entry_def split: if_splits)
  with assms(1) show ?thesis by (simp add: cache_binary_def)
qed

lemma sound_upload:
  assumes "atomic_store (object_env T)" and "CHR ''/'' \<notin> set h" and "CHR ''/'' \<notin> set k"
    and "built T C h b" and "\<And>b. store_get (object_env T) s (object_path k) = Inr (Inr b) \<Longrightarrow> built T C k b"
    and "store_get (object_env T) (snd (upload_binary_to_s3 T h code (Inr b) s)) (object_path k) = Inr (Inr x)"
  shows "built T C k x"
proof -
  obtain r s1 where p: "store_put (object_env T) s (object_path h) b = (r, s1)" by fastforce
  have one: "store_get (object_env T) s1 (object_path k) = Inr (Inr y) \<Longrightarrow> built T C k y" for y
    using assms(1)[unfolded atomic_store_def, rule_format, OF p] assms(2-5) path_segments_object
    by (cases "k = h"; cases "r = Inr ()") auto
  have two: "store_get (object_env T) (snd (store_put (object_env T) s1 (manifest_path h) doc)) (object_path k) =
      store_get (object_env T) s1 (object_path k)" for doc
    using assms(1)[unfolded atomic_store_def, rule_format, of s1 "manifest_path h" doc] assms(2,3) path_segments_object
    by (cases "store_put (object_env T) s1 (manifest_path h) doc") auto
  have "snd (upload_binary_to_s3 T h code (Inr b) s) = s1 \<or>
      (\<exists>txt. snd (upload_binary_to_s3 T h code (Inr b) s) = snd (store_put (object_env T) s1 (manifest_path h) txt))"
    by (auto simp: upload_binary_to_s3_def p split: sum.splits prod.splits)
      (metis snd_conv)+
  then show ?thesis using assms(6) one two by metis
qed

lemma sound_spawn_upload:
  assumes "sound_cache T C M" and "atomic_store (object_env T)" and "CHR ''/'' \<notin> set h" and "built T C h b"
  shows "sound_cache T C (spawn_upload T h code b M)"
proof (cases "objects M")
  case (Some s)
  show ?thesis
  proof (cases "upload_read_error T")
    case None
    have "built T C k x" if "CHR ''/'' \<notin> set k"
      "store_get (object_env T) (snd (upload_binary_to_s3 T h code (Inr b) s)) (object_path k) = Inr (Inr x)" for k x
      using sound_upload [OF assms(2,3) that(1) assms(4) _ that(2)] assms(1) Some that(1)
      by (auto simp: sound_cache_def)
    with assms(1) Some None show ?thesis by (auto simp: sound_cache_def spawn_upload_def)
  next
    case (Some e)
    with assms(1) \<open>objects M = Some s\<close> show ?thesis
      by (simp add: sound_cache_def spawn_upload_def upload_binary_to_s3_def)
  qed
qed (use assms in \<open>simp add: spawn_upload_def\<close>)

lemma sound_restore:
  assumes "sound_cache T C M" and "CHR ''/'' \<notin> set h"
  shows "sound_cache T C (restore_from_s3 T now h M)"
proof -
  obtain p M1 where g: "get_cached_binary now h M = (p, M1)" by fastforce
  note M1 = sound_get_cached(1) [OF assms(1) g]
  then have "built T C h b" if "objects M1 = Some s" "store_get (object_env T) s (object_path h) = Inr (Inr b)" for s b
    using that assms(2) by (auto simp: sound_cache_def)
  then show ?thesis using M1
    by (auto simp: restore_from_s3_def g download_binary_from_s3_def split: option.split sum.split intro: sound_add_entry)
qed

lemma sound_execute:
  assumes "sound_cache T C M" and "atomic_store (object_env T)" and "wrap_in_main code \<in> C"
  shows "sound_cache T C (snd (execute_rust T now code M))"
proof -
  let ?h = "hash_source (wrap_in_main code)"
  obtain p M2 where g: "get_cached_binary now ?h (restore_from_s3 T now ?h M) = (p, M2)" by fastforce
  note M2 = sound_get_cached(1) [OF sound_restore [OF assms(1) hash_no_slash] g]
  have "built T C ?h b" if "rustc T (wrap_in_main code) = Compiled b w" "truncate_output w = Ok v" for b w v
    using that assms(3) by (auto simp: built_def)
  then have "sound_cache T C (spawn_upload T ?h (wrap_in_main code) b (cache_binary T now ?h b M2))"
    if "rustc T (wrap_in_main code) = Compiled b w" "truncate_output w = Ok v" for b w v
    using that sound_spawn_upload [OF sound_cache_binary [OF M2] assms(2) hash_no_slash] by blast
  then show ?thesis
    using M2 by (auto simp: execute_rust_def g compile_and_run_def Let_def split: option.split compile_outcome.split result.split)
qed

text \<open>What a caller sees of the program: whether it compiled and succeeded, and its two outputs.\<close>

definition outcome :: "rust_result result \<Rightarrow> (bool \<times> bool \<times> string \<times> string) result" where
  "outcome r = bind_result r (\<lambda>x. Ok (compiled x, success x, out_text x, err_text x))"

lemma outcome_run_report:
  "outcome (run_report T a c f m p) = outcome (run_report T b d g n p)"
  by (cases p; simp add: run_report_def outcome_def)
    (cases "truncate_output (case p of Exited _ so _ \<Rightarrow> so)"; cases "truncate_output (case p of Exited _ _ se \<Rightarrow> se)"; simp)

lemma execute_outcome:
  assumes "sound_cache T C M" and "wrap_in_main code \<in> C" and "inj_on hash_source C"
    and "temp_dir_error T = None" and "write_source_error T = None"
  shows "outcome (fst (execute_rust T now code M)) = outcome (fst (compile_and_run T t (wrap_in_main code) h N))"
proof -
  let ?h = "hash_source (wrap_in_main code)"
  obtain p M2 where g: "get_cached_binary now ?h (restore_from_s3 T now ?h M) = (p, M2)" by fastforce
  note found = sound_get_cached(4) [OF sound_restore [OF assms(1) hash_no_slash] g]
  show ?thesis
  proof (cases p)
    case None
    then show ?thesis
      by (simp add: execute_rust_def g compile_and_run_def Let_def split: option.split compile_outcome.split result.split)
  next
    case (Some x)
    with found obtain b where b: "fmlookup (disk M2) x = Some b" "built T C ?h b" by blast
    then obtain w v where "rustc T (wrap_in_main code) = Compiled b w" "truncate_output w = Ok v"
      using assms(2,3) by (auto simp: built_def inj_on_def)
    with Some b(1) assms(4,5) show ?thesis
      using outcome_run_report by (auto simp: execute_rust_def g compile_and_run_def run_cached_def run_compiled_def)
  qed
qed

lemma sound_run_cells:
  assumes "sound_cache T C M" and "atomic_store (object_env T)" and "wrap_in_main ` set cs \<subseteq> C"
  shows "sound_cache T C (run_cells T now cs M)"
  using assms by (induction cs arbitrary: now M) (simp_all add: sound_execute)

text \<open>C38. The cache is transparent: after any run of programs on a machine that starts with an empty cache and
  no stored binaries, a further program gives the same outcome as on a machine without any cache - whether it
  compiled and succeeded, and both outputs - as long as the hashes of the programs differ and the temporary
  files can be written. The object store may fail at any write.\<close>

theorem caching_is_transparent:
  assumes "inj_on hash_source (wrap_in_main ` set (code # codes))" and "atomic_store (object_env T)"
    and "temp_dir_error T = None" and "write_source_error T = None"
    and "\<And>s h b. objects M = Some s \<Longrightarrow> store_get (object_env T) s (object_path h) \<noteq> Inr (Inr b)"
    and "binaries M = fmempty"
  shows "outcome (fst (execute_rust T now code (run_cells T start codes M))) =
    outcome (fst (execute_rust T now code \<lparr>binaries = fmempty, disk = fmempty, objects = None\<rparr>))"
proof -
  let ?C = "wrap_in_main ` set (code # codes)" and ?E = "\<lparr>binaries = fmempty, disk = fmempty, objects = None\<rparr>"
  have "sound_cache T ?C M" using assms(5,6) by (simp add: sound_cache_def)
  then have "sound_cache T ?C (run_cells T start codes M)" using assms(2) by (rule sound_run_cells) auto
  moreover have "sound_cache T ?C ?E" by (simp add: sound_cache_def)
  ultimately show ?thesis using execute_outcome assms(1,3,4) by (metis image_eqI list.set_intros(1))
qed

section \<open>The size of the cache\<close>

lemma binaries_remove_entry: "binaries (remove_entry T k M) = fmdrop k (binaries M)"
proof (cases "fmlookup (binaries M) k")
  case None
  then have "fmdrop k (binaries M) = binaries M" by (intro fmap_ext) auto
  with None show ?thesis by (simp add: remove_entry_def)
qed (simp add: remove_entry_def)

lemma card_remove_entries:
  assumes "distinct ks" and "set ks \<subseteq> fmdom' (binaries M)"
  shows "fcard (fmdom (binaries (fold (remove_entry T) ks M))) = fcard (fmdom (binaries M)) - length ks"
  using assms
proof (induction ks arbitrary: M)
  case (Cons k ks)
  have k: "k |\<in>| fmdom (binaries M)" using Cons.prems(2) by (auto simp: fmdom'_alt_def)
  have "fcard (fmdom (binaries (fold (remove_entry T) ks (remove_entry T k M)))) =
      fcard (fmdom (binaries (remove_entry T k M))) - length ks"
    using Cons.prems by (intro Cons.IH) (auto simp: binaries_remove_entry)
  also have "fcard (fmdom (binaries (remove_entry T k M))) = fcard (fmdom (binaries M)) - 1"
    using k by (simp add: binaries_remove_entry fcard_fminus_fsingleton)
  finally show ?case by simp
qed simp

definition ordered_entries :: "'s toolchain \<Rightarrow> bool" where
  "ordered_entries T \<longleftrightarrow> (\<forall>m. distinct (entry_order T m) \<and> set (entry_order T m) = fmdom' m)"

abbreviation cache_size :: "'s machine \<Rightarrow> nat" where
  "cache_size M \<equiv> fcard (fmdom (binaries M))"

lemma evict_size:
  assumes "ordered_entries T" and "cache_size M \<le> max_cache_entries"
  shows "cache_size (evict T M) < max_cache_entries"
proof (cases "cache_size M < max_cache_entries")
  case False
  let ?ks = "victims T (binaries M)" and ?f = "\<lambda>k. case fmlookup (binaries M) k of Some e \<Rightarrow> last_used e | None \<Rightarrow> 0"
  have d: "distinct (sort_key ?f (entry_order T (binaries M)))" using assms(1) by (simp add: ordered_entries_def)
  have s: "set (sort_key ?f (entry_order T (binaries M))) = fmdom' (binaries M)" using assms(1) by (simp add: ordered_entries_def)
  have "length (sort_key ?f (entry_order T (binaries M))) = card (fmdom' (binaries M))"
    using distinct_card [OF d] s by simp
  then have "length (sort_key ?f (entry_order T (binaries M))) = max_cache_entries"
    using False assms(2) by (simp add: fmdom'_alt_def fcard.rep_eq)
  then have l: "length ?ks = 20" by (simp add: victims_def max_cache_entries_def)
  have "cache_size (fold (remove_entry T) ?ks M) = cache_size M - length ?ks"
  proof (rule card_remove_entries)
    show "distinct ?ks" using d by (simp add: victims_def)
    show "set ?ks \<subseteq> fmdom' (binaries M)" unfolding victims_def using s set_take_subset by metis
  qed
  with False l assms(2) show ?thesis by (simp add: evict_def max_cache_entries_def)
qed (simp add: evict_def)

lemma fcard_fmupd: "fcard (fmdom (fmupd k v m)) \<le> Suc (fcard (fmdom m))"
  by (simp add: fcard_finsert_le fcard_finsert_if)

lemma get_cached_size: "get_cached_binary now h M = (p, M') \<Longrightarrow> cache_size M' \<le> cache_size M"
  by (auto simp: get_cached_binary_def fcard_finsert_if fmdomI fcard_fminus_fsingleton split: option.splits if_splits)

lemma execute_size:
  assumes "ordered_entries T" and "objects M = None" and "cache_size M \<le> max_cache_entries"
  shows "objects (snd (execute_rust T now code M)) = None \<and> cache_size (snd (execute_rust T now code M)) \<le> max_cache_entries"
proof -
  let ?h = "hash_source (wrap_in_main code)"
  obtain p M1 where g1: "get_cached_binary now ?h M = (p, M1)" by fastforce
  then have o1: "objects M1 = None" using assms(2) by (auto simp: get_cached_binary_def split: option.splits if_splits)
  then have r: "restore_from_s3 T now ?h M = M1" by (simp add: restore_from_s3_def g1 split: option.split)
  obtain q M2 where g2: "get_cached_binary now ?h M1 = (q, M2)" by fastforce
  then have o2: "objects M2 = None" using o1 by (auto simp: get_cached_binary_def split: option.splits if_splits)
  have s2: "cache_size M2 \<le> max_cache_entries" using get_cached_size [OF g1] get_cached_size [OF g2] assms(3) by simp
  have "cache_size (cache_binary T now ?h b M2) \<le> max_cache_entries" for b
  proof (cases "copy_error T (local_path ?h)")
    case None
    let ?N = "evict T (M2\<lparr>disk := fmupd (local_path ?h) b (disk M2)\<rparr>)"
    have "cache_size ?N < max_cache_entries" using evict_size [OF assms(1)] s2 by simp
    moreover have "cache_size (add_entry now ?h ?N) \<le> Suc (cache_size ?N)"
      unfolding add_entry_def by (simp add: fcard_fmupd del: fmdom_fmupd)
    ultimately show ?thesis using None by (simp add: cache_binary_def)
  qed (use s2 in \<open>simp add: cache_binary_def\<close>)
  moreover have "spawn_upload T ?h (wrap_in_main code) b (cache_binary T now ?h b M2) = cache_binary T now ?h b M2" for b
    by (simp add: spawn_upload_def objects_cache_binary o2)
  ultimately show ?thesis
    using o2 s2 by (auto simp: execute_rust_def r g2 compile_and_run_def Let_def objects_cache_binary
        split: option.split compile_outcome.split result.split)
qed

lemma cache_bounded_without_store:
  assumes "ordered_entries T" and "objects M = None" and "cache_size M \<le> max_cache_entries"
  shows "cache_size (run_cells T now cs M) \<le> max_cache_entries"
  using assms by (induction cs arbitrary: now M) (simp_all add: execute_size)

lemma execute_restored:
  assumes "fmlookup (binaries M) h = None" and "objects M = Some s" and "h = hash_source (wrap_in_main code)"
    and "store_get (object_env T) s (object_path h) = Inr (Inr b)" and "copy_error T (local_path h) = None"
  shows "\<exists>e. binaries (snd (execute_rust T now code M)) = fmupd h e (binaries M)"
    and "objects (snd (execute_rust T now code M)) = Some s"
  using assms
  by (auto simp: execute_rust_def restore_from_s3_def get_cached_binary_def download_binary_from_s3_def add_entry_def Let_def)

lemma run_restored:
  assumes "objects M = Some s" and "distinct (map (hash_source \<circ> wrap_in_main) cs)" and "\<And>p. copy_error T p = None"
    and "\<And>c. c \<in> set cs \<Longrightarrow> \<exists>b. store_get (object_env T) s (object_path (hash_source (wrap_in_main c))) = Inr (Inr b)"
    and "\<And>c. c \<in> set cs \<Longrightarrow> fmlookup (binaries M) (hash_source (wrap_in_main c)) = None"
  shows "cache_size (run_cells T now cs M) = cache_size M + length cs"
  using assms
proof (induction cs arbitrary: now M)
  case (Cons c cs)
  let ?h = "hash_source (wrap_in_main c)" and ?M = "snd (execute_rust T now c M)"
  obtain b where b: "store_get (object_env T) s (object_path ?h) = Inr (Inr b)" using Cons.prems(4) by auto
  have n: "fmlookup (binaries M) ?h = None" using Cons.prems(5) by simp
  from execute_restored [OF n Cons.prems(1) refl b Cons.prems(3)] obtain e
    where e: "binaries ?M = fmupd ?h e (binaries M)" and o': "objects ?M = Some s" by blast
  have "cache_size (run_cells T (now + 1) cs ?M) = cache_size ?M + length cs"
    using Cons.prems e by (intro Cons.IH o') auto
  moreover have "cache_size ?M = Suc (cache_size M)"
    using n by (simp add: e fcard_finsert_disjoint fmdom_notI)
  ultimately show ?case by simp
qed simp

text \<open>The limit of the cache holds for compiled programs only. Without an object store no run of programs
  brings the cache above 100 entries. With one, every program whose binary is found there adds an entry
  and none is evicted: any number of them makes a cache of that size.\<close>

theorem cache_limit_is_for_compiled_programs:
  assumes "ordered_entries T" and "\<And>p. copy_error T p = None"
    and "distinct (map (hash_source \<circ> wrap_in_main) codes)"
    and "\<And>c. c \<in> set codes \<Longrightarrow> \<exists>b. store_get (object_env T) s (object_path (hash_source (wrap_in_main c))) = Inr (Inr b)"
  shows "cache_size (run_cells T start codes' \<lparr>binaries = fmempty, disk = d, objects = None\<rparr>) \<le> max_cache_entries \<and>
    cache_size (run_cells T start codes \<lparr>binaries = fmempty, disk = d, objects = Some s\<rparr>) = length codes"
proof
  show "cache_size (run_cells T start codes' \<lparr>binaries = fmempty, disk = d, objects = None\<rparr>) \<le> max_cache_entries"
    using assms(1) by (rule cache_bounded_without_store) (simp_all add: fcard.rep_eq)
  show "cache_size (run_cells T start codes \<lparr>binaries = fmempty, disk = d, objects = Some s\<rparr>) = length codes"
    using run_restored [OF _ assms(3,2,4)] by simp
qed

definition segment_env :: "(string list \<Rightarrow> string option) env" where
  "segment_env =
     \<lparr>store_get = \<lambda>s p. case s (path_segments p) of None \<Rightarrow> Inl ''not found'' | Some t \<Rightarrow> Inr (Inr t),
      store_put = \<lambda>s p t. (Inr (), s(path_segments p \<mapsto> t)), store_list = \<lambda>_ _. Inr [],
      store_delete = \<lambda>s p. (True, s(path_segments p := None)), json_print = \<lambda>_. Inr ''{}'', json_parse = \<lambda>_. Inl []\<rparr>"

definition echo_tools :: "(string list \<Rightarrow> string option) toolchain" where
  "echo_tools =
     \<lparr>object_env = segment_env, rustc = \<lambda>c. Compiled c [], run_binary = \<lambda>b. Exited (Some 0) b [], temp_dir_error = None,
      write_source_error = None, copy_error = \<lambda>_. None, removes = \<lambda>_. True, upload_read_error = None,
      entry_order = \<lambda>m. sorted_list_of_set (fmdom' m), compiled_at = ''now'', target_arch_os = (''x86_64'', ''linux''), clocks = (5, 1, 6)\<rparr>"

lemma echo_codes: "hash_source (wrap_in_main ''fn main()a'') \<noteq> hash_source (wrap_in_main ''fn main()b'')"
proof -
  have "wrap_in_main ''fn main()a'' = ''fn main()'' @ [CHR ''a''] @ []" "wrap_in_main ''fn main()b'' = ''fn main()'' @ [CHR ''b''] @ []"
    by code_simp+
  moreover have "CHR ''a'' \<noteq> CHR ''b''" by simp
  ultimately show ?thesis by (simp only: one_byte_edit_changes_hash simp_thms)
qed

lemma echo_atomic: "atomic_store (object_env echo_tools)"
  by (auto simp: atomic_store_def echo_tools_def segment_env_def)

lemma caching_is_transparent_witness:
  "outcome (fst (execute_rust echo_tools 2 ''fn main()a''
      (run_cells echo_tools 0 [''fn main()a'', ''fn main()b''] \<lparr>binaries = fmempty, disk = fmempty, objects = Some (\<lambda>_. None)\<rparr>))) =
   outcome (fst (execute_rust echo_tools 2 ''fn main()a'' \<lparr>binaries = fmempty, disk = fmempty, objects = None\<rparr>))"
proof (rule caching_is_transparent)
  show "inj_on hash_source (wrap_in_main ` set [''fn main()a'', ''fn main()a'', ''fn main()b''])"
    using echo_codes by (simp only: list.set image_insert image_empty inj_on_insert) (auto simp del: wrap_in_main_def)
qed (simp_all only: echo_atomic, auto simp: echo_tools_def segment_env_def)

lemma cache_limit_is_for_compiled_programs_witness:
  "cache_size (run_cells echo_tools 0 [''fn main()a''] \<lparr>binaries = fmempty, disk = fmempty, objects = None\<rparr>) \<le> max_cache_entries \<and>
   cache_size (run_cells echo_tools 0 [''fn main()a'', ''fn main()b'']
     \<lparr>binaries = fmempty, disk = fmempty, objects = Some (\<lambda>_. Some ''binary'')\<rparr>) = length [''fn main()a'', ''fn main()b'']"
proof (rule cache_limit_is_for_compiled_programs)
  show "ordered_entries echo_tools" by (simp add: ordered_entries_def echo_tools_def)
  show "distinct (map (hash_source \<circ> wrap_in_main) [''fn main()a'', ''fn main()b''])"
    using echo_codes by (simp only: list.map comp_apply distinct.simps list.set) blast
qed (auto simp: echo_tools_def segment_env_def)

end
