(* ===== verification/Table_Creation.thy ===== *)
theory Table_Creation
  imports Table_Services Rust_Executor
begin

text \<open>
  The handlers of \<open>crates/rustlake-api/src/routes.rs\<close> that make an executable table from something else: the
  promotion of a streaming pipeline (\<open>create_glacier_from_pipeline\<close>) and the conversion of a query
  (\<open>convert_sql_to_glacier\<close>); and the two cost handlers. A request is its JSON body. What the derived decoder
  of gates accepts, which non-ASCII characters are alphanumeric, Unicode's upper-casing and the clock
  are arguments.
\<close>

section \<open>Costs\<close>

definition executable_table_cost :: "string \<Rightarrow> tables \<Rightarrow> cost_comparison http" where
  "executable_table_cost tname ts =
     (case find_table tname ts of
        None \<Rightarrow> Inl (404, ''Table not found'')
      | Some t \<Rightarrow> Inr (estimate_costs (unwrap_or 453000 (binary_size (transform_of t)) div 1024)
          (if history t = [] then 500 else duration_ms (last (history t))) 24))"

definition cost_comparison_of :: "u64 \<Rightarrow> u64 \<Rightarrow> u32 \<Rightarrow> cost_comparison" where
  "cost_comparison_of kb ms per_day = estimate_costs kb ms per_day"

section \<open>Promotion of a pipeline\<close>

record streaming_pipeline =
  sp_id :: string
  sp_name :: string
  sp_source_type :: string
  sp_source_config :: json
  sp_transform_sql :: "string option"
  sp_sink_table :: string
  sp_status :: string
  sp_events_processed :: u64
  sp_created_at :: string
  sp_snapshot_docs :: "u64 option"
  sp_snapshot_completed_at :: "string option"
  sp_files_written :: u64
  sp_phase :: string

definition default_cdc_gates :: "quality_gate_ref list" where
  "default_cdc_gates =
     [\<lparr>gate_type = ''row_count'', gate_column = None, threshold = None, description = ''CDC batch must produce rows''\<rparr>,
      \<lparr>gate_type = ''not_null'', gate_column = Some ''timestamp'', threshold = None,
        description = ''Timestamp must not be null''\<rparr>]"

definition right_arrow :: string where "right_arrow = [CHR 0xE2, CHR 0x86, CHR 0x92]"

definition cdc_source_code :: "string \<Rightarrow> streaming_pipeline \<Rightarrow> string option \<Rightarrow> string" where
  "cdc_source_code glacier p sql =
     ''-- Glacier: '' @ glacier @ '' (from streaming pipeline '' @ quote (sp_name p) @ '')'' @ nl @
     ''-- Source: '' @ sp_source_type p @ '' '' @ right_arrow @ '' '' @ sp_sink_table p @ nl @
     ''-- Registered sink table: '' @ sanitize (sp_name p) @ nl @
     (case sql of
        Some q \<Rightarrow> ''-- Transform SQL applied to incoming CDC events'' @ nl @ nl @ q
      | None \<Rightarrow> nl @ ''SELECT * FROM '' @ sanitize (sp_name p))"

definition cdc_inputs :: "streaming_pipeline \<Rightarrow> string list" where
  "cdc_inputs p =
     (if sp_source_type p = ''mongodb-cdc''
      then (case (get_str ''database'' (sp_source_config p), get_str ''collection'' (sp_source_config p)) of
              (Some db, Some col) \<Rightarrow> [''mongo.'' @ db @ ''.'' @ col] | _ \<Rightarrow> [])
      else if sp_source_type p = ''kafka''
      then (case get_str ''topic'' (sp_source_config p) of Some topic \<Rightarrow> [''kafka.'' @ topic] | None \<Rightarrow> [])
      else []) @
     (if sp_sink_table p \<noteq> [] then [sp_sink_table p] else [])"

text \<open>The times of the history entry, the version, the creation and the refresh are read in this order.\<close>

definition promoted_table ::
  "(nat \<Rightarrow> string) \<Rightarrow> string \<Rightarrow> string \<Rightarrow> string option \<Rightarrow> quality_gate_ref list \<Rightarrow> streaming_pipeline \<Rightarrow> executable_table" where
  "promoted_table clock uuid glacier sql gates p =
     (let code = cdc_source_code glacier p sql; h = hash_source code;
          started = (sp_events_processed p > 0); running = (sp_status p = ''running'')
      in \<lparr>table_name = glacier, table_location = sp_sink_table p,
          transform_of = \<lparr>transform_type = ''streaming_cdc'', source_code = code, source_hash = h, binary_path = None,
            binary_size = None, binary_cached = False, compiler_version = None, target_arch = None\<rparr>,
          schedule = None, quality_gates = gates, input_tables = cdc_inputs p,
          status_of = \<lparr>run_state = ''active'', health = (if running then ''healthy'' else ''warning''),
            last_error = None, staleness_hours = 0, data_freshness = (if running then ''fresh'' else ''unknown'')\<rparr>,
          history = (if started then
            [\<lparr>execution_id = uuid, started_at = sp_created_at p, completed_at = Some (clock 0), duration_ms = 0,
              exec_status = ''success'', rows_produced = Some (sp_events_processed p), bytes_written = None,
              cost_usd = 0, used_cache = False, compile_ms = 0, run_ms = 0, exec_error = None,
              execution_location = ''streaming'', exec_version = 1\<rparr>] else []),
          versions = [\<lparr>version = 1, version_source = pipeline_marker (sp_id p), version_hash = h,
            version_created_at = clock 1, created_by = ''pipeline-promotion'',
            change_description = ''Created from streaming pipeline '' @ quote (sp_name p),
            binary_size_bytes = None, snapshot_ids = []\<rparr>],
          created_at = clock 2, last_refresh = (if started then Some (clock 3) else None), next_refresh = None,
          estimated_cost_usd = 0, total_executions = (if started then 1 else 0), total_cost_usd = 0,
          incremental = True, watermark_column = Some ''timestamp'', last_watermark = None,
          executions_skipped = 0, cost_saved_usd = 0, auto_refresh = True, refresh_interval_seconds = 0\<rparr>)"

definition create_glacier_from_pipeline ::
  "(json \<Rightarrow> quality_gate_ref list option) \<Rightarrow> (rat \<Rightarrow> string) \<Rightarrow> (nat \<Rightarrow> string) \<Rightarrow> string \<Rightarrow> json \<Rightarrow> streaming_pipeline list \<Rightarrow>
   tables \<Rightarrow> (string \<times> string \<times> nat \<times> (string, string) fmap) http \<times> tables" where
  "create_glacier_from_pipeline decode show6 clock uuid req ps ts =
     (let pid = unwrap_or [] (get_str ''pipeline_id'' req); given = unwrap_or [] (get_str ''name'' req)
      in if pid = [] then (Inl (400, ''pipeline_id is required''), ts)
         else case find (\<lambda>p. sp_id p = pid) ps of
           None \<Rightarrow> (Inl (404, ''Pipeline '' @ quote pid @ '' not found''), ts)
         | Some p \<Rightarrow>
             (let glacier = (if given = [] then ''glacier_'' @ sanitize (sp_name p) else given)
              in if find_table glacier ts \<noteq> None then (Inl (409, ''Glacier '' @ quote glacier @ '' already exists''), ts)
                 else let gates = (case jget ''quality_gates'' req of
                            Some j \<Rightarrow> unwrap_or default_cdc_gates (decode j) | None \<Rightarrow> default_cdc_gates);
                          t = promoted_table clock uuid glacier (get_str ''transform_sql'' req) gates p
                      in (Inr (glacier, source_hash (transform_of t), length gates, to_iceberg_properties show6 t), ts @ [t])))"

section \<open>Conversion of a query\<close>

definition keyword :: "string \<Rightarrow> string \<Rightarrow> bool" where
  "keyword k w \<longleftrightarrow> to_lowercase w = k"

text \<open>The name given to a query without one: its first table, else the Unix time in seconds.\<close>

definition derived_name :: "(string \<Rightarrow> bool) \<Rightarrow> int \<Rightarrow> string \<Rightarrow> string" where
  "derived_name other now_s sql =
     ''glacier_'' @ (case dropWhile (\<lambda>w. \<not> keyword ''from'' w) (split_whitespace sql) of
        _ # t # _ \<Rightarrow> trim_chars (\<lambda>x. \<not> alphanumeric other x \<and> x \<noteq> ''_'') t
      | _ \<Rightarrow> show_int now_s)"

fun tables_after :: "(string \<Rightarrow> bool) \<Rightarrow> string list \<Rightarrow> string list" where
  "tables_after other (w # x # ws) =
     (let t = trim_chars (\<lambda>x. \<not> alphanumeric other x \<and> x \<noteq> ''_'' \<and> x \<noteq> ''.'') x
      in (if (keyword ''from'' w \<or> keyword ''join'' w) \<and> t \<noteq> [] \<and> t \<noteq> ''('' then [t] else []) @ tables_after other (x # ws))"
| "tables_after other _ = []"

definition inferred_gates :: "lineage_entry list \<Rightarrow> quality_gate_ref list" where
  "inferred_gates entries =
     \<lparr>gate_type = ''row_count'', gate_column = None, threshold = None, description = ''Must produce rows''\<rparr> #
     map (\<lambda>e. \<lparr>gate_type = ''not_null'', gate_column = Some (output_column e), threshold = None,
            description = output_column e @ '' must not be null''\<rparr>)
       (filter (\<lambda>e. output_column e \<noteq> ''*'') (take 3 entries))"

definition converted_table :: "(string \<Rightarrow> bool) \<Rightarrow> string \<Rightarrow> string \<Rightarrow> string \<Rightarrow> bool \<Rightarrow> lineage_entry list \<Rightarrow> executable_table" where
  "converted_table other now glacier sql in_rust entries =
     \<lparr>table_name = glacier, table_location = ''s3://warehouse/'' @ glacier,
      transform_of = \<lparr>transform_type = (if in_rust then ''rust'' else ''sql''),
        source_code = (if in_rust then wrap_sql_in_rust sql else sql), source_hash = hash_source sql,
        binary_path = None, binary_size = None, binary_cached = False, compiler_version = None, target_arch = None\<rparr>,
      schedule = None, quality_gates = inferred_gates entries,
      input_tables = remdups_adj (sort (tables_after other (split_whitespace sql))),
      status_of = \<lparr>run_state = ''active'', health = ''healthy'', last_error = None, staleness_hours = 0,
        data_freshness = ''unknown''\<rparr>,
      history = [], versions = [], created_at = now, last_refresh = None, next_refresh = None,
      estimated_cost_usd = rnd (1 / 1000), total_executions = 0, total_cost_usd = 0, incremental = False,
      watermark_column = None, last_watermark = None, executions_skipped = 0, cost_saved_usd = 0,
      auto_refresh = False, refresh_interval_seconds = 0\<rparr>"

definition convert_sql_to_glacier ::
  "(string \<Rightarrow> string) \<Rightarrow> (string \<Rightarrow> bool) \<Rightarrow> int \<Rightarrow> string \<Rightarrow> json \<Rightarrow> tables \<Rightarrow>
   (string \<times> string \<times> string \<times> nat \<times> string) http result \<times> tables" where
  "convert_sql_to_glacier up other now_s now req ts =
     (let sql = unwrap_or [] (get_str ''sql'' req); given = unwrap_or [] (get_str ''name'' req);
          in_rust = unwrap_or False (get_bool ''compile'' req)
      in if sql = [] then (Ok (Inl (400, ''sql is required'')), ts)
         else let glacier = (if given = [] then derived_name other now_s sql else given)
              in case parse_sql_column_lineage up sql [] of
                   Ok entries \<Rightarrow>
                     (let t = converted_table other now glacier sql in_rust entries
                      in (Ok (Inr (glacier, hash_source sql, (if in_rust then ''rust (compiled SQL)'' else ''sql''),
                            length (quality_gates t), wrap_sql_in_rust sql)), ts @ [t]))
                 | Err e \<Rightarrow> (Err e, ts)
                 | Panic \<Rightarrow> (Panic, ts))"

section \<open>What the new tables look like\<close>

text \<open>A promoted table is fed by its pipeline, and the only version it has is a marker that is not its source.\<close>

lemma promoted_table_linked:
  "linked_to (sp_id p) (promoted_table clock uuid glacier sql gates p)"
  by (simp add: promoted_table_def linked_to_def Let_def)

lemma cdc_source_code_not_marker: "cdc_source_code glacier p sql \<noteq> pipeline_marker x"
  by (simp add: cdc_source_code_def pipeline_marker_def)

theorem promotion_appends_linked_table:
  assumes "create_glacier_from_pipeline decode show6 clock uuid req ps ts = (Inr r, ts')"
  shows "\<exists>p t. p \<in> set ps \<and> ts' = ts @ [t] \<and> find_table (table_name t) ts = None \<and> linked_to (sp_id p) t \<and>
    length (versions t) = 1 \<and> version_source (hd (versions t)) \<noteq> source_code (transform_of t) \<and>
    version_hash (hd (versions t)) = hash_source (source_code (transform_of t))"
proof -
  obtain p where f: "find (\<lambda>p. sp_id p = unwrap_or [] (get_str ''pipeline_id'' req)) ps = Some p"
    using assms by (auto simp: create_glacier_from_pipeline_def Let_def split: if_splits option.splits)
  have "p \<in> set ps" using f by (auto simp: find_Some_iff)
  moreover obtain glacier gates where "find_table glacier ts = None"
      "ts' = ts @ [promoted_table clock uuid glacier (get_str ''transform_sql'' req) gates p]"
    using assms f by (auto simp: create_glacier_from_pipeline_def Let_def split: if_splits option.splits)
  moreover have "version_source (hd (versions (promoted_table clock uuid glacier sql gates p))) \<noteq>
      source_code (transform_of (promoted_table clock uuid glacier sql gates p))" for glacier sql gates
    using cdc_source_code_not_marker [of glacier p sql "sp_id p", symmetric] by (simp add: promoted_table_def Let_def)
  ultimately show ?thesis
    using promoted_table_linked [of p clock uuid] by (intro exI [of _ p] exI conjI) (auto simp: promoted_table_def Let_def)
qed

end
