(* ===== verification/Table_History.thy ===== *)
theory Table_History
  imports Table_Creation
begin

text \<open>
  What the operations on executable tables promise together: the version history of a table is only ever
  appended to, new versions count up from the greatest number recorded, and the last one of them is the source
  in force; updates and rollbacks undo each other; executions are recorded and change no source; the
  quality gates of a table have no influence on what an execution writes.
\<close>

section \<open>The version history\<close>

text \<open>A version without the snapshots linked to it later.\<close>

definition version_core :: "transform_version \<Rightarrow> transform_version" where
  "version_core v = v\<lparr>snapshot_ids := []\<rparr>"

text \<open>The greatest number recorded, 0 without any.\<close>

definition greatest_number :: "transform_version list \<Rightarrow> nat" where
  "greatest_number vs = fold max (map (unat \<circ> version) vs) 0"

text \<open>New versions count up from there, as long as the 32-bit numbers do not wrap around.\<close>

definition counts_up :: "transform_version list \<Rightarrow> transform_version list \<Rightarrow> bool" where
  "counts_up vs new \<longleftrightarrow> (greatest_number vs + length new < 2 ^ 32 \<longrightarrow>
     map (unat \<circ> version) new = [greatest_number vs + 1..<greatest_number vs + 1 + length new])"

text \<open>The source and hash of a table are those of the last of some new versions, or as before without any.\<close>

definition in_force :: "transform_version list \<Rightarrow> executable_table \<Rightarrow> executable_table \<Rightarrow> bool" where
  "in_force new t t' \<longleftrightarrow> (source_code (transform_of t'), source_hash (transform_of t')) =
     (if new = [] then (source_code (transform_of t), source_hash (transform_of t))
      else (version_source (last new), version_hash (last new)))"

text \<open>What an operation may do to a table.\<close>

definition extends :: "executable_table \<Rightarrow> executable_table \<Rightarrow> bool" where
  "extends t t' \<longleftrightarrow> table_name t' = table_name t \<and>
     (\<exists>new. map version_core (versions t') = map version_core (versions t) @ map version_core new \<and>
        counts_up (versions t) new \<and> in_force new t t')"

lemma version_core_simps [simp]:
  "version (version_core v) = version v" "version_source (version_core v) = version_source v"
  "version_hash (version_core v) = version_hash v" "version_core (version_core v) = version_core v"
  by (simp_all add: version_core_def)

lemma greatest_number_core: "map version_core vs = map version_core ws \<Longrightarrow> greatest_number vs = greatest_number ws"
proof -
  assume "map version_core vs = map version_core ws"
  then have "map (unat \<circ> version) (map version_core vs) = map (unat \<circ> version) (map version_core ws)" by simp
  then have "map (unat \<circ> version) vs = map (unat \<circ> version) ws" by (simp add: comp_def)
  then show ?thesis by (simp add: greatest_number_def)
qed

lemma fold_max_upt: "fold max [m + 1..<m + 1 + k] m = (m + k :: nat)"
  by (induction k) auto

lemma greatest_number_append:
  "counts_up vs new \<Longrightarrow> greatest_number vs + length new < 2 ^ 32 \<Longrightarrow>
   greatest_number (vs @ new) = greatest_number vs + length new"
  using fold_max_upt [of "greatest_number vs" "length new"] by (simp add: counts_up_def greatest_number_def)

lemma unat_max: "unat (max a b) = max (unat a) (unat b)"
  by (simp add: max_def word_le_nat_alt)

lemma greatest_max_version: "vs \<noteq> [] \<Longrightarrow> greatest_number vs = unat (max_version vs)"
proof -
  have "unat (fold max (map version ws) x) = fold max (map (unat \<circ> version) ws) (unat x)" for ws :: "transform_version list" and x :: u32
    by (induction ws arbitrary: x) (simp_all add: unat_max)
  then show "vs \<noteq> [] \<Longrightarrow> ?thesis" by (cases vs) (simp_all add: greatest_number_def max_version_def)
qed

lemma counts_up_Nil [simp]: "counts_up vs []"
  by (simp add: counts_up_def)

lemma in_force_Nil [simp]: "in_force [] t t' \<longleftrightarrow>
    source_code (transform_of t') = source_code (transform_of t) \<and> source_hash (transform_of t') = source_hash (transform_of t)"
  by (simp add: in_force_def)

lemma counts_up_append:
  assumes "counts_up vs new" and "counts_up (vs @ new) newer"
  shows "counts_up vs (new @ newer)"
  unfolding counts_up_def
proof
  assume l: "greatest_number vs + length (new @ newer) < 2 ^ 32"
  let ?m = "greatest_number vs + 1"
  have "greatest_number (vs @ new) = greatest_number vs + length new"
    using greatest_number_append [OF assms(1)] l by simp
  moreover have "[?m..<?m + length new] @ [?m + length new..<?m + length new + length newer] = [?m..<?m + length (new @ newer)]"
    using upt_add_eq_append [of ?m "?m + length new" "length newer"] by (simp add: add.assoc)
  ultimately show "map (unat \<circ> version) (new @ newer) = [?m..<?m + length (new @ newer)]"
    using assms l by (simp add: counts_up_def)
qed

lemma extends_refl: "extends t t"
  unfolding extends_def by (intro conjI exI [of _ "[]"]) simp_all

lemma extends_trans:
  assumes "extends t u" and "extends u w"
  shows "extends t w"
proof -
  obtain new where 1: "map version_core (versions u) = map version_core (versions t) @ map version_core new"
    "counts_up (versions t) new" "in_force new t u" using assms(1) by (auto simp: extends_def)
  obtain newer where 2: "map version_core (versions w) = map version_core (versions u) @ map version_core newer"
    "counts_up (versions u) newer" "in_force newer u w" using assms(2) by (auto simp: extends_def)
  have "greatest_number (versions u) = greatest_number (versions t @ new)" by (rule greatest_number_core) (simp add: 1(1))
  then have "counts_up (versions t @ new) newer" using 2(2) by (simp add: counts_up_def)
  then have "counts_up (versions t) (new @ newer)" by (rule counts_up_append [OF 1(2)])
  moreover have "in_force (new @ newer) t w" using 1(3) 2(3) by (simp add: in_force_def)
  ultimately show ?thesis using assms 1(1) 2(1)
    by (auto simp: extends_def intro!: exI [of _ "new @ newer"])
qed

lemma counts_up_next:
  "vs \<noteq> [] \<Longrightarrow> version v = max_version vs + 1 \<Longrightarrow> counts_up vs [v]"
  by (auto simp: counts_up_def greatest_max_version unat_word_ariths upt_rec)

lemma max_initial [simp]: "max_version [initial_version t] = 1"
  by (simp add: max_version_def initial_version_def)

section \<open>Operations keep it\<close>

definition keeps :: "(executable_table \<Rightarrow> executable_table) \<Rightarrow> bool" where
  "keeps f \<longleftrightarrow> (\<forall>t. extends t (f t))"

text \<open>The recorded versions an update or rollback starts from.\<close>

definition recorded_versions :: "executable_table \<Rightarrow> transform_version list" where
  "recorded_versions t = (if versions t = [] then [initial_version t] else versions t)"

lemma recorded_versions_not_Nil [simp]: "recorded_versions t \<noteq> []"
  by (simp add: recorded_versions_def)

lemma updated_table_versions:
  "versions (updated_table now src desc t) = recorded_versions t @
     [\<lparr>version = max_version (recorded_versions t) + 1,
       version_source = src, version_hash = hash_source src, version_created_at = now, created_by = ''user'',
       change_description = desc, binary_size_bytes = binary_size (transform_of t), snapshot_ids = []\<rparr>]"
  by (simp add: updated_table_def recorded_versions_def Let_def)

lemma keeps_update: "keeps (updated_table now src desc)"
  unfolding keeps_def
proof
  fix t
  let ?u = "updated_table now src desc t" and ?old = "if versions t = [] then [initial_version t] else []"
  obtain v where v: "versions ?u = recorded_versions t @ [v]" "version v = max_version (recorded_versions t) + 1"
      "version_source v = src" "version_hash v = hash_source src"
    by (simp add: updated_table_versions)
  have "counts_up (versions t) ?old"
    by (simp add: counts_up_def greatest_number_def initial_version_def upt_rec)
  moreover have r: "versions t @ ?old = recorded_versions t" by (simp add: recorded_versions_def)
  moreover have "counts_up (recorded_versions t) [v]" by (rule counts_up_next) (simp_all add: v(2))
  ultimately have "counts_up (versions t) (?old @ [v])" by (intro counts_up_append) simp_all
  moreover have "in_force (?old @ [v]) t ?u" "table_name ?u = table_name t"
    by (simp_all add: in_force_def v(3,4), simp_all add: updated_table_def Let_def)
  moreover have "map version_core (versions ?u) = map version_core (versions t) @ map version_core (?old @ [v])"
    unfolding v(1) r [symmetric] by simp
  ultimately show "extends t ?u" unfolding extends_def by blast
qed

lemma extends_push_rollback:
  assumes "versions t \<noteq> []"
  shows "extends t (push_rollback now who desc v t)"
proof -
  obtain w where "versions (push_rollback now who desc v t) = versions t @ [w]" "version w = max_version (versions t) + 1"
      "version_source w = version_source v" "version_hash w = version_hash v"
    by (simp add: push_rollback_def)
  then show ?thesis unfolding extends_def
    by (intro conjI exI [of _ "[w]"] counts_up_next assms) (simp_all add: in_force_def, simp_all add: push_rollback_def)
qed

lemma same_versions:
  assumes "map version_core (versions t') = map version_core (versions t)" "table_name t' = table_name t"
    "transform_of t' = transform_of t"
  shows "extends t t'"
  unfolding extends_def using assms by (intro conjI exI [of _ "[]"]) simp_all

lemma link_snapshot_core: "map version_core (link_snapshot n sid vs) = map version_core vs"
  by (induction vs) (auto simp: version_core_def)

lemma keeps_comp: "keeps f \<Longrightarrow> keeps g \<Longrightarrow> keeps (\<lambda>t. f (g t))"
  unfolding keeps_def using extends_trans by blast

lemma keeps_same:
  assumes "\<And>t. map version_core (versions (f t)) = map version_core (versions t)" "\<And>t. table_name (f t) = table_name t"
    "\<And>t. transform_of (f t) = transform_of t"
  shows "keeps f"
  using same_versions [OF assms] by (simp add: keeps_def)

lemma keeps_record_snapshot: "keeps (record_snapshot n sid)"
  by (rule keeps_same) (simp_all add: record_snapshot_def link_snapshot_core)

lemma keeps_add_execution: "keeps (add_execution r)"
  by (rule keeps_same) (simp_all add: add_execution_def)

lemma keeps_mark_status: "keeps (mark_status V out)"
  by (rule keeps_same) (simp_all add: mark_status_def)

lemma keeps_count_skip: "keeps (count_skip c)"
  by (rule keeps_same) (simp_all add: count_skip_def)

lemma keeps_mark_refreshed: "keeps (mark_refreshed now)"
  by (rule keeps_same) (simp_all add: mark_refreshed_def)

lemma keeps_record_refresh: "keeps (record_refresh V rows)"
  by (rule keeps_same) (simp_all add: record_refresh_def)

section \<open>Every run of the operations\<close>

text \<open>One constructor per call that changes the tables: the four handlers that add one, and those that
  change some.\<close>

datatype 's table_op =
    Create executable_table
  | Promote "json \<Rightarrow> quality_gate_ref list option" "rat \<Rightarrow> string" "nat \<Rightarrow> string" string json "streaming_pipeline list"
  | Convert "string \<Rightarrow> string" "string \<Rightarrow> bool" int string json
  | Install "string option" "string option" "marketplace_package list"
  | Update string string string "string option"
  | Rollback string string u32
  | Execute "'s run_env" string 's
  | ExecuteVersion "'s run_env" string u32 's
  | RecordRun "'s run_env" string u32 run_outcome "u64 option" int
  | RecordVersionRun "'s run_env" string u32 run_outcome "u64 option" int
  | PipelineEvents string string u64
  | Tick "nat \<Rightarrow> 's run_env" "nat \<Rightarrow> 's run_env" "string \<Rightarrow> int option" "scheduled_job list"

fun table_step :: "'s table_op \<Rightarrow> tables \<Rightarrow> tables" where
  "table_step (Create t) ts = ts @ [t]"
| "table_step (Promote decode show6 clock uuid req ps) ts = snd (create_glacier_from_pipeline decode show6 clock uuid req ps ts)"
| "table_step (Convert up other now_s now req) ts = snd (convert_sql_to_glacier up other now_s now req ts)"
| "table_step (Install by_id by_name ps) ts = fst (snd (install_from_marketplace by_id by_name ts ps))"
| "table_step (Update now n src desc) ts = snd (update_executable_table now n src desc ts)"
| "table_step (Rollback now n v) ts = snd (rollback_executable_table now n v ts)"
| "table_step (Execute V n s) ts = fst (snd (execute_executable_table V n ts s))"
| "table_step (ExecuteVersion V n v s) ts = fst (snd (execute_version V n v ts s))"
| "table_step (RecordRun V n v out b sid) ts = record_run V n v out b sid ts"
| "table_step (RecordVersionRun V n v out b sid) ts = record_version_run V n v out b sid ts"
| "table_step (PipelineEvents now p k) ts = update_glacier_from_pipeline now p k ts"
| "table_step (Tick V W age jobs) ts = scheduler_tick V W age jobs ts"

definition tables_extend :: "tables \<Rightarrow> tables \<Rightarrow> bool" where
  "tables_extend ts ts' \<longleftrightarrow> length ts \<le> length ts' \<and> list_all2 extends ts (take (length ts) ts')"

lemma tables_extend_refl [simp]: "tables_extend ts ts"
  by (simp add: tables_extend_def list.rel_refl extends_refl)

lemma tables_extend_new [simp]: "tables_extend ts (ts @ new)"
  by (simp add: tables_extend_def list.rel_refl extends_refl)

lemma tables_extend_trans:
  assumes "tables_extend ts us" and "tables_extend us ws"
  shows "tables_extend ts ws"
proof -
  have "extends (ts ! i) (ws ! i)" if "i < length ts" for i
    using assms that extends_trans [of "ts ! i" "us ! i" "ws ! i"]
    by (simp add: tables_extend_def list_all2_conv_all_nth)
  then show ?thesis using assms by (auto simp: tables_extend_def list_all2_conv_all_nth)
qed

lemma length_update_table [simp]: "length (update_table n f ts) = length ts"
  by (induction ts) simp_all

lemma extend_update_at:
  assumes "\<And>t. find_table n ts = Some t \<Longrightarrow> extends t (f t)"
  shows "tables_extend ts (update_table n f ts)"
proof -
  have "list_all2 extends ts (update_table n f ts)"
    using assms by (induction ts) (auto simp: extends_refl list.rel_refl)
  then show ?thesis by (simp add: tables_extend_def)
qed

lemma extend_update: "keeps f \<Longrightarrow> tables_extend ts (update_table n f ts)"
  by (rule extend_update_at) (simp add: keeps_def)

lemma extend_record_run: "tables_extend ts (record_run V n v out b sid ts)"
  unfolding record_run_def
  by (rule extend_update, rule keeps_comp [OF keeps_record_snapshot keeps_comp [OF keeps_mark_status keeps_add_execution]])

lemma extend_record_version_run: "tables_extend ts (record_version_run V n v out b sid ts)"
  unfolding record_version_run_def
  by (rule extend_update, rule keeps_comp [OF keeps_record_snapshot keeps_add_execution])

lemma extend_update_handler: "tables_extend ts (snd (update_executable_table now n src desc ts))"
  by (auto simp: update_executable_table_def Let_def intro: extend_update keeps_update split: option.split)

lemma extend_rollback: "tables_extend ts (snd (rollback_executable_table now n v ts))"
  by (auto simp: rollback_executable_table_def intro!: extend_update_at extends_push_rollback split: option.split)

lemma extend_promote: "tables_extend ts (snd (create_glacier_from_pipeline decode show6 clock uuid req ps ts))"
  by (simp add: create_glacier_from_pipeline_def Let_def split: option.split)

lemma extend_convert: "tables_extend ts (snd (convert_sql_to_glacier up other now_s now req ts))"
  by (simp add: convert_sql_to_glacier_def Let_def split: result.split)

lemma extend_install: "tables_extend ts (fst (snd (install_from_marketplace by_id by_name ts ps)))"
  by (simp add: install_from_marketplace_def Let_def split: option.split)

lemma execute_tables:
  "fst (snd (execute_executable_table V n ts s)) = ts \<or>
    (\<exists>v out b sid. fst (snd (execute_executable_table V n ts s)) = record_run V n v out b sid ts)"
proof (cases "find_table n ts")
  case (Some t)
  let ?out = "run_transform V (transform_type (transform_of t)) (source_code (transform_of t))"
  obtain r s1 where w: "write_output V n (max_version (versions t)) ?out s = (r, s1)" by fastforce
  show ?thesis
  proof (cases r)
    case (Ok w')
    then show ?thesis unfolding execute_executable_table_def Some option.case Let_def w
      by (simp only: prod.case result.case split: prod.split) (simp, blast)
  qed (simp_all add: execute_executable_table_def Some Let_def w)
qed (simp add: execute_executable_table_def)

lemma execute_version_tables:
  "fst (snd (execute_version V n v ts s)) = ts \<or>
    (\<exists>out b sid. fst (snd (execute_version V n v ts s)) = record_version_run V n v out b sid ts)"
proof (cases "find_table n ts")
  case (Some t)
  show ?thesis
  proof (cases "find_version v (versions t)")
    case (Some u)
    let ?out = "run_version V (transform_type (transform_of t)) (version_source u)"
    obtain r s1 where w: "write_output V n v ?out s = (r, s1)" by fastforce
    show ?thesis
    proof (cases r)
      case (Ok w')
      then show ?thesis unfolding execute_version_def Some \<open>find_table n ts = Some t\<close> option.case Let_def w
        by (simp, blast)
    qed (simp_all add: execute_version_def Some \<open>find_table n ts = Some t\<close> Let_def w)
  qed (simp add: execute_version_def Some)
qed (simp add: execute_version_def)

lemma extend_execute: "tables_extend ts (fst (snd (execute_executable_table V n ts s)))"
  using execute_tables [of V n ts s] extend_record_run by fastforce

lemma extend_execute_version: "tables_extend ts (fst (snd (execute_version V n v ts s)))"
  using execute_version_tables [of V n v ts s] extend_record_version_run by fastforce

lemma previous_version_exists: "previous_version t = Some v \<Longrightarrow> versions t \<noteq> []"
  by (auto simp: previous_version_def)

lemma extends_auto_rollback:
  assumes "versions t \<noteq> []"
  shows "extends t (auto_rollback now v t)"
proof -
  show ?thesis unfolding auto_rollback_def Let_def
    by (rule extends_trans [OF extends_push_rollback [OF assms] same_versions]) simp_all
qed

lemma extend_run_job:
  assumes "find_table n ts = Some t"
  shows "tables_extend ts (run_job V t ts)"
proof -
  have n: "table_name t = n" using assms by (rule find_table_name)
  have "tables_extend ts (update_table n (auto_rollback now v) ts)" if "previous_version t = Some v" for now v
    by (rule extend_update_at) (use assms extends_auto_rollback previous_version_exists [OF that] in simp)
  then show ?thesis
    unfolding run_job_def n
    by (auto intro: extend_update keeps_count_skip keeps_mark_refreshed split: sum.split option.split)
qed

lemma extend_tick_jobs: "tables_extend ts (tick_jobs V i js ts)"
proof (induction js arbitrary: i ts)
  case (Cons j js)
  have "tables_extend ts (tick_job (V i) j ts)"
    by (auto simp: tick_job_def intro: extend_run_job split: option.split)
  with Cons show ?case by (auto intro: tables_extend_trans)
qed simp

lemma extend_refresh_views: "tables_extend ts (refresh_views W i due ts)"
proof (induction due arbitrary: i ts)
  case (Cons t due)
  have "tables_extend ts (refresh_view (W i) t ts)"
    by (auto simp: refresh_view_def intro: extend_update keeps_record_refresh split: sum.split)
  with Cons show ?case by (auto intro: tables_extend_trans)
qed simp

lemma extend_tick: "tables_extend ts (scheduler_tick V W age jobs ts)"
  unfolding scheduler_tick_def Let_def
  by (rule tables_extend_trans [OF extend_tick_jobs extend_refresh_views])

lemma extend_pipeline: "tables_extend ts (update_glacier_from_pipeline now p k ts)"
proof -
  have "keeps (pipeline_refresh now k)"
    by (rule keeps_same) (simp_all add: pipeline_refresh_def)
  then have "list_all2 extends ts (update_glacier_from_pipeline now p k ts)"
    unfolding update_glacier_from_pipeline_def keeps_def by (induction ts) (auto simp: extends_refl)
  then show ?thesis by (simp add: tables_extend_def update_glacier_from_pipeline_def)
qed

lemmas extend_steps = extend_promote extend_convert extend_install extend_update_handler extend_rollback extend_execute
  extend_execute_version extend_record_run extend_record_version_run extend_pipeline extend_tick

interpretation table_history: history_constraint table_step "\<lambda>_. True" tables_extend "\<lambda>_. True"
proof
  show "tables_extend s s" for s by (rule tables_extend_refl)
  show "tables_extend s t \<Longrightarrow> tables_extend t u \<Longrightarrow> tables_extend s u" for s t u by (rule tables_extend_trans)
  show "True \<and> tables_extend s (table_step op s)" for op :: "'s table_op" and s
    by (cases op) (simp_all add: extend_steps)
qed

text \<open>C13. The version history. Whatever tables are there and whatever creations, promotions of pipelines,
  conversions, installations, updates, rollbacks, executions (also ones that end after other operations), pipeline
  events and scheduler ticks follow: every table stays in its place under its name; no recorded version is ever lost
  or changed, except for the snapshots linked to it; the versions added carry the numbers that follow the
  greatest one recorded, as long as these fit in 32 bits; and the source and hash in force are those of the last
  version added, or unchanged when none was.\<close>

theorem versions_only_grow:
  fixes ops :: "'s table_op list" and ts :: tables
  defines "ts' \<equiv> fold table_step ops ts"
  shows "length ts \<le> length ts' \<and> (\<forall>i < length ts. table_name (ts' ! i) = table_name (ts ! i) \<and>
    (\<exists>new. map version_core (versions (ts' ! i)) = map version_core (versions (ts ! i)) @ map version_core new \<and>
       (greatest_number (versions (ts ! i)) + length new < 2 ^ 32 \<longrightarrow> map (unat \<circ> version) new =
          [greatest_number (versions (ts ! i)) + 1..<greatest_number (versions (ts ! i)) + 1 + length new]) \<and>
       (source_code (transform_of (ts' ! i)), source_hash (transform_of (ts' ! i))) =
         (if new = [] then (source_code (transform_of (ts ! i)), source_hash (transform_of (ts ! i)))
          else (version_source (last new), version_hash (last new)))))"
proof -
  have "tables_extend ts ts'"
    unfolding ts'_def by (rule table_history.run_ok [THEN conjunct2]) (simp_all add: list_all_iff)
  then have "length ts \<le> length ts'" "\<forall>i < length ts. extends (ts ! i) (ts' ! i)"
    by (auto simp: tables_extend_def list_all2_conv_all_nth)
  then show ?thesis unfolding extends_def counts_up_def in_force_def by simp
qed

section \<open>Undo and redo\<close>

lemma rollback_success:
  assumes "find_table n ts = Some t" and "find_version v (versions t) = Some u" and "versions t \<noteq> []"
  shows "find_table n (snd (rollback_executable_table now n v ts)) =
    Some (push_rollback now ''user'' (''Rollback to version '' @ show_nat (unat v)) u t)"
  using assms find_update_same [of "push_rollback now ''user'' (''Rollback to version '' @ show_nat (unat v)) u" n ts]
  by (simp add: rollback_executable_table_def push_rollback_def)

lemma find_version_append:
  "find_version v (xs @ ys) = (case find_version v xs of Some u \<Rightarrow> Some u | None \<Rightarrow> find_version v ys)"
  by (induction xs) (auto simp: find_version_def)

lemma find_version_new: "find_version k xs = None \<Longrightarrow> version w = k \<Longrightarrow> find_version k (xs @ w # ys) = Some w"
  unfolding find_version_append by (simp add: find_version_def)

lemma le_greatest_number: "v \<in> set vs \<Longrightarrow> unat (version v) \<le> greatest_number vs"
proof (induction vs rule: rev_induct)
  case (snoc w vs)
  then show ?case by (auto simp: greatest_number_def)
qed simp

lemma next_version_free:
  assumes "vs \<noteq> []" and "unat (max_version vs) + 1 < 2 ^ 32"
  shows "find_version (max_version vs + 1) vs = None"
proof -
  have "unat (max_version vs + 1) = unat (max_version vs) + 1"
    using assms(2) by (simp add: unat_word_ariths)
  then have "version v \<noteq> max_version vs + 1" if "v \<in> set vs" for v
    using le_greatest_number [OF that] greatest_max_version [OF assms(1)] by auto
  then show ?thesis by (auto simp: find_version_def find_None_iff)
qed

lemma update_versions:
  assumes "find_table n ts = Some t" and "source_hash (transform_of t) \<noteq> hash_source src"
  obtains t1 new where "find_table n (snd (update_executable_table now n src desc ts)) = Some t1"
    "versions t1 = recorded_versions t @ [new]" "version new = max_version (recorded_versions t) + 1"
    "version_source new = src" "version_hash new = hash_source src"
    "source_code (transform_of t1) = src" "source_hash (transform_of t1) = hash_source src"
proof -
  let ?f = "updated_table now src (case desc of Some x \<Rightarrow> x
    | None \<Rightarrow> diff_counts (diff_transforms (source_code (transform_of t)) src))"
  have "find_table n (snd (update_executable_table now n src desc ts)) = Some (?f t)"
    using assms find_update_same [of ?f n ts] by (simp add: update_executable_table_def Let_def updated_table_def)
  then show thesis using updated_table_versions [of now src _ t]
    by (intro that [of "?f t"]) (auto simp: updated_table_def Let_def)
qed

text \<open>C16. An update that changes the source hash puts the new source in force. A rollback to any version recorded
  before it then puts the source and hash of that version in force (for a table without a history, to version 1:
  the old source), and a rollback to the version of the update, unless its number wraps around, brings the
  new source back. Every step appends exactly one version to those recorded.\<close>

theorem rollback_undoes_update:
  fixes now n src :: string and desc :: "string option" and ts :: tables and t :: executable_table
  assumes "find_table n ts = Some t" and "source_hash (transform_of t) \<noteq> hash_source src"
    and "find_version v (if versions t = [] then [initial_version t] else versions t) = Some u"
    and "unat (max_version (if versions t = [] then [initial_version t] else versions t)) + 1 < 2 ^ 32"
  defines "ts1 \<equiv> snd (update_executable_table now n src desc ts)"
  defines "ts2 \<equiv> snd (rollback_executable_table now n v ts1)"
  defines "ts3 \<equiv> snd (rollback_executable_table now n
    (max_version (if versions t = [] then [initial_version t] else versions t) + 1) ts2)"
  shows "\<exists>t1 t2 t3 v1 v2 v3. find_table n ts1 = Some t1 \<and> find_table n ts2 = Some t2 \<and> find_table n ts3 = Some t3 \<and>
    source_code (transform_of t1) = src \<and> source_hash (transform_of t1) = hash_source src \<and>
    source_code (transform_of t2) = version_source u \<and> source_hash (transform_of t2) = version_hash u \<and>
    source_code (transform_of t3) = src \<and> source_hash (transform_of t3) = hash_source src \<and>
    versions t1 = (if versions t = [] then [initial_version t] else versions t) @ [v1] \<and>
    versions t2 = versions t1 @ [v2] \<and> versions t3 = versions t2 @ [v3] \<and>
    (versions t = [] \<longrightarrow> version_source u = source_code (transform_of t) \<and> version_hash u = source_hash (transform_of t))"
proof -
  let ?vs = "recorded_versions t"
  have d: "(if versions t = [] then [initial_version t] else versions t) = ?vs" by (simp add: recorded_versions_def)
  obtain t1 new where t1: "find_table n ts1 = Some t1" "versions t1 = ?vs @ [new]" "version new = max_version ?vs + 1"
      "version_source new = src" "version_hash new = hash_source src" "source_code (transform_of t1) = src"
      "source_hash (transform_of t1) = hash_source src"
    unfolding ts1_def using update_versions [OF assms(1,2), of now desc] by metis
  let ?t2 = "push_rollback now ''user'' (''Rollback to version '' @ show_nat (unat v)) u t1"
  have t2: "find_table n ts2 = Some ?t2"
    unfolding ts2_def by (rule rollback_success [OF t1(1)]) (use assms(3) t1(2) in \<open>simp_all add: d find_version_append\<close>)
  have "find_version (max_version ?vs + 1) (versions ?t2) = Some new"
  proof -
    obtain x where "versions ?t2 = ?vs @ new # [x]" by (simp add: push_rollback_def t1(2))
    moreover have "find_version (max_version ?vs + 1) ?vs = None"
      by (rule next_version_free) (use assms(4) in \<open>simp_all only: d recorded_versions_not_Nil not_False_eq_True\<close>)
    ultimately show ?thesis using find_version_new t1(3) by metis
  qed
  then have t3: "find_table n ts3 = Some (push_rollback now ''user''
      (''Rollback to version '' @ show_nat (unat (max_version ?vs + 1))) new ?t2)"
    unfolding ts3_def d by (intro rollback_success [OF t2]) (simp_all add: push_rollback_def)
  have "version_source u = source_code (transform_of t) \<and> version_hash u = source_hash (transform_of t)" if "versions t = []"
    using assms(3) that by (auto simp: find_version_def initial_version_def split: if_splits)
  then show ?thesis unfolding d using t1 t2 t3 by (simp add: push_rollback_def)
qed

text \<open>So the marker that a promoted table has as its first version takes the place of the source: after an
  update, nothing brings the query of the promotion back.\<close>

theorem promoted_source_is_lost:
  fixes now src :: string and desc :: "string option" and t :: executable_table
  assumes "create_glacier_from_pipeline decode show6 clock uuid req ps ts = (Inr r, ts')"
    and "t = last ts'" and "source_hash (transform_of t) \<noteq> hash_source src"
  defines "ts1 \<equiv> snd (update_executable_table now (table_name t) src desc ts')"
  shows "\<exists>t1 x. find_table (table_name t) ts1 = Some t1 \<and> source_code (transform_of t1) = src \<and>
    (\<forall>w \<in> set (versions t1). version_source w = pipeline_marker x \<or> version_source w = src) \<and>
    source_code (transform_of t) \<noteq> pipeline_marker x \<and>
    (\<exists>t2. find_table (table_name t) (snd (rollback_executable_table now (table_name t) 1 ts1)) = Some t2 \<and>
       source_code (transform_of t2) = pipeline_marker x)"
proof -
  obtain p where p: "find (\<lambda>p. sp_id p = unwrap_or [] (get_str ''pipeline_id'' req)) ps = Some p"
    using assms(1) by (auto simp: create_glacier_from_pipeline_def Let_def split: if_splits option.splits)
  obtain glacier gates where g: "find_table glacier ts = None"
      "ts' = ts @ [promoted_table clock uuid glacier (get_str ''transform_sql'' req) gates p]"
    using assms(1) p by (auto simp: create_glacier_from_pipeline_def Let_def split: if_splits option.splits)
  have t: "t = promoted_table clock uuid glacier (get_str ''transform_sql'' req) gates p" using assms(2) g by simp
  obtain w where w: "versions t = [w]" "version w = 1" "version_source w = pipeline_marker (sp_id p)"
    by (simp add: t promoted_table_def Let_def)
  have n: "table_name t = glacier" by (simp add: t promoted_table_def Let_def)
  have found: "find_table (table_name t) ts' = Some t"
    using g(1) n unfolding g(2) t [symmetric] by (induction ts) (auto split: if_splits)
  obtain t1 new where "find_table (table_name t) ts1 = Some t1" "versions t1 = recorded_versions t @ [new]"
      "version_source new = src" "source_code (transform_of t1) = src"
    unfolding ts1_def using update_versions [OF found assms(3), of now desc] by metis
  then have t1: "find_table (table_name t) ts1 = Some t1" "versions t1 = [w, new]" "version_source new = src"
      "source_code (transform_of t1) = src" by (simp_all add: recorded_versions_def w(1))
  have "find_version 1 (versions t1) = Some w" by (simp add: t1(2) w(2) find_version_def)
  from rollback_success [OF t1(1) this] show ?thesis
    using t1 w cdc_source_code_not_marker [of glacier p]
    by (intro exI [of _ t1] exI [of _ "sp_id p"]) (auto simp: push_rollback_def, auto simp: t promoted_table_def Let_def)
qed

section \<open>What an execution records\<close>

definition with_gates :: "quality_gate_ref list \<Rightarrow> executable_table \<Rightarrow> executable_table" where
  "with_gates gs t = t\<lparr>quality_gates := gs\<rparr>"

lemma update_update_same:
  assumes "\<And>t. table_name (f t) = table_name t"
  shows "update_table n g (update_table n f ts) = update_table n (\<lambda>t. g (f t)) ts"
  using assms by (induction ts) auto

lemma with_gates_commute:
  "record_run V n v out b sid (update_table n (with_gates gs) ts) =
   update_table n (with_gates gs) (record_run V n v out b sid ts)"
proof -
  let ?f = "\<lambda>t. record_snapshot v sid (mark_status V out (add_execution (execution_entry V v out b) t))"
  have e: "?f (with_gates gs t) = with_gates gs (?f t)" for t
    by (simp add: record_snapshot_def mark_status_def add_execution_def with_gates_def)
  have "table_name (?f t) = table_name t" for t
    by (simp add: record_snapshot_def mark_status_def add_execution_def)
  from update_update_same [of ?f, OF this] update_update_same [of "with_gates gs" n ?f]
  show ?thesis unfolding record_run_def by (simp only: e) (simp add: with_gates_def)
qed

text \<open>The two ways an execution can end once its table is found.\<close>

lemma execute_cases:
  fixes V :: "'s run_env" and t :: executable_table
  assumes "find_table n ts = Some t"
  defines "out \<equiv> run_transform V (transform_type (transform_of t)) (source_code (transform_of t))"
  defines "v \<equiv> max_version (versions t)"
  obtains (written) w b bytes s1 s2 rep ts' where "write_output V n v out s = (Ok w, s1)"
      "ts' = record_run V n v out bytes (rep_snapshot w) ts" "rep_outcome rep = out" "rep_version rep = v"
      "rep_regression rep = recorded_regression n ts'"
      "\<And>gs. execute_executable_table V n (update_table n (with_gates gs) ts) s =
         (Ok (Inr (rep\<lparr>rep_gates := gate_report V n out (update_table n (with_gates gs) ts)\<rparr>)),
          update_table n (with_gates gs) ts', s2)"
      "execute_executable_table V n ts s = (Ok (Inr rep), ts', s2)"
  | (failed) r s1 where "r = Panic \<or> (\<exists>e. r = Err e)" "execute_executable_table V n ts s = (r, ts, s1)"
      "\<And>gs. execute_executable_table V n (update_table n (with_gates gs) ts) s =
         (r, update_table n (with_gates gs) ts, s1)"
proof -
  have f: "find_table n (update_table n (with_gates gs) ts) = Some (with_gates gs t)" for gs
    using assms(1) by (simp add: find_update_same with_gates_def)
  have sel: "transform_of (with_gates gs t) = transform_of t" "versions (with_gates gs t) = versions t" for gs
    by (simp_all add: with_gates_def)
  have rr: "recorded_regression n (update_table n (with_gates gs) us) = recorded_regression n us" for gs us
    by (cases "find_table n us") (simp_all add: recorded_regression_def find_update_same with_gates_def)
  obtain r s1 where w: "write_output V n v out s = (r, s1)" by fastforce
  show thesis
  proof (cases r)
    case (Ok w')
    let ?u = "if out_status out = ''success'' \<and> transform_type (transform_of t) = ''rust''
      then upload_binary V n v (source_code (transform_of t)) w' s1
      else ((w', \<lparr>bin_path = None, bin_size = None\<rparr>), s1)"
    obtain w2 b s2 where u: "?u = ((w2, b), s2)" by (metis prod.exhaust)
    let ?ts = "record_run V n v out (rep_bytes w2) (rep_snapshot w') ts"
    let ?rep = "\<lparr>rep_id = fresh_id V 0, rep_version = v, rep_outcome = out, rep_duration = total_elapsed V,
      rep_cost = run_cost V, rep_written = w2, rep_gates = gate_report V n out ts,
      rep_regression = recorded_regression n ?ts, rep_binary = b\<rparr>"
    have 1: "execute_executable_table V n ts s = (Ok (Inr ?rep), ?ts, s2)"
      unfolding execute_executable_table_def assms(1) option.case Let_def out_def [symmetric] v_def [symmetric] w Ok
        prod.case result.case u ..
    have 2: "execute_executable_table V n (update_table n (with_gates gs) ts) s =
        (Ok (Inr (?rep\<lparr>rep_gates := gate_report V n out (update_table n (with_gates gs) ts)\<rparr>)),
         update_table n (with_gates gs) ?ts, s2)" for gs
      unfolding execute_executable_table_def f option.case Let_def sel out_def [symmetric] v_def [symmetric] w Ok
        prod.case result.case u with_gates_commute rr by simp
    show thesis by (rule written [OF w [unfolded Ok] refl _ _ _ 2 1]) simp_all
  next
    case (Err e)
    show thesis
      by (rule failed [of "Err e" s1])
        (simp_all add: execute_executable_table_def assms(1) f sel w Err Let_def flip: out_def v_def)
  next
    case Panic
    show thesis
      by (rule failed [of Panic s1])
        (simp_all add: execute_executable_table_def assms(1) f sel w Panic Let_def flip: out_def v_def)
  qed
qed

text \<open>C14. The quality gates of a table have no influence on its execution: with any other gates the same
  files, metadata and snapshot are in the store, the same execution and status are recorded, and the
  answer differs only in the gate results it reports.\<close>

theorem gates_do_not_gate:
  "case execute_executable_table V n ts s of (r, ts', s') \<Rightarrow>
     \<exists>r'. execute_executable_table V n (update_table n (with_gates gs) ts) s =
         (r', update_table n (with_gates gs) ts', s') \<and>
       (case r of Ok (Inr rep) \<Rightarrow> (\<exists>g. r' = Ok (Inr (rep\<lparr>rep_gates := g\<rparr>))) | _ \<Rightarrow> r' = r)"
proof (cases "find_table n ts")
  case None
  then have "find_table n (update_table n (with_gates gs) ts) = None"
    by (simp add: find_update_same with_gates_def)
  with None show ?thesis by (simp add: execute_executable_table_def)
next
  case (Some t)
  then show ?thesis
    by (rule execute_cases [of n ts t V s]) (auto split: result.split sum.split)
qed

text \<open>An execution that answers has appended exactly one entry to the history of its table, with the
  outcome and the highest version number, has counted its cost, and marks the table healthy exactly
  when the run succeeded; the source, the recorded versions and every other table are as before, and
  the regression it reports compares it with the execution before.\<close>

theorem execution_is_recorded:
  assumes "find_table n ts = Some t" and "execute_executable_table V n ts s = (Ok (Inr rep), ts', s')"
  shows "\<exists>t' e. find_table n ts' = Some t' \<and> history t' = history t @ [e] \<and>
    exec_version e = max_version (versions t) \<and> exec_status e = out_status (rep_outcome rep) \<and>
    rows_produced e = out_rows (rep_outcome rep) \<and> total_executions t' = total_executions t + 1 \<and>
    total_cost_usd t' = f64_add (total_cost_usd t) (cost_usd e) \<and> transform_of t' = transform_of t \<and>
    (health (status_of t') = ''healthy'' \<longleftrightarrow> out_status (rep_outcome rep) = ''success'') \<and>
    map version_core (versions t') = map version_core (versions t) \<and>
    rep_regression rep = (if history t = [] then None else Some (compare_executions (last (history t)) e)) \<and>
    (\<forall>m. m \<noteq> n \<longrightarrow> find_table m ts' = find_table m ts)"
  using assms(1)
proof (rule execute_cases [of n ts t V s])
  fix r s1 assume "r = Panic \<or> (\<exists>e. r = Err e)" "execute_executable_table V n ts s = (r, ts, s1)"
  with assms(2) show ?thesis by auto
next
  fix w :: write_report and bytes s2 s1 rep0 ts0
  let ?v = "max_version (versions t)"
  let ?out = "run_transform V (transform_type (transform_of t)) (source_code (transform_of t))"
  let ?e = "execution_entry V ?v ?out bytes"
  let ?f = "\<lambda>t. record_snapshot ?v (rep_snapshot w) (mark_status V ?out (add_execution ?e t))"
  assume a: "ts0 = record_run V n ?v ?out bytes (rep_snapshot w) ts" "rep_outcome rep0 = ?out"
    "rep_regression rep0 = recorded_regression n ts0" "execute_executable_table V n ts s = (Ok (Inr rep0), ts0, s2)"
  then have e: "rep = rep0" "ts' = ts0" using assms(2) by simp_all
  have nm: "table_name (?f u) = table_name u" for u
    by (simp add: record_snapshot_def mark_status_def add_execution_def)
  have t': "find_table n ts' = Some (?f t)" and others: "m \<noteq> n \<Longrightarrow> find_table m ts' = find_table m ts" for m
    using assms(1) nm unfolding e(2) a(1) record_run_def by (simp_all add: find_update_same find_update_other)
  have h: "history (?f t) = history t @ [?e]"
    by (simp add: record_snapshot_def mark_status_def add_execution_def)
  have reg: "last_regression (history t @ [?e]) =
      (if history t = [] then None else Some (compare_executions (last (history t)) ?e))"
    by (cases "history t" rule: rev_cases) (simp_all add: last_regression_def)
  have "map version_core (versions (?f t)) = map version_core (versions t)"
    by (simp add: record_snapshot_def mark_status_def add_execution_def link_snapshot_core)
  moreover have "rep_regression rep = last_regression (history t @ [?e])"
    using a(3) t' h unfolding e by (simp add: recorded_regression_def)
  moreover have "transform_of (?f t) = transform_of t" "total_executions (?f t) = total_executions t + 1"
    "total_cost_usd (?f t) = f64_add (total_cost_usd t) (cost_usd ?e)"
    "health (status_of (?f t)) = ''healthy'' \<longleftrightarrow> out_status ?out = ''success''"
    by (simp_all add: record_snapshot_def mark_status_def add_execution_def)
  moreover have "exec_version ?e = ?v" "exec_status ?e = out_status ?out" "rows_produced ?e = out_rows ?out"
    by (simp_all add: execution_entry_def)
  ultimately show ?thesis
    using t' h others reg a(2) e(1) by (intro exI [of _ "?f t"] exI [of _ ?e]) simp
qed

section \<open>Examples\<close>

lemma length_hash_source: "length (hash_source s) = 16"
  by (simp add: hash_source_def hex16_def)

lemma hash_differs: "source_hash (transform_of (demo_table inputs gates vs code)) \<noteq> hash_source src"
proof
  assume "source_hash (transform_of (demo_table inputs gates vs code)) = hash_source src"
  then have "''h'' = hash_source src" by (simp add: demo_table_def)
  from arg_cong [OF this, of length] show False by (simp add: length_hash_source)
qed

lemma demo_name: "table_name (demo_table inputs gates vs code) = ''t''"
  "versions (demo_table inputs gates vs code) = vs" "source_code (transform_of (demo_table inputs gates vs code)) = code"
  by (simp_all add: demo_table_def)

lemma versions_only_grow_witness:
  "\<exists>t. fold table_step [Update ''now'' ''t'' ''b'' None, Rollback ''now'' ''t'' 1 :: (string \<times> string) list table_op]
       [demo_table [] [] [] ''a''] = [t] \<and>
     map (unat \<circ> version) (versions t) = [1, 2, 3] \<and> version_source (last (versions t)) = source_code (transform_of t)"
proof -
  let ?T = "demo_table [] [] [] ''a''"
  let ?ops = "[Update ''now'' ''t'' ''b'' None, Rollback ''now'' ''t'' 1 :: (string \<times> string) list table_op]"
  obtain d where 1: "table_step (Update ''now'' ''t'' ''b'' None :: (string \<times> string) list table_op) [?T] =
      [updated_table ''now'' ''b'' d ?T]"
    using hash_differs by (simp add: update_executable_table_def Let_def demo_name)
  let ?U = "updated_table ''now'' ''b'' d ?T"
  have U: "table_name ?U = ''t''" "length (versions ?U) = 2" "find_version 1 (versions ?U) = Some (initial_version ?T)"
    by (simp_all add: updated_table_versions recorded_versions_def demo_name find_version_def initial_version_def)
      (simp add: updated_table_def demo_name Let_def)
  then have "versions ?U \<noteq> []" by auto
  with U obtain t where t: "table_step (Rollback ''now'' ''t'' 1 :: (string \<times> string) list table_op) [?U] = [t]"
      "length (versions t) = 3"
    by (simp add: rollback_executable_table_def push_rollback_def)
  have f: "fold table_step ?ops [?T] = [t]" using 1 t(1) by simp
  have "0 < length [?T]" by simp
  note versions_only_grow [where ts = "[?T]" and ops = ?ops, unfolded f, THEN conjunct2, rule_format, OF this, THEN conjunct2]
  then obtain new where "map version_core (versions t) = map version_core (versions ?T) @ map version_core new"
      "greatest_number (versions ?T) + length new < 2 ^ 32 \<longrightarrow>
        map (unat \<circ> version) new = [greatest_number (versions ?T) + 1..<greatest_number (versions ?T) + 1 + length new]"
      "(source_code (transform_of t), source_hash (transform_of t)) = (if new = []
        then (source_code (transform_of ?T), source_hash (transform_of ?T)) else (version_source (last new), version_hash (last new)))"
    unfolding nth_Cons_0 by blast
  then have new: "map version_core (versions t) = map version_core new"
      "length new < 2 ^ 32 \<longrightarrow> map (unat \<circ> version) new = [1..<1 + length new]"
      "source_code (transform_of t) = (if new = [] then ''a'' else version_source (last new))"
    by (simp_all add: demo_name greatest_number_def del: upt_Suc split: if_splits)
  have l: "length new = 3" using t(2) arg_cong [OF new(1), of length] by simp
  have "map (unat \<circ> version) (versions t) = map (unat \<circ> version) new"
    using arg_cong [OF new(1), of "map (unat \<circ> version)"] by (simp add: comp_def)
  moreover have "[1..<1 + length new] = [1, 2, 3]" unfolding l by (simp add: upt_rec)
  moreover have "version_source (last (versions t)) = version_source (last new)"
  proof -
    have "versions t \<noteq> []" "new \<noteq> []" using t(2) l by auto
    then show ?thesis using arg_cong [OF new(1), of "\<lambda>vs. version_source (last vs)"] by (simp add: last_map)
  qed
  ultimately show ?thesis using f new(2,3) l by auto
qed

lemma rollback_undoes_update_witness:
  "source_code (transform_of (the (find_table ''t'' (snd (rollback_executable_table ''now'' ''t'' 1
     (snd (update_executable_table ''now'' ''t'' ''b'' None [demo_table [] [] [] ''a'']))))))) = ''a''"
proof -
  let ?T = "demo_table [] [] [] ''a''"
  have h: "find_table ''t'' [?T] = Some ?T"
    "find_version 1 (if versions ?T = [] then [initial_version ?T] else versions ?T) = Some (initial_version ?T)"
    "unat (max_version (if versions ?T = [] then [initial_version ?T] else versions ?T)) + 1 < 2 ^ 32"
    by (simp_all add: demo_name find_version_def) (simp add: initial_version_def)
  show ?thesis
    using rollback_undoes_update [where now = "''now''" and desc = None and src = "''b''", OF h(1) hash_differs h(2,3)]
    by (auto simp: demo_name)
qed

lemma execution_is_recorded_witness:
  "\<exists>rep ts' s' t'. execute_executable_table demo_run_env ''t'' [demo_table [] [null_gate] [] ''a''] [] = (Ok (Inr rep), ts', s') \<and>
     find_table ''t'' ts' = Some t' \<and> length (history t') = 1 \<and> health (status_of t') = ''healthy''"
proof -
  let ?t = "demo_table [] [null_gate] [] ''a''"
  have f: "find_table ''t'' [?t] = Some ?t" by (simp add: demo_table_def)
  have o: "run_transform demo_run_env ''sql'' ''a'' = run_sql_code demo_run_env ''a''"
    by (simp add: run_transform_def)
  have s: "out_status (run_sql_code demo_run_env ''a'') = ''success''" by (simp add: run_sql_code_def demo_run_env_def)
  have w: "write_output demo_run_env ''t'' 1 (run_sql_code demo_run_env ''a'') [] = (Ok nothing_written, [])"
    by (simp add: write_output_def run_sql_code_def demo_run_env_def open_sink_def demo_batch_def)
  have v: "max_version [] = 1" by (simp add: max_version_def)
  have ty: "transform_type (transform_of ?t) = ''sql''" by (simp add: demo_table_def)
  obtain rep ts' s' where x: "execute_executable_table demo_run_env ''t'' [?t] [] = (Ok (Inr rep), ts', s')"
    "rep_outcome rep = run_sql_code demo_run_env ''a''"
    unfolding execute_executable_table_def f option.case Let_def o v w prod.case result.case ty demo_name by auto
  from execution_is_recorded [OF f x(1)] obtain t' where
    "find_table ''t'' ts' = Some t'" "length (history t') = 1" "health (status_of t') = ''healthy''"
    using s unfolding x(2) by (auto simp: demo_table_def)
  with x(1) show ?thesis by blast
qed

end
