(* ===== verification/Query_Engines.thy ===== *)
theory Query_Engines
  imports Quality_Gates "HOL-Library.Char_ord" "HOL-Library.List_Lexorder"
begin

text \<open>
  \<open>rustlake-engine\<close>: the wrapper of the DataFusion session (\<open>context.rs\<close>), which reads quoted file paths
  as tables, and the DuckDB and Polars engines (\<open>duckdb_engine.rs\<close>, \<open>polars_engine.rs\<close>), into which
  tables are copied. The session and the connections are states of the caller's choice; what DataFusion
  and DuckDB do with them is in the records \<open>df_api\<close> and \<open>duck_api\<close>.
\<close>

section \<open>The DataFusion session\<close>

datatype file_format = CsvFile | ParquetFile | JsonFile

record 'c df_api =
  df_sql :: "string \<Rightarrow> 'c \<Rightarrow> (string + string + record_batch list) \<times> 'c"
  df_has_table :: "'c \<Rightarrow> string \<Rightarrow> bool"
  df_register_file :: "file_format \<Rightarrow> string \<Rightarrow> string \<Rightarrow> 'c \<Rightarrow> string option \<times> 'c"
  df_new_mem_table :: "record_batch list \<Rightarrow> string option"
  df_register_batches :: "string \<Rightarrow> record_batch list \<Rightarrow> 'c \<Rightarrow> string option \<times> 'c"
  df_deregister :: "string \<Rightarrow> 'c \<Rightarrow> string option \<times> 'c"
  df_schemas :: "'c \<Rightarrow> (string \<times> string list) list option"

text \<open>\<open>df_sql\<close> answers with the error of planning, the error of collecting, or the batches; an operation
  that only may fail answers with its error. An error is the text that \<open>RustLakeError\<close> displays.\<close>

definition data_suffixes :: "string list" where
  "data_suffixes = [''.csv'', ''.parquet'', ''.parq'', ''.json'', ''.ndjson'']"

definition auto_table_name :: "string \<Rightarrow> string" where
  "auto_table_name path =
     (let flat = map (\<lambda>c. if c \<in> set ''/.-'' \<or> c = CHR 0x5C then CHR ''_'' else c) path
      in dropWhile ((=) (CHR ''_''))
           (fold trim_end_str [''_csv'', ''_parquet'', ''_parq'', ''_json'', ''_ndjson''] flat))"

text \<open>The scan over the characters: the text of the open quote, if any, read so far in \<open>current\<close>.\<close>

fun scan_quotes :: "bool \<Rightarrow> string \<Rightarrow> string \<Rightarrow> (string \<times> string) list" where
  "scan_quotes in_quote current [] = []"
| "scan_quotes in_quote current (c # cs) =
     (if c = CHR 0x27 then
        (if in_quote then
           (if list_ex (ends_with current) data_suffixes then [(current, auto_table_name current)] else []) @
           scan_quotes False current cs
         else scan_quotes True [] cs)
      else scan_quotes in_quote (if in_quote then current @ [c] else current) cs)"

definition file_format_of :: "string \<Rightarrow> file_format option" where
  "file_format_of path =
     (if ends_with path ''.csv'' then Some CsvFile
      else if ends_with path ''.parquet'' \<or> ends_with path ''.parq'' then Some ParquetFile
      else if ends_with path ''.json'' \<or> ends_with path ''.ndjson'' then Some JsonFile
      else None)"

definition auto_register_one :: "'c df_api \<Rightarrow> string \<times> string \<Rightarrow> 'c \<Rightarrow> unit result \<times> 'c" where
  "auto_register_one D = (\<lambda>(path, table) ctx.
     if df_has_table D ctx table then (Ok (), ctx)
     else case file_format_of path of
            None \<Rightarrow> (Ok (), ctx)
          | Some fmt \<Rightarrow>
              (case df_register_file D fmt table path ctx of
                 (Some e, ctx') \<Rightarrow> (Err (''Catalog error: Failed to auto-register '' @ quote path @ '': '' @ e), ctx')
               | (None, ctx') \<Rightarrow> (Ok (), ctx')))"

fun auto_register_all :: "'c df_api \<Rightarrow> (string \<times> string) list \<Rightarrow> string \<Rightarrow> 'c \<Rightarrow> string result \<times> 'c" where
  "auto_register_all D [] rewritten ctx = (Ok rewritten, ctx)"
| "auto_register_all D (r # rs) rewritten ctx =
     (case auto_register_one D r ctx of
        (Ok _, ctx') \<Rightarrow> auto_register_all D rs (replace_str (quote (fst r)) (snd r) rewritten) ctx'
      | (Err e, ctx') \<Rightarrow> (Err e, ctx')
      | (Panic, ctx') \<Rightarrow> (Panic, ctx'))"

definition auto_register_files :: "'c df_api \<Rightarrow> string \<Rightarrow> 'c \<Rightarrow> string option result \<times> 'c" where
  "auto_register_files D query ctx =
     (case scan_quotes False [] query of
        [] \<Rightarrow> (Ok None, ctx)
      | rs \<Rightarrow> (case auto_register_all D rs query ctx of
                (Ok s, ctx') \<Rightarrow> (Ok (Some s), ctx')
              | (Err e, ctx') \<Rightarrow> (Err e, ctx')
              | (Panic, ctx') \<Rightarrow> (Panic, ctx')))"

definition ctx_sql :: "'c df_api \<Rightarrow> string \<Rightarrow> 'c \<Rightarrow> record_batch list result \<times> 'c" where
  "ctx_sql D query ctx =
     (case auto_register_files D query ctx of
        (Ok rewritten, ctx1) \<Rightarrow>
          (case df_sql D (unwrap_or query rewritten) ctx1 of
             (Inl e, ctx2) \<Rightarrow> (Err (''Query error: SQL execution failed: '' @ e), ctx2)
           | (Inr (Inl e), ctx2) \<Rightarrow> (Err (''Query error: Failed to collect results: '' @ e), ctx2)
           | (Inr (Inr bs), ctx2) \<Rightarrow> (Ok bs, ctx2))
      | (Err e, ctx1) \<Rightarrow> (Err e, ctx1)
      | (Panic, ctx1) \<Rightarrow> (Panic, ctx1))"

definition format_label :: "file_format \<Rightarrow> string" where
  "format_label f = (case f of CsvFile \<Rightarrow> ''CSV'' | ParquetFile \<Rightarrow> ''Parquet'' | JsonFile \<Rightarrow> ''JSON'')"

definition register_file :: "'c df_api \<Rightarrow> file_format \<Rightarrow> string \<Rightarrow> string \<Rightarrow> 'c \<Rightarrow> unit result \<times> 'c" where
  "register_file D fmt n path ctx =
     (case df_register_file D fmt n path ctx of
        (Some e, ctx') \<Rightarrow> (Err (''Catalog error: Failed to register '' @ format_label fmt @ '' table '' @ quote n @ '': '' @ e), ctx')
      | (None, ctx') \<Rightarrow> (Ok (), ctx'))"

definition register_table_auto :: "'c df_api \<Rightarrow> string \<Rightarrow> string \<Rightarrow> 'c \<Rightarrow> unit result \<times> 'c" where
  "register_table_auto D n path ctx =
     (case file_format_of path of
        Some fmt \<Rightarrow> register_file D fmt n path ctx
      | None \<Rightarrow> (Err (''Catalog error: Unknown file format for '' @ quote path @ ''. Supported: .parquet, .csv, .json, .ndjson''), ctx))"

definition list_tables :: "'c df_api \<Rightarrow> 'c \<Rightarrow> string list result" where
  "list_tables D ctx =
     (case df_schemas D ctx of
        None \<Rightarrow> Err ''Catalog error: Default catalog not found''
      | Some schemas \<Rightarrow>
          Ok (sort (concat (map (\<lambda>(s, ts). if s = ''information_schema'' then []
                                         else if s = ''public'' then ts else map (\<lambda>t. s @ ''.'' @ t) ts) schemas))))"

definition deregister_table :: "'c df_api \<Rightarrow> string \<Rightarrow> 'c \<Rightarrow> unit result \<times> 'c" where
  "deregister_table D n ctx =
     (case df_deregister D n ctx of (Some e, ctx') \<Rightarrow> (Err (''Query error: '' @ e), ctx') | (None, ctx') \<Rightarrow> (Ok (), ctx'))"

section \<open>DuckDB and Polars\<close>

text \<open>\<open>duck_query\<close> prepares, runs and converts a query; \<open>duck_batch\<close> runs statements; \<open>duck_append\<close> is the
  appender with its flush, on the batches sent through Arrow IPC.\<close>

record 'd duck_api =
  duck_query :: "string \<Rightarrow> 'd \<Rightarrow> (string + record_batch list) \<times> 'd"
  duck_batch :: "string \<Rightarrow> 'd \<Rightarrow> string option \<times> 'd"
  duck_append :: "string \<Rightarrow> record_batch list \<Rightarrow> 'd \<Rightarrow> string option \<times> 'd"
  duck_ipc :: "record_batch list \<Rightarrow> string option"

fun arrow_type_to_duckdb :: "arrow_type \<Rightarrow> string" where
  "arrow_type_to_duckdb Boolean = ''BOOLEAN''"
| "arrow_type_to_duckdb Int8 = ''TINYINT''"
| "arrow_type_to_duckdb Int16 = ''SMALLINT''"
| "arrow_type_to_duckdb Int32 = ''INTEGER''"
| "arrow_type_to_duckdb Int64 = ''BIGINT''"
| "arrow_type_to_duckdb UInt8 = ''UTINYINT''"
| "arrow_type_to_duckdb UInt16 = ''USMALLINT''"
| "arrow_type_to_duckdb UInt32 = ''UINTEGER''"
| "arrow_type_to_duckdb UInt64 = ''UBIGINT''"
| "arrow_type_to_duckdb Float16 = ''FLOAT''"
| "arrow_type_to_duckdb Float32 = ''FLOAT''"
| "arrow_type_to_duckdb Float64 = ''DOUBLE''"
| "arrow_type_to_duckdb Utf8 = ''VARCHAR''"
| "arrow_type_to_duckdb LargeUtf8 = ''VARCHAR''"
| "arrow_type_to_duckdb Binary = ''BLOB''"
| "arrow_type_to_duckdb LargeBinary = ''BLOB''"
| "arrow_type_to_duckdb Date32 = ''DATE''"
| "arrow_type_to_duckdb Date64 = ''DATE''"
| "arrow_type_to_duckdb (Timestamp tz) = ''TIMESTAMP''"
| "arrow_type_to_duckdb Time32 = ''TIME''"
| "arrow_type_to_duckdb Time64 = ''TIME''"
| "arrow_type_to_duckdb (Decimal128 p s) = ''DECIMAL''"
| "arrow_type_to_duckdb (OtherType t) =
     (if starts_with t ''Interval'' then ''INTERVAL'' else if starts_with t ''Decimal256'' then ''DECIMAL'' else ''VARCHAR'')"

definition double_quote :: "string \<Rightarrow> string" where
  "double_quote s = [CHR 0x22] @ s @ [CHR 0x22]"

definition arrow_schema_to_duckdb_ddl :: "string \<Rightarrow> arrow_field list \<Rightarrow> string" where
  "arrow_schema_to_duckdb_ddl table schema =
     ''CREATE TABLE '' @ double_quote table @ '' ('' @
     join_with '', '' (map (\<lambda>f. double_quote (field_name f) @ '' '' @ arrow_type_to_duckdb (data_type f)) schema) @ '');''"

definition duck_sql :: "'d duck_api \<Rightarrow> string \<Rightarrow> 'd \<Rightarrow> record_batch list result \<times> 'd" where
  "duck_sql K query d = (case duck_query K query d of (Inl e, d') \<Rightarrow> (Err (''DuckDB error: '' @ e), d') | (Inr bs, d') \<Rightarrow> (Ok bs, d'))"

definition duck_register :: "'d duck_api \<Rightarrow> string \<Rightarrow> record_batch list \<Rightarrow> 'd \<Rightarrow> unit result \<times> 'd" where
  "duck_register K n batches d =
     (case batches of
        [] \<Rightarrow> (Ok (), d)
      | b # _ \<Rightarrow>
          (case duck_ipc K batches of
             Some e \<Rightarrow> (Err (''DuckDB error: '' @ e), d)
           | None \<Rightarrow>
               (case duck_batch K (''DROP TABLE IF EXISTS '' @ double_quote n @ ''; '' @
                                   arrow_schema_to_duckdb_ddl n (batch_schema b)) d of
                  (Some e, d') \<Rightarrow> (Err (''DuckDB error: Failed to create table '' @ quote n @ '': '' @ e), d')
                | (None, d') \<Rightarrow>
                    (case duck_append K n batches d' of
                       (Some e, d'') \<Rightarrow> (Err (''DuckDB error: '' @ e), d'')
                     | (None, d'') \<Rightarrow> (Ok (), d'')))))"

definition polars_register :: "'c df_api \<Rightarrow> string \<Rightarrow> record_batch list \<Rightarrow> 'c \<Rightarrow> unit result \<times> 'c" where
  "polars_register D n batches p =
     (if batches = [] then (Ok (), p)
      else case df_new_mem_table D batches of
             Some e \<Rightarrow> (Err (''Polars error: Failed to create table '' @ quote n @ '': '' @ e), p)
           | None \<Rightarrow>
               (case df_register_batches D n batches p of
                  (Some e, p') \<Rightarrow> (Err (''Polars error: Failed to register table '' @ quote n @ '': '' @ e), p')
                | (None, p') \<Rightarrow> (Ok (), p')))"

definition polars_sql :: "'c df_api \<Rightarrow> string \<Rightarrow> 'c \<Rightarrow> record_batch list result \<times> 'c" where
  "polars_sql D query p =
     (case df_sql D query p of
        (Inl e, p') \<Rightarrow> (Err (''Polars error: SQL execution failed: '' @ e), p')
      | (Inr (Inl e), p') \<Rightarrow> (Err (''Polars error: Collect failed: '' @ e), p')
      | (Inr (Inr bs), p') \<Rightarrow> (Ok bs, p'))"

text \<open>\<open>sync_tables\<close> of both engines: how many tables were copied; a failing one is only logged.\<close>

fun sync_tables :: "(string \<Rightarrow> record_batch list \<Rightarrow> 'd \<Rightarrow> unit result \<times> 'd) \<Rightarrow> (string \<times> record_batch list) list \<Rightarrow> 'd \<Rightarrow> nat \<times> 'd" where
  "sync_tables register [] d = (0, d)"
| "sync_tables register ((n, bs) # ts) d =
     (let (r, d1) = register n bs d; (k, d2) = sync_tables register ts d1 in (if is_ok r then k + 1 else k, d2))"

end
