(* ===== verification/Cost_Model.thy ===== *)
theory Cost_Model
  imports Prelude Float64
begin

text \<open>
  \<open>rustlake-router/src/cost_model.rs\<close>, with the types of \<open>profiler.rs\<close> it reads: the predicted time of a
  query on every engine, the recommended engine, and the plan that gives each table its own engine.

  Baselines and overheads are the doubles they are, times are doubles (\<open>Float64\<close>); row and byte counts
  are 64-bit words. The map of baselines is a HOL map; the order in which the code iterates over its
  keys is an argument of \<open>estimate_split_plan\<close>.
\<close>

section \<open>Types\<close>

datatype source_type = Local | S3Parquet | S3Iceberg | S3Delta | Federated | InMemory | Trino | Lance

record table_reference =
  ref_name :: string
  ref_source :: source_type
  ref_rows :: u64
  ref_bytes :: u64

record query_profile =
  prof_tables :: "table_reference list"
  prof_rows :: u64
  prof_bytes :: u64
  prof_aggregation :: bool
  prof_join :: bool
  prof_sort :: bool
  prof_vector_search :: bool
  prof_federated :: bool
  projected_columns :: nat

record engine_baseline =
  scan_throughput_rows_per_ms :: rat
  aggregation_factor :: rat
  join_factor :: rat
  sort_factor :: rat
  s3_direct :: bool
  s3_iceberg_direct :: bool
  s3_delta_direct :: bool
  federated_capable :: bool
  startup_overhead_ms :: rat

record cost_estimate =
  est_engine :: string
  total_ms :: rat
  scan_ms :: rat
  compute_ms :: rat
  transfer_ms :: rat
  overhead_ms :: rat
  execution_mode :: string
  est_notes :: "string list"

record fragment_estimate =
  frag_table :: string
  frag_engine :: string
  estimated_ms :: rat
  frag_mode :: string

record split_plan_estimate =
  fragments :: "fragment_estimate list"
  merge_cost_ms :: rat
  split_total_ms :: rat
  vs_single_best_ms :: rat

record cost_model =
  engine_baselines :: "string \<rightharpoonup> engine_baseline"
  sync_overhead_ms :: rat
  s3_fetch_overhead_ms :: rat
  ipc_overhead_per_mb :: rat
  flight_overhead_per_mb :: rat

definition f64_max_value :: rat where "f64_max_value = (2 ^ 53 - 1) * 2 ^ 971"

definition f64_of_u64 :: "u64 \<Rightarrow> rat" where "f64_of_u64 w = f64_of_nat (unat w)"

text \<open>A double with a fixed number of decimals, rounded half to even.\<close>

definition show_fixed :: "nat \<Rightarrow> rat \<Rightarrow> string" where
  "show_fixed p x =
     (let n = nat (round_half_even (\<bar>x\<bar> * 10 ^ p)); d = show_nat (n mod 10 ^ p)
      in (if x < 0 then ''-'' else []) @ show_nat (n div 10 ^ p) @
         (if p = 0 then [] else ''.'' @ replicate (p - length d) (CHR ''0'') @ d))"

section \<open>The default model\<close>

definition datafusion_baseline :: engine_baseline where
  "datafusion_baseline =
     \<lparr>scan_throughput_rows_per_ms = 500000, aggregation_factor = rnd (15 / 10), join_factor = 2, sort_factor = rnd (13 / 10),
      s3_direct = True, s3_iceberg_direct = True, s3_delta_direct = True, federated_capable = True,
      startup_overhead_ms = 1\<rparr>"

definition duckdb_baseline :: engine_baseline where
  "duckdb_baseline =
     \<lparr>scan_throughput_rows_per_ms = 800000, aggregation_factor = rnd (12 / 10), join_factor = rnd (15 / 10), sort_factor = rnd (11 / 10),
      s3_direct = True, s3_iceberg_direct = False, s3_delta_direct = False, federated_capable = False,
      startup_overhead_ms = 5\<rparr>"

definition polars_baseline :: engine_baseline where
  "polars_baseline =
     \<lparr>scan_throughput_rows_per_ms = 600000, aggregation_factor = rnd (14 / 10), join_factor = rnd (18 / 10), sort_factor = rnd (12 / 10),
      s3_direct = False, s3_iceberg_direct = False, s3_delta_direct = False, federated_capable = False,
      startup_overhead_ms = 3\<rparr>"

definition new_cost_model :: cost_model where
  "new_cost_model =
     \<lparr>engine_baselines = [''DataFusion'' \<mapsto> datafusion_baseline, ''DuckDB'' \<mapsto> duckdb_baseline, ''Polars'' \<mapsto> polars_baseline],
      sync_overhead_ms = 50, s3_fetch_overhead_ms = 50, ipc_overhead_per_mb = 2, flight_overhead_per_mb = 5\<rparr>"

section \<open>One engine\<close>

definition sync_cost :: "cost_model \<Rightarrow> u64 \<Rightarrow> u64 \<Rightarrow> rat" where
  "sync_cost m rows bytes =
     (let row_overhead = f64_mult (f64_div (f64_of_u64 rows) 100000) 10;
          ipc_cost = f64_mult (f64_div (f64_of_u64 bytes) 1000000) (ipc_overhead_per_mb m)
      in f64_add (f64_add (sync_overhead_ms m) row_overhead) ipc_cost)"

definition table_note :: "table_reference \<Rightarrow> string \<Rightarrow> string" where
  "table_note t s = ''Table '' @ [CHR 39] @ ref_name t @ [CHR 39] @ '': '' @ s"

text \<open>The body of the loop over the tables: the transfer time so far, the mode and the notes.\<close>

type_synonym transfer = "rat \<times> string \<times> string list"

definition cached_note :: "table_reference \<Rightarrow> transfer \<Rightarrow> transfer" where
  "cached_note t = (\<lambda>(ms, mode, ns). (ms, ''cached'', ns @ [table_note t ''cached (no sync needed)'']))"

definition federated_transfer :: "cost_model \<Rightarrow> engine_baseline \<Rightarrow> table_reference \<Rightarrow> bool \<Rightarrow> rat \<Rightarrow> transfer \<Rightarrow> transfer" where
  "federated_transfer m b t table_cached sync_ms acc =
     (let (ms, mode, ns) = acc
      in if federated_capable b then (ms, mode, ns @ [table_note t ''federated pushdown''])
         else if table_cached then cached_note t acc
         else let both = f64_add (s3_fetch_overhead_ms m) sync_ms
              in (f64_add ms both, ''synced'',
                  ns @ [table_note t (''federated fetch + sync ('' @ show_fixed 1 both @ ''ms)'')]))"

definition local_transfer :: "string \<Rightarrow> table_reference \<Rightarrow> bool \<Rightarrow> rat \<Rightarrow> transfer \<Rightarrow> transfer" where
  "local_transfer engine t table_cached sync_ms acc =
     (let (ms, mode, ns) = acc
      in if engine \<noteq> ''DataFusion'' \<and> \<not> table_cached then
           (f64_add ms sync_ms, ''synced'',
            ns @ [table_note t (''local sync to '' @ engine @ '' ('' @ show_fixed 1 sync_ms @ ''ms)'')])
         else (ms, if table_cached then ''cached'' else mode, ns))"

definition transfer_table :: "cost_model \<Rightarrow> string \<Rightarrow> engine_baseline \<Rightarrow> string set \<Rightarrow> table_reference \<Rightarrow> transfer \<Rightarrow> transfer" where
  "transfer_table m engine b cached t acc =
     (let (ms, mode, ns) = acc;
          table_cached = ref_name t \<in> cached;
          sync_ms = sync_cost m (ref_rows t) (ref_bytes t)
      in case ref_source t of
           S3Parquet \<Rightarrow>
             if s3_direct b then (ms, mode, ns @ [table_note t ''S3/Parquet direct read''])
             else if table_cached then cached_note t acc
             else (f64_add ms sync_ms, ''synced'',
                   ns @ [table_note t (''sync required ('' @ show_fixed 1 sync_ms @ ''ms)'')])
         | S3Iceberg \<Rightarrow>
             if s3_iceberg_direct b then (ms, mode, ns @ [table_note t ''Iceberg direct read''])
             else if table_cached then cached_note t acc
             else if engine \<noteq> ''DataFusion'' then
               (f64_add ms sync_ms, ''synced'',
                ns @ [table_note t (''Iceberg sync via DataFusion ('' @ show_fixed 1 sync_ms @ ''ms)'')])
             else acc
         | S3Delta \<Rightarrow>
             if s3_delta_direct b then (ms, mode, ns @ [table_note t ''Delta direct read''])
             else if table_cached then cached_note t acc
             else if engine \<noteq> ''DataFusion'' then
               (f64_add ms sync_ms, ''synced'',
                ns @ [table_note t (''Delta sync via DataFusion ('' @ show_fixed 1 sync_ms @ ''ms)'')])
             else acc
         | Local \<Rightarrow> local_transfer engine t table_cached sync_ms acc
         | Lance \<Rightarrow> local_transfer engine t table_cached sync_ms acc
         | InMemory \<Rightarrow> local_transfer engine t table_cached sync_ms acc
         | Federated \<Rightarrow> federated_transfer m b t table_cached sync_ms acc
         | Trino \<Rightarrow> federated_transfer m b t table_cached sync_ms acc)"

definition compute_transfer_cost :: "cost_model \<Rightarrow> string \<Rightarrow> engine_baseline \<Rightarrow> query_profile \<Rightarrow> string set \<Rightarrow> string list \<Rightarrow> transfer" where
  "compute_transfer_cost m engine b p cached ns =
     fold (transfer_table m engine b cached) (prof_tables p) (0, ''direct'', ns)"

definition compute_multiplier :: "engine_baseline \<Rightarrow> query_profile \<Rightarrow> rat" where
  "compute_multiplier b p =
     (let x = (if prof_aggregation p then f64_mult 1 (aggregation_factor b) else 1);
          y = (if prof_join p then f64_mult x (join_factor b) else x)
      in if prof_sort p then f64_mult y (sort_factor b) else y)"

definition estimate :: "cost_model \<Rightarrow> string \<Rightarrow> query_profile \<Rightarrow> string set \<Rightarrow> cost_estimate" where
  "estimate m engine p cached =
     (case engine_baselines m engine of
        None \<Rightarrow> \<lparr>est_engine = engine, total_ms = f64_max_value, scan_ms = 0, compute_ms = 0, transfer_ms = 0,
                 overhead_ms = 0, execution_mode = ''unknown'', est_notes = [''Unknown engine: '' @ engine]\<rparr>
      | Some b \<Rightarrow>
          let scan = f64_div (f64_of_u64 (prof_rows p)) (scan_throughput_rows_per_ms b);
              ns0 = [''Scan: '' @ show_nat (unat (prof_rows p)) @ '' rows at '' @
                     show_fixed 0 (scan_throughput_rows_per_ms b) @ '' rows/ms = '' @ show_fixed 2 scan @ ''ms''] @
                    (if prof_aggregation p then [''Aggregation factor: '' @ show_fixed 1 (aggregation_factor b) @ ''x''] else []) @
                    (if prof_join p then [''Join factor: '' @ show_fixed 1 (join_factor b) @ ''x''] else []) @
                    (if prof_sort p then [''Sort factor: '' @ show_fixed 1 (sort_factor b) @ ''x''] else []);
              compute = f64_mult scan (f64_sub (compute_multiplier b p) 1);
              (transfer, mode, ns1) = compute_transfer_cost m engine b p cached ns0;
              overhead = startup_overhead_ms b;
              total = f64_add (f64_add (f64_add scan compute) transfer) overhead
          in \<lparr>est_engine = engine, total_ms = total, scan_ms = scan, compute_ms = compute, transfer_ms = transfer,
              overhead_ms = overhead, execution_mode = mode,
              est_notes = ns1 @ [''Startup overhead: '' @ show_fixed 1 overhead @ ''ms'', ''Total: '' @ show_fixed 2 total @ ''ms'']\<rparr>)"

section \<open>The engines compared\<close>

definition estimate_all :: "cost_model \<Rightarrow> string list \<Rightarrow> query_profile \<Rightarrow> string set \<Rightarrow> cost_estimate list" where
  "estimate_all m engines p cached = map (\<lambda>e. estimate m e p cached) engines"

text \<open>\<open>Iterator::min_by\<close> keeps the earlier of two equal elements, as \<open>arg_min_list\<close> does.\<close>

definition recommend :: "cost_model \<Rightarrow> string list \<Rightarrow> query_profile \<Rightarrow> string set \<Rightarrow> string \<times> cost_estimate" where
  "recommend m engines p cached =
     (let estimates = estimate_all m engines p cached
      in if estimates = [] then
           (''DataFusion'',
            \<lparr>est_engine = ''DataFusion'', total_ms = 0, scan_ms = 0, compute_ms = 0, transfer_ms = 0, overhead_ms = 0,
             execution_mode = ''fallback'', est_notes = [''No engines provided, defaulting to DataFusion'']\<rparr>)
         else let e = arg_min_list total_ms estimates in (est_engine e, e))"

definition is_federated :: "source_type \<Rightarrow> bool" where
  "is_federated s \<longleftrightarrow> s = Federated \<or> s = Trino"

definition single_table_profile :: "query_profile \<Rightarrow> table_reference \<Rightarrow> query_profile" where
  "single_table_profile p t =
     \<lparr>prof_tables = [t], prof_rows = ref_rows t, prof_bytes = ref_bytes t, prof_aggregation = False, prof_join = False,
      prof_sort = False, prof_vector_search = False, prof_federated = is_federated (ref_source t),
      projected_columns = projected_columns p\<rparr>"

text \<open>\<open>engines\<close> are the keys of the baselines in the order of the map's iterator.\<close>

definition estimate_split_plan :: "string list \<Rightarrow> cost_model \<Rightarrow> query_profile \<Rightarrow> string set \<Rightarrow> split_plan_estimate option" where
  "estimate_split_plan engines m p cached =
     (if length (prof_tables p) < 2 then None
      else let table_engines = map (\<lambda>t. (ref_name t, recommend m engines (single_table_profile p t) cached)) (prof_tables p);
               first_engine = fst (snd (hd table_engines))
           in if list_all (\<lambda>(_, e, _). e = first_engine) table_engines then None
              else let frags = map (\<lambda>(n, e, est). \<lparr>frag_table = n, frag_engine = e, estimated_ms = total_ms est,
                                                  frag_mode = execution_mode est\<rparr>) table_engines;
                       max_fragment_ms = fold (\<lambda>f x. max x (estimated_ms f)) frags 0;
                       total_result_bytes = sum_list (map ref_bytes (prof_tables p));
                       merge = f64_add (f64_mult (f64_div (f64_of_u64 total_result_bytes) 1000000) (ipc_overhead_per_mb m)) 5;
                       total = f64_add max_fragment_ms merge;
                       best_single = total_ms (snd (recommend m engines p cached))
                   in if f64_mult best_single (rnd (8 / 10)) \<le> total then None
                      else Some \<lparr>fragments = frags, merge_cost_ms = merge, split_total_ms = total,
                                 vs_single_best_ms = f64_sub total best_single\<rparr>)"

section \<open>Caching\<close>

definition nonneg_costs :: "cost_model \<Rightarrow> bool" where
  "nonneg_costs m \<longleftrightarrow> 0 \<le> sync_overhead_ms m \<and> 0 \<le> s3_fetch_overhead_ms m \<and> 0 \<le> ipc_overhead_per_mb m"

lemma f64_of_u64_nonneg [simp]: "0 \<le> f64_of_u64 w"
  unfolding f64_of_u64_def f64_of_nat_def by (rule rnd_nonneg) (rule of_nat_0_le_iff)

lemma sync_cost_nonneg: "nonneg_costs m \<Longrightarrow> 0 \<le> sync_cost m rows bytes"
  by (simp add: sync_cost_def nonneg_costs_def Let_def f64_nonneg)

lemma f64_add_ge: "x \<le> y \<Longrightarrow> rnd x = x \<Longrightarrow> 0 \<le> d \<Longrightarrow> x \<le> f64_add y d"
  using rnd_le_mono [of x "y + d"] by (simp add: f64_add_def)

lemma transfer_table_mono:
  assumes "nonneg_costs m" "cached \<subseteq> cached'" "fst acc' \<le> fst acc" "rnd (fst acc') = fst acc'"
  shows "fst (transfer_table m e b cached' t acc') \<le> fst (transfer_table m e b cached t acc)
    \<and> rnd (fst (transfer_table m e b cached' t acc')) = fst (transfer_table m e b cached' t acc')"
proof -
  obtain ms mode ns ms' mode' ns' where acc: "acc = (ms, mode, ns)" "acc' = (ms', mode', ns')"
    by (metis prod_cases3)
  have c: "0 \<le> sync_cost m (ref_rows t) (ref_bytes t)" by (rule sync_cost_nonneg [OF assms(1)])
  then have f: "0 \<le> f64_add (s3_fetch_overhead_ms m) (sync_cost m (ref_rows t) (ref_bytes t))"
    using assms(1) by (simp add: nonneg_costs_def f64_nonneg)
  have a: "ms' \<le> ms" "rnd ms' = ms'" using assms(3,4) acc by simp_all
  show ?thesis
    using assms(2) a f64_add_ge [OF a c] f64_add_ge [OF a f] acc
    by (cases "ref_source t")
      (auto simp: transfer_table_def local_transfer_def federated_transfer_def cached_note_def Let_def intro: f64_add_mono)
qed

lemma transfer_cost_mono:
  assumes "nonneg_costs m" "cached \<subseteq> cached'"
  shows "fst acc' \<le> fst acc \<Longrightarrow> rnd (fst acc') = fst acc' \<Longrightarrow>
    fst (fold (transfer_table m e b cached') ts acc') \<le> fst (fold (transfer_table m e b cached) ts acc)"
proof (induction ts arbitrary: acc acc')
  case (Cons t ts)
  from transfer_table_mono [OF assms Cons.prems] show ?case by (simp add: Cons.IH)
qed simp

lemma transfer_cost_notes:
  "fst acc = fst acc' \<Longrightarrow>
   fst (fold (transfer_table m e b cached) ts acc) = fst (fold (transfer_table m e b cached) ts acc')"
proof (induction ts arbitrary: acc acc')
  case (Cons t ts)
  from Cons.prems have "fst (transfer_table m e b cached t acc) = fst (transfer_table m e b cached t acc')"
    by (cases acc; cases acc'; cases "ref_source t")
      (simp_all add: transfer_table_def local_transfer_def federated_transfer_def cached_note_def Let_def)
  then have "fst (fold (transfer_table m e b cached) ts (transfer_table m e b cached t acc)) =
    fst (fold (transfer_table m e b cached) ts (transfer_table m e b cached t acc'))" by (rule Cons.IH)
  then show ?case by simp
qed simp

definition transfer_time :: "cost_model \<Rightarrow> string \<Rightarrow> engine_baseline \<Rightarrow> query_profile \<Rightarrow> string set \<Rightarrow> rat" where
  "transfer_time m e b p cached = fst (compute_transfer_cost m e b p cached [])"

lemma fst_transfer_cost: "fst (compute_transfer_cost m e b p cached ns) = transfer_time m e b p cached"
  unfolding transfer_time_def compute_transfer_cost_def by (rule transfer_cost_notes) simp

definition scan_time :: "engine_baseline \<Rightarrow> query_profile \<Rightarrow> rat" where
  "scan_time b p = f64_div (f64_of_u64 (prof_rows p)) (scan_throughput_rows_per_ms b)"

lemma estimate_total:
  "engine_baselines m e = Some b \<Longrightarrow>
   total_ms (estimate m e p cached) =
     f64_add (f64_add (f64_add (scan_time b p) (f64_mult (scan_time b p) (f64_sub (compute_multiplier b p) 1)))
       (transfer_time m e b p cached)) (startup_overhead_ms b)"
  by (simp only: estimate_def option.case Let_def case_prod_beta cost_estimate.select_convs fst_transfer_cost scan_time_def)

lemma transfer_time_mono: "nonneg_costs m \<Longrightarrow> cached \<subseteq> cached' \<Longrightarrow> transfer_time m e b p cached' \<le> transfer_time m e b p cached"
  by (simp add: transfer_time_def compute_transfer_cost_def transfer_cost_mono)

lemma estimate_mono: "nonneg_costs m \<Longrightarrow> cached \<subseteq> cached' \<Longrightarrow>
    total_ms (estimate m e p cached') \<le> total_ms (estimate m e p cached)"
proof (cases "engine_baselines m e")
  case (Some b)
  assume "nonneg_costs m" "cached \<subseteq> cached'"
  then show ?thesis unfolding estimate_total [OF Some] by (intro f64_add_mono transfer_time_mono order_refl)
qed (simp add: estimate_def)

section \<open>The recommended engine\<close>

lemma recommend_Nil [simp]: "fst (recommend m [] p cached) = ''DataFusion''" "total_ms (snd (recommend m [] p cached)) = 0"
  by (simp_all add: recommend_def estimate_all_def)

lemma recommend_least:
  "es \<noteq> [] \<Longrightarrow> total_ms (snd (recommend m es p cached)) = Min ((\<lambda>e. total_ms (estimate m e p cached)) ` set es)"
  by (simp add: recommend_def estimate_all_def Let_def f_arg_min_list_f image_image)

lemma est_engine_estimate [simp]: "est_engine (estimate m e p cached) = e"
  by (simp add: estimate_def Let_def split: option.split prod.split)

lemma recommend_mem:
  assumes "es \<noteq> []"
  obtains e where "e \<in> set es" "recommend m es p cached = (e, estimate m e p cached)"
    "\<And>e'. e' \<in> set es \<Longrightarrow> total_ms (estimate m e p cached) \<le> total_ms (estimate m e' p cached)"
proof -
  let ?r = "arg_min_list total_ms (estimate_all m es p cached)"
  have "?r \<in> set (estimate_all m es p cached)" using assms by (intro arg_min_list_in) (simp add: estimate_all_def)
  then obtain e where e: "e \<in> set es" "?r = estimate m e p cached" by (auto simp: estimate_all_def)
  then have r: "recommend m es p cached = (e, estimate m e p cached)"
    using assms by (simp add: recommend_def estimate_all_def Let_def)
  then have "total_ms (estimate m e p cached) \<le> total_ms (estimate m e' p cached)" if "e' \<in> set es" for e'
    using recommend_least [OF assms, of m p cached] that by simp
  with e r show ?thesis by (intro that)
qed

text \<open>Tables that an engine already holds never make a query look more expensive: with more tables in
  the cache, the estimate of every engine and the cost of the recommended one are at most as high, for
  every cost model whose overheads are not negative.\<close>

theorem caching_never_costs_more:
  assumes "nonneg_costs m" and "cached \<subseteq> cached'"
  shows "total_ms (estimate m e p cached') \<le> total_ms (estimate m e p cached) \<and>
    total_ms (snd (recommend m es p cached')) \<le> total_ms (snd (recommend m es p cached))"
proof (cases "es = []")
  case False
  obtain e' where e': "e' \<in> set es" "recommend m es p cached = (e', estimate m e' p cached)"
    by (rule recommend_mem [OF False])
  have "total_ms (snd (recommend m es p cached')) \<le> total_ms (estimate m e' p cached')"
    unfolding recommend_least [OF False] using e'(1) by simp
  also have "\<dots> \<le> total_ms (estimate m e' p cached)" by (rule estimate_mono [OF assms])
  finally show ?thesis using e'(2) estimate_mono [OF assms] by simp
qed (simp add: estimate_mono [OF assms])

definition demo_reference :: table_reference where
  "demo_reference = \<lparr>ref_name = ''orders'', ref_source = S3Iceberg, ref_rows = 1000000000, ref_bytes = 100000000000\<rparr>"

definition demo_profile :: query_profile where
  "demo_profile =
     \<lparr>prof_tables = [demo_reference], prof_rows = 1000000000, prof_bytes = 100000000000, prof_aggregation = True,
      prof_join = False, prof_sort = True, prof_vector_search = False, prof_federated = False, projected_columns = 5\<rparr>"

lemma caching_never_costs_more_witness:
  "total_ms (estimate new_cost_model ''Polars'' demo_profile {''t''}) \<le> total_ms (estimate new_cost_model ''Polars'' demo_profile {}) \<and>
   total_ms (snd (recommend new_cost_model [''Polars''] demo_profile {''t''})) \<le> total_ms (snd (recommend new_cost_model [''Polars''] demo_profile {}))"
  by (rule caching_never_costs_more) (simp_all add: nonneg_costs_def new_cost_model_def)

section \<open>One table that no engine holds\<close>

lemma rnd_bounds:
  assumes "0 \<le> l" "l \<le> x" "x \<le> h"
  shows "99 / 100 * l \<le> rnd x" and "rnd x \<le> 101 / 100 * h"
  using assms rnd_rough [of x] by linarith+

lemma f64_add_bounds:
  assumes "0 \<le> l" "0 \<le> l'" "l \<le> x" "l' \<le> y" "x \<le> h" "y \<le> h'"
  shows "99 / 100 * (l + l') \<le> f64_add x y" and "f64_add x y \<le> 101 / 100 * (h + h')"
  unfolding f64_add_def using assms rnd_bounds [of "l + l'" "x + y" "h + h'"] by linarith+

lemma f64_mult_bounds:
  assumes "0 \<le> x" "x \<le> h" "0 \<le> y" "y \<le> k"
  shows "0 \<le> f64_mult x y" and "f64_mult x y \<le> 101 / 100 * (h * k)"
proof -
  have "0 \<le> x * y" "x * y \<le> h * k" using assms by simp_all (intro mult_mono; simp)
  then show "0 \<le> f64_mult x y" "f64_mult x y \<le> 101 / 100 * (h * k)"
    using rnd_bounds [of 0 "x * y" "h * k"] by (simp_all add: f64_mult_def)
qed

lemma compute_multiplier_bounds:
  assumes "b \<in> {datafusion_baseline, duckdb_baseline, polars_baseline}"
  shows "1 \<le> compute_multiplier b p" and "compute_multiplier b p \<le> 42 / 10"
proof -
  have one: "rnd 1 = 1" using rnd_of_int [of 1] by simp
  have f: "1 \<le> aggregation_factor b \<and> aggregation_factor b \<le> 152 / 100" "1 \<le> join_factor b \<and> join_factor b \<le> 2"
    "1 \<le> sort_factor b \<and> sort_factor b \<le> 132 / 100"
    using assms rnd_rough [of "15 / 10"] rnd_rough [of "13 / 10"] rnd_rough [of "12 / 10"] rnd_rough [of "11 / 10"]
      rnd_rough [of "14 / 10"] rnd_rough [of "18 / 10"] rnd_le_mono [of 1 "15 / 10"] rnd_le_mono [of 1 "13 / 10"]
      rnd_le_mono [of 1 "12 / 10"] rnd_le_mono [of 1 "11 / 10"] rnd_le_mono [of 1 "14 / 10"] rnd_le_mono [of 1 "18 / 10"]
    by (auto simp: datafusion_baseline_def duckdb_baseline_def polars_baseline_def one)
  have mul: "1 \<le> f64_mult x y \<and> f64_mult x y \<le> 101 / 100 * (h * k)"
    if "1 \<le> x" "x \<le> h" "1 \<le> y" "y \<le> k" for x y h k
  proof -
    have "1 * 1 \<le> x * y" and "x * y \<le> h * k" using that by (intro mult_mono; simp)+
    then show ?thesis using rnd_le_mono [of 1 "x * y"] rnd_bounds(2) [of 0 "x * y" "h * k"] one by (simp add: f64_mult_def)
  qed
  define x where "x = (if prof_aggregation p then f64_mult 1 (aggregation_factor b) else 1)"
  define y where "y = (if prof_join p then f64_mult x (join_factor b) else x)"
  have x: "1 \<le> x \<and> x \<le> 101 / 100 * (1 * (152 / 100))"
    unfolding x_def using mul [of 1 1 "aggregation_factor b" "152 / 100"] f by simp
  have y: "1 \<le> y \<and> y \<le> 101 / 100 * (101 / 100 * (1 * (152 / 100)) * 2)"
    unfolding y_def using mul [of x "101 / 100 * (1 * (152 / 100))" "join_factor b" 2] f x by simp
  have z: "compute_multiplier b p = (if prof_sort p then f64_mult y (sort_factor b) else y)"
    unfolding compute_multiplier_def y_def x_def by (simp only: Let_def)
  have s: "1 \<le> f64_mult y (sort_factor b) \<and> f64_mult y (sort_factor b) \<le> 101 / 100 * (101 / 100 * (101 / 100 * (1 * (152 / 100)) * 2) * (132 / 100))"
    using f y by (intro mul) simp_all
  show "1 \<le> compute_multiplier b p" "compute_multiplier b p \<le> 42 / 10" unfolding z using s y by simp_all
qed

lemma sub_one_bounds: "1 \<le> x \<Longrightarrow> x \<le> 42 / 10 \<Longrightarrow> 0 \<le> f64_sub x 1 \<and> f64_sub x 1 \<le> 33 / 10"
  using rnd_bounds [of 0 "x - 1" "32 / 10"] by (simp add: f64_sub_def)

lemma datafusion_upper:
  "f64_add (f64_add (f64_add (scan_time datafusion_baseline p)
      (f64_mult (scan_time datafusion_baseline p) (f64_sub (compute_multiplier datafusion_baseline p) 1))) 0)
      (startup_overhead_ms datafusion_baseline) \<le> f64_of_u64 (prof_rows p) / 100000 + 2"
proof -
  let ?b = datafusion_baseline
  define R where "R = f64_of_u64 (prof_rows p) / 100000"
  have R: "0 \<le> R" by (simp add: R_def)
  have s: "0 \<le> scan_time ?b p" "scan_time ?b p \<le> 21 / 100 * R"
    using rnd_bounds [of 0 "R / 5" "R / 5"] R by (simp_all add: scan_time_def f64_div_def R_def datafusion_baseline_def)
  have k: "0 \<le> f64_sub (compute_multiplier ?b p) 1" "f64_sub (compute_multiplier ?b p) 1 \<le> 33 / 10"
    using sub_one_bounds [OF compute_multiplier_bounds] by simp_all
  define c where "c = f64_mult (scan_time ?b p) (f64_sub (compute_multiplier ?b p) 1)"
  have c: "0 \<le> c" "c \<le> 71 / 100 * R" using f64_mult_bounds [OF s k] R by (simp_all add: c_def)
  define x where "x = f64_add (scan_time ?b p) c"
  have x: "0 \<le> x" "x \<le> 93 / 100 * R"
    using f64_add_bounds [of 0 0 "scan_time ?b p" c, OF _ _ s(1) c(1) s(2) c(2)] R by (simp_all add: x_def)
  define y where "y = f64_add x 0"
  have y: "0 \<le> y" "y \<le> 95 / 100 * R"
    using f64_add_bounds [of 0 0 x 0, OF _ _ x(1) _ x(2), of 0] R by (simp_all add: y_def)
  have "f64_add y 1 \<le> R + 2"
    using f64_add_bounds(2) [of 0 0 y 1, OF _ _ y(1) _ y(2), of 1] R by simp
  then show ?thesis by (simp add: y_def x_def c_def R_def) (simp add: datafusion_baseline_def)
qed

text \<open>Moving a table costs 50 ms and 10 ms for every 100000 rows.\<close>

lemma sync_cost_lower: "96 / 100 * (50 + f64_of_u64 rows / 10000) \<le> sync_cost new_cost_model rows bytes"
proof -
  define R where "R = f64_of_u64 rows / 100000"
  have R: "0 \<le> R" by (simp add: R_def)
  define d where "d = f64_div (f64_of_u64 rows) 100000"
  have d: "99 / 100 * R \<le> d" using rnd_bounds(1) [of R R R] R by (simp add: d_def f64_div_def R_def)
  define r where "r = f64_mult d 10"
  have o: "98 / 100 * (10 * R) \<le> r"
    using rnd_bounds(1) [of "99 / 100 * R * 10" "d * 10" "d * 10"] d R by (simp add: r_def f64_mult_def)
  define x where "x = f64_add 50 r"
  have x: "97 / 100 * (50 + 10 * R) \<le> x"
    using f64_add_bounds(1) [of 50 "98 / 100 * (10 * R)" 50 r 50 r] o R by (simp add: x_def)
  define i where "i = f64_mult (f64_div (f64_of_u64 bytes) 1000000) 2"
  have "0 \<le> i" by (simp add: i_def f64_nonneg)
  then have "96 / 100 * (50 + 10 * R) \<le> f64_add x i"
    using f64_add_bounds(1) [of "97 / 100 * (50 + 10 * R)" 0 x i x i] x R by simp
  then show ?thesis by (simp add: sync_cost_def x_def r_def d_def i_def R_def Let_def new_cost_model_def)
qed

text \<open>A single table outside every cache costs an engine its transfer, unless the engine reads it in place.\<close>

lemma datafusion_transfer [simp]: "transfer_time m ''DataFusion'' datafusion_baseline p cached = 0"
proof -
  have "fst (transfer_table m ''DataFusion'' datafusion_baseline cached t acc) = fst acc" for t acc
    by (cases acc; cases "ref_source t")
      (simp_all add: transfer_table_def local_transfer_def federated_transfer_def datafusion_baseline_def Let_def)
  then have "fst (fold (transfer_table m ''DataFusion'' datafusion_baseline cached) ts acc) = fst acc" for ts acc
    by (induction ts arbitrary: acc) simp_all
  then show ?thesis by (simp add: transfer_time_def compute_transfer_cost_def)
qed

lemma single_transfer:
  assumes "prof_tables p = [t]" "ref_name t \<notin> cached" "e \<noteq> ''DataFusion''" "b \<in> {duckdb_baseline, polars_baseline}"
    and "ref_source t = S3Parquet \<Longrightarrow> b \<noteq> duckdb_baseline"
  shows "94 / 100 * (50 + f64_of_u64 (ref_rows t) / 10000) \<le> transfer_time new_cost_model e b p cached"
proof -
  define S where "S = sync_cost new_cost_model (ref_rows t) (ref_bytes t)"
  define Q where "Q = 50 + f64_of_u64 (ref_rows t) / 10000"
  have Q: "0 \<le> Q" by (simp add: Q_def)
  have S: "96 / 100 * Q \<le> S" unfolding S_def Q_def by (rule sync_cost_lower)
  have 1: "94 / 100 * Q \<le> f64_add 0 S" using f64_add_bounds(1) [of 0 "96 / 100 * Q" 0 S 0 S] S Q by simp
  have "95 / 100 * Q \<le> f64_add 50 S" using f64_add_bounds(1) [of 0 "96 / 100 * Q" 50 S 50 S] S Q by simp
  then have 2: "94 / 100 * Q \<le> f64_add 0 (f64_add 50 S)"
    using f64_add_bounds(1) [of 0 "95 / 100 * Q" 0 "f64_add 50 S" 0 "f64_add 50 S"] Q by simp
  have d: "s3_direct b \<longleftrightarrow> b = duckdb_baseline" "\<not> s3_iceberg_direct b" "\<not> s3_delta_direct b" "\<not> federated_capable b"
    using assms(4) by (auto simp: duckdb_baseline_def polars_baseline_def)
  have f: "s3_fetch_overhead_ms new_cost_model = 50" by (simp add: new_cost_model_def)
  show ?thesis
    using 1 2 assms(1,2,3,5) d f unfolding Q_def
    by (cases "ref_source t")
      (simp_all add: transfer_time_def compute_transfer_cost_def transfer_table_def local_transfer_def federated_transfer_def
        Let_def flip: S_def)
qed

lemma other_lower:
  assumes "b \<in> {duckdb_baseline, polars_baseline}" "0 \<le> d" "d \<le> tr"
  shows "98 / 100 * d \<le> f64_add (f64_add (f64_add (scan_time b p) (f64_mult (scan_time b p) (f64_sub (compute_multiplier b p) 1))) tr)
      (startup_overhead_ms b)"
proof -
  have s: "0 \<le> scan_time b p" using assms(1) by (auto simp: scan_time_def duckdb_baseline_def polars_baseline_def intro!: f64_nonneg)
  have k: "0 \<le> f64_sub (compute_multiplier b p) 1"
    using sub_one_bounds [OF compute_multiplier_bounds] assms(1) by blast
  define x where "x = f64_add (scan_time b p) (f64_mult (scan_time b p) (f64_sub (compute_multiplier b p) 1))"
  have "0 \<le> x" unfolding x_def using s k by (intro f64_nonneg)
  then have y: "99 / 100 * d \<le> f64_add x tr" using f64_add_bounds(1) [of 0 d x tr x tr] assms by simp
  moreover have "0 \<le> startup_overhead_ms b" using assms(1) by (auto simp: duckdb_baseline_def polars_baseline_def)
  ultimately have "99 / 100 * (99 / 100 * d) \<le> f64_add (f64_add x tr) (startup_overhead_ms b)"
    using f64_add_bounds(1) [of "99 / 100 * d" 0 "f64_add x tr" "startup_overhead_ms b" "f64_add x tr" "startup_overhead_ms b"] assms(2) by simp
  then show ?thesis using assms(2) unfolding x_def by simp
qed

lemma f64_of_u64_le: "f64_of_u64 w \<le> 2 ^ 65"
proof -
  have "f64_of_u64 w \<le> 101 / 100 * of_nat (unat w)"
    unfolding f64_of_u64_def f64_of_nat_def using rnd_rough [of "of_nat (unat w)"] by (simp del: of_nat_unat)
  moreover have "of_nat (unat w) \<le> (of_nat (2 ^ 64) :: rat)" using unsigned_less [where 'a = nat and w = w] by (simp only: of_nat_le_iff) simp
  ultimately show ?thesis by simp
qed

text \<open>A query over a single table that no engine has cached: whatever its size and whatever it computes,
  the default model recommends DataFusion, among any engines. Copying the rows into another engine is
  charged with more than ten times what scanning and aggregating them may save; the only exception are
  raw Parquet files on S3, which DuckDB reads in place.\<close>

theorem uncached_table_stays_on_datafusion:
  assumes "prof_tables p = [t]" and "prof_rows p = ref_rows t" and "ref_name t \<notin> cached"
    and "''DataFusion'' \<in> set engines" and "ref_source t = S3Parquet \<Longrightarrow> ''DuckDB'' \<notin> set engines"
  shows "fst (recommend new_cost_model engines p cached) = ''DataFusion''"
proof -
  let ?R = "f64_of_u64 (ref_rows t)" and ?t = "\<lambda>e. total_ms (estimate new_cost_model e p cached)"
  have bl: "engine_baselines new_cost_model = [''DataFusion'' \<mapsto> datafusion_baseline, ''DuckDB'' \<mapsto> duckdb_baseline, ''Polars'' \<mapsto> polars_baseline]"
    by (simp add: new_cost_model_def)
  have df: "?t ''DataFusion'' \<le> ?R / 100000 + 2"
    using datafusion_upper [of p] assms(2) estimate_total [of new_cost_model "''DataFusion''" datafusion_baseline p cached]
    by (simp add: bl)
  have less: "?t ''DataFusion'' < ?t e" if e: "e \<in> set engines" "e \<noteq> ''DataFusion''" for e
  proof (cases "engine_baselines new_cost_model e")
    case None
    then have "?t e = f64_max_value" by (simp add: estimate_def)
    with df f64_of_u64_le [of "ref_rows t"] show ?thesis by (simp add: f64_max_value_def)
  next
    case (Some b)
    then have b: "b \<in> {duckdb_baseline, polars_baseline}" "b = duckdb_baseline \<Longrightarrow> e = ''DuckDB'' \<or> b = polars_baseline"
      using e(2) by (auto simp: bl split: if_splits)
    have np: "duckdb_baseline \<noteq> polars_baseline" by (simp add: duckdb_baseline_def polars_baseline_def)
    have "94 / 100 * (50 + ?R / 10000) \<le> transfer_time new_cost_model e b p cached"
      using assms b np e by (intro single_transfer) auto
    moreover have nn: "0 \<le> 94 / 100 * (50 + ?R / 10000)" by simp
    ultimately have "98 / 100 * (94 / 100 * (50 + ?R / 10000)) \<le> ?t e"
      unfolding estimate_total [OF Some] by (intro other_lower [OF b(1)])
    moreover have "92 / 100 * q \<le> 98 / 100 * (94 / 100 * q)" if "0 \<le> q" for q :: rat using that by simp
    from this [of "50 + ?R / 10000"] have "92 / 100 * (50 + ?R / 10000) \<le> 98 / 100 * (94 / 100 * (50 + ?R / 10000))" by simp
    ultimately have "92 / 100 * (50 + ?R / 10000) \<le> ?t e" by (rule order_trans [rotated])
    then have "46 + 92 / 1000000 * ?R \<le> ?t e" by simp
    then show ?thesis using df f64_of_u64_nonneg [of "ref_rows t"] by linarith
  qed
  from assms(4) have ne: "engines \<noteq> []" by auto
  obtain e where e: "e \<in> set engines" "recommend new_cost_model engines p cached = (e, estimate new_cost_model e p cached)"
    "\<And>e'. e' \<in> set engines \<Longrightarrow> ?t e \<le> ?t e'"
    by (rule recommend_mem [OF ne, of new_cost_model p cached]) blast
  from e(3) [OF assms(4)] less [OF e(1)] e(2) show ?thesis by fastforce
qed

lemma uncached_table_stays_on_datafusion_witness:
  "fst (recommend new_cost_model [''DuckDB'', ''Polars'', ''DataFusion''] demo_profile {}) = ''DataFusion''"
  by (rule uncached_table_stays_on_datafusion [of _ demo_reference]) (simp_all add: demo_profile_def demo_reference_def)

section \<open>Split plans\<close>

lemma fold_max_ge: "(a::rat) \<le> fold (\<lambda>f x. max x (g f)) xs a \<and> (\<forall>f \<in> set xs. g f \<le> fold (\<lambda>f x. max x (g f)) xs a)"
proof (induction xs arbitrary: a)
  case (Cons x xs)
  from Cons.IH [of "max a (g x)"] show ?case by auto
qed simp

text \<open>A split plan is offered only when it pays off: it has one fragment for every table in the order of
  the query, on the engine recommended for that table alone; two fragments differ in their engines; its
  time is at least that of every fragment and of the merge, and below 80 percent of the best
  single-engine estimate.\<close>

theorem split_plan_pays_off:
  assumes "estimate_split_plan engines m p cached = Some plan" and "nonneg_costs m"
  shows "list_all2 (\<lambda>t f. frag_table f = ref_name t \<and>
        frag_engine f = fst (recommend m engines (single_table_profile p t) cached)) (prof_tables p) (fragments plan) \<and>
    (\<exists>f \<in> set (fragments plan). \<exists>g \<in> set (fragments plan). frag_engine f \<noteq> frag_engine g) \<and>
    (\<forall>f \<in> set (fragments plan). rnd (estimated_ms f) \<le> split_total_ms plan) \<and>
    merge_cost_ms plan \<le> split_total_ms plan \<and>
    split_total_ms plan < f64_mult (total_ms (snd (recommend m engines p cached))) (rnd (8 / 10))"
proof -
  let ?rec = "\<lambda>t. recommend m engines (single_table_profile p t) cached"
  let ?frag = "\<lambda>t. \<lparr>frag_table = ref_name t, frag_engine = fst (?rec t), estimated_ms = total_ms (snd (?rec t)),
                   frag_mode = execution_mode (snd (?rec t))\<rparr>"
  let ?fs = "map ?frag (prof_tables p)"
  let ?max = "fold (\<lambda>f x. max x (estimated_ms f)) ?fs 0"
  let ?bytes = "f64_of_u64 (sum_list (map ref_bytes (prof_tables p)))"
  let ?merge = "f64_add (f64_mult (f64_div ?bytes 1000000) (ipc_overhead_per_mb m)) 5"
  let ?first = "fst (?rec (hd (prof_tables p)))"
  have split: "estimate_split_plan engines m p cached =
      (if length (prof_tables p) < 2 then None
       else if list_all (\<lambda>t. fst (?rec t) = ?first) (prof_tables p) then None
       else if f64_mult (total_ms (snd (recommend m engines p cached))) (rnd (8 / 10)) \<le> f64_add ?max ?merge then None
       else Some \<lparr>fragments = ?fs, merge_cost_ms = ?merge, split_total_ms = f64_add ?max ?merge,
         vs_single_best_ms = f64_sub (f64_add ?max ?merge) (total_ms (snd (recommend m engines p cached)))\<rparr>)"
    by (cases "prof_tables p") (simp_all add: estimate_split_plan_def Let_def list.pred_map case_prod_beta comp_def)
  have plan: "fragments plan = ?fs" "merge_cost_ms plan = ?merge" "split_total_ms plan = f64_add ?max ?merge"
    and le: "split_total_ms plan < f64_mult (total_ms (snd (recommend m engines p cached))) (rnd (8 / 10))"
    using assms(1) unfolding split by (auto simp only: option.inject split: if_splits) simp_all
  have "\<exists>t \<in> set (prof_tables p). fst (?rec t) \<noteq> ?first" and "prof_tables p \<noteq> []"
    using assms(1) unfolding split by (auto simp: list_all_iff split: if_splits)
  then have two: "\<exists>t \<in> set (prof_tables p). \<exists>u \<in> set (prof_tables p). fst (?rec t) \<noteq> fst (?rec u)"
    by (meson list.set_sel(1))
  have merge: "0 \<le> ?merge" using assms(2) by (simp add: f64_nonneg nonneg_costs_def)
  note max = fold_max_ge [of 0 estimated_ms ?fs]
  have add: "rnd x \<le> f64_add y z" if "x \<le> y + z" for x y z using that by (simp add: f64_add_def rnd_le_mono)
  have "rnd (estimated_ms f) \<le> split_total_ms plan" if "f \<in> set ?fs" for f
  proof -
    have "estimated_ms f \<le> ?max" using max that by blast
    with merge show ?thesis unfolding plan by (intro add) linarith
  qed
  moreover have "merge_cost_ms plan \<le> split_total_ms plan"
    using add [of ?merge ?max ?merge] max unfolding plan by simp
  moreover have "list_all2 (\<lambda>t f. frag_table f = ref_name t \<and> frag_engine f = fst (?rec t)) (prof_tables p) (fragments plan)"
    unfolding plan by (simp add: list_all2_conv_all_nth)
  moreover have "\<exists>f \<in> set (fragments plan). \<exists>g \<in> set (fragments plan). frag_engine f \<noteq> frag_engine g"
    unfolding plan using two by simp
  ultimately show ?thesis using le plan(1) by auto
qed

text \<open>Two engines, each of which reads only one of two table formats in place.\<close>

definition demo_baseline :: "bool \<Rightarrow> engine_baseline" where
  "demo_baseline s3 =
     \<lparr>scan_throughput_rows_per_ms = 1, aggregation_factor = 1, join_factor = 1, sort_factor = 1, s3_direct = s3,
      s3_iceberg_direct = (\<not> s3), s3_delta_direct = False, federated_capable = False, startup_overhead_ms = 0\<rparr>"

definition demo_cost_model :: cost_model where
  "demo_cost_model =
     \<lparr>engine_baselines = [''A'' \<mapsto> demo_baseline True, ''B'' \<mapsto> demo_baseline False], sync_overhead_ms = 1000,
      s3_fetch_overhead_ms = 50, ipc_overhead_per_mb = 2, flight_overhead_per_mb = 5\<rparr>"

definition demo_join :: query_profile where
  "demo_join =
     \<lparr>prof_tables = [\<lparr>ref_name = ''p'', ref_source = S3Parquet, ref_rows = 0, ref_bytes = 0\<rparr>,
                     \<lparr>ref_name = ''i'', ref_source = S3Iceberg, ref_rows = 0, ref_bytes = 0\<rparr>],
      prof_rows = 0, prof_bytes = 0, prof_aggregation = False, prof_join = False, prof_sort = False,
      prof_vector_search = False, prof_federated = False, projected_columns = 1\<rparr>"

lemma transfer_time_rnd [simp]: "rnd (transfer_time m e b p cached) = transfer_time m e b p cached"
proof -
  have step: "rnd (fst (transfer_table m e b cached t acc)) = fst (transfer_table m e b cached t acc)" if "rnd (fst acc) = fst acc" for t acc
    using that by (cases acc; cases "ref_source t")
      (simp_all add: transfer_table_def local_transfer_def federated_transfer_def cached_note_def Let_def)
  have "rnd (fst (fold (transfer_table m e b cached) ts acc)) = fst (fold (transfer_table m e b cached) ts acc)"
    if "rnd (fst acc) = fst acc" for ts acc
    using that by (induction ts arbitrary: acc) (simp_all add: step)
  then show ?thesis by (simp add: transfer_time_def compute_transfer_cost_def)
qed

lemma split_plan_pays_off_witness:
  "\<exists>plan. estimate_split_plan [''A'', ''B''] demo_cost_model demo_join {} = Some plan \<and>
     split_total_ms plan < f64_mult (total_ms (snd (recommend demo_cost_model [''A'', ''B''] demo_join {}))) (rnd (8 / 10))"
proof -
  have one: "rnd 1 = 1" using rnd_of_int [of 1] by simp
  have u: "f64_of_u64 0 = 0" by (simp add: f64_of_u64_def f64_of_nat_def)
  have sync: "sync_cost demo_cost_model 0 0 = 1000"
    by (simp add: sync_cost_def u f64_add_def f64_mult_def f64_div_def rnd_numeral demo_cost_model_def)
  have bl: "engine_baselines demo_cost_model ''A'' = Some (demo_baseline True)"
    "engine_baselines demo_cost_model ''B'' = Some (demo_baseline False)" by (simp_all add: demo_cost_model_def)
  have t: "total_ms (estimate demo_cost_model ''A'' p {}) = transfer_time demo_cost_model ''A'' (demo_baseline True) p {}"
    "total_ms (estimate demo_cost_model ''B'' p {}) = transfer_time demo_cost_model ''B'' (demo_baseline False) p {}"
    if "prof_rows p = 0" for p
    unfolding estimate_total [OF bl(1)] estimate_total [OF bl(2)] using that
    by (simp_all add: scan_time_def u f64_div_def f64_mult_def f64_add_def demo_baseline_def)
  note tr = transfer_time_def compute_transfer_cost_def transfer_table_def Let_def
  define r and i where "r = hd (prof_tables demo_join)" and "i = hd (tl (prof_tables demo_join))"
  then have ts: "prof_tables demo_join = [r, i]" by (simp add: demo_join_def)
  have est: "total_ms (estimate demo_cost_model ''A'' (single_table_profile demo_join r) {}) = 0"
    "total_ms (estimate demo_cost_model ''A'' (single_table_profile demo_join i) {}) = 1000"
    "total_ms (estimate demo_cost_model ''B'' (single_table_profile demo_join r) {}) = 1000"
    "total_ms (estimate demo_cost_model ''B'' (single_table_profile demo_join i) {}) = 0"
    "total_ms (estimate demo_cost_model ''A'' demo_join {}) = 1000"
    "total_ms (estimate demo_cost_model ''B'' demo_join {}) = 1000"
    by (simp_all add: t tr demo_join_def r_def i_def single_table_profile_def demo_baseline_def sync f64_add_def rnd_numeral)
  have bytes: "ref_bytes r = 0" "ref_bytes i = 0" by (simp_all add: r_def i_def demo_join_def)
  have rec: "recommend demo_cost_model [''A'', ''B''] q {} =
      (let e = (if total_ms (estimate demo_cost_model ''A'' q {}) \<le> total_ms (estimate demo_cost_model ''B'' q {}) then ''A'' else ''B'')
       in (e, estimate demo_cost_model e q {}))" for q
    by (simp add: recommend_def estimate_all_def Let_def)
  have "f64_mult 1000 (rnd (8 / 10)) > 5"
    using rnd_rough [of "8 / 10"] rnd_bounds(1) [of 700 "1000 * rnd (8 / 10)" "1000 * rnd (8 / 10)"] by (simp add: f64_mult_def)
  then have "estimate_split_plan [''A'', ''B''] demo_cost_model demo_join {} \<noteq> None"
    by (simp add: estimate_split_plan_def rec est ts bytes Let_def u f64_div_def f64_mult_def f64_add_def rnd_numeral)
  then obtain plan where p: "estimate_split_plan [''A'', ''B''] demo_cost_model demo_join {} = Some plan" by blast
  moreover have "nonneg_costs demo_cost_model" by (simp add: nonneg_costs_def demo_cost_model_def)
  ultimately show ?thesis using split_plan_pays_off [OF p] by blast
qed

end
