(* ===== verification/Query_Profiler.thy ===== *)
theory Query_Profiler
  imports Cost_Model
begin

text \<open>
  \<open>rustlake-router/src/classifier.rs\<close> and \<open>profiler.rs\<close>: the class of a statement and the engine it
  suggests, and the adaptive profiler with its cached table statistics, its ring buffer of executions,
  the selectivity of a WHERE clause, and the scores of the engines.

  The SQL parser is an argument; a parsed statement is the variant the classifier looks at. Selectivities
  and scores are doubles (\<open>Float64\<close>). A time stamp is a number of milliseconds.
\<close>

section \<open>The classifier\<close>

datatype query_type = Olap | Streaming | Interactive | MachineLearning | Ddl | Dml | Utility

datatype engine_target = DataFusionTarget | DuckDbTarget | EitherTarget

record classification_result =
  class_type :: query_type
  class_engine :: engine_target

text \<open>The variants of the parser's statement; a query is its printed text and whether it has a LIMIT.\<close>

datatype sql_statement =
    CreateTable | CreateView | CreateIndex | AlterTable | Drop
  | Insert | Update | Delete
  | ShowTables | ShowColumns | Explain
  | Query (query_text: string) (has_limit: bool)
  | OtherStatement

datatype df_statement = Statement sql_statement | CreateExternalTable | OtherDfStatement

type_synonym sql_parser = "string \<Rightarrow> string + df_statement list"

definition classify_query :: "string \<Rightarrow> bool \<Rightarrow> query_type" where
  "classify_query printed limit =
     (let s = to_uppercase printed
      in if contains s ''STREAM'' \<or> contains s ''EMIT'' then Streaming
         else if contains s ''PREDICT'' \<or> contains s ''EMBEDDING'' \<or> contains s ''VECTOR_SEARCH'' then MachineLearning
         else if contains s ''GROUP BY'' \<or> contains s ''JOIN'' then Olap
         else if limit then Interactive
         else Interactive)"

fun classify_statement :: "sql_statement \<Rightarrow> query_type" where
  "classify_statement (Query printed limit) = classify_query printed limit"
| "classify_statement OtherStatement = Olap"
| "classify_statement s =
     (if s \<in> {CreateTable, CreateView, CreateIndex, AlterTable, Drop} then Ddl
      else if s \<in> {Insert, Update, Delete} then Dml
      else Utility)"

definition classify :: "sql_parser \<Rightarrow> string \<Rightarrow> query_type result" where
  "classify parse sql =
     (case parse sql of
        Inl e \<Rightarrow> Err (''Query error: Failed to parse SQL: '' @ e)
      | Inr [] \<Rightarrow> Err ''Query error: Empty SQL statement''
      | Inr (Statement s # _) \<Rightarrow> Ok (classify_statement s)
      | Inr (CreateExternalTable # _) \<Rightarrow> Ok Ddl
      | Inr (OtherDfStatement # _) \<Rightarrow> Ok Utility)"

fun engine_for :: "query_type \<Rightarrow> engine_target" where
  "engine_for Olap = DuckDbTarget"
| "engine_for Ddl = DataFusionTarget"
| "engine_for Dml = DataFusionTarget"
| "engine_for Streaming = DataFusionTarget"
| "engine_for MachineLearning = DataFusionTarget"
| "engine_for Interactive = EitherTarget"
| "engine_for Utility = EitherTarget"

definition classify_with_engine :: "sql_parser \<Rightarrow> string \<Rightarrow> classification_result result" where
  "classify_with_engine parse sql =
     bind_result (classify parse sql) (\<lambda>q. Ok \<lparr>class_type = q, class_engine = engine_for q\<rparr>)"

fun show_query_type :: "query_type \<Rightarrow> string" where
  "show_query_type Olap = ''OLAP''"
| "show_query_type Streaming = ''Streaming''"
| "show_query_type Interactive = ''Interactive''"
| "show_query_type MachineLearning = ''ML''"
| "show_query_type Ddl = ''DDL''"
| "show_query_type Dml = ''DML''"
| "show_query_type Utility = ''Utility''"

section \<open>Statistics\<close>

record column_profile =
  null_fraction :: rat
  distinct_count_estimate :: "u64 option"
  min_value :: "string option"
  max_value :: "string option"

record table_profile_stats =
  total_rows :: u64
  total_bytes :: u64
  num_files :: u32
  partition_count :: u32
  avg_row_size_bytes :: u32
  stats_source :: source_type
  column_stats :: "string \<rightharpoonup> column_profile"
  last_profiled :: nat
  ttl :: nat

definition new_table_profile :: "nat \<Rightarrow> u64 \<Rightarrow> u64 \<Rightarrow> u32 \<Rightarrow> u32 \<Rightarrow> source_type \<Rightarrow> table_profile_stats" where
  "new_table_profile now rows bytes files parts source =
     \<lparr>total_rows = rows, total_bytes = bytes, num_files = files, partition_count = parts,
      avg_row_size_bytes = (if 0 < rows then ucast (bytes div rows) else 0),
      stats_source = source, column_stats = Map.empty, last_profiled = now, ttl = 300000\<rparr>"

definition is_stale :: "nat \<Rightarrow> table_profile_stats \<Rightarrow> bool" where
  "is_stale now p \<longleftrightarrow> ttl p < now - last_profiled p"

record execution_record =
  query_hash :: u64
  rec_engine :: string
  execution_ms :: u64
  rows_scanned :: u64
  rows_returned :: u64
  bytes_scanned :: u64
  rec_timestamp :: nat
  rec_sources :: "source_type list"

record query_profiler =
  table_profiles :: "string \<rightharpoonup> table_profile_stats"
  execution_history :: "execution_record list"

definition new_profiler :: query_profiler where
  "new_profiler = \<lparr>table_profiles = Map.empty, execution_history = []\<rparr>"

definition update_table_profile :: "string \<Rightarrow> table_profile_stats \<Rightarrow> query_profiler \<Rightarrow> query_profiler" where
  "update_table_profile n tp q = q\<lparr>table_profiles := (table_profiles q)(n \<mapsto> tp)\<rparr>"

definition get_table_profile :: "query_profiler \<Rightarrow> string \<Rightarrow> table_profile_stats option" where
  "get_table_profile q n = table_profiles q n"

definition max_execution_history :: nat where "max_execution_history = 1000"

definition history_lookback :: nat where "history_lookback = 100"

definition record_execution :: "execution_record \<Rightarrow> query_profiler \<Rightarrow> query_profiler" where
  "record_execution r q =
     (let h = execution_history q
      in q\<lparr>execution_history := (if max_execution_history \<le> length h then tl h else h) @ [r]\<rparr>)"

section \<open>Selectivity\<close>

definition first_found :: "string \<Rightarrow> string list \<Rightarrow> nat \<Rightarrow> nat" where
  "first_found s pats d = (case List.map_filter (find_str s) pats of [] \<Rightarrow> d | i # is \<Rightarrow> fold min is i)"

fun top_level_or :: "int \<Rightarrow> string \<Rightarrow> bool" where
  "top_level_or depth [] = False"
| "top_level_or depth (c # cs) =
     (let d = (if c = CHR ''('' then depth + 1 else if c = CHR '')'' then depth - 1 else depth)
      in if d = 0 \<and> prefix '' OR '' (c # cs) then True else top_level_or d cs)"

definition has_top_level_or :: "string \<Rightarrow> bool" where
  "has_top_level_or clause = top_level_or 0 clause"

definition is_ident_char :: "char \<Rightarrow> bool" where
  "is_ident_char c \<longleftrightarrow>
     (let n = of_char c :: nat in 48 \<le> n \<and> n \<le> 57 \<or> 65 \<le> n \<and> n \<le> 90 \<or> 97 \<le> n \<and> n \<le> 122 \<or> c = CHR ''_'')"

definition predicate_operators :: "string list" where
  "predicate_operators = [''>='', ''<='', ''!='', ''<>'', ''='', ''>'', ''<'']"

definition extract_column_from_predicate :: "string \<Rightarrow> string" where
  "extract_column_from_predicate pred =
     (case find (contains pred) predicate_operators of
        None \<Rightarrow> []
      | Some op \<Rightarrow>
          let lhs = trim (take (the (find_str pred op)) pred)
          in to_uppercase (trim_when (\<lambda>c. \<not> is_ident_char c) (trim (last (split_char (CHR ''.'') lhs)))))"

definition column_equality_selectivity :: "string \<Rightarrow> table_profile_stats \<Rightarrow> rat" where
  "column_equality_selectivity col tp =
     (if col = [] then rnd (1 / 100)
      else case Option.bind (column_stats tp col) distinct_count_estimate of
             Some dc \<Rightarrow> if 0 < dc then f64_div 1 (f64_of_u64 dc) else rnd (1 / 100)
           | None \<Rightarrow> rnd (1 / 100))"

definition estimate_predicate_selectivity :: "string \<Rightarrow> table_profile_stats \<Rightarrow> rat" where
  "estimate_predicate_selectivity predicate tp =
     (let pred = trim predicate; equal = column_equality_selectivity (extract_column_from_predicate pred) tp
      in if contains pred ''LIKE'' then rnd (10 / 100)
         else if contains pred ''BETWEEN'' then rnd (33 / 100)
         else if contains pred '' IN '' \<or> contains pred '' IN('' then
           min (f64_mult equal (f64_add (f64_of_nat (count_list pred (CHR '',''))) 1)) 1
         else if contains pred ''>='' \<or> contains pred ''<='' \<or> contains pred '' > '' \<or> contains pred '' < '' then rnd (33 / 100)
         else if contains pred ''='' \<and> \<not> contains pred ''!='' \<and> \<not> contains pred ''<>'' then equal
         else if contains pred ''!='' \<or> contains pred ''<>'' then f64_sub 1 equal
         else 1 / 2)"

definition clamp :: "rat \<Rightarrow> rat \<Rightarrow> rat \<Rightarrow> rat" where
  "clamp lo hi x = (if x < lo then lo else if hi < x then hi else x)"

definition where_clause :: "string \<Rightarrow> string option" where
  "where_clause upper =
     map_option (\<lambda>pos. let after = drop (pos + 5) upper
                       in take (first_found after [''GROUP BY'', ''ORDER BY'', ''LIMIT'', ''HAVING'', '';''] (length after)) after)
       (find_str upper ''WHERE'')"

definition estimate_selectivity :: "string \<Rightarrow> table_profile_stats \<Rightarrow> rat" where
  "estimate_selectivity sql tp =
     (case where_clause (to_uppercase sql) of
        None \<Rightarrow> 1
      | Some w \<Rightarrow>
          if has_top_level_or w then
            clamp 0 1 (f64_sub 1 (fold (\<lambda>part acc. f64_mult acc (f64_sub 1 (estimate_predicate_selectivity (trim part) tp)))
              (split_str '' OR '' w) 1))
          else
            clamp 0 1 (fold (\<lambda>part acc. f64_mult acc (estimate_predicate_selectivity (trim part) tp)) (split_str '' AND '' w) 1))"

definition extract_table_names :: "string \<Rightarrow> string list" where
  "extract_table_names sql =
     (let tokens = split_whitespace sql
      in dedup (List.map_filter
           (\<lambda>(token, next).
              let name = trim_when (\<lambda>c. c \<in> set ''(),;'') next
              in if to_uppercase token \<in> {''FROM'', ''JOIN''} \<and> name \<noteq> [] \<and> to_uppercase name \<noteq> ''SELECT'' \<and>
                    to_uppercase name \<noteq> ''(SELECT'' \<and> \<not> starts_with name ''(''
                 then Some name else None)
           (zip tokens (tl tokens))))"

section \<open>Scores\<close>

datatype execution_strategy =
    SingleEngine string
  | SplitPlan "(string \<times> string \<times> string \<times> u64) list"
  | DirectS3 string
  | FederatedFetch string string

text \<open>A fragment of a split plan is its table, operation, engine and estimated rows.\<close>

record engine_recommendation =
  primary_engine :: string
  confidence :: rat
  reasoning :: string
  execution_strategy :: execution_strategy
  estimated_cost_ms :: u64

record query_shape =
  shape_rows :: u64
  shape_bytes :: u64
  num_tables :: u32
  has_join :: bool
  has_aggregation :: bool
  has_sort :: bool
  selectivity :: rat
  shape_tables :: "string list"
  source_types :: "source_type list"

record adaptive_query_profile = query_shape +
  recommended_engine :: engine_recommendation

definition any_source :: "source_type set \<Rightarrow> ('a) query_shape_scheme \<Rightarrow> bool" where
  "any_source S q \<longleftrightarrow> list_ex (\<lambda>s. s \<in> S) (source_types q)"

definition federated_sources :: "source_type set" where "federated_sources = {Federated, Trino}"

definition several_sources :: "('a) query_shape_scheme \<Rightarrow> bool" where
  "several_sources q \<longleftrightarrow> 1 < card (set (source_types q))"

definition bump :: "bool \<Rightarrow> rat \<Rightarrow> rat \<Rightarrow> rat" where
  "bump b d score = (if b then f64_add score d else score)"

definition base_score :: "string \<Rightarrow> ('a) query_shape_scheme \<Rightarrow> rat" where
  "base_score engine q =
     (let rows = shape_rows q; fed = any_source federated_sources q
      in if engine = ''DuckDB'' then
           f64_sub (bump fed (- 25)
             (bump (any_source {S3Parquet, S3Iceberg} q) 20
               (bump (1 / 2 < selectivity q) 15
                 (bump (has_aggregation q) 20
                   (bump (50000 < rows) 30 50)))))
             (min (f64_add 50 (f64_mult (f64_div (f64_of_u64 rows) 100000) 10)) 40)
         else if engine = ''DataFusion'' then
           bump (any_source {InMemory} q) 10
             (bump (rows < 10000) 20
               (bump (several_sources q) 20
                 (bump fed 30 50)))
         else if engine = ''Polars'' then
           bump fed (- 20)
             (bump (any_source {S3Parquet, S3Iceberg, S3Delta} q) (- 15)
               (bump (\<not> has_join q \<and> \<not> has_sort q) 10
                 (bump (10000 \<le> rows \<and> rows \<le> 500000) 20 50)))
         else 50)"

definition average_ms :: "u64 list \<Rightarrow> rat" where
  "average_ms ts = f64_div (f64_of_u64 (sum_list ts)) (f64_of_nat (length ts))"

definition similar_records :: "('a) query_shape_scheme \<Rightarrow> execution_record list \<Rightarrow> execution_record list" where
  "similar_records q history =
     filter (\<lambda>r. list_ex (\<lambda>s. s \<in> set (source_types q)) (rec_sources r)) (take history_lookback (rev history))"

definition history_boost :: "string \<Rightarrow> execution_record list \<Rightarrow> bool" where
  "history_boost engine similar =
     (let this = map execution_ms (filter (\<lambda>r. rec_engine r = engine) similar);
          other = map execution_ms (filter (\<lambda>r. rec_engine r \<noteq> engine) similar)
      in 3 \<le> length similar \<and> this \<noteq> [] \<and> other \<noteq> [] \<and>
         0 < average_ms this \<and> 2 \<le> f64_div (average_ms other) (average_ms this))"

definition score_engine :: "string \<Rightarrow> ('a) query_shape_scheme \<Rightarrow> execution_record list \<Rightarrow> rat" where
  "score_engine engine q history =
     (let score = base_score engine q
      in max (if history_boost engine (similar_records q history) then f64_mult score (rnd (130 / 100)) else score) 0)"

section \<open>The recommendation\<close>

definition engine_reasons :: "string \<Rightarrow> ('a) query_shape_scheme \<Rightarrow> string list" where
  "engine_reasons engine q =
     (let rows = shape_rows q; pick = (\<lambda>b (t :: string). if b then [t] else [])
      in if engine = ''DuckDB'' then
           pick (50000 < rows) (''large dataset (~'' @ show_nat (unat rows) @ '' rows) favors DuckDB'' @ [CHR 39] @ ''s columnar scan'') @
           pick (has_aggregation q) (''aggregation benefits from DuckDB'' @ [CHR 39] @ ''s vectorized execution'') @
           pick (any_source {S3Parquet, S3Iceberg} q) ''DuckDB can read S3 natively (no sync overhead)''
         else if engine = ''DataFusion'' then
           pick (any_source federated_sources q) ''federated source requires DataFusion provider'' @
           pick (rows < 10000) (''small dataset '' @ em_dash @ '' DataFusion avoids sync overhead'') @
           pick (several_sources q) (''multiple source types '' @ em_dash @ '' DataFusion coordinates cross-source joins'')
         else if engine = ''Polars'' then
           pick (10000 \<le> rows \<and> rows \<le> 500000) ''medium dataset size suits Polars''
         else [])"

definition build_reasoning :: "string \<Rightarrow> ('a) query_shape_scheme \<Rightarrow> rat \<Rightarrow> rat \<Rightarrow> string" where
  "build_reasoning engine q score runner_up =
     (let reasons = engine_reasons engine q
      in join_with ''; '' (if reasons = [] then [engine @ '' selected as best available engine''] else reasons) @
         (if 0 < runner_up then '' (score '' @ show_fixed 0 score @ '' vs runner-up '' @ show_fixed 0 runner_up @ '')''
          else '' (score '' @ show_fixed 0 score @ '')''))"

definition ranked_engines :: "('a) query_shape_scheme \<Rightarrow> execution_record list \<Rightarrow> string list \<Rightarrow> (string \<times> rat) list" where
  "ranked_engines q history engines = sort_key (\<lambda>(_, s). - s) (map (\<lambda>e. (e, score_engine e q history)) engines)"

definition choose_strategy :: "string \<Rightarrow> ('a) query_shape_scheme \<Rightarrow> execution_strategy" where
  "choose_strategy best q =
     (let fed = any_source federated_sources q; s3 = any_source {S3Parquet, S3Iceberg, S3Delta} q
      in if fed \<and> s3 \<and> several_sources q then
           SplitPlan (map (\<lambda>(i, table).
               let st = (if i < length (source_types q) then source_types q ! i else InMemory)
               in (table, ''scan'', if st \<in> federated_sources then ''DataFusion'' else best,
                   shape_rows q div ucast (max (num_tables q) 1)))
             (zip [0..<length (shape_tables q)] (shape_tables q)))
         else if fed then FederatedFetch ''DataFusion'' best
         else if s3 \<and> best = ''DuckDB'' then DirectS3 ''DuckDB''
         else SingleEngine best)"

definition base_cost_ms :: "string \<Rightarrow> u64 \<Rightarrow> u64" where
  "base_cost_ms best rows =
     (if rows = 0 then 1
      else (if best = ''DuckDB'' then 10 else if best = ''Polars'' then 15 else 5) + max (rows div 10000) 1)"

definition build_recommendation :: "query_profiler \<Rightarrow> ('a) query_shape_scheme \<Rightarrow> string list \<Rightarrow> engine_recommendation" where
  "build_recommendation prof q engines =
     (let scores = ranked_engines q (execution_history prof) engines;
          (best, best_score) = (case scores of [] \<Rightarrow> (''DataFusion'', 50) | x # _ \<Rightarrow> x);
          second = (case scores of _ # (_, s) # _ \<Rightarrow> s | _ \<Rightarrow> 0);
          spread = (if 0 < second then f64_div (f64_sub best_score second) best_score else 1)
      in \<lparr>primary_engine = best, confidence = clamp (rnd (1 / 10)) 1 spread,
          reasoning = build_reasoning best q best_score second, execution_strategy = choose_strategy best q,
          estimated_cost_ms = base_cost_ms best (shape_rows q)\<rparr>)"

section \<open>Profiling a query\<close>

text \<open>\<open>(total as f64 * selectivity).ceil() as u64\<close>; the conversion saturates.\<close>

definition scale_count :: "u64 \<Rightarrow> rat \<Rightarrow> u64" where
  "scale_count n sel = of_nat (min (nat \<lceil>f64_mult (f64_of_u64 n) sel\<rceil>) (2 ^ 64 - 1))"

definition profile_shape :: "query_profiler \<Rightarrow> string \<Rightarrow> query_shape" where
  "profile_shape prof sql =
     (let upper = to_uppercase sql;
          tables = extract_table_names sql;
          known = List.map_filter (table_profiles prof) tables;
          sel = fold (\<lambda>tp acc. f64_mult acc (estimate_selectivity sql tp)) known 1
      in \<lparr>shape_rows = scale_count (sum_list (map total_rows known)) sel,
          shape_bytes = scale_count (sum_list (map total_bytes known)) sel,
          num_tables = of_nat (length tables),
          has_join = contains upper ''JOIN'',
          has_aggregation = list_ex (contains upper) [''GROUP BY'', ''SUM('', ''COUNT('', ''AVG('', ''MIN('', ''MAX(''],
          has_sort = contains upper ''ORDER BY'',
          selectivity = sel,
          shape_tables = tables,
          source_types = map stats_source known\<rparr>)"

definition profile_query :: "query_profiler \<Rightarrow> string \<Rightarrow> string list \<Rightarrow> adaptive_query_profile" where
  "profile_query prof sql engines =
     (let q = profile_shape prof sql
      in query_shape.extend q (adaptive_query_profile.fields (build_recommendation prof q engines)))"

section \<open>Selectivities are fractions\<close>

lemma rnd_unit: "0 \<le> x \<Longrightarrow> x \<le> 1 \<Longrightarrow> 0 \<le> rnd x \<and> rnd x \<le> 1"
  using rnd_nonneg [of x] rnd_le_mono [of x 1] rnd_of_int [of 1] by simp

definition fraction :: "rat \<Rightarrow> bool" where "fraction x \<longleftrightarrow> 0 \<le> x \<and> x \<le> 1"

lemma fraction_simps [simp]:
  "fraction 1" "fraction (1 / 2)" "fraction (rnd (1 / 100))" "fraction (rnd (1 / 10))" "fraction (rnd (10 / 100))" "fraction (rnd (33 / 100))"
  "fraction x \<Longrightarrow> fraction (f64_sub 1 x)" "fraction x \<Longrightarrow> fraction y \<Longrightarrow> fraction (f64_mult x y)"
  "fraction (clamp 0 1 z)"
  by (auto simp: fraction_def f64_sub_def f64_mult_def clamp_def rnd_unit mult_le_one)

lemma column_equality_fraction [simp]: "fraction (column_equality_selectivity col tp)"
proof -
  have "fraction (f64_div 1 (f64_of_u64 dc))" if "0 < dc" for dc :: u64
  proof -
    have n: "1 \<le> unat dc" using that by (simp add: Suc_leI unat_gt_0 word_neq_0_conv)
    have "1 \<le> f64_of_u64 dc" using f64_of_nat_ge [OF n] by (simp add: f64_of_u64_def del: of_nat_unat)
    then show ?thesis by (simp add: fraction_def f64_div_def rnd_unit)
  qed
  then show ?thesis by (auto simp: column_equality_selectivity_def split: option.split)
qed

lemma predicate_fraction [simp]: "fraction (estimate_predicate_selectivity pred tp)"
proof -
  have "0 \<le> f64_mult (column_equality_selectivity c tp) (f64_add (f64_of_nat n) 1)" for c n
    using column_equality_fraction [of c tp] unfolding fraction_def
    by (intro f64_nonneg) (simp_all add: f64_of_nat_def rnd_nonneg)
  then show ?thesis
    by (auto simp: estimate_predicate_selectivity_def Let_def fraction_def [of "min _ _"])
qed

lemma estimate_fraction [simp]: "fraction (estimate_selectivity sql tp)"
  by (simp add: estimate_selectivity_def split: option.split)

lemma fold_fraction: "fraction a \<Longrightarrow> fraction (fold (\<lambda>x acc. f64_mult acc (estimate_selectivity sql x)) xs a)"
  by (induction xs arbitrary: a) simp_all

section \<open>Counts stay below the totals\<close>

lemma rnd_of_nat_int: "\<exists>k :: int. rnd (of_nat n) = of_int k"
proof (cases "n < 2 ^ 53")
  case True
  then show ?thesis by (intro exI [of _ "int n"]) (simp add: rnd_of_nat)
next
  case False
  then have "(2 ^ 53 :: rat) \<le> of_nat n" using of_nat_le_iff [of "2 ^ 53" n, where 'a = rat] by simp
  moreover have p: "0 < (of_nat n :: rat)" using False by (cases n) simp_all
  ultimately have "(2::rat) powi 53 < 2 powi (exponent_of (of_nat n) + 1)"
    using exponent_of_bounds [OF p] by simp
  then have "53 < exponent_of (of_nat n :: rat) + 1" by (rule powi_less_imp)
  then have "0 \<le> exponent_of (of_nat n :: rat) - 52" by linarith
  then obtain e where "exponent_of (of_nat n :: rat) - 52 = int e" using zero_le_imp_eq_int by blast
  then show ?thesis using p by (intro exI [of _ "round_half_even (of_nat n / 2 ^ e) * 2 ^ e"]) (simp add: rnd_def Let_def)
qed

lemma scale_count_le: "fraction s \<Longrightarrow> of_nat (unat (scale_count n s)) \<le> f64_of_u64 n"
proof -
  assume s: "fraction s"
  obtain k :: int where k: "f64_of_u64 n = of_int k" using rnd_of_nat_int [of "unat n"] by (auto simp: f64_of_u64_def f64_of_nat_def)
  have "f64_mult (f64_of_u64 n) s \<le> rnd (f64_of_u64 n)"
    using s mult_left_le [of s "f64_of_u64 n"] unfolding f64_mult_def fraction_def by (intro rnd_le_mono) simp
  then have "f64_mult (f64_of_u64 n) s \<le> of_int k" using k by (simp add: f64_of_u64_def f64_of_nat_def)
  then have c: "\<lceil>f64_mult (f64_of_u64 n) s\<rceil> \<le> k" by (simp add: ceiling_le_iff)
  have k0: "0 \<le> k" using f64_of_u64_nonneg [of n] k by simp
  have "unat (scale_count n s) = min (nat \<lceil>f64_mult (f64_of_u64 n) s\<rceil>) (2 ^ 64 - 1)"
    unfolding scale_count_def unsigned_of_nat of_nat_id by (intro take_bit_nat_eq_self) (simp add: min.strict_coboundedI2)
  also have "\<dots> \<le> nat k" using c by (intro min.coboundedI1 nat_mono)
  finally have "(of_nat (unat (scale_count n s)) :: rat) \<le> of_nat (nat k)" by (simp only: of_nat_le_iff)
  then show ?thesis using k k0 by simp
qed

section \<open>The ranking\<close>

lemma sort_key_Nil_iff [simp]: "sort_key f xs = [] \<longleftrightarrow> xs = []"
  by (metis set_empty set_sort)

lemma hd_sort_key: "xs \<noteq> [] \<Longrightarrow> hd (sort_key f xs) = arg_min_list f xs"
proof (induction f xs rule: arg_min_list.induct)
  case (2 f x y zs)
  have "sort_key f (y # zs) \<noteq> []" unfolding sort_key_Nil_iff by simp
  then obtain z r where z: "sort_key f (y # zs) = z # r" by (cases "sort_key f (y # zs)") auto
  with 2 have "z = arg_min_list f (y # zs)" by simp
  with z show ?case by (simp add: Let_def)
qed simp_all

lemma arg_min_list_first:
  "xs \<noteq> [] \<Longrightarrow> \<exists>i < length xs. arg_min_list f xs = xs ! i \<and> (\<forall>j < length xs. f (xs ! i) \<le> f (xs ! j)) \<and>
     (\<forall>j < i. f (xs ! i) < f (xs ! j))" for f :: "'a \<Rightarrow> 'b :: linorder"
proof (induction f xs rule: arg_min_list.induct)
  case (2 f x y zs)
  let ?m = "arg_min_list f (y # zs)"
  obtain i where i: "i < length (y # zs)" "?m = (y # zs) ! i" "\<And>j. j < length (y # zs) \<Longrightarrow> f ?m \<le> f ((y # zs) ! j)"
    "\<And>j. j < i \<Longrightarrow> f ?m < f ((y # zs) ! j)" using 2 by auto
  show ?case
  proof (cases "f x \<le> f ?m")
    case True
    have "f x \<le> f ((x # y # zs) ! j)" if "j < length (x # y # zs)" for j
    proof (cases j)
      case (Suc k)
      with that i(3) [of k] True show ?thesis by fastforce
    qed simp
    then show ?thesis using True by (intro exI [of _ 0]) (auto simp: Let_def)
  next
    case False
    then have m: "arg_min_list f (x # y # zs) = ?m" by (simp add: Let_def)
    have "f ?m \<le> f ((x # y # zs) ! j)" if "j < length (x # y # zs)" for j
      using that i(3) [of "j - 1"] False by (cases j) auto
    moreover have "f ?m < f ((x # y # zs) ! j)" if "j < Suc i" for j
      using that i(4) [of "j - 1"] False by (cases j) auto
    ultimately show ?thesis using m i(1,2) by (intro exI [of _ "Suc i"]) auto
  qed
qed simp_all

lemma build_recommendation_Nil [simp]: "primary_engine (build_recommendation prof q []) = ''DataFusion''"
  by (simp add: build_recommendation_def ranked_engines_def Let_def)

lemma primary_engine_eq:
  assumes "engines \<noteq> []"
  shows "primary_engine (build_recommendation prof q engines) =
    fst (arg_min_list (\<lambda>(_, s). - s) (map (\<lambda>e. (e, score_engine e q (execution_history prof))) engines))"
proof -
  let ?xs = "map (\<lambda>e. (e, score_engine e q (execution_history prof))) engines"
  have ne: "?xs \<noteq> []" using assms by simp
  from hd_sort_key [OF this, of "\<lambda>(_, s). - s"] have h: "hd (ranked_engines q (execution_history prof) engines) = arg_min_list (\<lambda>(_, s). - s) ?xs"
    by (simp add: ranked_engines_def)
  have "ranked_engines q (execution_history prof) engines \<noteq> []"
    using assms unfolding ranked_engines_def by simp
  then obtain e s xs where r: "ranked_engines q (execution_history prof) engines = (e, s) # xs"
    by (cases "ranked_engines q (execution_history prof) engines") auto
  with h have "arg_min_list (\<lambda>(_, s). - s) ?xs = (e, s)" by simp
  with r show ?thesis by (simp add: build_recommendation_def Let_def)
qed

lemma primary_engine_best:
  assumes "engines \<noteq> []"
  obtains i where "i < length engines" "primary_engine (build_recommendation prof q engines) = engines ! i"
    "\<And>j. j < length engines \<Longrightarrow> score_engine (engines ! j) q (execution_history prof) \<le> score_engine (engines ! i) q (execution_history prof)"
    "\<And>j. j < i \<Longrightarrow> score_engine (engines ! j) q (execution_history prof) < score_engine (engines ! i) q (execution_history prof)"
proof -
  let ?xs = "map (\<lambda>e. (e, score_engine e q (execution_history prof))) engines"
  obtain i where i: "i < length ?xs" "arg_min_list (\<lambda>(_, s). - s) ?xs = ?xs ! i"
    "\<forall>j < length ?xs. (\<lambda>(_, s). - s) (?xs ! i) \<le> (\<lambda>(_, s). - s) (?xs ! j)"
    "\<forall>j < i. (\<lambda>(_, s). - s) (?xs ! i) < (\<lambda>(_, s). - s) (?xs ! j)"
    using arg_min_list_first [of ?xs "\<lambda>(_, s). - s"] assms by auto
  show ?thesis
  proof (rule that [of i])
    show "i < length engines" using i(1) by simp
    show "primary_engine (build_recommendation prof q engines) = engines ! i"
      unfolding primary_engine_eq [OF assms, of prof q] i(2) using i(1) by simp
    show "score_engine (engines ! j) q (execution_history prof) \<le> score_engine (engines ! i) q (execution_history prof)"
      if "j < length engines" for j using i(1,3) that by simp
    show "score_engine (engines ! j) q (execution_history prof) < score_engine (engines ! i) q (execution_history prof)"
      if "j < i" for j using i(1,4) that by fastforce
  qed
qed

section \<open>What a profile promises\<close>

definition known_tables :: "query_profiler \<Rightarrow> string \<Rightarrow> table_profile_stats list" where
  "known_tables prof sql = List.map_filter (table_profiles prof) (extract_table_names sql)"

lemma profile_query_simps [simp]:
  "shape_rows (profile_query prof sql engines) = shape_rows (profile_shape prof sql)"
  "shape_bytes (profile_query prof sql engines) = shape_bytes (profile_shape prof sql)"
  "selectivity (profile_query prof sql engines) = selectivity (profile_shape prof sql)"
  "recommended_engine (profile_query prof sql engines) = build_recommendation prof (profile_shape prof sql) engines"
  by (simp_all add: profile_query_def Let_def query_shape.defs adaptive_query_profile.defs)

lemma clamp_bounds: "lo \<le> hi \<Longrightarrow> lo \<le> clamp lo hi x \<and> clamp lo hi x \<le> hi"
  by (simp add: clamp_def)

text \<open>C37. Whatever the SQL text, the statistics and the history: a profile never estimates more rows or bytes
  than the statistics of its tables add up to, its selectivity is a fraction, and the confidence in the
  recommended engine lies between one tenth and one.\<close>

theorem profile_estimates_bounded:
  "of_nat (unat (shape_rows (profile_query prof sql engines))) \<le> f64_of_u64 (sum_list (map total_rows (known_tables prof sql))) \<and>
   of_nat (unat (shape_bytes (profile_query prof sql engines))) \<le> f64_of_u64 (sum_list (map total_bytes (known_tables prof sql))) \<and>
   0 \<le> selectivity (profile_query prof sql engines) \<and> selectivity (profile_query prof sql engines) \<le> 1 \<and>
   rnd (1 / 10) \<le> confidence (recommended_engine (profile_query prof sql engines)) \<and>
   confidence (recommended_engine (profile_query prof sql engines)) \<le> 1"
proof -
  define sel where "sel = fold (\<lambda>tp acc. f64_mult acc (estimate_selectivity sql tp)) (known_tables prof sql) 1"
  have s: "fraction sel" unfolding sel_def by (rule fold_fraction) simp
  have q: "shape_rows (profile_shape prof sql) = scale_count (sum_list (map total_rows (known_tables prof sql))) sel"
    "shape_bytes (profile_shape prof sql) = scale_count (sum_list (map total_bytes (known_tables prof sql))) sel"
    "selectivity (profile_shape prof sql) = sel"
    by (simp_all add: profile_shape_def known_tables_def sel_def Let_def)
  obtain x where c: "confidence (build_recommendation prof (profile_shape prof sql) engines) = clamp (rnd (1 / 10)) 1 x"
    by (simp add: build_recommendation_def Let_def case_prod_beta)
  have "rnd (1 / 10) \<le> 1" using fraction_simps(4) by (simp add: fraction_def)
  with s show ?thesis unfolding profile_query_simps q c
    using scale_count_le [OF s] clamp_bounds [of "rnd (1 / 10)" 1 x] unfolding fraction_def by blast
qed

section \<open>Split plans\<close>

lemma map_filter_all: "\<forall>x \<in> set xs. f x \<noteq> None \<Longrightarrow> List.map_filter f xs = map (the \<circ> f) xs"
  by (induction xs) auto

text \<open>When every table of a query has statistics, a split plan sends each table of a federated source to
  DataFusion, the only engine that reads such sources, and every other table to the recommended engine.\<close>

theorem split_plan_serves_federated_tables:
  assumes "\<forall>n \<in> set (extract_table_names sql). table_profiles prof n \<noteq> None"
    and "execution_strategy (recommended_engine (profile_query prof sql engines)) = SplitPlan frs"
  shows "map fst frs = extract_table_names sql \<and>
    list_all (\<lambda>(n, oper, engine, rows). \<exists>tp. table_profiles prof n = Some tp \<and>
      engine = (if stats_source tp \<in> {Federated, Trino} then ''DataFusion''
                else primary_engine (recommended_engine (profile_query prof sql engines)))) frs"
proof -
  let ?q = "profile_shape prof sql" and ?ts = "extract_table_names sql"
  let ?best = "primary_engine (build_recommendation prof ?q engines)"
  have src: "source_types ?q = map (stats_source \<circ> the \<circ> table_profiles prof) ?ts"
    using assms(1) by (simp add: profile_shape_def Let_def map_filter_all)
  have tabs: "shape_tables ?q = ?ts" by (simp add: profile_shape_def Let_def)
  have "choose_strategy ?best ?q = SplitPlan frs"
    using assms(2) by (simp add: build_recommendation_def Let_def case_prod_beta)
  then have frs: "frs = map (\<lambda>(i, table).
               (table, ''scan'', if (if i < length (source_types ?q) then source_types ?q ! i else InMemory) \<in> federated_sources then ''DataFusion'' else ?best,
                   shape_rows ?q div ucast (max (num_tables ?q) 1)))
             (zip [0..<length ?ts] ?ts)"
    by (simp add: choose_strategy_def Let_def tabs split: if_splits)
  have "map fst frs = ?ts" unfolding frs by (simp add: comp_def case_prod_beta)
  moreover have frag: "\<exists>tp. table_profiles prof n = Some tp \<and> e = (if stats_source tp \<in> {Federated, Trino} then ''DataFusion'' else ?best)"
    if m: "(n, oper, e, r) \<in> set frs" for n oper e r
  proof -
    obtain i where i: "i < length ?ts" "n = ?ts ! i"
      "e = (if (if i < length (source_types ?q) then source_types ?q ! i else InMemory) \<in> federated_sources then ''DataFusion'' else ?best)"
      using m unfolding frs by (auto simp: set_zip)
    obtain tp where "table_profiles prof n = Some tp" using assms(1) i(1,2) by (meson not_None_eq nth_mem)
    with i src show ?thesis by (auto simp: federated_sources_def)
  qed
  ultimately show ?thesis unfolding list_all_iff profile_query_simps
  proof (intro conjI ballI)
    fix x assume x: "x \<in> set frs"
    obtain n oper e r where "x = (n, oper, e, r)" by (rule prod_cases4)
    with x show "case x of (n, oper, engine, rows) \<Rightarrow> \<exists>tp. table_profiles prof n = Some tp \<and>
        engine = (if stats_source tp \<in> {Federated, Trino} then ''DataFusion'' else ?best)"
      using frag by simp
  qed
qed

definition demo_stats :: "source_type \<Rightarrow> table_profile_stats" where
  "demo_stats source = new_table_profile 0 100000 1000000 1 1 source"

definition demo_profiler :: query_profiler where
  "demo_profiler =
     update_table_profile ''f'' (demo_stats Federated) (update_table_profile ''s'' (demo_stats S3Parquet) new_profiler)"

lemma demo_tables:
  "extract_table_names ''SELECT * FROM f JOIN s'' = [''f'', ''s'']"
  "extract_table_names ''SELECT * FROM u JOIN f JOIN s'' = [''u'', ''f'', ''s'']"
  by code_simp+

lemma demo_split:
  assumes "source_types q = [Federated, S3Parquet]"
  shows "choose_strategy best q = SplitPlan (map (\<lambda>(i, table).
      (table, ''scan'', if i < 2 \<and> i = 0 then ''DataFusion'' else best, shape_rows q div ucast (max (num_tables q) 1)))
    (zip [0..<length (shape_tables q)] (shape_tables q)))"
  using assms by (auto simp: choose_strategy_def Let_def any_source_def several_sources_def federated_sources_def less_2_cases_iff)

lemma demo_sources:
  "source_types (profile_shape demo_profiler ''SELECT * FROM f JOIN s'') = [Federated, S3Parquet]"
  "source_types (profile_shape demo_profiler ''SELECT * FROM u JOIN f JOIN s'') = [Federated, S3Parquet]"
  by (simp_all add: profile_shape_def demo_tables Let_def demo_profiler_def update_table_profile_def new_profiler_def
      demo_stats_def new_table_profile_def map_filter_simps)

lemma split_plan_serves_federated_tables_witness:
  "\<exists>frs. execution_strategy (recommended_engine (profile_query demo_profiler ''SELECT * FROM f JOIN s'' [''DuckDB''])) = SplitPlan frs \<and>
     map fst frs = [''f'', ''s'']"
proof -
  have "\<exists>frs. execution_strategy (recommended_engine (profile_query demo_profiler ''SELECT * FROM f JOIN s'' [''DuckDB''])) = SplitPlan frs"
    by (simp add: build_recommendation_def Let_def case_prod_beta demo_split [OF demo_sources(1)])
  then obtain frs where f: "execution_strategy (recommended_engine (profile_query demo_profiler ''SELECT * FROM f JOIN s'' [''DuckDB''])) = SplitPlan frs"
    by blast
  have "\<forall>n \<in> set (extract_table_names ''SELECT * FROM f JOIN s''). table_profiles demo_profiler n \<noteq> None"
    by (simp add: demo_tables demo_profiler_def update_table_profile_def)
  from split_plan_serves_federated_tables [OF this f] f show ?thesis by (auto simp: demo_tables)
qed

text \<open>A table without statistics shifts the sources by one: the federated table \<open>f\<close> behind an unknown table
  \<open>u\<close> is sent to DuckDB, and \<open>u\<close> to DataFusion.\<close>

lemma unknown_table_shifts_sources:
  "\<exists>rows. execution_strategy (recommended_engine (profile_query demo_profiler ''SELECT * FROM u JOIN f JOIN s'' [''DuckDB''])) =
     SplitPlan [(''u'', ''scan'', ''DataFusion'', rows), (''f'', ''scan'', ''DuckDB'', rows), (''s'', ''scan'', ''DuckDB'', rows)]"
proof -
  have "shape_tables (profile_shape demo_profiler ''SELECT * FROM u JOIN f JOIN s'') = [''u'', ''f'', ''s'']"
    by (simp add: profile_shape_def demo_tables Let_def)
  then show ?thesis
    by (simp add: build_recommendation_def ranked_engines_def Let_def case_prod_beta demo_split [OF demo_sources(2)] upt_rec)
qed

section \<open>A profiler without sources\<close>

text \<open>Records without source types are similar to no query.\<close>

definition untyped_history :: "query_profiler \<Rightarrow> bool" where
  "untyped_history prof \<longleftrightarrow> table_profiles prof = Map.empty \<and> list_all (\<lambda>r. rec_sources r = []) (execution_history prof)"

lemma similar_untyped: "untyped_history prof \<Longrightarrow> similar_records q (execution_history prof) = []"
  by (auto simp: untyped_history_def similar_records_def list_all_iff filter_empty_conv dest: in_set_takeD)

lemma record_keeps_untyped: "untyped_history prof \<Longrightarrow> rec_sources r = [] \<Longrightarrow> untyped_history (record_execution r prof)"
  by (cases "execution_history prof") (auto simp: untyped_history_def record_execution_def Let_def)

lemma record_bounds_history: "length (execution_history prof) \<le> max_execution_history \<Longrightarrow>
    length (execution_history (record_execution r prof)) \<le> max_execution_history"
  by (simp add: record_execution_def Let_def max_execution_history_def)

lemma untyped_recommends_datafusion:
  assumes "untyped_history prof" "''DataFusion'' \<in> set engines"
  shows "primary_engine (recommended_engine (profile_query prof sql engines)) = ''DataFusion''"
proof -
  let ?q = "profile_shape prof sql" and ?s = "\<lambda>e. score_engine e (profile_shape prof sql) (execution_history prof)"
  have k: "List.map_filter (table_profiles prof) ts = []" for ts
    using assms(1) by (induction ts) (simp_all add: untyped_history_def map_filter_simps)
  have q: "shape_rows ?q = 0" "source_types ?q = []" "selectivity ?q = 1"
    by (simp_all add: profile_shape_def Let_def k scale_count_def f64_mult_def f64_of_u64_def f64_of_nat_def)
  have add: "f64_add (of_int i) (of_int j) = of_int (i + j)" "f64_sub (of_int i) (of_int j) = of_int (i - j)"
    if "\<bar>i\<bar> < 1000" "\<bar>j\<bar> < 1000" for i j
    using that rnd_of_int [of "i + j"] rnd_of_int [of "i - j"] by (simp_all add: f64_add_def f64_sub_def)
  have df: "?s ''DataFusion'' = 70"
    using add(1) [of 50 20] by (simp add: score_engine_def history_boost_def similar_untyped [OF assms(1)] base_score_def Let_def
        bump_def any_source_def several_sources_def q)
  have less: "?s e < 70" if "e \<noteq> ''DataFusion''" for e
    using that add(1) [of 50 20] add(1) [of 50 15] add(1) [of 70 15] add(2) [of 65 40] add(2) [of 85 40] add(1) [of 50 10]
    by (simp add: score_engine_def history_boost_def similar_untyped [OF assms(1)] base_score_def Let_def
        bump_def any_source_def several_sources_def q f64_of_u64_def f64_of_nat_def f64_mult_def f64_div_def rnd_numeral
        f64_add_def [of 50 0])
  from assms(2) have ne: "engines \<noteq> []" by auto
  obtain i where i: "i < length engines" "primary_engine (build_recommendation prof ?q engines) = engines ! i"
    "\<And>j. j < length engines \<Longrightarrow> ?s (engines ! j) \<le> ?s (engines ! i)"
    by (rule primary_engine_best [OF ne, of prof ?q]) blast
  obtain j where "j < length engines" "engines ! j = ''DataFusion''" using assms(2) by (metis in_set_conv_nth)
  then have "70 \<le> ?s (engines ! i)" using i(3) [of j] df by simp
  then have "engines ! i = ''DataFusion''" using less [of "engines ! i"] by fastforce
  with i(2) show ?thesis by simp
qed

end
