(* ===== verification/Spark_Compat.thy ===== *)
theory Spark_Compat
  imports Prelude
begin

text \<open>
  \<open>rustlake-api/src/spark_compat.rs\<close>: the textual translation of Spark SQL. A statement is ASCII text;
  the arrows in the descriptions of the code are written \<open>->\<close> here.
\<close>

section \<open>Replacement without regard to case\<close>

text \<open>The loop of the function table: the first occurrence in the upper-cased rest is replaced, then the
  search goes on behind it. Patterns are not empty.\<close>

lemma rest_shorter: "i + length p \<le> length s \<Longrightarrow> p \<noteq> [] \<Longrightarrow> length s - (i + length p) < length s"
  by (cases p) auto

function replace_ci :: "string \<Rightarrow> string \<Rightarrow> string \<Rightarrow> string" where
  "replace_ci p r s =
     (if p = [] then s
      else case find_str (to_uppercase s) (to_uppercase p) of
             None \<Rightarrow> s
           | Some pos \<Rightarrow> take pos s @ r @ replace_ci p r (drop (pos + length p) s))"
  by pat_completeness auto
termination
  by (relation "measure (\<lambda>(p, r, s). length s)") (auto dest!: find_str_bound intro!: rest_shorter [simplified])

declare replace_ci.simps [simp del]

text \<open>\<open>case_insensitive_replace\<close> upper-cases the text once and cuts both copies in step.\<close>

function ci_loop :: "string \<Rightarrow> string \<Rightarrow> string \<Rightarrow> string \<Rightarrow> string" where
  "ci_loop p r remaining remaining_upper =
     (if p = [] then remaining
      else case find_str remaining_upper (to_uppercase p) of
             None \<Rightarrow> remaining
           | Some pos \<Rightarrow>
               take pos remaining @ r @
               ci_loop p r (drop (pos + length p) remaining) (drop (pos + length (to_uppercase p)) remaining_upper))"
  by pat_completeness auto
termination
  by (relation "measure (\<lambda>(p, r, s, u). length u)") (auto dest!: find_str_bound intro!: rest_shorter [simplified])

declare ci_loop.simps [simp del]

definition case_insensitive_replace :: "string \<Rightarrow> string \<Rightarrow> string \<Rightarrow> string" where
  "case_insensitive_replace input p r = ci_loop p r input (to_uppercase input)"

section \<open>The tables\<close>

definition function_map :: "(string \<times> string \<times> string) list" where
  "function_map =
    [(''NVL('', ''COALESCE('', ''NVL -> COALESCE''),
     (''NVL2('', ''CASE WHEN'', ''NVL2 -> CASE WHEN (manual)''),
     (''IFNULL('', ''COALESCE('', ''IFNULL -> COALESCE''),
     (''INSTR('', ''STRPOS('', ''INSTR -> STRPOS''),
     (''LOCATE('', ''STRPOS('', ''LOCATE -> STRPOS''),
     (''LEN('', ''LENGTH('', ''LEN -> LENGTH''),
     (''SUBSTR('', ''SUBSTRING('', ''SUBSTR -> SUBSTRING''),
     (''LPAD('', ''LPAD('', ''LPAD (compatible)''),
     (''RPAD('', ''RPAD('', ''RPAD (compatible)''),
     (''INITCAP('', ''INITCAP('', ''INITCAP (compatible)''),
     (''FORMAT_STRING('', ''FORMAT('', ''FORMAT_STRING -> FORMAT''),
     (''CONCAT_WS('', ''CONCAT_WS('', ''CONCAT_WS (compatible)''),
     (''DATEDIFF('', ''DATE_DIFF('' @ quote ''day'' @ '', '', ''DATEDIFF -> DATE_DIFF''),
     (''DATE_ADD('', ''DATE_ADD('', ''DATE_ADD (compatible)''),
     (''DATE_SUB('', ''DATE_SUB('', ''DATE_SUB (compatible)''),
     (''ADD_MONTHS('', ''DATE_ADD('', ''ADD_MONTHS -> DATE_ADD (months)''),
     (''MONTHS_BETWEEN('', ''DATE_DIFF('' @ quote ''month'' @ '', '', ''MONTHS_BETWEEN -> DATE_DIFF''),
     (''TO_DATE('', ''CAST('', ''TO_DATE -> CAST AS DATE''),
     (''TO_TIMESTAMP('', ''CAST('', ''TO_TIMESTAMP -> CAST AS TIMESTAMP''),
     (''UNIX_TIMESTAMP('', ''EXTRACT(EPOCH FROM '', ''UNIX_TIMESTAMP -> EXTRACT EPOCH''),
     (''FROM_UNIXTIME('', ''TO_TIMESTAMP('', ''FROM_UNIXTIME -> TO_TIMESTAMP''),
     (''DATE_FORMAT('', ''STRFTIME('', ''DATE_FORMAT -> STRFTIME''),
     (''CURRENT_DATE()'', ''CURRENT_DATE'', ''CURRENT_DATE() -> CURRENT_DATE''),
     (''CURRENT_TIMESTAMP()'', ''NOW()'', ''CURRENT_TIMESTAMP() -> NOW()''),
     (''COLLECT_LIST('', ''ARRAY_AGG('', ''COLLECT_LIST -> ARRAY_AGG''),
     (''COLLECT_SET('', ''ARRAY_AGG(DISTINCT '', ''COLLECT_SET -> ARRAY_AGG(DISTINCT)''),
     (''SIZE('', ''ARRAY_LENGTH('', ''SIZE -> ARRAY_LENGTH''),
     (''EXPLODE('', ''UNNEST('', ''EXPLODE -> UNNEST''),
     (''RAND()'', ''RANDOM()'', ''RAND() -> RANDOM()''),
     (''SHIFTLEFT('', ''BIT_SHIFT_LEFT('', ''SHIFTLEFT -> BIT_SHIFT_LEFT''),
     (''SHIFTRIGHT('', ''BIT_SHIFT_RIGHT('', ''SHIFTRIGHT -> BIT_SHIFT_RIGHT''),
     (''BOOLEAN('', ''CAST('', ''BOOLEAN() -> CAST AS BOOLEAN''),
     (''INT('', ''CAST('', ''INT() -> CAST AS INT''),
     (''BIGINT('', ''CAST('', ''BIGINT() -> CAST AS BIGINT''),
     (''DOUBLE('', ''CAST('', ''DOUBLE() -> CAST AS DOUBLE''),
     (''STRING('', ''CAST('', ''STRING() -> CAST AS VARCHAR'')]"

definition spark_indicators :: "string list" where
  "spark_indicators =
    [''NVL('', ''DATEDIFF('', ''COLLECT_LIST('', ''COLLECT_SET('', ''EXPLODE('', ''DISTRIBUTE BY'', ''CLUSTER BY'', ''SORT BY'',
     ''LATERAL VIEW'', ''TABLESAMPLE'', ''STRING('', ''UNIX_TIMESTAMP('', ''FROM_UNIXTIME('', ''DATE_FORMAT('',
     ''FORMAT_STRING('', ''INSTR('', ''LOCATE('']"

definition looks_like_spark_sql :: "string \<Rightarrow> bool" where
  "looks_like_spark_sql sql \<longleftrightarrow> list_ex (contains (to_uppercase sql)) spark_indicators"

section \<open>The translation\<close>

text \<open>The state of the translation: the text so far and the descriptions of what was applied.\<close>

type_synonym translation = "string \<times> string list"

definition translate_function :: "string \<times> string \<times> string \<Rightarrow> translation \<Rightarrow> translation" where
  "translate_function = (\<lambda>(spark_fn, df_fn, desc) (text, done).
     if contains (to_uppercase text) (to_uppercase spark_fn) \<and> spark_fn \<noteq> df_fn then
       (replace_ci spark_fn df_fn text, if desc \<in> set done then done else done @ [desc])
     else (text, done))"

definition remove_distribute_by :: "translation \<Rightarrow> translation" where
  "remove_distribute_by = (\<lambda>(text, done).
     case find_str (to_uppercase text) ''DISTRIBUTE BY'' of
       None \<Rightarrow> (text, done)
     | Some pos \<Rightarrow>
         let rest = drop pos text; end_pos = length (takeWhile (\<lambda>c. c \<noteq> CHR '';'' \<and> c \<noteq> CHR '')'') rest)
         in (take pos text @ drop (pos + end_pos) text, done @ [''DISTRIBUTE BY removed (DataFusion handles automatically)'']))"

definition replace_clause :: "(string \<Rightarrow> bool) \<Rightarrow> string \<Rightarrow> string \<Rightarrow> string \<Rightarrow> translation \<Rightarrow> translation" where
  "replace_clause applies p r desc = (\<lambda>(text, done).
     if applies (to_uppercase text) then (case_insensitive_replace text p r, done @ [desc]) else (text, done))"

definition note_clause :: "string \<Rightarrow> string \<Rightarrow> translation \<Rightarrow> translation" where
  "note_clause p desc = (\<lambda>(text, done). if contains (to_uppercase text) p then (text, done @ [desc]) else (text, done))"

definition translate_syntax :: "translation \<Rightarrow> translation" where
  "translate_syntax t0 =
     (let t1 = remove_distribute_by t0;
          t2 = replace_clause (\<lambda>u. contains u ''CLUSTER BY'') ''CLUSTER BY'' ''ORDER BY'' ''CLUSTER BY -> ORDER BY'' t1;
          t3 = replace_clause (\<lambda>u. contains u ''SORT BY'' \<and> \<not> contains u ''ORDER BY'') ''SORT BY'' ''ORDER BY'' ''SORT BY -> ORDER BY'' t2;
          t4 = note_clause ''TABLESAMPLE'' (''TABLESAMPLE not supported '' @ em_dash @ '' full table scan used'') t3
      in note_clause ''LATERAL VIEW'' ''LATERAL VIEW -> CROSS JOIN UNNEST (manual rewrite may be needed)'' t4)"

record translation_result =
  original :: string
  translated :: string
  was_translated :: bool
  translations_applied :: "string list"

definition translate_spark_sql :: "string \<Rightarrow> translation_result" where
  "translate_spark_sql sql =
     (let (text, done) = translate_syntax (fold translate_function function_map (sql, []))
      in \<lparr>original = sql, translated = text, was_translated = done \<noteq> [], translations_applied = done\<rparr>)"

section \<open>Correctness\<close>

text \<open>Both ways of replacing without regard to case, cutting one text and upper-casing it anew or cutting
  it in step with its upper-case copy, give the same text.\<close>

theorem case_insensitive_replace_eq: "case_insensitive_replace input p r = replace_ci p r input"
proof -
  have "ci_loop p r s (to_uppercase s) = replace_ci p r s" for s
  proof (induction p r s rule: replace_ci.induct)
    case (1 p r s)
    have "drop n (to_uppercase s) = to_uppercase (drop n s)" for n by (simp add: to_uppercase_def drop_map)
    with 1 show ?case
      by (subst ci_loop.simps, subst replace_ci.simps) (auto split: option.split)
  qed
  then show ?thesis by (simp add: case_insensitive_replace_def)
qed

lemma replace_ci_absent: "\<not> contains (to_uppercase s) (to_uppercase p) \<Longrightarrow> replace_ci p r s = s"
  by (subst replace_ci.simps) (simp add: contains_def split: option.split)

text \<open>Every step either leaves the text alone or adds a description.\<close>

definition honest :: "(translation \<Rightarrow> translation) \<Rightarrow> bool" where
  "honest f \<longleftrightarrow> (\<forall>t. length (snd t) \<le> length (snd (f t))) \<and>
     (\<forall>text. snd (f (text, [])) = [] \<longrightarrow> f (text, []) = (text, []))"

lemma honest_comp:
  assumes "honest f" "honest g"
  shows "honest (\<lambda>t. g (f t))"
  unfolding honest_def
proof (intro conjI allI impI)
  show "length (snd t) \<le> length (snd (g (f t)))" for t
    using assms order_trans unfolding honest_def by blast
next
  fix u assume e: "snd (g (f (u, []))) = []"
  have "length (snd (f (u, []))) \<le> length (snd (g (f (u, []))))" using assms(2) unfolding honest_def by blast
  then have "snd (f (u, [])) = []" using e by simp
  then have "f (u, []) = (u, [])" using assms(1) unfolding honest_def by blast
  with e assms(2) show "g (f (u, [])) = (u, [])" unfolding honest_def by simp
qed

lemma honest_steps:
  "honest (translate_function e)" "honest remove_distribute_by" "honest (replace_clause a p r d)" "honest (note_clause p d)"
proof -
  show "honest (translate_function e)"
    unfolding honest_def translate_function_def by (cases e) (simp split: prod.split)
  show "honest remove_distribute_by"
    unfolding honest_def remove_distribute_by_def Let_def by (simp split: prod.split option.split)
  show "honest (replace_clause a p r d)" unfolding honest_def replace_clause_def by (simp split: prod.split)
  show "honest (note_clause p d)" unfolding honest_def note_clause_def by (simp split: prod.split)
qed

lemma honest_fold: "(\<And>e. honest (f e)) \<Longrightarrow> honest (fold f es)"
proof (induction es)
  case Nil
  then show ?case by (simp add: honest_def)
next
  case (Cons e es)
  then have "honest (f e)" "honest (fold f es)" by simp_all
  from honest_comp [OF this] show ?case by (simp add: comp_def)
qed

lemma honest_translation: "honest (\<lambda>t. translate_syntax (fold translate_function function_map t))"
proof -
  have "honest (fold translate_function function_map)" by (intro honest_fold honest_steps)
  note c1 = honest_comp [OF this honest_steps(2)]
  note c2 = honest_comp [OF c1 honest_steps(3)]
  note c3 = honest_comp [OF c2 honest_steps(3)]
  note c4 = honest_comp [OF c3 honest_steps(4)]
  note c5 = honest_comp [OF c4 honest_steps(4)]
  show ?thesis unfolding translate_syntax_def Let_def by (rule c5)
qed

text \<open>A statement reported as not translated is passed on unchanged, letter by letter.\<close>

theorem untranslated_is_unchanged:
  assumes "\<not> was_translated (translate_spark_sql sql)"
  shows "translated (translate_spark_sql sql) = sql"
proof -
  let ?r = "translate_syntax (fold translate_function function_map (sql, []))"
  have "snd ?r = []" using assms by (simp add: translate_spark_sql_def case_prod_beta)
  with honest_translation have "?r = (sql, [])" unfolding honest_def by blast
  then show ?thesis by (simp add: translate_spark_sql_def)
qed

lemma untranslated_is_unchanged_witness:
  "translated (translate_spark_sql ''SELECT x'') = ''SELECT x''"
  by (rule untranslated_is_unchanged) code_simp

text \<open>The entry for \<open>INT(\<close> comes before the one for \<open>BIGINT(\<close> and matches inside it; text in quotes is
  rewritten like any other.\<close>

lemma bigint_is_torn:
  "translated (translate_spark_sql ''BIGINT(x)'') = ''BIGCAST(x)''"
  "translated (translate_spark_sql (quote ''size(1)'')) = quote ''ARRAY_LENGTH(1)''"
  by code_simp+

end
