(* ===== verification/Sql_Execution.thy ===== *)
theory Sql_Execution
  imports Query_Engines Query_Profiler Spark_Compat Iceberg_Metadata
begin

text \<open>
  The SQL endpoint: \<open>execute_sql\<close> of \<open>rustlake-api/src/routes.rs\<close> with everything it calls in the server
  (\<open>handle_ctas\<close>, the execution on DuckDB and Polars with their copies of tables, the time-travel parser,
  \<open>finish_sql_response\<close>), \<open>record_query\<close> of \<open>state.rs\<close>, and the profiling endpoint.

  The state holds the DataFusion session, the two other engines when they are configured, the names of
  the tables copied to DuckDB, the read-only names, the query history with its counter, the profiler, and
  per S3 configuration the names of its tables and its store, if one can be built. Clock readings, ids,
  the SQL parser, Arrow's JSON writer, chrono, the hash function and Unicode's case mapping and letters are in
  \<open>query_env\<close>; white space is ASCII's.
\<close>

section \<open>State\<close>

record query_entry =
  entry_id :: string
  entry_sql :: string
  entry_type :: string
  entry_rows :: nat
  entry_ms :: nat
  entry_time :: string
  entry_status :: string
  entry_error :: "string option"
  entry_engine :: string

record sql_response =
  resp_id :: string
  resp_columns :: "string list"
  resp_rows :: "json list"
  resp_count :: nat
  resp_type :: string
  resp_ms :: nat
  resp_parse_ms :: "nat option"
  resp_exec_ms :: "nat option"
  resp_engine :: string
  resp_mode :: "string option"

record ('c, 'd, 's) sql_state =
  ctx :: 'c
  duckdb_engine :: "'d option"
  polars_engine :: "'c option"
  synced_tables :: "string set"
  read_only_tables :: "string set"
  query_history :: "query_entry list"
  query_count :: u64
  query_profiler :: query_profiler
  lake_configs :: "(string list \<times> 's option) list"

record ('c, 'd, 's) query_env =
  df :: "'c df_api"
  duck :: "'d duck_api"
  lake :: "'s env"
  sql_parse :: sql_parser
  rows_json :: "record_batch list \<Rightarrow> string + json list"
  batch_memory :: "record_batch \<Rightarrow> u64"
  hash_sql :: "string \<Rightarrow> u64"
  upper :: "string \<Rightarrow> string"
  lower :: "string \<Rightarrow> string"
  other_alnum :: "string \<Rightarrow> bool"
  parse_datetime :: "string \<Rightarrow> string \<Rightarrow> int option"
  parse_date_end :: "string \<Rightarrow> int option"
  new_id :: string
  parse_time :: nat
  exec_time :: nat
  total_time :: nat
  fallback_time :: nat
  now_text :: string
  instant_now :: nat

definition max_query_history :: nat where "max_query_history = 1000"

definition record_query :: "query_entry \<Rightarrow> ('c, 'd, 's) sql_state \<Rightarrow> ('c, 'd, 's) sql_state" where
  "record_query e st =
     (let h = query_history st @ [e]
      in st\<lparr>query_history := drop (length h - max_query_history) h\<rparr>)"

type_synonym http_result = "((nat \<times> string) + sql_response) result"

section \<open>Read-only tables\<close>

definition target_patterns :: "string list" where
  "target_patterns =
     [''INSERT INTO '', ''UPDATE '', ''DELETE FROM '', ''DROP TABLE IF EXISTS '', ''DROP TABLE '', ''ALTER TABLE '',
      ''TRUNCATE TABLE '', ''TRUNCATE '']"

definition target_name :: "('c, 'd, 's) query_env \<Rightarrow> string \<Rightarrow> string" where
  "target_name V rest =
     concat (takeWhile (\<lambda>x. alphanumeric (other_alnum V) x \<or> x = ''_'' \<or> x = ''.'') (utf8_chars rest))"

fun first_target :: "('c, 'd, 's) query_env \<Rightarrow> string list \<Rightarrow> string \<Rightarrow> string option" where
  "first_target V [] s = None"
| "first_target V (pat # pats) s =
     (case strip_prefix s pat of
        Some rest \<Rightarrow> if target_name V rest \<noteq> [] then Some (target_name V rest) else first_target V pats s
      | None \<Rightarrow> first_target V pats s)"

definition extract_target_table :: "('c, 'd, 's) query_env \<Rightarrow> string \<Rightarrow> string option" where
  "extract_target_table V sql_upper = first_target V target_patterns sql_upper"

definition names_read_only :: "('c, 'd, 's) query_env \<Rightarrow> string set \<Rightarrow> string \<Rightarrow> bool" where
  "names_read_only V ro t \<longleftrightarrow> (\<exists>r \<in> ro. lower V t = lower V r \<or> ends_with (lower V t) (''.'' @ lower V r))"

definition read_only_target :: "('c, 'd, 's) query_env \<Rightarrow> string set \<Rightarrow> query_type \<Rightarrow> string \<Rightarrow> string option" where
  "read_only_target V ro qt sql =
     (if qt \<in> {Ddl, Dml} \<and> ro \<noteq> {} then
        (case extract_target_table V (upper V (trim sql)) of
           Some t \<Rightarrow> if names_read_only V ro t then Some t else None
         | None \<Rightarrow> None)
      else None)"

section \<open>CREATE TABLE AS SELECT\<close>

definition is_ctas :: "('c, 'd, 's) query_env \<Rightarrow> string \<Rightarrow> bool" where
  "is_ctas V sql \<longleftrightarrow>
     (let u = upper V (trim sql) in starts_with u ''CREATE TABLE'' \<and> contains u '' AS '')"

definition ctas_error :: string where
  "ctas_error = ''Invalid CTAS syntax. Expected: CREATE TABLE <name> AS SELECT ...''"

definition create_from_select ::
  "('c, 'd, 's) query_env \<Rightarrow> string \<Rightarrow> query_type \<Rightarrow> string \<Rightarrow> string \<Rightarrow> ('c, 'd, 's) sql_state \<Rightarrow>
   http_result \<times> ('c, 'd, 's) sql_state" where
  "create_from_select V sql qt before_as select_sql st =
     (let rest = (case strip_prefix before_as ''CREATE TABLE'' of
                    Some r \<Rightarrow> r
                  | None \<Rightarrow> (case strip_prefix before_as ''create table'' of Some r \<Rightarrow> r | None \<Rightarrow> before_as));
          table = trim_matches (CHR ''`'') (trim_matches (CHR 0x22) (trim rest))
      in if table = [] \<or> select_sql = [] then (Ok (Inl (400, ctas_error)), st)
         else case ctx_sql (df V) select_sql (ctx st) of
                (Err e, c) \<Rightarrow> (Ok (Inl (400, ''CTAS SELECT failed: '' @ e)), st\<lparr>ctx := c\<rparr>)
              | (Panic, c) \<Rightarrow> (Panic, st\<lparr>ctx := c\<rparr>)
              | (Ok [], c) \<Rightarrow> (Ok (Inl (400, ''CTAS SELECT returned no data'')), st\<lparr>ctx := c\<rparr>)
              | (Ok batches, c) \<Rightarrow>
                  (case df_new_mem_table (df V) batches of
                     Some e \<Rightarrow> (Ok (Inl (500, ''Failed to create table: '' @ e)), st\<lparr>ctx := c\<rparr>)
                   | None \<Rightarrow>
                       (case df_register_batches (df V) table batches c of
                          (Some e, c') \<Rightarrow>
                            (Ok (Inl (500, ''Failed to register table '' @ quote table @ '': '' @ e)), st\<lparr>ctx := c'\<rparr>)
                        | (None, c') \<Rightarrow>
                            let rows = sum_list (map num_rows batches);
                                st1 = record_query
                                  \<lparr>entry_id = new_id V, entry_sql = sql, entry_type = show_query_type qt, entry_rows = rows,
                                   entry_ms = total_time V, entry_time = now_text V, entry_status = ''success'',
                                   entry_error = None, entry_engine = ''DataFusion''\<rparr>
                                  (st\<lparr>ctx := c', query_count := query_count st + 1\<rparr>)
                            in (Ok (Inr
                                  \<lparr>resp_id = new_id V, resp_columns = [''result''],
                                   resp_rows = [jobj [(''result'', JStr (''Table '' @ quote table @ '' created with '' @
                                                                          show_nat rows @ '' rows''))]],
                                   resp_count = 1, resp_type = ''DDL'', resp_ms = total_time V,
                                   resp_parse_ms = Some (parse_time V), resp_exec_ms = Some (exec_time V),
                                   resp_engine = ''DataFusion'', resp_mode = None\<rparr>), st1))))"

definition handle_ctas ::
  "('c, 'd, 's) query_env \<Rightarrow> string \<Rightarrow> query_type \<Rightarrow> ('c, 'd, 's) sql_state \<Rightarrow> http_result \<times> ('c, 'd, 's) sql_state" where
  "handle_ctas V sql qt st =
     (let trimmed = trim sql
      in case find_str (upper V trimmed) '' AS '' of
           None \<Rightarrow> (Ok (Inl (400, ctas_error)), st)
         | Some as_pos \<Rightarrow>
             (case (slice 0 as_pos trimmed, slice (as_pos + 4) (length trimmed) trimmed) of
                (Ok before_as, Ok after_as) \<Rightarrow> create_from_select V sql qt before_as (trim after_as) st
              | _ \<Rightarrow> (Panic, st)))"

section \<open>Time travel\<close>

record time_travel_query =
  tt_table :: string
  tt_ref :: snapshot_ref
  tt_sql :: string

definition last_word :: "string \<Rightarrow> string option" where
  "last_word s = (case rev (split_whitespace s) of [] \<Rightarrow> None | w # _ \<Rightarrow> Some w)"

definition first_word :: "string \<Rightarrow> string option" where
  "first_word s = (case split_whitespace s of [] \<Rightarrow> None | w # _ \<Rightarrow> Some w)"

definition parse_version_travel :: "string \<Rightarrow> nat \<Rightarrow> time_travel_query option result" where
  "parse_version_travel sql pos =
     bind_result (slice 0 pos sql) (\<lambda>front. let before = trim_end front in
       case last_word before of
         None \<Rightarrow> Ok None
       | Some table \<Rightarrow>
           bind_result (slice (pos + 13) (length sql) sql) (\<lambda>rest. let after = trim_start rest in
             Ok (Option.bind (first_word after) (\<lambda>id_str.
                 Option.bind (parse_i64 id_str) (\<lambda>i.
                   Some \<lparr>tt_table = table, tt_ref = ById i,
                         tt_sql = trim (before @ '' '' @ trim_start (unwrap_or [] (strip_prefix after id_str)))\<rparr>)))))"

definition parse_timestamp_text :: "('c, 'd, 's) query_env \<Rightarrow> string \<Rightarrow> int option" where
  "parse_timestamp_text V t =
     (case parse_datetime V ''%Y-%m-%d %H:%M:%S'' t of
        Some ms \<Rightarrow> Some ms
      | None \<Rightarrow> (case parse_datetime V ''%Y-%m-%dT%H:%M:%S'' t of
                  Some ms \<Rightarrow> Some ms
                | None \<Rightarrow> parse_date_end V t))"

definition parse_timestamp_travel :: "('c, 'd, 's) query_env \<Rightarrow> string \<Rightarrow> nat \<Rightarrow> time_travel_query option result" where
  "parse_timestamp_travel V sql pos =
     bind_result (slice 0 pos sql) (\<lambda>front. let before = trim_end front in
       case last_word before of
         None \<Rightarrow> Ok None
       | Some table \<Rightarrow>
           bind_result (slice (pos + 21) (length sql) sql) (\<lambda>rest.
             let after = trim_start rest; quoted = starts_with after [CHR 0x27] in
             Ok (Option.bind (if quoted then map_option (\<lambda>i. take i (tl after)) (find_str (tl after) [CHR 0x27]) else first_word after) (\<lambda>ts.
                 Option.bind (parse_timestamp_text V ts) (\<lambda>ms.
                   Some \<lparr>tt_table = table, tt_ref = ByTimestamp ms,
                         tt_sql = trim (before @ '' '' @ trim_start (drop (if quoted then length ts + 2 else length ts) after))\<rparr>)))))"

definition parse_time_travel :: "('c, 'd, 's) query_env \<Rightarrow> string \<Rightarrow> time_travel_query option result" where
  "parse_time_travel V sql =
     (let uc = upper V sql
      in case find_str uc ''VERSION AS OF'' of
           Some pos \<Rightarrow> parse_version_travel sql pos
         | None \<Rightarrow> (case find_str uc ''FOR SYSTEM_TIME AS OF'' of
                     Some pos \<Rightarrow> parse_timestamp_travel V sql pos
                   | None \<Rightarrow> Ok None))"

fun try_prefixes :: "'s env \<Rightarrow> 's \<Rightarrow> string list \<Rightarrow> table_state option result" where
  "try_prefixes E s [] = Ok None"
| "try_prefixes E s (p # ps) =
     (case find_latest_metadata E s p of
        Panic \<Rightarrow> Panic
      | Ok (Some path) \<Rightarrow>
          (case load_table_state E s path of
             Ok ts \<Rightarrow> Ok (Some ts)
           | Err _ \<Rightarrow> try_prefixes E s ps
           | Panic \<Rightarrow> Panic)
      | _ \<Rightarrow> try_prefixes E s ps)"

text \<open>A configuration whose store cannot be built ends the search.\<close>

fun find_iceberg_table_state :: "'s env \<Rightarrow> (string list \<times> 's option) list \<Rightarrow> string \<Rightarrow> table_state option result" where
  "find_iceberg_table_state E [] table = Ok None"
| "find_iceberg_table_state E ((tables, store) # cfgs) table =
     (if list_ex (\<lambda>t. t = table \<or> ends_with t (''.'' @ table)) tables then
        (case store of
           None \<Rightarrow> Ok None
         | Some s \<Rightarrow>
             (case try_prefixes E s [table, ''cdc/'' @ table, ''warehouse/'' @ table] of
                Ok None \<Rightarrow> find_iceberg_table_state E cfgs table
              | r \<Rightarrow> r))
      else find_iceberg_table_state E cfgs table)"

section \<open>DuckDB and Polars\<close>

definition flat_name :: "string \<Rightarrow> string" where
  "flat_name t = replace_char (CHR ''.'') ''_'' t"

definition references_table :: "('c, 'd, 's) query_env \<Rightarrow> string \<Rightarrow> string \<Rightarrow> bool" where
  "references_table V sql t \<longleftrightarrow>
     contains (upper V sql) (upper V (flat_name t)) \<or> contains (upper V sql) (upper V t)"

definition flatten_names :: "string list \<Rightarrow> string \<Rightarrow> string" where
  "flatten_names tables sql = fold (\<lambda>t s. if contains t ''.'' then replace_str t (flat_name t) s else s) tables sql"

definition tables_or_none :: "'c df_api \<Rightarrow> 'c \<Rightarrow> string list" where
  "tables_or_none D c = (case list_tables D c of Ok ts \<Rightarrow> ts | _ \<Rightarrow> [])"

text \<open>The rows of a table, when the query succeeds and there are any.\<close>

definition fetch_table :: "'c df_api \<Rightarrow> string \<Rightarrow> 'c \<Rightarrow> record_batch list option \<times> 'c" where
  "fetch_table D t c =
     (case df_sql D (''SELECT * FROM '' @ t) c of
        (Inr (Inr bs), c') \<Rightarrow> (if list_ex (\<lambda>b. 0 < num_rows b) bs then Some bs else None, c')
      | (_, c') \<Rightarrow> (None, c'))"

fun fetch_tables :: "'c df_api \<Rightarrow> string list \<Rightarrow> 'c \<Rightarrow> (string \<times> record_batch list) list \<times> 'c" where
  "fetch_tables D [] c = ([], c)"
| "fetch_tables D (t # ts) c =
     (let (bs, c1) = fetch_table D t c; (rest, c2) = fetch_tables D ts c1
      in (case bs of None \<Rightarrow> rest | Some b \<Rightarrow> (flat_name t, b) # rest, c2))"

definition execute_via_duckdb_with_mode ::
  "('c, 'd, 's) query_env \<Rightarrow> string \<Rightarrow> ('c, 'd, 's) sql_state \<Rightarrow> (record_batch list \<times> string) result \<times> ('c, 'd, 's) sql_state" where
  "execute_via_duckdb_with_mode V sql st =
     (case duckdb_engine st of
        None \<Rightarrow> (Err ''DuckDB engine not available'', st)
      | Some d \<Rightarrow>
          let tables = tables_or_none (df V) (ctx st);
              referenced = filter (references_table V sql) tables;
              missing = filter (\<lambda>t. flat_name t \<notin> synced_tables st) referenced;
              (fetched, c) = fetch_tables (df V) missing (ctx st);
              mode = (if referenced = [] then ''direct'' else if fetched = [] \<and> missing = [] then ''cached'' else ''synced'');
              d1 = (if fetched = [] then d else snd (sync_tables (duck_register (duck V)) fetched d));
              (res, d2) = duck_sql (duck V) (flatten_names tables sql) d1;
              st1 = st\<lparr>ctx := c, duckdb_engine := Some d2, synced_tables := synced_tables st \<union> set (map fst fetched)\<rparr>
          in (bind_result res (\<lambda>bs. Ok (bs, mode)), st1))"

definition execute_via_polars_with_mode ::
  "('c, 'd, 's) query_env \<Rightarrow> string \<Rightarrow> ('c, 'd, 's) sql_state \<Rightarrow> (record_batch list \<times> string) result \<times> ('c, 'd, 's) sql_state" where
  "execute_via_polars_with_mode V sql st =
     (case polars_engine st of
        None \<Rightarrow> (Err ''Polars engine not available'', st)
      | Some p \<Rightarrow>
          let tables = tables_or_none (df V) (ctx st);
              (fetched, c) = fetch_tables (df V) (filter (references_table V sql) tables) (ctx st);
              p1 = (if fetched = [] then p else snd (sync_tables (polars_register (df V)) fetched p));
              (res, p2) = polars_sql (df V) (flatten_names tables sql) p1
          in (bind_result res (\<lambda>bs. Ok (bs, if fetched = [] then ''direct'' else ''synced'')),
              st\<lparr>ctx := c, polars_engine := Some p2\<rparr>))"

definition determine_engine :: "('c, 'd, 's) query_env \<Rightarrow> ('c, 'd, 's) sql_state \<Rightarrow> string \<Rightarrow> engine_target \<Rightarrow> string" where
  "determine_engine V st choice recommended =
     (let choice = lower V choice
      in if choice = ''duckdb'' \<and> duckdb_engine st \<noteq> None then ''DuckDB''
         else if choice = ''polars'' \<and> polars_engine st \<noteq> None then ''Polars''
         else if choice = ''datafusion'' then ''DataFusion''
         else if duckdb_engine st \<noteq> None \<and> recommended = DuckDbTarget then ''DuckDB''
         else ''DataFusion'')"

definition execute_on ::
  "('c, 'd, 's) query_env \<Rightarrow> string \<Rightarrow> string \<Rightarrow> ('c, 'd, 's) sql_state \<Rightarrow> (record_batch list \<times> string) result \<times> ('c, 'd, 's) sql_state" where
  "execute_on V engine sql st =
     (if engine = ''DuckDB'' then execute_via_duckdb_with_mode V sql st
      else if engine = ''Polars'' then execute_via_polars_with_mode V sql st
      else let (res, c) = ctx_sql (df V) sql (ctx st) in (bind_result res (\<lambda>bs. Ok (bs, ''direct'')), st\<lparr>ctx := c\<rparr>))"

section \<open>The endpoint\<close>

definition finish_sql_response ::
  "('c, 'd, 's) query_env \<Rightarrow> string \<Rightarrow> query_type \<Rightarrow> string \<Rightarrow> record_batch list \<Rightarrow> nat \<Rightarrow> string \<Rightarrow>
   ('c, 'd, 's) sql_state \<Rightarrow> http_result \<times> ('c, 'd, 's) sql_state" where
  "finish_sql_response V sql qt engine batches exec_ms mode st =
     (case rows_json V batches of
        Inl e \<Rightarrow> (Ok (Inl (500, ''Failed to serialize results: '' @ e)), st)
      | Inr rows \<Rightarrow>
          let columns = (case batches of [] \<Rightarrow> [] | b # _ \<Rightarrow> map field_name (batch_schema b));
              entry = \<lparr>entry_id = new_id V, entry_sql = sql, entry_type = show_query_type qt, entry_rows = length rows,
                       entry_ms = total_time V, entry_time = now_text V, entry_status = ''success'', entry_error = None,
                       entry_engine = engine\<rparr>;
              execution = \<lparr>query_hash = hash_sql V sql, rec_engine = engine, execution_ms = of_nat exec_ms,
                           rows_scanned = of_nat (length rows), rows_returned = of_nat (length rows),
                           bytes_scanned = sum_list (map (batch_memory V) batches), rec_timestamp = instant_now V, rec_sources = []\<rparr>;
              st1 = record_query entry st
          in (Ok (Inr \<lparr>resp_id = new_id V, resp_columns = columns, resp_rows = rows, resp_count = length rows,
                       resp_type = show_query_type qt, resp_ms = total_time V, resp_parse_ms = Some (parse_time V),
                       resp_exec_ms = Some exec_ms, resp_engine = engine, resp_mode = Some mode\<rparr>),
              st1\<lparr>query_profiler := record_execution execution (query_profiler st1)\<rparr>))"

definition record_failure :: "('c, 'd, 's) query_env \<Rightarrow> string \<Rightarrow> query_type \<Rightarrow> string \<Rightarrow> string \<Rightarrow> ('c, 'd, 's) sql_state \<Rightarrow> ('c, 'd, 's) sql_state" where
  "record_failure V sql qt engine e st =
     record_query \<lparr>entry_id = new_id V, entry_sql = sql, entry_type = show_query_type qt, entry_rows = 0, entry_ms = total_time V,
                   entry_time = now_text V, entry_status = ''error'', entry_error = Some e, entry_engine = engine\<rparr> st"

text \<open>The statement after the rewriting: it runs on the chosen engine and, if that is another one and fails,
  on DataFusion.\<close>

definition run_statement ::
  "('c, 'd, 's) query_env \<Rightarrow> string \<Rightarrow> string \<Rightarrow> string \<Rightarrow> query_type \<Rightarrow> ('c, 'd, 's) sql_state \<Rightarrow> http_result \<times> ('c, 'd, 's) sql_state" where
  "run_statement V req_sql sql engine qt st =
     (case execute_on V engine sql st of
        (Panic, st1) \<Rightarrow> (Panic, st1)
      | (Ok (batches, mode), st1) \<Rightarrow>
          finish_sql_response V sql qt engine batches (exec_time V) mode (st1\<lparr>query_count := query_count st1 + 1\<rparr>)
      | (Err e, st1) \<Rightarrow>
          let st2 = st1\<lparr>query_count := query_count st1 + 1\<rparr>
          in if engine = ''DataFusion'' then (Ok (Inl (400, e)), record_failure V req_sql qt engine e st2)
             else case ctx_sql (df V) sql (ctx st2) of
                    (Panic, c) \<Rightarrow> (Panic, st2\<lparr>ctx := c\<rparr>)
                  | (Ok batches, c) \<Rightarrow>
                      finish_sql_response V sql qt ''DataFusion'' batches (fallback_time V) ''direct'' (st2\<lparr>ctx := c\<rparr>)
                  | (Err f, c) \<Rightarrow> (Ok (Inl (400, f)), record_failure V req_sql qt ''DataFusion'' f (st2\<lparr>ctx := c\<rparr>)))"

definition sql_class :: "('c, 'd, 's) query_env \<Rightarrow> string \<Rightarrow> classification_result" where
  "sql_class V sql =
     (case classify_with_engine (sql_parse V) sql of Ok r \<Rightarrow> r | _ \<Rightarrow> \<lparr>class_type = Olap, class_engine = EitherTarget\<rparr>)"

definition spark_rewrite :: "string \<Rightarrow> string" where
  "spark_rewrite sql = (if looks_like_spark_sql sql then translated (translate_spark_sql sql) else sql)"

text \<open>The statement that is run in place of the request: without its time-travel clause when the table and
  the snapshot are found, as it is when no table is found; an error when the snapshot is missing.\<close>

definition time_travel_sql :: "('c, 'd, 's) query_env \<Rightarrow> ('c, 'd, 's) sql_state \<Rightarrow> string \<Rightarrow> string result" where
  "time_travel_sql V st sql =
     bind_result (parse_time_travel V sql) (\<lambda>parsed. case parsed of
        None \<Rightarrow> Ok sql
      | Some tt \<Rightarrow>
          bind_result (find_iceberg_table_state (lake V) (lake_configs st) (tt_table tt))
            (\<lambda>found. case found of
                None \<Rightarrow> Ok sql
              | Some ts \<Rightarrow> bind_result (resolve_snapshot ts (tt_ref tt)) (\<lambda>_. Ok (tt_sql tt))))"

definition execute_sql ::
  "('c, 'd, 's) query_env \<Rightarrow> string \<Rightarrow> string \<Rightarrow> ('c, 'd, 's) sql_state \<Rightarrow> http_result \<times> ('c, 'd, 's) sql_state" where
  "execute_sql V sql engine_choice st =
     (let class = sql_class V sql; qt = class_type class
      in case read_only_target V (read_only_tables st) qt sql of
           Some t \<Rightarrow>
             (Ok (Inl (403, ''Table '' @ quote t @ '' is read-only (migrated from Iceberg catalog). Write operations are '' @
                            ''blocked to protect source data during migration comparison.'')), st)
         | None \<Rightarrow>
             if is_ctas V sql then handle_ctas V sql qt st
             else case time_travel_sql V st sql of
                    Panic \<Rightarrow> (Panic, st)
                  | Err e \<Rightarrow> (Ok (Inl (400, ''Time travel resolution failed: '' @ e)), st)
                  | Ok sql1 \<Rightarrow>
                      run_statement V sql (spark_rewrite sql1) (determine_engine V st engine_choice (class_engine class)) qt st)"

section \<open>Copying on request\<close>

text \<open>The answer of a query over a table, when there is one with any batch.\<close>

definition collected :: "'c df_api \<Rightarrow> string \<Rightarrow> 'c \<Rightarrow> record_batch list option \<times> 'c" where
  "collected D query c =
     (case df_sql D query c of
        (Inr (Inr bs), c') \<Rightarrow> (if bs = [] then None else Some bs, c')
      | (_, c') \<Rightarrow> (None, c'))"

fun collect_tables ::
  "'c df_api \<Rightarrow> (string \<Rightarrow> string) \<Rightarrow> (string \<Rightarrow> string) \<Rightarrow> string list \<Rightarrow> 'c \<Rightarrow> (string \<times> record_batch list) list \<times> 'c" where
  "collect_tables D query copy [] c = ([], c)"
| "collect_tables D query copy (t # ts) c =
     (let (bs, c1) = collected D (query t) c; (rest, c2) = collect_tables D query copy ts c1
      in (case bs of None \<Rightarrow> rest | Some b \<Rightarrow> (copy t, b) # rest, c2))"

definition copy_to_duckdb ::
  "('c, 'd, 's) query_env \<Rightarrow> (string \<times> record_batch list) list \<Rightarrow> ('c, 'd, 's) sql_state \<Rightarrow> ('c, 'd, 's) sql_state" where
  "copy_to_duckdb V data st =
     st\<lparr>duckdb_engine := map_option (\<lambda>d. snd (sync_tables (duck_register (duck V)) data d)) (duckdb_engine st)\<rparr>"

definition copy_to_polars ::
  "('c, 'd, 's) query_env \<Rightarrow> (string \<times> record_batch list) list \<Rightarrow> ('c, 'd, 's) sql_state \<Rightarrow> ('c, 'd, 's) sql_state" where
  "copy_to_polars V data st =
     st\<lparr>polars_engine := map_option (\<lambda>p. snd (sync_tables (polars_register (df V)) data p)) (polars_engine st)\<rparr>"

text \<open>At most 10000 rows of every table are copied, and none is marked as copied.\<close>

definition sync_trino_tables_to_engines ::
  "('c, 'd, 's) query_env \<Rightarrow> string list \<Rightarrow> ('c, 'd, 's) sql_state \<Rightarrow> ('c, 'd, 's) sql_state" where
  "sync_trino_tables_to_engines V tables st =
     (let (data, c) = collect_tables (df V) (\<lambda>t. ''SELECT * FROM '' @ t @ '' LIMIT 10000'') flat_name tables (ctx st);
          st1 = st\<lparr>ctx := c\<rparr>
      in if data = [] then st1 else copy_to_polars V data (copy_to_duckdb V data st1))"

definition engines_sync :: "('c, 'd, 's) query_env \<Rightarrow> ('c, 'd, 's) sql_state \<Rightarrow> nat \<times> ('c, 'd, 's) sql_state" where
  "engines_sync V st =
     (let tables = tables_or_none (df V) (ctx st) in (length tables, sync_trino_tables_to_engines V tables st))"

text \<open>The copies after the bootstrap keep the dots of a name.\<close>

definition sync_tables_to_duckdb :: "('c, 'd, 's) query_env \<Rightarrow> ('c, 'd, 's) sql_state \<Rightarrow> ('c, 'd, 's) sql_state" where
  "sync_tables_to_duckdb V st =
     (if duckdb_engine st = None then st
      else case list_tables (df V) (ctx st) of
             Ok tables \<Rightarrow>
               (let (data, c) = collect_tables (df V) (\<lambda>t. ''SELECT * FROM '' @ double_quote t) (\<lambda>t. t) tables (ctx st)
                in copy_to_duckdb V data (st\<lparr>ctx := c\<rparr>))
           | _ \<Rightarrow> st)"

definition sync_tables_to_polars :: "('c, 'd, 's) query_env \<Rightarrow> ('c, 'd, 's) sql_state \<Rightarrow> ('c, 'd, 's) sql_state" where
  "sync_tables_to_polars V st =
     (if polars_engine st = None then st
      else case list_tables (df V) (ctx st) of
             Ok tables \<Rightarrow>
               (let (data, c) = collect_tables (df V) (\<lambda>t. ''SELECT * FROM '' @ double_quote t) (\<lambda>t. t) tables (ctx st)
                in copy_to_polars V data (st\<lparr>ctx := c\<rparr>))
           | _ \<Rightarrow> st)"

definition requested_format :: "string \<Rightarrow> string \<Rightarrow> file_format option" where
  "requested_format path fmt =
     (if fmt = ''auto'' then
        Some (if ends_with path ''.csv'' then CsvFile
              else if ends_with path ''.json'' \<or> ends_with path ''.ndjson'' then JsonFile else ParquetFile)
      else if fmt = ''parquet'' then Some ParquetFile
      else if fmt = ''csv'' then Some CsvFile
      else if fmt = ''json'' then Some JsonFile
      else None)"

definition register_table ::
  "('c, 'd, 's) query_env \<Rightarrow> string \<Rightarrow> string \<Rightarrow> string \<Rightarrow> ('c, 'd, 's) sql_state \<Rightarrow>
   ((nat \<times> string) + unit) result \<times> ('c, 'd, 's) sql_state" where
  "register_table V n path fmt st =
     (case requested_format path fmt of
        None \<Rightarrow> (Ok (Inl (400, ''Unsupported format: '' @ fmt @ ''. Use '' @ quote ''parquet'' @ '', '' @ quote ''csv'' @
                          '', or '' @ quote ''json'' @ ''.'')), st)
      | Some f \<Rightarrow>
          (case register_file (df V) f n path (ctx st) of
             (Err e, c) \<Rightarrow> (Ok (Inl (500, e)), st\<lparr>ctx := c\<rparr>)
           | (Panic, c) \<Rightarrow> (Panic, st\<lparr>ctx := c\<rparr>)
           | (Ok _, c) \<Rightarrow>
               (case collected (df V) (''SELECT * FROM '' @ double_quote n) c of
                  (None, c') \<Rightarrow> (Ok (Inr ()), st\<lparr>ctx := c'\<rparr>)
                | (Some bs, c') \<Rightarrow>
                    (Ok (Inr ()), copy_to_polars V [(n, bs)] (copy_to_duckdb V [(n, bs)] (st\<lparr>ctx := c'\<rparr>))))))"

section \<open>Frames\<close>

lemma record_query_simps [simp]:
  "ctx (record_query e st) = ctx st" "duckdb_engine (record_query e st) = duckdb_engine st"
  "polars_engine (record_query e st) = polars_engine st" "synced_tables (record_query e st) = synced_tables st"
  "read_only_tables (record_query e st) = read_only_tables st" "query_count (record_query e st) = query_count st"
  "query_profiler (record_query e st) = query_profiler st" "lake_configs (record_query e st) = lake_configs st"
  by (simp_all add: record_query_def Let_def)

lemma record_query_bound: "length (query_history (record_query e st)) \<le> max_query_history"
  by (simp add: record_query_def Let_def)

text \<open>What every part of a request keeps: the history within its bound, a profiler without sources, and the
  names of the tables copied to DuckDB.\<close>

definition sql_inv :: "('c, 'd, 's) sql_state \<Rightarrow> bool" where
  "sql_inv st \<longleftrightarrow> length (query_history st) \<le> max_query_history \<and> untyped_history (query_profiler st) \<and>
     length (execution_history (query_profiler st)) \<le> max_execution_history"

definition good_move :: "('c, 'd, 's) sql_state \<Rightarrow> ('c, 'd, 's) sql_state \<Rightarrow> bool" where
  "good_move st st' \<longleftrightarrow> (sql_inv st \<longrightarrow> sql_inv st') \<and> synced_tables st \<subseteq> synced_tables st' \<and>
     read_only_tables st' = read_only_tables st \<and> lake_configs st' = lake_configs st"

lemma good_move_refl [simp]: "good_move st st"
  by (simp add: good_move_def)

lemma good_move_trans: "good_move st st' \<Longrightarrow> good_move st' st'' \<Longrightarrow> good_move st st''"
  unfolding good_move_def by auto

lemma good_move_ctx [simp]: "good_move st (st\<lparr>ctx := c\<rparr>)" "good_move st (st\<lparr>query_count := n\<rparr>)"
  "good_move st (st\<lparr>ctx := c, query_count := n\<rparr>)"
  by (simp_all add: good_move_def sql_inv_def)

lemma good_move_record: "good_move st st' \<Longrightarrow> good_move st (record_query e st')"
  using record_query_bound [of e st'] by (auto simp: good_move_def sql_inv_def)

lemma good_finish: "good_move st (snd (finish_sql_response V sql qt engine bs ms mode st))"
  using record_query_bound
  by (auto simp: finish_sql_response_def Let_def good_move_def sql_inv_def record_keeps_untyped record_bounds_history
      split: sum.split)

lemma good_duckdb: "good_move st (snd (execute_via_duckdb_with_mode V sql st))"
  by (auto simp: execute_via_duckdb_with_mode_def Let_def good_move_def sql_inv_def split: option.split prod.split)

lemma good_polars: "good_move st (snd (execute_via_polars_with_mode V sql st))"
  by (auto simp: execute_via_polars_with_mode_def Let_def good_move_def sql_inv_def split: option.split prod.split)

lemma good_execute_on: "good_move st (snd (execute_on V engine sql st))"
  by (simp add: execute_on_def good_duckdb good_polars case_prod_beta Let_def)

lemma good_run: "good_move st (snd (run_statement V req sql engine qt st))"
proof -
  obtain r st1 where e: "execute_on V engine sql st = (r, st1)" by (cases "execute_on V engine sql st")
  with good_execute_on [of st V engine sql] have 1: "good_move st st1" by simp
  let ?st2 = "st1\<lparr>query_count := query_count st1 + 1\<rparr>"
  have 2: "good_move st ?st2" by (rule good_move_trans [OF 1]) simp
  note fin = good_move_trans [OF 2 good_finish] good_move_trans [OF good_move_trans [OF 2 good_move_ctx(1)] good_finish]
  note fail = good_move_record [OF 2] good_move_record [OF good_move_trans [OF 2 good_move_ctx(1)]]
  show ?thesis
    using 1 fin fail good_move_trans [OF 2 good_move_ctx(1)]
    by (cases r) (auto simp: run_statement_def e Let_def record_failure_def split: prod.split result.split)
qed

lemma good_ctas: "good_move st (snd (handle_ctas V sql qt st))"
  using good_move_record [OF good_move_ctx(3), of st]
  by (auto simp: handle_ctas_def create_from_select_def Let_def split: option.split prod.split result.split list.split)

lemma good_execute: "good_move st (snd (execute_sql V sql choice st))"
  by (auto simp: execute_sql_def Let_def good_ctas good_run split: option.split result.split)

section \<open>Runs of the server\<close>

text \<open>Requests, each with what clock and engines do at that time; the requests and background tasks that copy
  tables on purpose; changes of the DataFusion session or of the DuckDB connection by other parts of the server;
  tables marked read-only by the migration; and new S3 configurations.\<close>

datatype ('c, 'd, 's) sql_op =
    Sql_Request "('c, 'd, 's) query_env" string string
  | Engines_Sync "('c, 'd, 's) query_env"
  | Sync_Listed "('c, 'd, 's) query_env" "string list"
  | Bootstrap_Sync "('c, 'd, 's) query_env"
  | Register_Table "('c, 'd, 's) query_env" string string string
  | Session_Change 'c
  | Duck_Change "'d \<Rightarrow> 'd"
  | Mark_Read_Only string
  | Configure_Lakes "(string list \<times> 's option) list"

fun sql_step :: "('c, 'd, 's) sql_op \<Rightarrow> ('c, 'd, 's) sql_state \<Rightarrow> ('c, 'd, 's) sql_state" where
  "sql_step (Sql_Request V sql choice) st = snd (execute_sql V sql choice st)"
| "sql_step (Engines_Sync V) st = snd (engines_sync V st)"
| "sql_step (Sync_Listed V tables) st = sync_trino_tables_to_engines V tables st"
| "sql_step (Bootstrap_Sync V) st = sync_tables_to_polars V (sync_tables_to_duckdb V st)"
| "sql_step (Register_Table V n path fmt) st = snd (register_table V n path fmt st)"
| "sql_step (Session_Change c) st = st\<lparr>ctx := c\<rparr>"
| "sql_step (Duck_Change f) st = st\<lparr>duckdb_engine := map_option f (duckdb_engine st)\<rparr>"
| "sql_step (Mark_Read_Only t) st = st\<lparr>read_only_tables := insert t (read_only_tables st)\<rparr>"
| "sql_step (Configure_Lakes cfgs) st = st\<lparr>lake_configs := cfgs\<rparr>"

definition new_sql_state :: "'c \<Rightarrow> 'd option \<Rightarrow> 'c option \<Rightarrow> ('c, 'd, 's) sql_state" where
  "new_sql_state c d p =
     \<lparr>ctx = c, duckdb_engine = d, polars_engine = p, synced_tables = {}, read_only_tables = {}, query_history = [],
      query_count = 0, query_profiler = new_profiler, lake_configs = []\<rparr>"

definition marks_grow :: "('c, 'd, 's) sql_state \<Rightarrow> ('c, 'd, 's) sql_state \<Rightarrow> bool" where
  "marks_grow st st' \<longleftrightarrow> synced_tables st \<subseteq> synced_tables st' \<and> read_only_tables st \<subseteq> read_only_tables st'"

lemma good_copies [simp]:
  "good_move st (copy_to_duckdb V data (st\<lparr>ctx := c\<rparr>))" "good_move st (copy_to_polars V data (st\<lparr>ctx := c\<rparr>))"
  "good_move st (copy_to_polars V data (copy_to_duckdb V data (st\<lparr>ctx := c\<rparr>)))"
  by (simp_all add: good_move_def sql_inv_def copy_to_duckdb_def copy_to_polars_def)

lemma good_sync_listed: "good_move st (sync_trino_tables_to_engines V tables st)"
  by (simp add: sync_trino_tables_to_engines_def Let_def case_prod_beta)

lemma good_duck_sync: "good_move st (sync_tables_to_duckdb V st)"
  by (simp add: sync_tables_to_duckdb_def Let_def case_prod_beta split: result.split)

lemma good_polars_sync: "good_move st (sync_tables_to_polars V st)"
  by (simp add: sync_tables_to_polars_def Let_def case_prod_beta split: result.split)

lemma good_register: "good_move st (snd (register_table V n path fmt st))"
  by (simp add: register_table_def split: option.split prod.split result.split)

lemma good_move_marks: "good_move st st' \<Longrightarrow> (sql_inv st \<longrightarrow> sql_inv st') \<and> marks_grow st st'"
  by (simp add: good_move_def marks_grow_def)

lemma sql_step_good: "(sql_inv st \<longrightarrow> sql_inv (sql_step oper st)) \<and> marks_grow st (sql_step oper st)"
proof (cases oper)
  case (Sql_Request V sql choice)
  then show ?thesis using good_move_marks [OF good_execute] by simp
next
  case (Engines_Sync V)
  then show ?thesis using good_move_marks [OF good_sync_listed] by (simp add: engines_sync_def Let_def)
next
  case (Sync_Listed V tables)
  then show ?thesis using good_move_marks [OF good_sync_listed] by simp
next
  case (Bootstrap_Sync V)
  then show ?thesis using good_move_marks [OF good_move_trans [OF good_duck_sync good_polars_sync]] by simp
next
  case (Register_Table V n path fmt)
  then show ?thesis using good_move_marks [OF good_register] by simp
qed (auto simp: sql_inv_def marks_grow_def)

interpretation sql_server: history_constraint
  "sql_step :: ('c, 'd, 's) sql_op \<Rightarrow> ('c, 'd, 's) sql_state \<Rightarrow> ('c, 'd, 's) sql_state" sql_inv marks_grow "\<lambda>_. True"
proof
  show "marks_grow s s" for s :: "('c, 'd, 's) sql_state" by (simp add: marks_grow_def)
  show "marks_grow s t \<Longrightarrow> marks_grow t u \<Longrightarrow> marks_grow s u" for s t u :: "('c, 'd, 's) sql_state"
    by (auto simp: marks_grow_def)
  show "sql_inv s \<Longrightarrow> sql_inv (sql_step oper s) \<and> marks_grow s (sql_step oper s)" for oper :: "('c, 'd, 's) sql_op" and s
    using sql_step_good by blast
qed

lemma synced_kept: "synced_tables st \<subseteq> synced_tables (fold sql_step ops st)"
proof (induction ops arbitrary: st)
  case (Cons oper ops)
  then show ?case using sql_step_good [of st oper] by (auto simp: marks_grow_def)
qed simp

lemma new_state_inv: "sql_inv (new_sql_state c d p)"
  by (simp add: sql_inv_def new_sql_state_def new_profiler_def untyped_history_def)

lemma server_run: "sql_inv (fold sql_step ops (new_sql_state c d p))"
  using sql_server.run_ok [OF _ new_state_inv, of ops] by (simp add: list_all_iff)

text \<open>C34. The adaptive profiler of the server learns nothing. Whatever requests have been executed since the
  start, with whatever engines, times and results, its recommendation for every statement is DataFusion:
  the server records executions without source types and never stores table statistics. The query
  history and the profiler's history stay within a thousand entries.\<close>

theorem profiler_learns_nothing:
  assumes "''DataFusion'' \<in> set engines"
  shows "primary_engine (recommended_engine
      (profile_query (query_profiler (fold sql_step ops (new_sql_state c d p))) sql engines)) = ''DataFusion'' \<and>
    length (query_history (fold sql_step ops (new_sql_state c d p))) \<le> 1000 \<and>
    length (execution_history (query_profiler (fold sql_step ops (new_sql_state c d p)))) \<le> 1000"
  using untyped_recommends_datafusion [OF _ assms] server_run [of ops c d p]
  unfolding sql_inv_def max_query_history_def max_execution_history_def by blast

section \<open>Copies in DuckDB\<close>

text \<open>The operations that leave DuckDB alone: statements the client sends to DataFusion, whatever they write there,
  changes of the session by other parts of the server, marks and configurations.\<close>

fun avoids_duckdb :: "('c, 'd, 's) sql_op \<Rightarrow> bool" where
  "avoids_duckdb (Sql_Request V sql choice) \<longleftrightarrow> lower V choice = ''datafusion''"
| "avoids_duckdb (Session_Change c) \<longleftrightarrow> True"
| "avoids_duckdb (Mark_Read_Only t) \<longleftrightarrow> True"
| "avoids_duckdb (Configure_Lakes cfgs) \<longleftrightarrow> True"
| "avoids_duckdb _ \<longleftrightarrow> False"

lemma ctas_keeps_duckdb: "duckdb_engine (snd (handle_ctas V sql qt st)) = duckdb_engine st"
  by (simp add: handle_ctas_def create_from_select_def Let_def split: option.split prod.split result.split list.split)

lemma finish_keeps_duckdb: "duckdb_engine (snd (finish_sql_response V sql qt engine bs ms mode st)) = duckdb_engine st"
  by (simp add: finish_sql_response_def Let_def split: sum.split)

lemma run_keeps_duckdb: "duckdb_engine (snd (run_statement V req sql ''DataFusion'' qt st)) = duckdb_engine st"
proof -
  obtain r c where "ctx_sql (df V) sql (ctx st) = (r, c)" by fastforce
  then have "execute_on V ''DataFusion'' sql st = (bind_result r (\<lambda>bs. Ok (bs, ''direct'')), st\<lparr>ctx := c\<rparr>)"
    by (simp add: execute_on_def)
  then show ?thesis
    by (cases r) (simp_all add: run_statement_def finish_keeps_duckdb record_failure_def Let_def)
qed

lemma avoids_keeps_duckdb: "avoids_duckdb oper \<Longrightarrow> duckdb_engine (sql_step oper st) = duckdb_engine st"
proof (cases oper)
  case (Sql_Request V sql choice)
  assume "avoids_duckdb oper"
  then have "determine_engine V st choice e = ''DataFusion''" for e by (simp add: Sql_Request determine_engine_def)
  then show ?thesis
    by (auto simp: Sql_Request execute_sql_def Let_def ctas_keeps_duckdb run_keeps_duckdb split: option.split result.split)
qed simp_all

lemma avoid_run_keeps_duckdb: "list_all avoids_duckdb ops \<Longrightarrow> duckdb_engine (fold sql_step ops st) = duckdb_engine st"
  by (induction ops arbitrary: st) (simp_all add: avoids_keeps_duckdb)

lemma execute_duckdb_cached:
  assumes "tables_or_none (df V) (ctx st) = tables_or_none (df V) (ctx st')" and "duckdb_engine st' = duckdb_engine st"
    and "\<forall>t \<in> set (tables_or_none (df V) (ctx st)). references_table V sql t \<longrightarrow> flat_name t \<in> synced_tables st"
    and "synced_tables st \<subseteq> synced_tables st'"
  shows "fst (execute_via_duckdb_with_mode V sql st') = fst (execute_via_duckdb_with_mode V sql st)"
proof -
  have "filter (\<lambda>t. flat_name t \<notin> synced_tables s) (filter (references_table V sql) (tables_or_none (df V) (ctx s))) = []"
    if "s = st \<or> s = st'" for s using assms that by (auto simp: filter_empty_conv)
  from this [of st] this [of st'] show ?thesis
    using assms(1,2) by (simp add: execute_via_duckdb_with_mode_def Let_def case_prod_beta split: option.split)
qed

lemma execute_sql_duckdb:
  assumes "unicode_case ascii_lower (lower V)" and "class_type (sql_class V sql) \<notin> {Ddl, Dml}" and "\<not> is_ctas V sql"
    and "parse_time_travel V sql = Ok None" and "duckdb_engine st = Some d"
    and "execute_via_duckdb_with_mode V (spark_rewrite sql) st = (Ok (bs, mode), st1)"
  shows "execute_sql V sql ''duckdb'' st =
    finish_sql_response V (spark_rewrite sql) (class_type (sql_class V sql)) ''DuckDB'' bs (exec_time V) mode
      (st1\<lparr>query_count := query_count st1 + 1\<rparr>)"
proof -
  have "ascii_str ''duckdb''" by code_simp
  from to_lowercase_ascii [OF assms(1) this] have "lower V ''duckdb'' = to_lowercase ''duckdb''" .
  also have "\<dots> = ''duckdb''" by code_simp
  finally have "determine_engine V st ''duckdb'' e = ''DuckDB''" for e using assms(5) by (simp add: determine_engine_def)
  moreover have "read_only_target V (read_only_tables st) (class_type (sql_class V sql)) sql = None"
    using assms(2) by (simp add: read_only_target_def)
  ultimately show ?thesis using assms
    by (simp add: execute_sql_def Let_def time_travel_sql_def run_statement_def execute_on_def)
qed

lemma finish_response_cong:
  "fst (finish_sql_response V sql qt engine bs ms mode st) = fst (finish_sql_response V sql qt engine bs ms mode st')"
  by (simp add: finish_sql_response_def Let_def split: sum.split)

text \<open>C31. Once the tables of a query have been copied to DuckDB by a request, its answers there no longer follow the
  data. Let any statements be run on DataFusion, CREATE TABLE AS and inserts included, and the session be changed
  by other parts of the server in between: as long as the session lists the same table names, the query is
  answered on DuckDB exactly as before. And no operation whatever, an engine sync or a registration
  included, takes the mark away that keeps later requests from copying again.\<close>

theorem duckdb_copies_go_stale:
  assumes "unicode_case ascii_lower (lower V)" and "class_type (sql_class V sql) \<notin> {Ddl, Dml}" and "\<not> is_ctas V sql"
    and "parse_time_travel V sql = Ok None"
    and "\<forall>t \<in> set (tables_or_none (df V) (ctx st)). references_table V (spark_rewrite sql) t \<longrightarrow> flat_name t \<in> synced_tables st"
    and "is_ok (fst (execute_via_duckdb_with_mode V (spark_rewrite sql) st))"
    and "list_all avoids_duckdb ops" and "st' = fold sql_step ops st"
    and "tables_or_none (df V) (ctx st) = tables_or_none (df V) (ctx st')"
  shows "fst (execute_sql V sql ''duckdb'' st') = fst (execute_sql V sql ''duckdb'' st) \<and>
    synced_tables st \<subseteq> synced_tables (fold sql_step later st)"
proof
  obtain d where d: "duckdb_engine st = Some d"
    using assms(6) by (cases "duckdb_engine st") (simp_all add: execute_via_duckdb_with_mode_def)
  have d': "duckdb_engine st' = duckdb_engine st" unfolding assms(8) by (rule avoid_run_keeps_duckdb [OF assms(7)])
  obtain bs mode where ok: "fst (execute_via_duckdb_with_mode V (spark_rewrite sql) st) = Ok (bs, mode)"
    using assms(6) by (cases "fst (execute_via_duckdb_with_mode V (spark_rewrite sql) st)") auto
  moreover have "fst (execute_via_duckdb_with_mode V (spark_rewrite sql) st') =
      fst (execute_via_duckdb_with_mode V (spark_rewrite sql) st)"
    by (rule execute_duckdb_cached [OF assms(9) d' assms(5)]) (simp add: assms(8) synced_kept)
  ultimately obtain st1 st2 where
    "execute_via_duckdb_with_mode V (spark_rewrite sql) st = (Ok (bs, mode), st1)"
    "execute_via_duckdb_with_mode V (spark_rewrite sql) st' = (Ok (bs, mode), st2)"
    by (metis prod.collapse)
  then show "fst (execute_sql V sql ''duckdb'' st') = fst (execute_sql V sql ''duckdb'' st)"
    using execute_sql_duckdb [OF assms(1-4)] d d' by (metis finish_response_cong)
  show "synced_tables st \<subseteq> synced_tables (fold sql_step later st)" by (rule synced_kept)
qed

section \<open>Time travel\<close>

text \<open>A time-travel request reads the current data. Two requests that differ only in the snapshot they ask
  for, both of which exist, get the same answer, that of the statement without the clause.\<close>

theorem time_travel_ignores_snapshot:
  assumes "read_only_target V (read_only_tables st) (class_type (sql_class V sql1)) sql1 = None"
    and "read_only_target V (read_only_tables st) (class_type (sql_class V sql2)) sql2 = None"
    and "\<not> is_ctas V sql1" and "\<not> is_ctas V sql2" and "sql_class V sql1 = sql_class V sql2"
    and "parse_time_travel V sql1 = Ok (Some tt)" and "parse_time_travel V sql2 = Ok (Some tt2)" and "tt_sql tt = tt_sql tt2"
    and "find_iceberg_table_state (lake V) (lake_configs st) (tt_table tt) = Ok (Some ts1)" and "is_ok (resolve_snapshot ts1 (tt_ref tt))"
    and "find_iceberg_table_state (lake V) (lake_configs st) (tt_table tt2) = Ok (Some ts2)" and "is_ok (resolve_snapshot ts2 (tt_ref tt2))"
  shows "fst (execute_sql V sql1 choice st) = fst (execute_sql V sql2 choice st)"
proof -
  have t: "time_travel_sql V st sql1 = Ok (tt_sql tt)" "time_travel_sql V st sql2 = Ok (tt_sql tt2)"
    using assms(6-) by (auto simp: time_travel_sql_def is_ok_def split: result.splits)
  have "fst (run_statement V sql1 s e qt st) = fst (run_statement V sql2 s e qt st)" for s e qt
    by (auto simp: run_statement_def Let_def split: prod.split result.split)
  then show ?thesis using assms t by (simp add: execute_sql_def Let_def)
qed

section \<open>Writes to read-only tables\<close>

lemma ident_upper: "is_ident_char c \<Longrightarrow> is_ident_char (ascii_upper c)"
  by (auto simp: is_ident_char_def ascii_upper_def Let_def)

lemma lower_upper: "ascii_lower (ascii_upper c) = ascii_lower c"
  by (auto simp: ascii_lower_def ascii_upper_def Let_def)

lemma lower_of_upper [simp]: "to_lowercase (to_uppercase n) = to_lowercase n"
  by (simp add: to_lowercase_def to_uppercase_def lower_upper comp_def)

lemma upper_append: "to_uppercase (a @ b) = to_uppercase a @ to_uppercase b"
  by (simp add: to_uppercase_def)

lemma ident_no_space: "is_ident_char c \<Longrightarrow> \<not> is_space c"
  by (auto simp: is_ident_char_def is_space_def Let_def)

lemma ident_alphanumeric: "alphanumeric other [c] \<or> c = CHR ''_'' \<longleftrightarrow> is_ident_char c"
  by (auto simp: alphanumeric_def ascii_alphanumeric_def is_ident_char_def Let_def)

lemma trim_end_append: "a \<noteq> [] \<Longrightarrow> \<not> is_space (last a) \<Longrightarrow> trim_end (a @ b) = a @ trim_end b"
proof (induction b rule: rev_induct)
  case Nil
  then show ?case by (cases a rule: rev_cases) (simp_all add: trim_end_def)
next
  case (snoc x b)
  then show ?case by (auto simp: trim_end_def)
qed

lemma trim_append: "a \<noteq> [] \<Longrightarrow> \<not> is_space (hd a) \<Longrightarrow> \<not> is_space (last a) \<Longrightarrow> trim (a @ b) = a @ trim_end b"
  by (cases a) (simp_all add: trim_def trim_start_def trim_end_append [of "_ # _", simplified])

lemma trim_lead: "list_all is_space w \<Longrightarrow> trim (w @ s) = trim s"
  by (induction w) (simp_all add: trim_def trim_start_def)

lemma trim_end_hd: "trim_end b = [] \<or> (b \<noteq> [] \<and> hd (trim_end b) = hd b)"
proof -
  have "b = trim_end b @ rev (takeWhile is_space (rev b))" by (simp add: trim_end_def flip: rev_append)
  then show ?thesis by (metis append_is_Nil_conv hd_append2)
qed

text \<open>The verbs of the statements that write, in upper case, and what the SQL parser makes of such a statement.\<close>

definition write_statements :: "(string \<times> sql_statement) list" where
  "write_statements =
     [(''INSERT INTO '', Insert), (''UPDATE '', Update), (''DELETE FROM '', Delete), (''ALTER TABLE '', AlterTable),
      (''DROP TABLE IF EXISTS '', Drop), (''DROP TABLE '', Drop)]"

text \<open>A name as the statement may write it, plain or with its schema and dots, and the end of a name.\<close>

definition dotted_name :: "string \<Rightarrow> bool" where
  "dotted_name n \<longleftrightarrow> n \<noteq> [] \<and> list_all (\<lambda>c. is_ident_char c \<or> c = CHR ''.'') n"

definition name_ends :: "string \<Rightarrow> bool" where
  "name_ends r \<longleftrightarrow> r = [] \<or> \<not> is_ident_char (hd r) \<and> hd r \<noteq> CHR ''.''"

lemma dotted_name_upper: "dotted_name n \<Longrightarrow> dotted_name (to_uppercase n)"
  using ident_upper by (fastforce simp: dotted_name_def to_uppercase_def list_all_iff ascii_upper_def)

lemma dotted_name_takeWhile:
  "dotted_name n \<Longrightarrow> name_ends r \<Longrightarrow> takeWhile (\<lambda>c. is_ident_char c \<or> c = CHR ''.'') (n @ r) = n"
  by (cases r) (auto simp: dotted_name_def name_ends_def list_all_iff)

lemma target_name_ascii:
  assumes "ascii_str s"
  shows "target_name V s = takeWhile (\<lambda>c. is_ident_char c \<or> c = CHR ''.'') s"
proof -
  have "concat (map (\<lambda>c. [c]) s) = s" for s :: string by (induction s) simp_all
  moreover have "(\<lambda>x. alphanumeric (other_alnum V) x \<or> x = ''_'' \<or> x = ''.'') \<circ> (\<lambda>c. [c]) =
      (\<lambda>c. is_ident_char c \<or> c = CHR ''.'')"
    using ident_alphanumeric by (auto simp: fun_eq_iff)
  ultimately show ?thesis
    unfolding target_name_def utf8_chars_ascii [OF assms] takeWhile_map by simp
qed

lemma target_name_append:
  "ascii_str (n @ r) \<Longrightarrow> dotted_name n \<Longrightarrow> name_ends r \<Longrightarrow> target_name V (n @ r) = n"
  by (simp only: target_name_ascii dotted_name_takeWhile)

lemma if_exists_name:
  assumes "dotted_name n" "name_ends r" "n @ r = ''IF EXISTS '' @ x"
  shows "n = ''IF''"
proof -
  have "n = takeWhile (\<lambda>c. is_ident_char c \<or> c = CHR ''.'') (''IF EXISTS '' @ x)"
    unfolding assms(3) [symmetric] using dotted_name_takeWhile [OF assms(1,2)] by simp
  then show ?thesis by (simp add: is_ident_char_def)
qed

lemma write_target:
  assumes "(kw, s) \<in> set write_statements" and "ascii_str (n @ r)" "dotted_name n" "name_ends r"
    and "kw = ''DROP TABLE '' \<Longrightarrow> n \<noteq> ''IF''"
  shows "extract_target_table V (kw @ n @ r) = Some n"
proof -
  have n: "n \<noteq> []" using assms(3) by (simp add: dotted_name_def)
  note t = target_name_append [OF assms(2-4)]
  have no: "strip_prefix (''DROP TABLE '' @ n @ r) ''DROP TABLE IF EXISTS '' = None" if "kw = ''DROP TABLE ''"
    using if_exists_name [OF assms(3,4)] assms(5) [OF that]
    by (cases "strip_prefix (''DROP TABLE '' @ n @ r) ''DROP TABLE IF EXISTS ''") (auto dest!: strip_prefix_Some)
  have yes: "strip_prefix (k @ n @ r) k = Some (n @ r)" for k by simp
  have "list_all (\<lambda>(k, _). k = ''DROP TABLE '' \<or> extract_target_table V (k @ n @ r) = Some n) write_statements"
    by (simp add: write_statements_def extract_target_table_def target_patterns_def strip_prefix_def t n)
  then have "kw = ''DROP TABLE '' \<or> extract_target_table V (kw @ n @ r) = Some n"
    using assms(1) unfolding list_all_iff by fast
  moreover have "extract_target_table V (kw @ n @ r) = Some n" if kw: "kw = ''DROP TABLE ''"
    using no [OF kw] yes [of "''DROP TABLE ''"]
    unfolding kw extract_target_table_def target_patterns_def first_target.simps
    by (simp add: strip_prefix_def t n)
  ultimately show ?thesis by blast
qed

lemma write_verb_start:
  assumes "(to_uppercase kw, s) \<in> set write_statements"
  shows "kw \<noteq> [] \<and> \<not> is_space (hd kw)"
proof -
  have "to_uppercase kw \<noteq> [] \<and> \<not> is_space (hd (to_uppercase kw))"
    using assms by (auto simp: write_statements_def is_space_def)
  then show ?thesis by (cases kw) (auto simp: to_uppercase_def ascii_upper_def is_space_def Let_def)
qed

lemma upper_write:
  assumes "unicode_case ascii_upper (upper V)" and "list_all is_space lead" "ascii_str (kw @ n @ r)" "dotted_name n" "name_ends r"
    and "(to_uppercase kw, s) \<in> set write_statements"
  obtains r' where "upper V (trim (lead @ kw @ n @ r)) = to_uppercase kw @ to_uppercase n @ r'" "name_ends r'"
    "ascii_str (to_uppercase n @ r')"
proof
  note kw = write_verb_start [OF assms(6)]
  have dot: "\<not> is_space (CHR ''.'')" by (simp add: is_space_def)
  have "\<not> is_space c" if "c \<in> set n" for c
    using assms(4) that dot ident_no_space [of c] unfolding dotted_name_def list_all_iff by blast
  then have n: "n \<noteq> []" "\<not> is_space (last n)" using assms(4) by (simp_all add: dotted_name_def)
  have t: "trim (lead @ kw @ n @ r) = (kw @ n) @ trim_end r"
    unfolding trim_lead [OF assms(2)] using kw n trim_append [of "kw @ n" r] by simp
  have a: "ascii_str ((kw @ n) @ trim_end r)"
    unfolding t [symmetric] trim_lead [OF assms(2)] using ascii_str_subset [OF assms(3) set_trim] .
  show "upper V (trim (lead @ kw @ n @ r)) = to_uppercase kw @ to_uppercase n @ to_uppercase (trim_end r)"
    unfolding t using to_uppercase_ascii [OF assms(1) a] by (simp add: upper_append)
  have "\<not> is_ident_char (ascii_upper c)" "ascii_upper c \<noteq> CHR ''.''" if "\<not> is_ident_char c" "c \<noteq> CHR ''.''" for c
    using that by (auto simp: is_ident_char_def ascii_upper_def Let_def)
  then show "name_ends (to_uppercase (trim_end r))"
    using assms(5) trim_end_hd [of r] by (auto simp: name_ends_def to_uppercase_def hd_map)
  show "ascii_str (to_uppercase n @ to_uppercase (trim_end r))"
    using a ascii_to_uppercase [of n] ascii_to_uppercase [of "trim_end r"] by simp
qed

lemma written_target:
  assumes "unicode_case ascii_upper (upper V)" and "list_all is_space lead" "ascii_str (kw @ n @ r)" "dotted_name n" "name_ends r"
    and "(to_uppercase kw, s) \<in> set write_statements" and "to_uppercase kw = ''DROP TABLE '' \<Longrightarrow> to_uppercase n \<noteq> ''IF''"
  shows "extract_target_table V (upper V (trim (lead @ kw @ n @ r))) = Some (to_uppercase n)"
  using upper_write [OF assms(1-6)] write_target [OF assms(6) _ dotted_name_upper [OF assms(4)] _ assms(7)] by metis

lemma lower_target:
  assumes "unicode_case ascii_lower (lower V)" and "ascii_str n"
  shows "lower V (to_uppercase n) = lower V n"
  using to_lowercase_ascii [OF assms(1) ascii_to_uppercase [OF assms(2)]] to_lowercase_ascii [OF assms] by simp

lemma write_class:
  "sql_parse V sql = Inr (Statement s # stmts) \<Longrightarrow> (kw, s) \<in> set write_statements \<Longrightarrow>
   class_type (sql_class V sql) \<in> {Ddl, Dml}"
  by (auto simp: sql_class_def classify_with_engine_def classify_def write_statements_def)

lemma write_read_only:
  assumes "unicode_case ascii_upper (upper V)" "unicode_case ascii_lower (lower V)"
    and "list_all is_space lead" "ascii_str (kw @ n @ r)" "dotted_name n" "name_ends r"
    and "(to_uppercase kw, s) \<in> set write_statements" and "to_uppercase kw = ''DROP TABLE '' \<Longrightarrow> to_uppercase n \<noteq> ''IF''"
    and "qt \<in> {Ddl, Dml}" and "names_read_only V ro n"
  shows "read_only_target V ro qt (lead @ kw @ n @ r) = Some (to_uppercase n)"
proof -
  have "ascii_str n" using assms(4) by simp
  then have "names_read_only V ro (to_uppercase n)"
    using assms(10) lower_target [OF assms(2)] by (simp add: names_read_only_def)
  moreover from this have "ro \<noteq> {}" by (auto simp: names_read_only_def)
  ultimately show ?thesis
    using assms(9) written_target [OF assms(1,3-8)] by (auto simp: read_only_target_def)
qed

lemma run_never_403: "fst (run_statement V req sql engine qt st) \<noteq> Ok (Inl (403, e))"
  by (auto simp: run_statement_def finish_sql_response_def Let_def split: prod.split result.split sum.split)

lemma ctas_never_403: "fst (handle_ctas V sql qt st) \<noteq> Ok (Inl (403, e))"
  by (auto simp: handle_ctas_def create_from_select_def Let_def split: option.split prod.split result.split list.split)

lemma unguarded_never_403:
  assumes "class_type (sql_class V sql) \<notin> {Ddl, Dml}"
  shows "fst (execute_sql V sql choice st) \<noteq> Ok (Inl (403, e))"
proof -
  have "read_only_target V (read_only_tables st) (class_type (sql_class V sql)) sql = None"
    using assms by (simp add: read_only_target_def)
  then show ?thesis
    by (auto simp: execute_sql_def Let_def run_never_403 ctas_never_403 split: result.split)
qed

text \<open>C30. Writes to read-only tables. An ASCII statement that starts with \<open>INSERT INTO\<close>, \<open>UPDATE\<close>, \<open>DELETE FROM\<close>,
  \<open>ALTER TABLE\<close>, \<open>DROP TABLE\<close> or \<open>DROP TABLE IF EXISTS\<close>, in any case, that the parser reads as what it says, and
  that names a read-only table right after it, in any case and with or without its schema, is refused with status
  403, on every engine, and nothing in the state of the server changes. A statement that the parser reads as
  none of the kinds the classifier knows, such as \<open>TRUNCATE\<close>, is never refused so, whatever it names.\<close>

theorem read_only_write_is_refused:
  assumes "unicode_case ascii_upper (upper V)" and "unicode_case ascii_lower (lower V)"
    and "list_all is_space lead" and "ascii_str (kw @ n @ rest)" and "dotted_name n" and "name_ends rest"
    and "(to_uppercase kw, s) \<in> set write_statements" and "to_uppercase kw = ''DROP TABLE '' \<Longrightarrow> to_uppercase n \<noteq> ''IF''"
    and "sql_parse V (lead @ kw @ n @ rest) = Inr (Statement s # stmts)"
    and "names_read_only V (read_only_tables st) n"
  shows "(\<exists>e. execute_sql V (lead @ kw @ n @ rest) choice st = (Ok (Inl (403, e)), st)) \<and>
    (\<forall>sql stmts e. sql_parse V sql = Inr (Statement OtherStatement # stmts) \<longrightarrow>
       fst (execute_sql V sql choice st) \<noteq> Ok (Inl (403, e)))"
proof
  show "\<exists>e. execute_sql V (lead @ kw @ n @ rest) choice st = (Ok (Inl (403, e)), st)"
    using write_read_only [OF assms(1-8) write_class [OF assms(9,7)] assms(10)] by (simp add: execute_sql_def Let_def)
  have "class_type (sql_class V sql) \<notin> {Ddl, Dml}" if "sql_parse V sql = Inr (Statement OtherStatement # stmts)" for sql stmts
    using that by (simp add: sql_class_def classify_with_engine_def classify_def)
  then show "\<forall>sql stmts e. sql_parse V sql = Inr (Statement OtherStatement # stmts) \<longrightarrow>
       fst (execute_sql V sql choice st) \<noteq> Ok (Inl (403, e))"
    using unguarded_never_403 by blast
qed

section \<open>CREATE TABLE AS SELECT\<close>

definition plain_name :: "string \<Rightarrow> bool" where
  "plain_name n \<longleftrightarrow> n \<noteq> [] \<and> list_all is_ident_char n"

lemma plain_name_upper: "plain_name n \<Longrightarrow> plain_name (to_uppercase n)"
  by (auto simp: plain_name_def to_uppercase_def list_all_iff ident_upper)

lemma plain_name_ascii: "plain_name n \<Longrightarrow> ascii_str n"
proof -
  have "(of_char c :: nat) < 128" if "is_ident_char c" for c using that by (auto simp: is_ident_char_def Let_def)
  then show "plain_name n \<Longrightarrow> ascii_str n" by (auto simp: plain_name_def ascii_str_def list_all_iff)
qed

lemma create_has_no_target: "extract_target_table V (''CREATE TABLE'' @ r) = None"
  by (simp add: extract_target_table_def target_patterns_def strip_prefix_def)

lemma find_as:
  assumes "plain_name n" "n \<noteq> ''AS''"
  shows "find_str (''CREATE TABLE '' @ n @ '' AS '' @ q) '' AS '' = Some (13 + length n)"
proof -
  obtain c cs where n: "n = c # cs" "is_ident_char c" "\<forall>x \<in> set cs. is_ident_char x"
    using assms(1) by (cases n) (auto simp: plain_name_def list_all_iff)
  have sp: "\<not> is_ident_char (CHR '' '')" by (simp add: is_ident_char_def)
  have skip: "find_str (xs @ '' AS '' @ q) '' AS '' = Some (length xs)" if "\<forall>x \<in> set xs. is_ident_char x" for xs
    using that sp by (induction xs) auto
  have "\<not> prefix '' AS '' (CHR '' '' # n @ '' AS '' @ q)"
  proof
    assume "prefix '' AS '' (CHR '' '' # n @ '' AS '' @ q)"
    then obtain z where z: "n @ '' AS '' @ q = ''AS '' @ z" by (auto simp: prefix_def)
    with n sp assms(2) show False
      by (cases cs; cases "tl cs") (auto simp: n)
  qed
  then show ?thesis using skip [of n] n(2,3) unfolding n(1) by (simp add: n(1))
qed

lemma trim_plain:
  assumes "plain_name n"
  shows "trim ('' '' @ n) = n" "trim_matches (CHR ''`'') n = n" "trim_matches (CHR 0x22) n = n"
proof -
  have h: "n \<noteq> []" "is_ident_char (hd n)" "is_ident_char (last n)" using assms by (auto simp: plain_name_def list_all_iff)
  then have sp: "\<not> is_space (hd n)" "\<not> is_space (last n)" by (simp_all add: ident_no_space)
  have b: "is_space (CHR '' '')" by (simp add: is_space_def)
  have "trim n = n" using trim_append [OF h(1) sp, of "[]"] by (simp add: trim_end_def)
  then show "trim ('' '' @ n) = n" using b by (simp add: trim_def trim_start_def)
  have keep: "trim_matches c n = n" if "\<not> is_ident_char c" for c
  proof -
    have "c \<noteq> hd n" "c \<noteq> last n" using that h by auto
    moreover have "dropWhile P xs = xs" if "xs \<noteq> []" "\<not> P (hd xs)" for P and xs :: string using that by (cases xs) simp_all
    ultimately show ?thesis using h(1) by (simp add: trim_matches_def hd_rev)
  qed
  show "trim_matches (CHR ''`'') n = n" "trim_matches (CHR 0x22) n = n" by (rule keep; simp add: is_ident_char_def)+
qed

text \<open>\<open>CREATE TABLE n AS q\<close> is never refused, also when \<open>n\<close> is read-only: whenever the query has an answer
  with at least one batch and the engine accepts it, the answer is registered in DataFusion under the
  name \<open>n\<close>, in place of the protected table.\<close>

theorem ctas_ignores_read_only:
  assumes "unicode_case ascii_upper (upper V)" and "ascii_str q"
    and "plain_name n" and "to_uppercase n \<noteq> ''AS''" and "trim q = q" and "q \<noteq> []"
    and "ctx_sql (df V) q (ctx st) = (Ok (b # bs), c)" and "df_new_mem_table (df V) (b # bs) = None"
    and "df_register_batches (df V) n (b # bs) c = (None, c')"
  shows "\<exists>resp. fst (execute_sql V (''CREATE TABLE '' @ n @ '' AS '' @ q) choice st) = Ok (Inr resp) \<and>
    ctx (snd (execute_sql V (''CREATE TABLE '' @ n @ '' AS '' @ q) choice st)) = c'"
proof -
  let ?sql = "''CREATE TABLE '' @ n @ '' AS '' @ q"
  have lastq: "\<not> is_space (last q)"
  proof -
    have "q = trim_end (trim_start q)" using assms(5) by (simp add: trim_def)
    then have "dropWhile is_space (rev (trim_start q)) = rev q" by (metis rev_swap trim_end_def)
    then show ?thesis using assms(6) hd_dropWhile [of is_space "rev (trim_start q)"] by (simp add: hd_rev)
  qed
  have c: "\<not> is_space (CHR ''C'')" by (simp add: is_space_def)
  have t: "trim ?sql = ?sql"
    using trim_append [of ?sql "[]"] assms(6) lastq c by (simp add: trim_end_def)
  have "ascii_str ''CREATE TABLE ''" "ascii_str '' AS ''" by code_simp+
  then have a: "ascii_str ?sql" using assms(2) plain_name_ascii [OF assms(3)] unfolding ascii_str_append by simp
  have up: "upper V ?sql = ''CREATE TABLE '' @ to_uppercase n @ '' AS '' @ to_uppercase q"
    unfolding to_uppercase_ascii [OF assms(1) a] by (simp add: to_uppercase_def ascii_upper_def)
  have pos: "find_str (upper V ?sql) '' AS '' = Some (13 + length n)"
    unfolding up using find_as [OF plain_name_upper [OF assms(3)] assms(4), of "to_uppercase q"] by simp
  have "read_only_target V (read_only_tables st) (class_type (sql_class V ?sql)) ?sql = None"
    unfolding read_only_target_def t up using create_has_no_target [of V "'' '' @ to_uppercase n @ '' AS '' @ to_uppercase q"]
    by simp
  moreover have "starts_with (upper V ?sql) ''CREATE TABLE''" unfolding up starts_with_def by simp
  then have "is_ctas V ?sql" unfolding is_ctas_def t Let_def contains_def pos by (intro conjI) simp_all
  ultimately have e: "execute_sql V ?sql choice st = handle_ctas V ?sql (class_type (sql_class V ?sql)) st"
    by (simp add: execute_sql_def Let_def)
  have split: "?sql = (''CREATE TABLE '' @ n) @ '' AS '' @ q" by simp
  have parts: "take (length x) (x @ y @ z) = x" "drop (length x + length y) (x @ y @ z) = z" for x y z :: string by simp_all
  have l: "13 + length n + 4 = length (''CREATE TABLE '' @ n) + length '' AS ''" "13 + length n = length (''CREATE TABLE '' @ n)" by simp_all
  have len: "13 + length n + 4 + length q = length ?sql" by simp
  have before: "slice 0 (13 + length n) ?sql = Ok (''CREATE TABLE'' @ '' '' @ n)"
  proof -
    have "take (13 + length n) ?sql = ''CREATE TABLE'' @ '' '' @ n" unfolding split l(2) parts by simp
    then show ?thesis unfolding ascii_slice [OF a] using len by simp
  qed
  have after: "slice (13 + length n + 4) (length ?sql) ?sql = Ok q"
  proof -
    have d: "drop (13 + length n + 4) ?sql = q" unfolding split l(1) parts ..
    have "take (length ?sql - (13 + length n + 4)) q = q" using len by simp
    then show ?thesis unfolding ascii_slice [OF a] d using len by simp
  qed
  show ?thesis
    unfolding e handle_ctas_def create_from_select_def Let_def t pos option.case before after prod.case result.case
      strip_prefix_append trim_plain [OF assms(3)] assms(5)
    using assms(3,6,7,8,9) by (simp add: plain_name_def)
qed

section \<open>Instances\<close>

text \<open>A server whose session and whose DuckDB are row counts: every query answers with one batch of that many
  rows, there is one table \<open>t\<close>, and the lake holds one document with two snapshots.\<close>

definition counted_batch :: "nat \<Rightarrow> record_batch" where
  "counted_batch n = \<lparr>batch_schema = [], batch_columns = [], num_rows = n\<rparr>"

definition demo_df :: "nat df_api" where
  "demo_df =
     \<lparr>df_sql = \<lambda>_ c. (Inr (Inr [counted_batch c]), c), df_has_table = \<lambda>_ _. False, df_register_file = \<lambda>_ _ _ c. (None, c),
      df_new_mem_table = \<lambda>_. None, df_register_batches = \<lambda>_ _ c. (None, c + 1), df_deregister = \<lambda>_ c. (None, c),
      df_schemas = \<lambda>_. Some [(''public'', [''t''])]\<rparr>"

definition demo_duck :: "nat duck_api" where
  "demo_duck =
     \<lparr>duck_query = \<lambda>_ d. (Inr [counted_batch d], d), duck_batch = \<lambda>_ d. (None, d), duck_append = \<lambda>_ bs _. (None, sum_list (map num_rows bs)),
      duck_ipc = \<lambda>_. None\<rparr>"

definition demo_document :: json where
  "demo_document = jobj [(''snapshots'', JArr [jobj [(''snapshot-id'', JInt 1)], jobj [(''snapshot-id'', JInt 2)]])]"

definition demo_lake :: "unit env" where
  "demo_lake =
     \<lparr>store_get = \<lambda>_ _. Inr (Inr []), store_put = \<lambda>_ _ _. (Inr (), ()), store_list = \<lambda>_ _. Inr [(''v1.metadata.json'', 0)],
      store_delete = \<lambda>_ _. (True, ()), json_print = \<lambda>_. Inr [], json_parse = \<lambda>_. Inr demo_document\<rparr>"

definition demo_query_env :: "df_statement list \<Rightarrow> (nat, nat, unit) query_env" where
  "demo_query_env stmts =
     \<lparr>df = demo_df, duck = demo_duck, lake = demo_lake, sql_parse = \<lambda>_. Inr stmts,
      rows_json = \<lambda>bs. Inr (map (\<lambda>b. JInt (int (num_rows b))) bs), batch_memory = \<lambda>_. 0, hash_sql = \<lambda>_. 0,
      upper = to_uppercase, lower = to_lowercase, other_alnum = \<lambda>_. True,
      parse_datetime = \<lambda>_ _. None, parse_date_end = \<lambda>_. None, new_id = ''id'', parse_time = 1, exec_time = 2, total_time = 3,
      fallback_time = 4, now_text = ''now'', instant_now = 0\<rparr>"

definition demo_sql_state :: "(nat, nat, unit) sql_state" where
  "demo_sql_state = (new_sql_state 1 (Some 1) None)\<lparr>synced_tables := {''t''}, read_only_tables := {''Orders''},
     lake_configs := [([''t''], Some ())]\<rparr>"

lemma demo_server_simps [simp]:
  "upper (demo_query_env s) = to_uppercase" "lower (demo_query_env s) = to_lowercase"
  "sql_parse (demo_query_env s) = (\<lambda>_. Inr s)"
  "df (demo_query_env s) = demo_df" "duck (demo_query_env s) = demo_duck" "lake (demo_query_env s) = demo_lake"
  "ctx demo_sql_state = 1" "duckdb_engine demo_sql_state = Some 1" "synced_tables demo_sql_state = {''t''}"
  "read_only_tables demo_sql_state = {''Orders''}" "lake_configs demo_sql_state = [([''t''], Some ())]"
  by (simp_all add: demo_query_env_def demo_sql_state_def new_sql_state_def)

lemma profiler_learns_nothing_witness:
  "primary_engine (recommended_engine (profile_query (query_profiler (fold sql_step
      [Sql_Request (demo_query_env []) ''SELECT 1'' ''duckdb'', Session_Change 2] (new_sql_state 1 (Some 1) None)))
      ''SELECT SUM(x) FROM t'' [''DuckDB'', ''DataFusion''])) = ''DataFusion''"
  by (rule conjunct1 [OF profiler_learns_nothing]) simp

lemma read_only_write_is_refused_witness:
  "\<exists>e. execute_sql (demo_query_env [Statement Drop]) '' drop table public.orders'' ''duckdb'' demo_sql_state =
     (Ok (Inl (403, e)), demo_sql_state)"
proof -
  let ?V = "demo_query_env [Statement Drop]"
  have case_maps: "unicode_case ascii_upper (upper ?V)" "unicode_case ascii_lower (lower ?V)"
    using unicode_case_self by simp_all
  have "list_all is_space '' ''" "ascii_str (''drop table '' @ ''public.orders'' @ [])" "dotted_name ''public.orders''" "name_ends []"
    by code_simp+
  moreover have "to_uppercase ''drop table '' = ''DROP TABLE ''" by code_simp
  then have "(to_uppercase ''drop table '', Drop) \<in> set write_statements" by (simp add: write_statements_def)
  moreover have "to_uppercase ''public.orders'' \<noteq> ''IF''" by code_simp
  moreover have "ends_with (to_lowercase ''public.orders'') (''.'' @ to_lowercase ''Orders'')" by code_simp
  then have "names_read_only ?V (read_only_tables demo_sql_state) ''public.orders''" by (simp add: names_read_only_def)
  ultimately have "\<exists>e. execute_sql ?V ('' '' @ ''drop table '' @ ''public.orders'' @ []) ''duckdb'' demo_sql_state =
     (Ok (Inl (403, e)), demo_sql_state)"
    by (intro read_only_write_is_refused [OF case_maps, THEN conjunct1]) simp_all
  then show ?thesis by simp
qed

lemma ctas_ignores_read_only_witness:
  "\<exists>resp. fst (execute_sql (demo_query_env []) ''CREATE TABLE Orders AS SELECT 1'' ''duckdb'' demo_sql_state) = Ok (Inr resp) \<and>
     ctx (snd (execute_sql (demo_query_env []) ''CREATE TABLE Orders AS SELECT 1'' ''duckdb'' demo_sql_state)) = 2"
proof -
  have q: "ctx_sql demo_df ''SELECT 1'' 1 = (Ok [counted_batch 1], 1)"
    by (simp add: ctx_sql_def auto_register_files_def demo_df_def)
  have "\<exists>resp. fst (execute_sql (demo_query_env []) (''CREATE TABLE '' @ ''Orders'' @ '' AS '' @ ''SELECT 1'') ''duckdb'' demo_sql_state) = Ok (Inr resp) \<and>
     ctx (snd (execute_sql (demo_query_env []) (''CREATE TABLE '' @ ''Orders'' @ '' AS '' @ ''SELECT 1'') ''duckdb'' demo_sql_state)) = 2"
  proof (rule ctas_ignores_read_only [where b = "counted_batch 1" and bs = "[]" and c = 1])
    show "unicode_case ascii_upper (upper (demo_query_env []))" using unicode_case_self by simp
    show "ascii_str ''SELECT 1''" by code_simp
    show "to_uppercase ''Orders'' \<noteq> ''AS''" by code_simp
    show "trim ''SELECT 1'' = ''SELECT 1''" by code_simp
    show "ctx_sql (df (demo_query_env [])) ''SELECT 1'' (ctx demo_sql_state) = (Ok [counted_batch 1], 1)" using q by simp
    show "df_register_batches (df (demo_query_env [])) ''Orders'' [counted_batch 1] 1 = (None, 2)" by (simp add: demo_df_def)
  qed (simp_all add: demo_df_def plain_name_def is_ident_char_def)
  then show ?thesis by simp
qed

lemma duckdb_copies_go_stale_witness:
  "fst (execute_sql (demo_query_env []) ''SELECT 1 FROM t'' ''duckdb''
      (fold sql_step [Session_Change 5, Sql_Request (demo_query_env []) ''INSERT'' ''DataFusion''] demo_sql_state)) =
   fst (execute_sql (demo_query_env []) ''SELECT 1 FROM t'' ''duckdb'' demo_sql_state)"
proof (rule conjunct1 [OF duckdb_copies_go_stale [where later = "[]" and
    ops = "[Session_Change 5, Sql_Request (demo_query_env []) ''INSERT'' ''DataFusion'']"]])
  let ?sql = "''SELECT 1 FROM t''" and ?ops = "[Session_Change 5, Sql_Request (demo_query_env []) ''INSERT'' ''DataFusion'']"
  have s: "spark_rewrite ?sql = ?sql" by code_simp
  have t: "tables_or_none demo_df c = [''t'']" for c
    by (simp add: tables_or_none_def list_tables_def demo_df_def)
  have f: "flat_name ''t'' = ''t''" by code_simp
  show "unicode_case ascii_lower (lower (demo_query_env []))" using unicode_case_self by simp
  show "\<not> is_ctas (demo_query_env []) ?sql" by code_simp
  show "parse_time_travel (demo_query_env []) ?sql = Ok None" by code_simp
  show "class_type (sql_class (demo_query_env []) ?sql) \<notin> {Ddl, Dml}"
    by (simp add: sql_class_def classify_with_engine_def classify_def)
  show "\<forall>t \<in> set (tables_or_none (df (demo_query_env [])) (ctx demo_sql_state)).
      references_table (demo_query_env []) (spark_rewrite ?sql) t \<longrightarrow> flat_name t \<in> synced_tables demo_sql_state"
    by (simp add: t f)
  show "is_ok (fst (execute_via_duckdb_with_mode (demo_query_env []) (spark_rewrite ?sql) demo_sql_state))"
    by (simp add: execute_via_duckdb_with_mode_def Let_def case_prod_beta t f duck_sql_def demo_duck_def)
  have "to_lowercase ''DataFusion'' = ''datafusion''" by code_simp
  then show "list_all avoids_duckdb ?ops" by simp
  show "tables_or_none (df (demo_query_env [])) (ctx demo_sql_state) =
      tables_or_none (df (demo_query_env [])) (ctx (fold sql_step ?ops demo_sql_state))" by (simp add: t)
qed simp

lemma time_travel_ignores_snapshot_witness:
  "fst (execute_sql (demo_query_env []) ''FROM t VERSION AS OF 1'' ''auto'' demo_sql_state) =
   fst (execute_sql (demo_query_env []) ''FROM t VERSION AS OF 2'' ''auto'' demo_sql_state)"
proof -
  let ?a = "''FROM t VERSION AS OF 1''" and ?b = "''FROM t VERSION AS OF 2''"
  let ?tt = "\<lambda>i. \<lparr>tt_table = ''t'', tt_ref = ById i, tt_sql = ''FROM t''\<rparr>"
  have p: "parse_time_travel (demo_query_env []) ?a = Ok (Some (?tt 1))" "parse_time_travel (demo_query_env []) ?b = Ok (Some (?tt 2))"
    by code_simp+
  have c: "sql_class (demo_query_env []) s = \<lparr>class_type = Olap, class_engine = EitherTarget\<rparr>" for s
    by (simp add: sql_class_def classify_with_engine_def classify_def demo_query_env_def)
  have r: "read_only_target (demo_query_env []) (read_only_tables demo_sql_state) (class_type (sql_class (demo_query_env []) s)) s = None" for s
    by (simp add: read_only_target_def c)
  have n: "\<not> is_ctas (demo_query_env []) ?a" "\<not> is_ctas (demo_query_env []) ?b" by code_simp+
  have v: "metadata_file_version (path_file_name ''v1.metadata.json'') = Some 1" by code_simp
  obtain ts where ts: "find_iceberg_table_state demo_lake [([''t''], Some ())] ''t'' = Ok (Some ts)" "snapshots ts = parse_snapshots demo_document"
    by (simp add: find_latest_metadata_def load_table_state_def demo_lake_def v state_of_metadata_def)
  have ids: "map snapshot_id (parse_snapshots demo_document) = [1, 2]" by code_simp
  then obtain s1 s2 where "parse_snapshots demo_document = [s1, s2]" "snapshot_id s1 = 1" "snapshot_id s2 = 2"
    by (auto simp: map_eq_Cons_conv)
  with ts(2) have ok: "is_ok (resolve_snapshot ts (ById 1))" "is_ok (resolve_snapshot ts (ById 2))"
    by (simp_all add: find_snapshot_def)
  have f: "find_iceberg_table_state (lake (demo_query_env [])) (lake_configs demo_sql_state) (tt_table (?tt i)) = Ok (Some ts)" for i
    using ts(1) by (simp only: demo_server_simps time_travel_query.select_convs)
  have snap: "is_ok (resolve_snapshot ts (tt_ref (?tt 1)))" "is_ok (resolve_snapshot ts (tt_ref (?tt 2)))"
    using ok by (simp_all only: time_travel_query.select_convs)
  show ?thesis
    by (rule time_travel_ignores_snapshot [OF r r n _ p _ f snap(1) f snap(2)]) (simp_all add: c)
qed

end
