(* ===== verification/Ws_Connection.thy ===== *)
theory Ws_Connection
  imports Sql_Execution
begin

text \<open>
  \<open>rustlake-api/src/ws.rs\<close>: queries over a WebSocket. A connection is a step relation: messages of the
  client arrive one after the other, every accepted query runs as a task of its own, and a task ends at
  some later step. A task does its work in that one step; a cancellation that it sees while it runs or
  between two chunks of rows cuts it short.
\<close>

section \<open>One query\<close>

datatype server_msg =
    QueryStart string string string
  | QueryRows string "string list" "json list" u32
  | QueryComplete string nat nat nat nat string string
  | QueryError string string string
  | QueryCancelled string
  | Pong
  | ErrorMsg string

definition chunk_size :: nat where "chunk_size = 100"

definition max_inflight :: nat where "max_inflight = 3"

definition ws_read_only_target :: "('c, 'd, 's) query_env \<Rightarrow> string set \<Rightarrow> query_type \<Rightarrow> string \<Rightarrow> string option" where
  "ws_read_only_target V ro qt sql =
     (if qt \<in> {Ddl, Dml} \<and> ro \<noteq> {} then
        (case extract_target_table V (upper V (trim sql)) of
           Some t \<Rightarrow> if \<exists>r \<in> ro. lower V t = lower V r then Some t else None
         | None \<Rightarrow> None)
      else None)"

text \<open>The rows in chunks; only the first message carries the columns. \<open>seen_at\<close> is the number of chunks before
  which a cancellation is seen, if one is.\<close>

definition row_messages :: "string \<Rightarrow> string list \<Rightarrow> json list \<Rightarrow> server_msg list" where
  "row_messages qid columns rows =
     map (\<lambda>(i, chunk). QueryRows qid (if i = 0 then columns else []) chunk (of_nat i))
       (zip [0..<length (chunks chunk_size rows)] (chunks chunk_size rows))"

definition ws_finish ::
  "('c, 'd, 's) query_env \<Rightarrow> string \<Rightarrow> string \<Rightarrow> nat option \<Rightarrow> string \<Rightarrow> query_type \<Rightarrow> string \<Rightarrow> nat \<Rightarrow> record_batch list \<Rightarrow>
   ('c, 'd, 's) sql_state \<Rightarrow> server_msg list \<times> ('c, 'd, 's) sql_state" where
  "ws_finish V qid uuid seen_at sql qt engine exec_ms batches st =
     (let columns = (case batches of [] \<Rightarrow> [] | b # _ \<Rightarrow> map field_name (batch_schema b))
      in case rows_json V batches of
           Inl e \<Rightarrow> ([QueryError qid (''Serialization failed: '' @ e) engine], st)
         | Inr rows \<Rightarrow>
             let msgs = row_messages qid columns rows
             in if seen_at \<noteq> None \<and> the seen_at < length msgs then (take (the seen_at) msgs, st)
                else (msgs @ [QueryComplete qid (length rows) (total_time V) (parse_time V) exec_ms engine (show_query_type qt)],
                      record_query \<lparr>entry_id = uuid, entry_sql = sql, entry_type = show_query_type qt, entry_rows = length rows,
                                    entry_ms = total_time V, entry_time = now_text V, entry_status = ''success'',
                                    entry_error = None, entry_engine = engine\<rparr>
                        (st\<lparr>query_count := query_count st + 1\<rparr>)))"

definition ws_fail ::
  "('c, 'd, 's) query_env \<Rightarrow> string \<Rightarrow> string \<Rightarrow> string \<Rightarrow> query_type \<Rightarrow> string \<Rightarrow> string \<Rightarrow> ('c, 'd, 's) sql_state \<Rightarrow>
   server_msg list \<times> ('c, 'd, 's) sql_state" where
  "ws_fail V qid uuid sql qt engine e st =
     ([QueryError qid e engine],
      record_query \<lparr>entry_id = uuid, entry_sql = sql, entry_type = show_query_type qt, entry_rows = 0, entry_ms = total_time V,
                    entry_time = now_text V, entry_status = ''error'', entry_error = Some e, entry_engine = engine\<rparr> st)"

definition ws_execute_query ::
  "('c, 'd, 's) query_env \<Rightarrow> string \<Rightarrow> string \<Rightarrow> nat option \<Rightarrow> string \<Rightarrow> string \<Rightarrow> ('c, 'd, 's) sql_state \<Rightarrow>
   server_msg list \<times> ('c, 'd, 's) sql_state" where
  "ws_execute_query V qid uuid seen_at sql choice st =
     (let class = sql_class V sql; qt = class_type class
      in case ws_read_only_target V (read_only_tables st) qt sql of
           Some t \<Rightarrow> ([QueryError qid (''Table '' @ quote t @ '' is read-only'') []], st)
         | None \<Rightarrow>
             let engine = determine_engine V st choice (class_engine class);
                 start = QueryStart qid engine (show_query_type qt);
                 (res, st1) = execute_on V engine sql st;
                 (msgs, st2) =
                   (case res of
                      Ok (batches, _) \<Rightarrow> ws_finish V qid uuid seen_at sql qt engine (exec_time V) batches st1
                    | Panic \<Rightarrow> ([], st1)
                    | Err e \<Rightarrow>
                        if engine = ''DataFusion'' then ws_fail V qid uuid sql qt engine e st1
                        else case ctx_sql (df V) sql (ctx st1) of
                               (Ok batches, c) \<Rightarrow> ws_finish V qid uuid seen_at sql qt ''DataFusion'' (fallback_time V) batches (st1\<lparr>ctx := c\<rparr>)
                             | (Err f, c) \<Rightarrow> ws_fail V qid uuid sql qt ''DataFusion'' f (st1\<lparr>ctx := c\<rparr>)
                             | (Panic, c) \<Rightarrow> ([], st1\<lparr>ctx := c\<rparr>))
             in (start # msgs, st2))"

section \<open>The connection\<close>

datatype client_msg =
    ClientQuery string string string
  | ClientCancel string
  | ClientPing
  | ClientInvalid string

text \<open>A task is the number of its cancellation channel, the id, the statement and the choice of the engine.\<close>

record ws_task =
  task_channel :: nat
  task_query :: string
  task_sql :: string
  task_choice :: string

record ws_conn =
  inflight :: "string \<rightharpoonup> nat"
  tasks :: "ws_task list"
  cancelled :: "nat set"
  next_channel :: nat
  sent :: "server_msg list"

definition new_conn :: ws_conn where
  "new_conn = \<lparr>inflight = Map.empty, tasks = [], cancelled = {}, next_channel = 0, sent = []\<rparr>"

definition send_msgs :: "server_msg list \<Rightarrow> ws_conn \<Rightarrow> ws_conn" where
  "send_msgs ms c = c\<lparr>sent := sent c @ ms\<rparr>"

definition too_many :: string where
  "too_many = ''Too many concurrent queries (max 3). Wait for one to finish.''"

fun receive :: "client_msg \<Rightarrow> ws_conn \<Rightarrow> ws_conn" where
  "receive ClientPing c = send_msgs [Pong] c"
| "receive (ClientInvalid e) c = send_msgs [ErrorMsg (''Invalid message: '' @ e)] c"
| "receive (ClientCancel qid) c =
     (case inflight c qid of
        None \<Rightarrow> c
      | Some k \<Rightarrow> send_msgs [QueryCancelled qid] (c\<lparr>inflight := (inflight c)(qid := None), cancelled := insert k (cancelled c)\<rparr>))"
| "receive (ClientQuery qid sql choice) c =
     (if max_inflight \<le> card (dom (inflight c)) then send_msgs [QueryError qid too_many []] c
      else c\<lparr>inflight := (inflight c)(qid \<mapsto> next_channel c),
             tasks := tasks c @ [\<lparr>task_channel = next_channel c, task_query = qid, task_sql = sql, task_choice = choice\<rparr>],
             next_channel := next_channel c + 1\<rparr>)"

text \<open>A task that ends sends its messages and removes the entry of its id.\<close>

definition end_task :: "ws_task \<Rightarrow> server_msg list \<Rightarrow> ws_conn \<Rightarrow> ws_conn" where
  "end_task t ms c = send_msgs ms (c\<lparr>tasks := remove1 t (tasks c), inflight := (inflight c)(task_query t := None)\<rparr>)"

inductive ws_step :: "ws_conn \<times> ('c, 'd, 's) sql_state \<Rightarrow> ws_conn \<times> ('c, 'd, 's) sql_state \<Rightarrow> bool" where
  Receive: "ws_step (c, st) (receive m c, st)"
| Finish: "t \<in> set (tasks c) \<Longrightarrow> seen_at = None \<or> task_channel t \<in> cancelled c \<Longrightarrow>
    ws_execute_query V (task_query t) uuid seen_at (task_sql t) (task_choice t) st = (ms, st') \<Longrightarrow>
    ws_step (c, st) (end_task t ms c, st')"
| Stop: "t \<in> set (tasks c) \<Longrightarrow> task_channel t \<in> cancelled c \<Longrightarrow> k \<le> 1 \<Longrightarrow>
    ws_execute_query V (task_query t) uuid None (task_sql t) (task_choice t) st = (ms, st') \<Longrightarrow>
    ws_step (c, st) (end_task t (take k ms) c, st)"

inductive_cases ws_stepE: "ws_step (c, st) (c', st')"

lemmas receive_simps = receive.simps send_msgs_def

section \<open>Invariants\<close>

text \<open>An entry of the table of running queries belongs to a task that still runs under that id and was not
  cancelled, and there are never more than the limit.\<close>

definition ws_inv :: "ws_conn \<Rightarrow> bool" where
  "ws_inv c \<longleftrightarrow>
     finite (dom (inflight c)) \<and> card (dom (inflight c)) \<le> max_inflight \<and>
     distinct (map task_channel (tasks c)) \<and> (\<forall>t \<in> set (tasks c). task_channel t < next_channel c) \<and>
     (\<forall>k \<in> cancelled c. k < next_channel c) \<and>
     (\<forall>q k. inflight c q = Some k \<longrightarrow> k \<notin> cancelled c \<and> (\<exists>t \<in> set (tasks c). task_channel t = k \<and> task_query t = q))"

lemma new_conn_inv: "ws_inv new_conn"
  by (simp add: ws_inv_def new_conn_def)

lemma send_msgs_inv [simp]: "ws_inv (send_msgs ms c) \<longleftrightarrow> ws_inv c"
  by (simp add: ws_inv_def send_msgs_def)

lemma entry_channels_differ:
  "ws_inv c \<Longrightarrow> inflight c q = Some k \<Longrightarrow> inflight c r = Some k \<Longrightarrow> q = r"
  unfolding ws_inv_def by (metis distinct_map inj_onD)

lemma cancel_inv:
  assumes "ws_inv c" "inflight c q = Some k"
  shows "ws_inv (c\<lparr>inflight := (inflight c)(q := None), cancelled := insert k (cancelled c)\<rparr>)"
proof -
  have "card (dom (inflight c) - {q}) \<le> max_inflight"
    using assms(1) card_Diff1_le [of "dom (inflight c)" q] by (simp add: ws_inv_def)
  moreover have "k < next_channel c" using assms unfolding ws_inv_def by blast
  moreover have "l \<noteq> k" if "r \<noteq> q" "inflight c r = Some l" for r l
    using entry_channels_differ [OF assms(1)] assms(2) that by blast
  ultimately show ?thesis using assms(1) by (auto simp: ws_inv_def)
qed

lemma accept_inv:
  assumes "ws_inv c" "card (dom (inflight c)) < max_inflight"
  shows "ws_inv (c\<lparr>inflight := (inflight c)(q \<mapsto> next_channel c),
    tasks := tasks c @ [\<lparr>task_channel = next_channel c, task_query = q, task_sql = sql, task_choice = choice\<rparr>],
    next_channel := next_channel c + 1\<rparr>)"
proof -
  have "card (insert q (dom (inflight c))) \<le> max_inflight" using assms by (simp add: card_insert_if ws_inv_def)
  moreover have "\<forall>k \<in> cancelled c. k \<noteq> next_channel c" "\<forall>t \<in> set (tasks c). task_channel t \<noteq> next_channel c"
    using assms(1) by (auto simp: ws_inv_def)
  ultimately show ?thesis using assms(1) by (fastforce simp: ws_inv_def less_Suc_eq)
qed

lemma end_task_inv:
  assumes "ws_inv c" "t \<in> set (tasks c)"
  shows "ws_inv (end_task t ms c)"
proof -
  have "card (dom (inflight c) - {task_query t}) \<le> max_inflight"
    using assms(1) card_Diff1_le [of "dom (inflight c)" "task_query t"] by (simp add: ws_inv_def)
  moreover have rest: "distinct (map task_channel (remove1 t (tasks c)))" "set (remove1 t (tasks c)) = set (tasks c) - {t}"
    using assms(1) by (auto simp: ws_inv_def distinct_map distinct_remove1 inj_on_diff)
  moreover have "k \<notin> cancelled c \<and> (\<exists>u \<in> set (tasks c) - {t}. task_channel u = k \<and> task_query u = q)"
    if "q \<noteq> task_query t" "inflight c q = Some k" for q k
    using assms(1) that unfolding ws_inv_def by blast
  ultimately show ?thesis using assms(1)
    unfolding end_task_def send_msgs_inv by (simp add: ws_inv_def)
qed

lemma receive_inv: "ws_inv c \<Longrightarrow> ws_inv (receive m c)"
  using accept_inv [of c] by (cases m) (auto simp: cancel_inv split: option.split)

lemma ws_step_inv: "ws_step p p' \<Longrightarrow> ws_inv (fst p) \<Longrightarrow> ws_inv (fst p')"
  by (induction rule: ws_step.induct) (simp_all add: receive_inv end_task_inv)

lemma reachable_inv:
  assumes "ws_step\<^sup>*\<^sup>* p p'" "ws_inv (fst p)"
  shows "ws_inv (fst p')"
  using assms by (induction rule: rtranclp_induct) (auto simp: ws_step_inv)

text \<open>C35. In every state a connection can reach, at most three queries have an entry in the table of running
  queries, and every entry can be used to cancel a task: one that still runs under that id and whose
  channel was not cancelled before.\<close>

theorem inflight_entries_are_live:
  assumes "ws_step\<^sup>*\<^sup>* (new_conn, st) (c, st')"
  shows "card (dom (inflight c)) \<le> 3 \<and>
    (\<forall>q k. inflight c q = Some k \<longrightarrow> k \<notin> cancelled c \<and> (\<exists>t \<in> set (tasks c). task_channel t = k \<and> task_query t = q))"
  using reachable_inv [OF assms] new_conn_inv by (simp add: ws_inv_def max_inflight_def)

text \<open>C36. The limit of three queries counts the entries, not the tasks: a client that sends its queries under
  one id drives the connection into states with any number of running tasks, none of them refused, while
  the table holds at most one entry.\<close>

theorem one_id_defeats_the_limit:
  "\<exists>c. ws_step\<^sup>*\<^sup>* (new_conn, st) (c, st) \<and> length (tasks c) = n \<and> cancelled c = {} \<and> sent c = [] \<and> dom (inflight c) \<subseteq> {q} \<and>
     map task_query (tasks c) = replicate n q"
proof (induction n)
  case 0
  show ?case by (rule exI [of _ new_conn]) (simp add: new_conn_def)
next
  case (Suc n)
  then obtain c where c: "ws_step\<^sup>*\<^sup>* (new_conn, st) (c, st)" "length (tasks c) = n" "cancelled c = {}" "sent c = []"
    "dom (inflight c) \<subseteq> {q}" "map task_query (tasks c) = replicate n q" by blast
  have "card (dom (inflight c)) \<le> 1" using card_mono [OF _ c(5)] by simp
  then have r: "receive (ClientQuery q sql choice) c = c\<lparr>inflight := (inflight c)(q \<mapsto> next_channel c),
      tasks := tasks c @ [\<lparr>task_channel = next_channel c, task_query = q, task_sql = sql, task_choice = choice\<rparr>],
      next_channel := next_channel c + 1\<rparr>" for sql choice by (simp add: max_inflight_def)
  have "ws_step\<^sup>*\<^sup>* (new_conn, st) (receive (ClientQuery q [] []) c, st)"
    using c(1) Receive by (rule rtranclp.rtrancl_into_rtrancl)
  moreover have "x = q" if "inflight c x = Some k" for x k using c(5) that by blast
  ultimately show ?case using c(2-4,6)
    by (intro exI [of _ "receive (ClientQuery q [] []) c"])
      (auto simp: r replicate_append_same simp del: receive.simps split: if_splits)
qed

section \<open>What a task does to the server\<close>

lemma ws_finish_good:
  assumes "good_move st st1"
  shows "good_move st (snd (ws_finish V qid uuid k sql qt engine ms bs st1))"
proof -
  have "good_move st (record_query e (st1\<lparr>query_count := n\<rparr>))" for e n
    by (rule good_move_record [OF good_move_trans [OF assms good_move_ctx(2)]])
  then show ?thesis using assms by (simp add: ws_finish_def Let_def split: sum.split)
qed

lemma ws_fail_good: "good_move st st1 \<Longrightarrow> good_move st (snd (ws_fail V qid uuid sql qt engine e st1))"
  by (simp add: ws_fail_def good_move_record)

lemma ws_execute_good: "good_move st (snd (ws_execute_query V qid uuid k sql choice st))"
proof -
  obtain r st1 where e: "execute_on V (determine_engine V st choice (class_engine (sql_class V sql))) sql st = (r, st1)"
    by (metis surj_pair)
  with good_execute_on [of st V] have 1: "good_move st st1" by (metis snd_conv)
  then have "good_move st (st1\<lparr>ctx := c\<rparr>)" for c by (rule good_move_trans) simp
  with 1 show ?thesis
    by (simp add: ws_execute_query_def e Let_def case_prod_beta ws_finish_good ws_fail_good good_execute_on split: result.split option.split)
qed

text \<open>Whatever messages arrive on a connection and however its tasks and their cancellations interleave, the
  server's state keeps its invariant: the query history stays within its thousand entries, tables copied to
  DuckDB stay marked, the read-only tables and the lake configurations do not change.\<close>

theorem connection_keeps_server_invariant:
  assumes "ws_step\<^sup>*\<^sup>* (c, st) (c', st')" and "sql_inv st"
  shows "sql_inv st' \<and> synced_tables st \<subseteq> synced_tables st' \<and> read_only_tables st' = read_only_tables st \<and>
    lake_configs st' = lake_configs st"
proof -
  have "good_move (snd p) (snd p')" if "ws_step p p'" for p p' :: "ws_conn \<times> ('a, 'b, 'c) sql_state"
    using that
  proof cases
    case (Finish t c k V uuid st ms st')
    then show ?thesis using ws_execute_good [of st V "task_query t" uuid k] by (metis snd_conv)
  qed simp_all
  with assms(1) have "good_move (snd (c, st)) (snd (c', st'))"
    by (induction rule: rtranclp_induct) (auto intro: good_move_trans)
  with assms(2) show ?thesis by (simp add: good_move_def)
qed

section \<open>The read-only check\<close>

text \<open>The check of a WebSocket query lacks the rule for names with a schema. A write that names a read-only
  table through its schema is refused over HTTP and runs over the socket.\<close>

theorem socket_writes_qualified_read_only:
  assumes "unicode_case ascii_upper (upper V)" and "unicode_case ascii_lower (lower V)"
    and "ascii_str (kw @ (s @ ''.'' @ n) @ rest)" and "dotted_name (s @ ''.'' @ n)" and "name_ends rest"
    and "(to_uppercase kw, w) \<in> set write_statements" and "to_uppercase kw \<noteq> ''DROP TABLE ''"
    and "sql_parse V (kw @ (s @ ''.'' @ n) @ rest) = Inr (Statement w # stmts)"
    and "ro \<in> read_only_tables st" and "lower V n = lower V ro"
    and "\<forall>r \<in> read_only_tables st. lower V r \<noteq> lower V (s @ ''.'' @ n)"
  shows "(\<exists>e. execute_sql V (kw @ (s @ ''.'' @ n) @ rest) choice st = (Ok (Inl (403, e)), st)) \<and>
    (\<exists>engine qt ms. fst (ws_execute_query V qid uuid k (kw @ (s @ ''.'' @ n) @ rest) choice st) = QueryStart qid engine qt # ms)"
proof -
  let ?n = "s @ ''.'' @ n"
  let ?sql = "kw @ ?n @ rest"
  note maps = assms(1,2)
  have lead: "list_all is_space []" by simp
  have drop: "to_uppercase kw = ''DROP TABLE '' \<Longrightarrow> to_uppercase ?n \<noteq> ''IF''" using assms(7) by simp
  have asc: "ascii_str ?n" "ascii_str n" using assms(3) by (auto simp only: ascii_str_append)
  have "lower V ?n = to_lowercase s @ to_lowercase ''.'' @ lower V n"
    unfolding to_lowercase_ascii [OF assms(2) asc(1)] to_lowercase_ascii [OF assms(2) asc(2)] by (simp add: to_lowercase_def)
  moreover have "to_lowercase ''.'' = ''.''" by code_simp
  ultimately have "names_read_only V (read_only_tables st) ?n"
    using assms(9,10) unfolding names_read_only_def ends_with_def suffix_def by metis
  note refused = write_read_only [OF maps lead assms(3-6) drop write_class [OF assms(8,6)] this, simplified append_Nil]
  have http: "\<exists>e. execute_sql V ?sql choice st = (Ok (Inl (403, e)), st)"
    using refused by (simp add: execute_sql_def Let_def)
  have t: "extract_target_table V (upper V (trim ?sql)) = Some (to_uppercase ?n)"
    using written_target [OF assms(1) lead assms(3-6) drop] by simp
  have "\<not> (\<exists>r \<in> read_only_tables st. lower V (to_uppercase ?n) = lower V r)"
    using assms(11) lower_target [OF assms(2) asc(1)] by metis
  then have "ws_read_only_target V (read_only_tables st) (class_type (sql_class V ?sql)) ?sql = None"
    unfolding ws_read_only_target_def t option.case by (simp only: if_False if_cancel)
  then have "fst (ws_execute_query V qid uuid k ?sql choice st) = QueryStart qid
      (determine_engine V st choice (class_engine (sql_class V ?sql))) (show_query_type (class_type (sql_class V ?sql))) #
      tl (fst (ws_execute_query V qid uuid k ?sql choice st))"
    unfolding ws_execute_query_def Let_def by (simp add: case_prod_beta)
  with http show ?thesis by metis
qed

section \<open>Instances\<close>

lemma demo_run:
  "ws_step\<^sup>*\<^sup>* (new_conn, demo_sql_state) (receive (ClientCancel ''a'') (receive (ClientQuery ''a'' ''SELECT 1'' ''auto'') new_conn), demo_sql_state)"
  by (meson Receive rtranclp.rtrancl_refl rtranclp.rtrancl_into_rtrancl)

lemma inflight_entries_are_live_witness:
  "card (dom (inflight (receive (ClientCancel ''a'') (receive (ClientQuery ''a'' ''SELECT 1'' ''auto'') new_conn)))) \<le> 3"
  using inflight_entries_are_live [OF demo_run] by (rule conjunct1)

lemma connection_keeps_server_invariant_witness: "sql_inv demo_sql_state"
  by (rule conjunct1 [OF connection_keeps_server_invariant [OF demo_run]])
    (simp add: demo_sql_state_def new_sql_state_def sql_inv_def untyped_history_def new_profiler_def)

lemma socket_writes_qualified_read_only_witness:
  "\<exists>engine qt ms. fst (ws_execute_query (demo_query_env [Statement Insert]) ''q'' ''u'' None
     (''INSERT INTO '' @ (''public'' @ ''.'' @ ''orders'') @ '' VALUES (1)'') ''auto'' demo_sql_state) = QueryStart ''q'' engine qt # ms"
proof (rule conjunct2 [OF socket_writes_qualified_read_only [where ro = "''Orders''" and w = Insert]])
  have up: "to_uppercase ''INSERT INTO '' = ''INSERT INTO ''" by code_simp
  show "(to_uppercase ''INSERT INTO '', Insert) \<in> set write_statements" unfolding up by (simp add: write_statements_def)
  show "to_uppercase ''INSERT INTO '' \<noteq> ''DROP TABLE ''" by code_simp
  show "ascii_str (''INSERT INTO '' @ (''public'' @ ''.'' @ ''orders'') @ '' VALUES (1)'')" by code_simp
  show "dotted_name (''public'' @ ''.'' @ ''orders'')" "name_ends '' VALUES (1)''" by code_simp+
  have "to_lowercase ''orders'' = to_lowercase ''Orders''" by code_simp
  then show "lower (demo_query_env [Statement Insert]) ''orders'' = lower (demo_query_env [Statement Insert]) ''Orders''" by simp
  have "to_lowercase ''Orders'' \<noteq> to_lowercase (''public'' @ ''.'' @ ''orders'')" by code_simp
  then show "\<forall>r \<in> read_only_tables demo_sql_state. lower (demo_query_env [Statement Insert]) r \<noteq>
      lower (demo_query_env [Statement Insert]) (''public'' @ ''.'' @ ''orders'')"
    by (simp add: demo_sql_state_def)
qed (use unicode_case_self in simp_all)

end
