(* ===== verification/Table_Discovery.thy ===== *)
theory Table_Discovery
  imports Json "HOL-Library.Char_ord" "HOL-Library.List_Lexorder"
begin

text \<open>
  \<open>rustlake-api/src/iceberg_s3.rs\<close>: the scan of a bucket for tables. Directories are probed level by level
  down to a fixed depth, and every directory that looks like a table is tried as an Iceberg, Delta, Hudi
  and plain Parquet table.

  The bucket is a listing and a reading function; listings give the texts of the common prefixes and of
  the object locations. Probes run concurrently in the code; here they answer in the order of the
  listings, and the theorems speak of the sets that are found. Progress messages are left out.
\<close>

section \<open>The bucket\<close>

record bucket =
  list_at :: "string \<Rightarrow> string + string list \<times> string list"
  read_at :: "string \<Rightarrow> string + string"
  parse_text :: "string \<Rightarrow> json option"
  utf8_lossy :: "string \<Rightarrow> string"

definition max_scan_depth :: nat where "max_scan_depth = 5"

datatype table_format = Iceberg | Delta | Hudi | RawParquet

definition show_format :: "table_format \<Rightarrow> string" where
  "show_format f = (case f of Iceberg \<Rightarrow> ''iceberg'' | Delta \<Rightarrow> ''delta'' | Hudi \<Rightarrow> ''hudi'' | RawParquet \<Rightarrow> ''parquet'')"

record column_info =
  col_name :: string
  col_type :: string
  col_nullable :: bool
  col_ordinal :: int

record discovered_table =
  disc_database :: string
  disc_name :: string
  disc_location :: string
  disc_format :: table_format
  metadata_location :: "string option"
  disc_columns :: "column_info list"
  disc_version :: "int option"
  partition_fields :: "string list"
  snapshot_count :: nat
  disc_updated_ms :: "int option"
  disc_type :: string
  disc_properties :: "string \<rightharpoonup> string"

definition last_segment :: "string \<Rightarrow> string" where
  "last_segment p = last (split_char (CHR ''/'') p)"

definition dir_name :: "string \<Rightarrow> string" where
  "dir_name p = last_segment (trim_end_matches (CHR ''/'') p)"

definition list_files_with_dirs :: "bucket \<Rightarrow> string \<Rightarrow> (string list \<times> string list) result" where
  "list_files_with_dirs B path =
     (case list_at B path of
        Inl e \<Rightarrow> Err (''S3 list '' @ quote path @ '': '' @ e)
      | Inr (dirs, objects) \<Rightarrow> Ok (map last_segment objects, map dir_name dirs))"

definition visible_dir :: "string \<Rightarrow> bool" where
  "visible_dir d \<longleftrightarrow> d \<noteq> [] \<and> hd d \<noteq> CHR ''.'' \<and> hd d \<noteq> CHR ''_''"

definition list_directories :: "bucket \<Rightarrow> string \<Rightarrow> string list result" where
  "list_directories B path =
     (case list_at B path of
        Inl e \<Rightarrow> Err (''S3 list '' @ quote path @ '': '' @ e)
      | Inr (dirs, _) \<Rightarrow> Ok (filter visible_dir (map dir_name dirs)))"

definition list_files :: "bucket \<Rightarrow> string \<Rightarrow> string list result" where
  "list_files B path =
     (case list_at B path of
        Inl e \<Rightarrow> Err (''S3 list files '' @ quote path @ '': '' @ e)
      | Inr (_, objects) \<Rightarrow> Ok (map last_segment objects))"

definition is_parquet :: "string \<Rightarrow> bool" where
  "is_parquet f \<longleftrightarrow> ends_with f ''.parquet'' \<or> ends_with f ''.snappy.parquet''"

text \<open>A probe: whether the directory is a table, and whether it has subdirectories.\<close>

definition probe_directory :: "bucket \<Rightarrow> string \<Rightarrow> bool \<times> bool" where
  "probe_directory B path =
     (case list_at B path of
        Inl _ \<Rightarrow> (False, False)
      | Inr (dirs, objects) \<Rightarrow>
          let subdirs = map dir_name dirs;
              has = (\<lambda>d. d \<in> set subdirs)
          in (has ''metadata'' \<or> has ''_delta_log'' \<or> has ''.hoodie'' \<or> list_ex is_parquet (map last_segment objects) \<or>
                (has ''data'' \<and> \<not> has ''metadata''),
              subdirs \<noteq> []))"

definition is_table_dir :: "bucket \<Rightarrow> string \<Rightarrow> bool" where
  "is_table_dir B path = fst (probe_directory B path)"

definition is_inner_dir :: "bucket \<Rightarrow> string \<Rightarrow> bool" where
  "is_inner_dir B path \<longleftrightarrow> \<not> fst (probe_directory B path) \<and> snd (probe_directory B path)"

section \<open>Names\<close>

definition is_hex :: "char \<Rightarrow> bool" where
  "is_hex c \<longleftrightarrow> (let n = (of_char c :: nat) in 48 \<le> n \<and> n \<le> 57 \<or> 65 \<le> n \<and> n \<le> 70 \<or> 97 \<le> n \<and> n \<le> 102)"

definition is_dashed_uuid :: "string \<Rightarrow> bool" where
  "is_dashed_uuid s \<longleftrightarrow>
     (let parts = split_char (CHR ''-'') s in map length parts = [8, 4, 4, 4, 12] \<and> list_all (list_all is_hex) parts)"

definition strip_dashed_uuid :: "string \<Rightarrow> string" where
  "strip_dashed_uuid n =
     (let k = length n - 36
      in if 37 < length n \<and> n ! (k - 1) = CHR ''-'' \<and> is_dashed_uuid (drop k n) then take (k - 1) n else n)"

definition strip_uuid_suffix :: "string \<Rightarrow> string" where
  "strip_uuid_suffix n =
     (case rfind_str n ''-'' of
        Some i \<Rightarrow>
          if length (drop (i + 1) n) = 32 \<and> list_all is_hex (drop (i + 1) n) \<and> take i n \<noteq> [] then take i n
          else strip_dashed_uuid n
      | None \<Rightarrow> strip_dashed_uuid n)"

definition trim_db :: "string \<Rightarrow> string" where "trim_db s = trim_end_str ''.db'' s"

definition compose_database_name :: "string list \<Rightarrow> string" where
  "compose_database_name segments =
     (case segments of
        [] \<Rightarrow> ''default''
      | [s] \<Rightarrow> trim_db s
      | _ # rest \<Rightarrow> join_with ''_'' (map trim_db rest))"

definition normalize_prefix :: "string \<Rightarrow> string" where
  "normalize_prefix p =
     (let trimmed = trim_start_str ''s3://'' p;
          path_only = (case find_str trimmed ''/'' of Some i \<Rightarrow> drop (i + 1) trimmed | None \<Rightarrow> [])
      in if path_only = [] then [] else if ends_with path_only ''/'' then path_only else path_only @ ''/'')"

section \<open>Reading\<close>

definition read_json_file :: "bucket \<Rightarrow> string \<Rightarrow> json option" where
  "read_json_file B path = (case read_at B path of Inl _ \<Rightarrow> None | Inr bytes \<Rightarrow> parse_text B bytes)"

definition read_json_lines :: "bucket \<Rightarrow> string \<Rightarrow> json list option" where
  "read_json_lines B path =
     (case read_at B path of
        Inl _ \<Rightarrow> None
      | Inr bytes \<Rightarrow> Some (List.map_filter (parse_text B) (filter (\<lambda>l. trim l \<noteq> []) (str_lines (utf8_lossy B bytes)))))"

definition i32_of_nat :: "nat \<Rightarrow> int" where "i32_of_nat n = wrap_i32 (int n)"

lemma fmlookup_size:
  assumes "fmlookup m k = Some (j :: json)"
  shows "size j < size (JObj m)"
proof -
  have "(k, j) \<in> fset (fset_of_fmap m)" using assms by (simp add: fset_of_fmap_iff)
  then have "size j \<le> (\<Sum>x \<in> fset (fset_of_fmap m). Suc (case x of (a, b) \<Rightarrow> size b))"
    using member_le_sum [of "(k, j)" "fset (fset_of_fmap m)" "\<lambda>x. Suc (case x of (a, b) \<Rightarrow> size b)"] by simp
  then show ?thesis by simp
qed

text \<open>A type as the metadata writes it, a name or an object; the two formats differ in the words they use.\<close>

function nested_type_text :: "string \<Rightarrow> string \<Rightarrow> string \<Rightarrow> string \<Rightarrow> json \<Rightarrow> string" where
  "nested_type_text lst elem key val (JStr s) = s"
| "nested_type_text lst elem key val (JObj m) =
     (case fmlookup m ''type'' of
        Some (JStr t) \<Rightarrow>
          if t = ''struct'' then ''struct''
          else if t = lst then
            lst @ ''<'' @ (case fmlookup m elem of Some e \<Rightarrow> nested_type_text lst elem key val e | None \<Rightarrow> ''unknown'') @ ''>''
          else if t = ''map'' then
            ''map<'' @ (case fmlookup m key of Some k \<Rightarrow> nested_type_text lst elem key val k | None \<Rightarrow> ''string'') @ '', '' @
            (case fmlookup m val of Some v \<Rightarrow> nested_type_text lst elem key val v | None \<Rightarrow> ''string'') @ ''>''
          else t
      | _ \<Rightarrow> ''unknown'')"
| "nested_type_text lst elem key val JNull = ''unknown''"
| "nested_type_text lst elem key val (JBool b) = ''unknown''"
| "nested_type_text lst elem key val (JInt i) = ''unknown''"
| "nested_type_text lst elem key val (JFloat f) = ''unknown''"
| "nested_type_text lst elem key val (JArr js) = ''unknown''"
  by pat_completeness auto

termination
  by (relation "measure (\<lambda>(_, _, _, _, j). size j)") (auto dest: fmlookup_size simp del: json.size)

definition iceberg_type_to_string :: "json option \<Rightarrow> string" where
  "iceberg_type_to_string t =
     (case t of Some j \<Rightarrow> nested_type_text ''list'' ''element'' ''key'' ''value'' j | None \<Rightarrow> ''unknown'')"

definition delta_type_to_string :: "json option \<Rightarrow> string" where
  "delta_type_to_string t =
     (case t of Some j \<Rightarrow> nested_type_text ''array'' ''elementType'' ''keyType'' ''valueType'' j | None \<Rightarrow> ''unknown'')"

section \<open>Iceberg tables\<close>

definition metadata_version_of :: "string \<Rightarrow> int option" where
  "metadata_version_of file =
     (let first = hd (split_char (CHR ''.'') file)
      in case strip_prefix first ''v'' of
           Some num \<Rightarrow> parse_i64 num
         | None \<Rightarrow> parse_i64 (hd (split_char (CHR ''-'') first)))"

definition better_metadata :: "string \<Rightarrow> int \<times> string option \<Rightarrow> int \<times> string option" where
  "better_metadata file = (\<lambda>(best, found).
     if ends_with file ''.metadata.json'' then
       (case metadata_version_of file of
          Some v \<Rightarrow> if best < v then (v, Some file) else (best, found)
        | None \<Rightarrow> (best, found))
     else (best, found))"

definition find_latest_metadata_file :: "string list \<Rightarrow> string option" where
  "find_latest_metadata_file files =
     (case snd (fold better_metadata files (- 1, None)) of
        Some f \<Rightarrow> Some f
      | None \<Rightarrow>
          (let fs = filter (\<lambda>f. ends_with f ''.metadata.json'') files
           in if fs = [] then None else Some (Max (set fs))))"

definition iceberg_column :: "nat \<times> json \<Rightarrow> column_info" where
  "iceberg_column = (\<lambda>(i, field).
     \<lparr>col_name = unwrap_or ''unknown'' (get_str ''name'' field), col_type = iceberg_type_to_string (jget ''type'' field),
      col_nullable = \<not> unwrap_or False (get_bool ''required'' field), col_ordinal = i32_of_nat i\<rparr>)"

definition current_schema_json :: "json \<Rightarrow> json option" where
  "current_schema_json metadata =
     (if unwrap_or 1 (get_i64 ''format-version'' metadata) \<ge> 2 then
        (let schema_id = unwrap_or 0 (get_i64 ''current-schema-id'' metadata)
         in case Option.bind (get_array ''schemas'' metadata)
                   (List.find (\<lambda>s. unwrap_or (- 1) (get_i64 ''schema-id'' s) = schema_id)) of
              Some s \<Rightarrow> Some s
            | None \<Rightarrow> jget ''schema'' metadata)
      else jget ''schema'' metadata)"

definition parse_iceberg_schema :: "json \<Rightarrow> column_info list \<times> int" where
  "parse_iceberg_schema metadata =
     (case Option.bind (current_schema_json metadata) (get_array ''fields'') of
        Some fs \<Rightarrow> map iceberg_column (enumerate 0 fs)
      | None \<Rightarrow> [], unwrap_or 1 (get_i64 ''format-version'' metadata))"

definition partition_text :: "json \<Rightarrow> string option" where
  "partition_text f =
     map_option (\<lambda>n. let t = unwrap_or ''identity'' (get_str ''transform'' f) in if t = ''identity'' then n else t @ ''('' @ n @ '')'')
       (case get_i64 ''source-id'' f of Some i \<Rightarrow> Some (''col_'' @ show_int i) | None \<Rightarrow> get_str ''name'' f)"

definition parse_partition_texts :: "json \<Rightarrow> string list" where
  "parse_partition_texts metadata =
     (let default_id = unwrap_or 0 (get_i64 ''default-spec-id'' metadata);
          spec = Option.bind (Option.bind (get_array ''partition-specs'' metadata)
                   (List.find (\<lambda>s. unwrap_or (- 1) (get_i64 ''spec-id'' s) = default_id))) (jget ''fields'')
      in case Option.bind (case spec of Some f \<Rightarrow> Some f | None \<Rightarrow> jget ''partition-spec'' metadata) as_array of
           Some fs \<Rightarrow> List.map_filter partition_text fs
         | None \<Rightarrow> [])"

definition text_entries :: "json option \<Rightarrow> string \<rightharpoonup> string" where
  "text_entries j k = Option.bind (Option.bind j (jget k)) as_str"

definition discover_iceberg_table :: "bucket \<Rightarrow> string \<Rightarrow> string \<Rightarrow> string \<Rightarrow> discovered_table option" where
  "discover_iceberg_table B db table path =
     (case list_files B (path @ ''metadata/'') of
        Ok files \<Rightarrow>
          Option.bind (find_latest_metadata_file files) (\<lambda>file.
          Option.bind (read_json_file B (path @ ''metadata/'' @ file)) (\<lambda>metadata.
            let (columns, version) = parse_iceberg_schema metadata;
                properties = text_entries (jget ''properties'' metadata)
            in Some
              \<lparr>disc_database = db, disc_name = table, disc_location = trim_end_matches (CHR ''/'') path, disc_format = Iceberg,
               metadata_location = Some (path @ ''metadata/'' @ file), disc_columns = columns, disc_version = Some version,
               partition_fields = parse_partition_texts metadata,
               snapshot_count = length (unwrap_or [] (get_array ''snapshots'' metadata)),
               disc_updated_ms = get_i64 ''last-updated-ms'' metadata,
               disc_type = (case properties ''table_type'' of Some t \<Rightarrow> t | None \<Rightarrow> unwrap_or [] (properties ''table-type'')),
               disc_properties = properties\<rparr>))
      | _ \<Rightarrow> None)"

section \<open>Delta tables\<close>

record delta_state =
  delta_columns :: "column_info list"
  delta_partitions :: "string list"
  delta_properties :: "string \<rightharpoonup> string"
  delta_version :: int

definition delta_column :: "nat \<times> json \<Rightarrow> column_info" where
  "delta_column = (\<lambda>(i, field).
     \<lparr>col_name = unwrap_or ''unknown'' (get_str ''name'' field), col_type = delta_type_to_string (jget ''type'' field),
      col_nullable = unwrap_or True (get_bool ''nullable'' field), col_ordinal = i32_of_nat i\<rparr>)"

definition delta_schema :: "bucket \<Rightarrow> json \<Rightarrow> column_info list" where
  "delta_schema B meta =
     (case Option.bind (Option.bind (get_str ''schemaString'' meta) (parse_text B)) (get_array ''fields'') of
        Some fs \<Rightarrow> map delta_column (enumerate 0 fs)
      | None \<Rightarrow> [])"

definition read_delta_entry :: "bucket \<Rightarrow> json \<Rightarrow> delta_state \<Rightarrow> delta_state" where
  "read_delta_entry B entry d =
     (let d1 = (case jget ''protocol'' entry of
                  Some p \<Rightarrow> d\<lparr>delta_version := unwrap_or 1 (get_i64 ''minReaderVersion'' p)\<rparr>
                | None \<Rightarrow> d)
      in case jget ''metaData'' entry of
           Some meta \<Rightarrow>
             d1\<lparr>delta_columns := delta_columns d1 @ delta_schema B meta,
                delta_partitions := (case get_array ''partitionColumns'' meta of
                                       Some ps \<Rightarrow> List.map_filter as_str ps | None \<Rightarrow> delta_partitions d1),
                delta_properties := delta_properties d1 ++ text_entries (jget ''configuration'' meta)\<rparr>
         | None \<Rightarrow> d1)"

definition empty_delta :: delta_state where
  "empty_delta = \<lparr>delta_columns = [], delta_partitions = [], delta_properties = Map.empty, delta_version = 1\<rparr>"

definition discover_delta_table :: "bucket \<Rightarrow> string \<Rightarrow> string \<Rightarrow> string \<Rightarrow> discovered_table option" where
  "discover_delta_table B db table path =
     (case list_files B (path @ ''_delta_log/'') of
        Ok files \<Rightarrow>
          (case rev (sort (filter (\<lambda>f. ends_with f ''.json'') files)) of
             [] \<Rightarrow> None
           | latest # earlier \<Rightarrow>
               Option.bind (read_json_lines B (path @ ''_delta_log/'' @ latest)) (\<lambda>entries.
                 let d = fold (read_delta_entry B) entries empty_delta
                 in Some
                   \<lparr>disc_database = db, disc_name = table, disc_location = trim_end_matches (CHR ''/'') path, disc_format = Delta,
                    metadata_location = Some (path @ ''_delta_log/'' @ latest), disc_columns = delta_columns d,
                    disc_version = Some (delta_version d), partition_fields = delta_partitions d,
                    snapshot_count = length (latest # earlier), disc_updated_ms = None, disc_type = [],
                    disc_properties = delta_properties d\<rparr>))
      | _ \<Rightarrow> None)"

section \<open>Hudi and plain Parquet tables\<close>

definition hudi_line :: "string \<Rightarrow> (string \<rightharpoonup> string) \<Rightarrow> (string \<rightharpoonup> string)" where
  "hudi_line l props =
     (let line = trim l
      in if starts_with line ''#'' \<or> line = [] then props
         else case find_str line ''='' of
                Some i \<Rightarrow> props(trim (take i line) \<mapsto> trim (drop (i + 1) line))
              | None \<Rightarrow> props)"

definition hudi_properties :: "bucket \<Rightarrow> string \<Rightarrow> string list \<Rightarrow> string \<rightharpoonup> string" where
  "hudi_properties B pre files =
     (if ''hoodie.properties'' \<in> set files then
        (case read_at B (pre @ ''hoodie.properties'') of
           Inr bytes \<Rightarrow> if valid_str bytes then fold hudi_line (str_lines bytes) Map.empty else Map.empty
         | Inl _ \<Rightarrow> Map.empty)
      else Map.empty)"

definition discover_hudi_table :: "bucket \<Rightarrow> string \<Rightarrow> string \<Rightarrow> string \<Rightarrow> discovered_table option" where
  "discover_hudi_table B db table path =
     (case list_files B (path @ ''.hoodie/'') of
        Ok (f # fs) \<Rightarrow>
          (let files = f # fs; properties = hudi_properties B (path @ ''.hoodie/'') files
           in Some
             \<lparr>disc_database = db, disc_name = table, disc_location = trim_end_matches (CHR ''/'') path, disc_format = Hudi,
              metadata_location = Some (path @ ''.hoodie/''), disc_columns = [], disc_version = None, partition_fields = [],
              snapshot_count = length (filter (\<lambda>f. ends_with f ''.commit'' \<or> ends_with f ''.deltacommit'') files),
              disc_updated_ms = None, disc_type = unwrap_or ''COPY_ON_WRITE'' (properties ''hoodie.table.type''),
              disc_properties = properties\<rparr>)
      | _ \<Rightarrow> None)"

text \<open>The order of the partition columns is that of a hash set in the code.\<close>

definition discover_parquet_dir :: "bucket \<Rightarrow> string \<Rightarrow> string \<Rightarrow> string \<Rightarrow> discovered_table option" where
  "discover_parquet_dir B db table path =
     (case list_files_with_dirs B path of
        Ok (files, dirs) \<Rightarrow>
          (let in_data = (if ''data'' \<in> set dirs then
                            (case list_files B (path @ ''data/'') of Ok fs \<Rightarrow> length (filter is_parquet fs) | _ \<Rightarrow> 0)
                          else 0);
               count = length (filter is_parquet files) + in_data;
               partition_dirs = filter (\<lambda>d. CHR ''='' \<in> set d) dirs
           in if count = 0 then None
              else Some
                \<lparr>disc_database = db, disc_name = table, disc_location = trim_end_matches (CHR ''/'') path, disc_format = RawParquet,
                 metadata_location = None, disc_columns = [], disc_version = None,
                 partition_fields = dedup (map (\<lambda>d. hd (split_char (CHR ''='') d)) partition_dirs), snapshot_count = count,
                 disc_updated_ms = None, disc_type = [],
                 disc_properties = (if partition_dirs = [] then [''file_count'' \<mapsto> show_nat count]
                                    else [''file_count'' \<mapsto> show_nat count, ''partitioning'' \<mapsto> ''hive''])\<rparr>)
      | _ \<Rightarrow> None)"

definition discover_table :: "bucket \<Rightarrow> string \<times> string \<times> string \<Rightarrow> discovered_table option" where
  "discover_table B = (\<lambda>(db, table, path).
     case discover_iceberg_table B db table path of
       Some t \<Rightarrow> Some t
     | None \<Rightarrow> (case discover_delta_table B db table path of
                 Some t \<Rightarrow> Some t
               | None \<Rightarrow> (case discover_hudi_table B db table path of
                           Some t \<Rightarrow> Some t
                         | None \<Rightarrow> discover_parquet_dir B db table path)))"

section \<open>The scan\<close>

text \<open>A directory to explore: the names on the way to it and its path.\<close>

type_synonym scan_dir = "string list \<times> string"

definition subdirectories :: "bucket \<Rightarrow> string \<Rightarrow> string list" where
  "subdirectories B path = (case list_directories B path of Ok ds \<Rightarrow> ds | _ \<Rightarrow> [])"

definition tables_in :: "bucket \<Rightarrow> scan_dir \<Rightarrow> (string \<times> string \<times> string) list" where
  "tables_in B = (\<lambda>(segments, path).
     map (\<lambda>d. (compose_database_name segments, strip_uuid_suffix d, path @ d @ ''/''))
       (filter (\<lambda>d. is_table_dir B (path @ d @ ''/'')) (subdirectories B path)))"

definition deeper_dirs :: "bucket \<Rightarrow> scan_dir \<Rightarrow> scan_dir list" where
  "deeper_dirs B = (\<lambda>(segments, path).
     map (\<lambda>d. (segments @ [d], path @ d @ ''/'')) (filter (\<lambda>d. is_inner_dir B (path @ d @ ''/'')) (subdirectories B path)))"

fun explore :: "bucket \<Rightarrow> nat \<Rightarrow> scan_dir list \<Rightarrow> (string \<times> string \<times> string) list" where
  "explore B 0 dirs = []"
| "explore B (Suc n) dirs =
     (if dirs = [] then [] else concat (map (tables_in B) dirs) @ explore B n (concat (map (deeper_dirs B) dirs)))"

definition all_table_paths :: "bucket \<Rightarrow> string \<Rightarrow> string list \<Rightarrow> (string \<times> string \<times> string) list" where
  "all_table_paths B pre top_dirs =
     (let flat = filter (\<lambda>d. is_table_dir B (pre @ d @ ''/'')) top_dirs;
          databases = filter (\<lambda>d. is_inner_dir B (pre @ d @ ''/'')) top_dirs
      in map (\<lambda>d. (''default'', d, pre @ d @ ''/'')) flat @
         explore B (max_scan_depth - 1) (map (\<lambda>d. ([d], pre @ d @ ''/'')) databases))"

record scan_result =
  warehouse_path :: string
  scan_databases :: "string list"
  scan_tables :: "discovered_table list"
  scan_total :: nat
  format_counts :: "string \<rightharpoonup> nat"

definition count_formats :: "discovered_table list \<Rightarrow> string \<rightharpoonup> nat" where
  "count_formats ts f =
     (let n = length (filter (\<lambda>t. show_format (disc_format t) = f) ts) in if n = 0 then None else Some n)"

definition scan_warehouse :: "bucket \<Rightarrow> string \<Rightarrow> scan_result result" where
  "scan_warehouse B warehouse_prefix =
     (let pre = normalize_prefix warehouse_prefix
      in bind_result (list_directories B pre) (\<lambda>top_dirs.
         bind_result (list_files_with_dirs B pre) (\<lambda>_.
           let tables = (if top_dirs = [] then [] else List.map_filter (discover_table B) (all_table_paths B pre top_dirs))
           in Ok \<lparr>warehouse_path = pre, scan_databases = sort (remdups (map disc_database tables)), scan_tables = tables,
                  scan_total = length tables, format_counts = count_formats tables\<rparr>)))"

section \<open>Warehouse locations\<close>

fun extract_s3_location_from :: "string list \<Rightarrow> string \<Rightarrow> string option" where
  "extract_s3_location_from [] ddl = None"
| "extract_s3_location_from (pat # pats) ddl =
     (let found = Option.bind (find_str ddl pat) (\<lambda>i.
                    let rest = drop (if starts_with pat [CHR 0x27] then i + 1 else i + length pat) ddl
                    in Option.bind (find_str rest [CHR 0x27]) (\<lambda>e.
                         let loc = trim (take e rest)
                         in if starts_with loc ''s3://'' \<or> starts_with loc ''s3a://'' then Some loc else None))
      in case found of Some loc \<Rightarrow> Some loc | None \<Rightarrow> extract_s3_location_from pats ddl)"

definition extract_s3_location :: "string \<Rightarrow> string option" where
  "extract_s3_location =
     extract_s3_location_from [''external_location = '' @ [CHR 0x27], ''location = '' @ [CHR 0x27], CHR 0x27 # ''s3://'', CHR 0x27 # ''s3a://'']"

definition parent_path :: "string \<Rightarrow> string option" where
  "parent_path p = map_option (\<lambda>i. take i p) (rfind_str p ''/'')"

definition derive_warehouse_from_location :: "string \<Rightarrow> string option" where
  "derive_warehouse_from_location loc =
     map_option (\<lambda>p. p @ ''/'') (Option.bind (parent_path (trim_end_matches (CHR ''/'') loc)) parent_path)"

definition derive_warehouse_from_schema_location :: "string \<Rightarrow> string option" where
  "derive_warehouse_from_schema_location loc =
     Option.bind (parent_path (trim_end_matches (CHR ''/'') loc)) (\<lambda>p.
       if starts_with p ''s3://'' \<or> starts_with p ''s3a://'' then Some (p @ ''/'') else None)"

section \<open>What a scan finds\<close>

text \<open>The directories that \<open>n\<close> steps through inner directories lead to.\<close>

inductive leads_to :: "bucket \<Rightarrow> nat \<Rightarrow> scan_dir \<Rightarrow> scan_dir \<Rightarrow> bool" for B where
  here: "leads_to B 0 d d"
| deeper: "e \<in> set (deeper_dirs B d) \<Longrightarrow> leads_to B n e f \<Longrightarrow> leads_to B (Suc n) d f"

inductive_simps leads_to_0 [simp]: "leads_to B 0 d f"
inductive_simps leads_to_Suc: "leads_to B (Suc n) d f"

lemma set_explore:
  "t \<in> set (explore B n dirs) \<longleftrightarrow> (\<exists>k < n. \<exists>d \<in> set dirs. \<exists>e. leads_to B k d e \<and> t \<in> set (tables_in B e))"
proof (induction n arbitrary: dirs)
  case (Suc n)
  have "t \<in> set (explore B (Suc n) dirs) \<longleftrightarrow>
      (\<exists>d \<in> set dirs. t \<in> set (tables_in B d)) \<or> t \<in> set (explore B n (concat (map (deeper_dirs B) dirs)))"
    using Suc.IH [of "[]"] by auto
  also have "t \<in> set (explore B n (concat (map (deeper_dirs B) dirs))) \<longleftrightarrow>
      (\<exists>k < n. \<exists>d \<in> set dirs. \<exists>e. leads_to B (Suc k) d e \<and> t \<in> set (tables_in B e))"
    unfolding Suc.IH leads_to_Suc set_concat set_map by fast
  finally show ?case unfolding Ex_less_Suc2 by simp
qed simp

text \<open>The specification of the scan: a table directory is one right under the prefix, or one in a directory
  that at most three steps through inner directories lead to from an inner directory under the prefix.\<close>

inductive table_directory :: "bucket \<Rightarrow> string \<Rightarrow> string list \<Rightarrow> string \<times> string \<times> string \<Rightarrow> bool" for B pre tops where
  flat: "d \<in> set tops \<Longrightarrow> is_table_dir B (pre @ d @ ''/'') \<Longrightarrow> table_directory B pre tops (''default'', d, pre @ d @ ''/'')"
| nested: "d \<in> set tops \<Longrightarrow> is_inner_dir B (pre @ d @ ''/'') \<Longrightarrow> leads_to B n ([d], pre @ d @ ''/'') (segments, path) \<Longrightarrow> n \<le> 3 \<Longrightarrow>
    t \<in> set (subdirectories B path) \<Longrightarrow> is_table_dir B (path @ t @ ''/'') \<Longrightarrow>
    table_directory B pre tops (compose_database_name segments, strip_uuid_suffix t, path @ t @ ''/'')"

lemma tables_in_iff:
  "t \<in> set (tables_in B (segments, path)) \<longleftrightarrow>
     (\<exists>d \<in> set (subdirectories B path). is_table_dir B (path @ d @ ''/'') \<and>
        t = (compose_database_name segments, strip_uuid_suffix d, path @ d @ ''/''))"
  by (auto simp: tables_in_def)

lemma all_table_paths_iff: "t \<in> set (all_table_paths B pre tops) \<longleftrightarrow> table_directory B pre tops t"
proof
  assume "t \<in> set (all_table_paths B pre tops)"
  then consider d where "d \<in> set tops" "is_table_dir B (pre @ d @ ''/'')" "t = (''default'', d, pre @ d @ ''/'')"
    | k d e where "k < max_scan_depth - 1" "d \<in> set tops" "is_inner_dir B (pre @ d @ ''/'')"
        "leads_to B k ([d], pre @ d @ ''/'') e" "t \<in> set (tables_in B e)"
    by (auto simp: all_table_paths_def set_explore)
  then show "table_directory B pre tops t"
  proof cases
    case 1
    then show ?thesis by (simp add: table_directory.flat)
  next
    case 2
    then show ?thesis
      by (cases e) (auto simp: tables_in_iff max_scan_depth_def intro!: table_directory.nested)
  qed
next
  assume "table_directory B pre tops t"
  then show "t \<in> set (all_table_paths B pre tops)"
  proof cases
    case (nested d n segments path u)
    then have "n < 4" "u' = t \<Longrightarrow> t \<in> set (tables_in B (segments, path))" for u' by (auto simp: tables_in_iff)
    then have "t \<in> set (explore B 4 (map (\<lambda>d. ([d], pre @ d @ ''/'')) (filter (\<lambda>d. is_inner_dir B (pre @ d @ ''/'')) tops)))"
      unfolding set_explore using nested by fastforce
    then show ?thesis by (simp add: all_table_paths_def max_scan_depth_def)
  qed (simp add: all_table_paths_def)
qed

text \<open>C39. A scan that answers reports exactly the tables that are found in the table directories: those right
  under the prefix and those up to five levels deep all of whose directories above are inner ones. A
  Parquet file right under the prefix belongs to none of them, so a prefix without subdirectories has no table. The
  totals, the databases and the counts per format are those of the reported tables.\<close>

theorem scan_finds_table_directories:
  assumes "scan_warehouse B w = Ok r"
  shows "(T \<in> set (scan_tables r) \<longleftrightarrow>
      (\<exists>t. table_directory B (normalize_prefix w) (subdirectories B (normalize_prefix w)) t \<and> discover_table B t = Some T)) \<and>
    (subdirectories B (normalize_prefix w) = [] \<longrightarrow> scan_tables r = []) \<and>
    scan_total r = length (scan_tables r) \<and> set (scan_databases r) = disc_database ` set (scan_tables r) \<and>
    sorted (scan_databases r) \<and> distinct (scan_databases r) \<and>
    format_counts r (show_format (disc_format T)) =
      (let n = length (filter (\<lambda>t. disc_format t = disc_format T) (scan_tables r)) in if n = 0 then None else Some n)"
proof -
  obtain tops where tops: "list_directories B (normalize_prefix w) = Ok tops"
    using assms by (auto simp: scan_warehouse_def Let_def)
  have "\<not> table_directory B p [] t" for p t by (auto elim: table_directory.cases)
  then have paths: "t \<in> set (if tops = [] then [] else all_table_paths B p tops) \<longleftrightarrow> table_directory B p tops t" for p t
    by (simp add: all_table_paths_iff)
  have fmt: "show_format f = show_format g \<longleftrightarrow> f = g" for f g
    by (cases f; cases g) (simp_all add: show_format_def)
  let ?paths = "if tops = [] then [] else all_table_paths B (normalize_prefix w) tops"
  have r: "scan_tables r = List.map_filter (discover_table B) ?paths" "scan_total r = length (scan_tables r)"
    "scan_databases r = sort (remdups (map disc_database (scan_tables r)))" "format_counts r = count_formats (scan_tables r)"
    using assms tops by (auto simp: scan_warehouse_def Let_def List.map_filter_def)
  have "subdirectories B (normalize_prefix w) = tops" by (simp add: subdirectories_def tops)
  moreover have "tops = [] \<Longrightarrow> scan_tables r = []" unfolding r(1) by (simp add: List.map_filter_def)
  moreover have "T \<in> set (scan_tables r) \<longleftrightarrow> (\<exists>t \<in> set ?paths. discover_table B t = Some T)"
    unfolding r(1) set_map_filter by blast
  then have "T \<in> set (scan_tables r) \<longleftrightarrow> (\<exists>t. table_directory B (normalize_prefix w) tops t \<and> discover_table B t = Some T)"
    using paths by blast
  ultimately show ?thesis
    unfolding r(2-4) by (intro conjI) (simp_all add: count_formats_def fmt Let_def)
qed

lemma subdirectory_name: "d \<in> set (subdirectories B path) \<Longrightarrow> CHR ''/'' \<notin> set d \<and> d \<noteq> []"
proof -
  assume "d \<in> set (subdirectories B path)"
  then obtain p where "d = dir_name p" "visible_dir d"
    by (auto simp: subdirectories_def list_directories_def split: result.splits sum.splits if_splits)
  then show ?thesis using split_char_parts [OF last_in_set [OF split_char_not_Nil]]
    by (simp add: dir_name_def last_segment_def visible_dir_def)
qed

lemma leads_to_path: "leads_to B n d e \<Longrightarrow> \<exists>x. snd e = snd d @ x"
  by (induction rule: leads_to.induct) (auto simp: deeper_dirs_def)

lemma discovered_locations:
  "discover_iceberg_table B db t path = Some T \<Longrightarrow> disc_location T = trim_end_matches (CHR ''/'') path"
  "discover_delta_table B db t path = Some T \<Longrightarrow> disc_location T = trim_end_matches (CHR ''/'') path"
  "discover_hudi_table B db t path = Some T \<Longrightarrow> disc_location T = trim_end_matches (CHR ''/'') path"
  "discover_parquet_dir B db t path = Some T \<Longrightarrow> disc_location T = trim_end_matches (CHR ''/'') path"
  by (auto simp: discover_iceberg_table_def discover_delta_table_def discover_hudi_table_def discover_parquet_dir_def
      Let_def case_prod_beta bind_eq_Some_conv split: result.split_asm list.split_asm if_split_asm)

lemma discover_location: "discover_table B (db, t, path) = Some T \<Longrightarrow> disc_location T = trim_end_matches (CHR ''/'') path"
  by (auto simp: discover_table_def discovered_locations split: option.split_asm)

lemma trim_end_matches_prefix: "prefix (trim_end_matches c p) p"
  by (metis trim_end_matches_def prefixI rev_append rev_rev_ident takeWhile_dropWhile_id)

lemma path_start_unique:
  assumes "CHR ''/'' \<notin> set d" "CHR ''/'' \<notin> set e" "prefix (pre @ d @ ''/'') (pre @ e @ ''/'' @ x)"
  shows "d = e"
proof -
  obtain y where "d @ CHR ''/'' # y = e @ CHR ''/'' # x" using assms(3) by (auto simp: prefix_def)
  then have "takeWhile ((\<noteq>) (CHR ''/'')) (d @ CHR ''/'' # y) = takeWhile ((\<noteq>) (CHR ''/'')) (e @ CHR ''/'' # x)" by simp
  moreover have "takeWhile ((\<noteq>) (CHR ''/'')) (z @ CHR ''/'' # v) = z" if "CHR ''/'' \<notin> set z" for z v
  proof -
    have "\<forall>c \<in> set z. CHR ''/'' \<noteq> c" using that by metis
    then show ?thesis by (simp add: takeWhile_append2)
  qed
  ultimately show ?thesis using assms(1,2) by simp
qed

lemma below_table_directory:
  assumes "table_directory B pre (subdirectories B pre) (db, t, path)" "is_table_dir B (pre @ d @ ''/'')"
    "CHR ''/'' \<notin> set d" "prefix (pre @ d @ ''/'') path"
  shows "(db, t, path) = (''default'', d, pre @ d @ ''/'')"
  using assms(1)
proof cases
  case flat
  then have "d = t" using path_start_unique [of d t pre "[]"] subdirectory_name assms(3,4) by simp
  with flat show ?thesis by simp
next
  case (nested e n segments p u)
  obtain x where x: "p = (pre @ e @ ''/'') @ x" using leads_to_path [OF nested(6)] by auto
  then have "d = e"
    using path_start_unique [of d e pre "x @ u @ ''/''"] subdirectory_name [OF nested(4)] assms(3,4) nested(3) by simp
  with nested(5) assms(2) show ?thesis by (simp add: is_inner_dir_def is_table_dir_def)
qed

text \<open>C40. A directory right under the prefix that looks like a table, for instance because it has a
  subdirectory named \<open>data\<close>, and cannot be read as one hides everything under it: no table with a location
  there is reported, whatever the directories below hold.\<close>

theorem false_table_hides_tables:
  assumes "scan_warehouse B w = Ok r" and "CHR ''/'' \<notin> set d" and "is_table_dir B (normalize_prefix w @ d @ ''/'')"
    and "discover_table B (''default'', d, normalize_prefix w @ d @ ''/'') = None" and "T \<in> set (scan_tables r)"
  shows "\<not> prefix (normalize_prefix w @ d @ ''/'') (disc_location T)"
proof
  let ?pre = "normalize_prefix w"
  assume below: "prefix (?pre @ d @ ''/'') (disc_location T)"
  obtain tops where tops: "list_directories B ?pre = Ok tops" using assms(1) by (auto simp: scan_warehouse_def Let_def)
  then have sub: "subdirectories B ?pre = tops" by (simp add: subdirectories_def)
  have "set (scan_tables r) \<subseteq> {T. \<exists>t \<in> set (all_table_paths B ?pre tops). discover_table B t = Some T}"
    using assms(1) tops by (auto simp: scan_warehouse_def Let_def set_map_filter split: if_splits)
  then obtain db t path where t: "table_directory B ?pre tops (db, t, path)" "discover_table B (db, t, path) = Some T"
    using assms(5) by (auto simp: all_table_paths_iff)
  have "prefix (?pre @ d @ ''/'') path"
    using below discover_location [OF t(2)] trim_end_matches_prefix prefix_order.trans by metis
  from below_table_directory [OF t(1) [folded sub] assms(3,2) this] t(2) assms(4) show False by simp
qed

section \<open>Names of tables\<close>

lemma rfind_char_None: "c \<notin> set b \<Longrightarrow> rfind_str b [c] = None"
  by (induction b) auto

lemma rfind_char: "c \<notin> set b \<Longrightarrow> rfind_str (a @ c # b) [c] = Some (length a)"
  by (induction a) (auto simp: rfind_char_None)

lemma rfind_char_absent: "rfind_str s [c] = None \<Longrightarrow> c \<notin> set s"
  by (induction s) (auto split: option.splits if_splits)

lemma rfind_char_rest: "rfind_str s [c] = Some i \<Longrightarrow> c \<notin> set (drop (Suc i) s) \<and> i < length s"
  by (induction s arbitrary: i) (auto split: option.splits if_splits simp: rfind_char_absent)

text \<open>The suffixes that catalogs append: 32 hexadecimal digits, or a UUID with its dashes.\<close>

definition uuid_text :: "string \<Rightarrow> bool" where
  "uuid_text u \<longleftrightarrow> (length u = 32 \<and> list_all is_hex u) \<or> is_dashed_uuid u"

lemma dashed_uuid_shape:
  assumes "is_dashed_uuid u"
  shows "length u = 36" and "u ! 8 = CHR ''-''"
proof -
  obtain p0 p1 p2 p3 p4 where p: "split_char (CHR ''-'') u = [p0, p1, p2, p3, p4]"
    "length p0 = 8" "length p1 = 4" "length p2 = 4" "length p3 = 4" "length p4 = 12"
    using assms by (auto simp: is_dashed_uuid_def Let_def map_eq_Cons_conv)
  have "u = p0 @ ''-'' @ p1 @ ''-'' @ p2 @ ''-'' @ p3 @ ''-'' @ p4"
    using join_split_char [of "CHR ''-''" u] p(1) by simp
  with p show "length u = 36" "u ! 8 = CHR ''-''" by (simp_all add: nth_append)
qed

lemma hex_no_dash: "list_all is_hex u \<Longrightarrow> CHR ''-'' \<notin> set u"
  by (auto simp: list_all_iff is_hex_def)

text \<open>The name of a table comes back from its directory: whatever name is given, with dashes or not, and
  whichever of the two kinds of identifiers follows it.\<close>

theorem table_name_roundtrip:
  assumes "n \<noteq> []" and "uuid_text u"
  shows "strip_uuid_suffix (n @ ''-'' @ u) = n"
proof (cases "is_dashed_uuid u")
  case False
  then have u: "length u = 32" "list_all is_hex u" using assms(2) by (simp_all add: uuid_text_def)
  then show ?thesis
    using rfind_char [OF hex_no_dash [OF u(2)], of n] assms(1) by (simp add: strip_uuid_suffix_def)
next
  case True
  let ?s = "n @ ''-'' @ u"
  note u = dashed_uuid_shape [OF True]
  have "strip_dashed_uuid ?s = n"
    using assms(1) True u(1) by (cases n) (simp_all add: strip_dashed_uuid_def Let_def nth_append)
  moreover have "length (drop (i + 1) ?s) \<noteq> 32" if "rfind_str ?s ''-'' = Some i" for i
  proof
    assume l: "length (drop (i + 1) ?s) = 32"
    then have "i + 1 = length n + 5" using u(1) rfind_char_rest [OF that] by simp
    then have "drop (i + 1) ?s = drop 4 u" by simp
    moreover have "u ! 8 \<in> set (drop 4 u)" using u(1) by (auto simp: in_set_conv_nth intro!: exI [of _ 4])
    ultimately show False using rfind_char_rest [OF that] u(2) by simp
  qed
  ultimately show ?thesis by (simp add: strip_uuid_suffix_def split: option.split)
qed

section \<open>Delta tables\<close>

lemma delta_fold_no_metadata:
  "\<forall>e \<in> set es. jget ''metaData'' e = None \<Longrightarrow>
   delta_columns (fold (read_delta_entry B) es d) = delta_columns d \<and>
   delta_partitions (fold (read_delta_entry B) es d) = delta_partitions d \<and>
   delta_properties (fold (read_delta_entry B) es d) = delta_properties d"
  by (induction es arbitrary: d) (auto simp: read_delta_entry_def Let_def split: option.split)

lemma last_sort_Max:
  fixes xs :: "'a :: linorder list"
  assumes "xs \<noteq> []"
  shows "last (sort xs) = Max (set xs)"
proof -
  have ne: "sort xs \<noteq> []" using assms by (metis set_empty set_sort)
  then have split: "sort xs = butlast (sort xs) @ [last (sort xs)]" by simp
  then have "sorted (butlast (sort xs) @ [last (sort xs)])" by (metis sorted_sort)
  then have le: "\<forall>x \<in> set (butlast (sort xs)). x \<le> last (sort xs)" by (simp add: sorted_append)
  have "x \<le> last (sort xs)" if "x \<in> set xs" for x
  proof -
    have "x \<in> set (butlast (sort xs) @ [last (sort xs)])" using that split by (metis set_sort)
    with le show ?thesis by auto
  qed
  moreover have "last (sort xs) \<in> set xs" using last_in_set [OF ne] by simp
  ultimately show ?thesis by (intro Max_eqI [symmetric]) simp_all
qed

text \<open>The schema of a Delta table is read from the last commit only. When that commit does not change the
  metadata, as no commit that only appends data does, the table is reported without columns, partitions
  and properties, whatever the commits before it hold.\<close>

theorem delta_schema_needs_last_commit:
  assumes "list_files B (path @ ''_delta_log/'') = Ok files" and "\<exists>f \<in> set files. ends_with f ''.json''"
    and "read_json_lines B (path @ ''_delta_log/'' @ Max {f \<in> set files. ends_with f ''.json''}) = Some entries"
    and "\<forall>e \<in> set entries. jget ''metaData'' e = None"
  shows "\<exists>T. discover_delta_table B db t path = Some T \<and> disc_columns T = [] \<and> partition_fields T = [] \<and> disc_properties T = Map.empty"
proof -
  let ?js = "filter (\<lambda>f. ends_with f ''.json'') files"
  have "?js \<noteq> []" using assms(2) by (auto simp: filter_empty_conv)
  then obtain l r where lr: "rev (sort ?js) = l # r" by (metis list.exhaust rev_is_Nil_conv set_empty set_sort)
  then have "l = last (sort ?js)" by (metis hd_rev list.sel(1))
  moreover have "last (sort ?js) = Max (set ?js)" using \<open>?js \<noteq> []\<close> by (rule last_sort_Max)
  ultimately have l: "l = Max {f \<in> set files. ends_with f ''.json''}" by simp
  show ?thesis
    using assms(1,3) delta_fold_no_metadata [OF assms(4), of B empty_delta]
    by (simp add: discover_delta_table_def lr l empty_delta_def)
qed

section \<open>Instances\<close>

text \<open>A bucket with a plain Parquet table \<open>t\<close>, and a database \<open>db\<close> with a directory \<open>data\<close> beside a table
  directory \<open>orders\<close>; \<open>d\<close> is a Delta table of one commit that only adds a file.\<close>

definition demo_listing :: "string \<Rightarrow> string list \<times> string list" where
  "demo_listing path =
     (if path = [] then ([''t'', ''db''], [])
      else if path = ''t/'' then ([], [''t/x.parquet''])
      else if path = ''db/'' then ([''db/data'', ''db/orders''], [])
      else if path = ''db/orders/'' then ([''db/orders/metadata''], [])
      else if path = ''d/_delta_log/'' then ([], [''d/_delta_log/0.json''])
      else ([], []))"

definition demo_bucket :: bucket where
  "demo_bucket = \<lparr>list_at = \<lambda>p. Inr (demo_listing p), read_at = \<lambda>_. Inr ''{}'', parse_text = \<lambda>_. Some (JArr []), utf8_lossy = \<lambda>s. s\<rparr>"

lemma demo_scan_ok: "\<exists>r. scan_warehouse demo_bucket ''s3://lake'' = Ok r"
  by (simp add: scan_warehouse_def list_directories_def list_files_with_dirs_def demo_bucket_def Let_def case_prod_beta)

lemma scan_finds_table_directories_witness:
  "\<exists>r. scan_warehouse demo_bucket ''s3://lake'' = Ok r \<and> scan_total r = length (scan_tables r)"
  using demo_scan_ok scan_finds_table_directories [of demo_bucket "''s3://lake''"] by metis

lemma false_table_hides_tables_witness:
  "\<exists>r T. scan_warehouse demo_bucket ''s3://lake'' = Ok r \<and> T \<in> set (scan_tables r) \<and> \<not> prefix ''db/'' (disc_location T)"
proof -
  have n: "normalize_prefix ''s3://lake'' = []" by code_simp
  have dirs: "list_directories demo_bucket [] = Ok [''t'', ''db'']" by code_simp
  have t: "is_table_dir demo_bucket ''db/''" by code_simp
  have "Option.is_none (discover_table demo_bucket (''default'', ''db'', ''db/''))" by code_simp
  then have none: "discover_table demo_bucket (''default'', ''db'', ''db/'') = None" by (simp add: Option.is_none_def)
  have "\<not> Option.is_none (discover_table demo_bucket (''default'', ''t'', ''t/''))" by code_simp
  then obtain T where T: "discover_table demo_bucket (''default'', ''t'', ''t/'') = Some T" by (auto simp: Option.is_none_def)
  have "(''default'', ''t'', ''t/'') \<in> set (all_table_paths demo_bucket [] [''t'', ''db''])" by code_simp
  then have "T \<in> set (List.map_filter (discover_table demo_bucket) (all_table_paths demo_bucket [] [''t'', ''db'']))"
    using T unfolding set_map_filter by blast
  moreover obtain r where r: "scan_warehouse demo_bucket ''s3://lake'' = Ok r" using demo_scan_ok by blast
  moreover have "scan_tables r = List.map_filter (discover_table demo_bucket) (all_table_paths demo_bucket [] [''t'', ''db''])"
    using r by (simp add: scan_warehouse_def n dirs Let_def) (auto split: result.splits)
  ultimately show ?thesis
    using false_table_hides_tables [OF r, of "''db''" T] t none n by auto
qed

lemma table_name_roundtrip_witness:
  "strip_uuid_suffix (''mars'' @ ''-'' @ ''8c47cb78483c464aaceba11d21658a04'') = ''mars''"
proof (rule table_name_roundtrip)
  show "uuid_text ''8c47cb78483c464aaceba11d21658a04''" by code_simp
qed simp

lemma delta_schema_needs_last_commit_witness:
  "\<exists>T. discover_delta_table demo_bucket ''default'' ''d'' ''d/'' = Some T \<and> disc_columns T = []"
proof -
  have f: "list_files demo_bucket (''d/'' @ ''_delta_log/'') = Ok [''0.json'']" by code_simp
  have e: "ends_with ''0.json'' ''.json''" by code_simp
  have "{f \<in> set [x]. P f} = {x}" if "P x" for x :: string and P using that by auto
  from this [of "\<lambda>f. ends_with f ''.json''", OF e]
  have m: "Max {f \<in> set [''0.json'']. ends_with f ''.json''} = ''0.json''" by (simp only: Max_singleton)
  have l: "filter (\<lambda>l. trim l \<noteq> []) (str_lines ''{}'') = [''{}'']" by code_simp
  have "read_json_lines demo_bucket (''d/'' @ ''_delta_log/'' @ Max {f \<in> set [''0.json'']. ends_with f ''.json''}) = Some [JArr []]"
    unfolding m using l by (simp add: read_json_lines_def demo_bucket_def List.map_filter_def)
  from delta_schema_needs_last_commit [OF f _ this] e show ?thesis by auto
qed

end
