(* ===== verification/Transform_Models.thy ===== *)
theory Transform_Models
  imports Sql_Compiler Dependency_Order Executable_Lifecycle Quality_Gates
begin

text \<open>
  SQL transforms as the server offers them (\<open>rustlake-api/src/routes.rs\<close>): the built-in transforms, the
  ones users create, the compiler over all of them with the mapping of sources to files, the statement
  with its dependencies as common table expressions, and the handler that runs it.

  The recursion over dependencies has no guard, so it is \<open>partial_function (option)\<close>: \<open>None\<close> stands for a
  call that never returns (in the server the stack overflows). The SQL engine and the JSON text of rows
  are parameters.
\<close>

section \<open>Transforms\<close>

record transform_entry =
  entry_name :: string
  entry_sql :: string
  entry_depends_on :: "string list"
  materialization :: string
  entry_description :: string

record user_transform = transform_entry +
  entry_created_at :: string

definition build_transform_entries :: "transform_entry list" where
  "build_transform_entries =
     [\<lparr>entry_name = ''stg_orders'',
       entry_sql = ''SELECT order_id, customer_id, total_amount, status, CAST(order_date AS DATE) as order_date FROM {{ source('raw', 'orders') }}'',
       entry_depends_on = [''raw.orders''], materialization = ''view'', entry_description = ''Staged orders with clean types''\<rparr>,
      \<lparr>entry_name = ''stg_customers'',
       entry_sql = ''SELECT customer_id, name, email, city, tier FROM {{ source('raw', 'customers') }}'',
       entry_depends_on = [''raw.customers''], materialization = ''view'', entry_description = ''Staged customer profiles''\<rparr>,
      \<lparr>entry_name = ''fct_revenue'',
       entry_sql = ''SELECT o.customer_id, c.name, c.tier, ROUND(SUM(o.total_amount), 2) as total_revenue, COUNT(*) as order_count FROM {{ ref('stg_orders') }} o JOIN {{ ref('stg_customers') }} c ON o.customer_id = c.customer_id WHERE o.status = 'completed' GROUP BY o.customer_id, c.name, c.tier'',
       entry_depends_on = [''stg_orders'', ''stg_customers''], materialization = ''table'', entry_description = ''Revenue fact table by customer''\<rparr>,
      \<lparr>entry_name = ''dim_product_category'',
       entry_sql = ''SELECT category, COUNT(*) as product_count, ROUND(AVG(price), 2) as avg_price, SUM(stock_qty) as total_stock FROM {{ source('raw', 'products') }} GROUP BY category'',
       entry_depends_on = [''raw.products''], materialization = ''table'', entry_description = ''Product category dimension''\<rparr>,
      \<lparr>entry_name = ''rpt_customer_ltv'',
       entry_sql = ''SELECT r.name, r.tier, r.total_revenue, r.order_count, ROUND(r.total_revenue / r.order_count, 2) as avg_order_value, CASE WHEN r.total_revenue > 500 THEN 'high' WHEN r.total_revenue > 200 THEN 'medium' ELSE 'low' END as ltv_segment FROM {{ ref('fct_revenue') }} r ORDER BY r.total_revenue DESC'',
       entry_depends_on = [''fct_revenue''], materialization = ''view'', entry_description = ''Customer lifetime value report''\<rparr>,
      \<lparr>entry_name = ''tpch_revenue_by_nation'',
       entry_sql = ''SELECT c.city as nation, ROUND(SUM(o.total_amount), 2) as revenue, COUNT(*) as order_count FROM {{ ref('stg_orders') }} o JOIN {{ ref('stg_customers') }} c ON o.customer_id = c.customer_id WHERE o.status = 'completed' GROUP BY c.city ORDER BY revenue DESC'',
       entry_depends_on = [''stg_orders'', ''stg_customers''], materialization = ''table'', entry_description = ''Revenue aggregation by customer city/nation''\<rparr>]"

definition all_transforms :: "user_transform list \<Rightarrow> transform_entry list" where
  "all_transforms user = build_transform_entries @ map transform_entry.truncate user"

text \<open>The map of the compiler: the last model of a name counts.\<close>

definition build_compiler_from_entries :: "transform_entry list \<Rightarrow> models" where
  "build_compiler_from_entries es = fold (\<lambda>e m. fmupd (entry_name e) (entry_sql e) m) es fmempty"

definition source_to_file_path :: "string \<Rightarrow> string \<Rightarrow> string option" where
  "source_to_file_path src tbl =
     (if src = ''raw'' then Some ([sq] @ ''sample-data/'' @ tbl @ ''.csv'' @ [sq]) else None)"

definition compile_entry :: "string \<Rightarrow> models \<Rightarrow> string \<Rightarrow> string http result option" where
  "compile_entry kind ms n =
     map_option (\<lambda>r. case r of
         Ok s \<Rightarrow> Ok (Inr s)
       | Err e \<Rightarrow> Ok (Inl (500, ''Failed to compile '' @ kind @ '' '' @ quote n @ '': Engine error: '' @ e))
       | Panic \<Rightarrow> Panic)
       (compile_with_source_map ms source_to_file_path n)"

section \<open>The statement with its dependencies\<close>

text \<open>The common table expressions written so far, and the names they are of.\<close>

type_synonym ctes = "string list \<times> string list"

definition cte_of :: "string \<Rightarrow> string \<Rightarrow> string" where
  "cte_of n sql = n @ '' AS ('' @ sql @ '')''"

definition add_cte :: "models \<Rightarrow> string \<Rightarrow> ctes \<Rightarrow> ctes http result option" where
  "add_cte ms n a =
     map_option (\<lambda>r. case r of
         Ok (Inr sql) \<Rightarrow> Ok (Inr (fst a @ [cte_of n sql], snd a @ [n]))
       | Ok (Inl e) \<Rightarrow> Ok (Inl e)
       | Err e \<Rightarrow> Err e
       | Panic \<Rightarrow> Panic)
       (compile_entry ''dependency'' ms n)"

definition model_deps :: "transform_entry \<Rightarrow> string list" where
  "model_deps e = filter (\<lambda>d. CHR ''.'' \<notin> set d) (entry_depends_on e)"

definition find_entry :: "string \<Rightarrow> transform_entry list \<Rightarrow> transform_entry option" where
  "find_entry n es = find (\<lambda>e. entry_name e = n) es"

text \<open>\<open>resolve_deps\<close> for one name, and its loop over the names of the dependencies.\<close>

partial_function (option) resolve_deps ::
  "transform_entry list \<Rightarrow> models \<Rightarrow> string + string list \<Rightarrow> ctes \<Rightarrow> ctes http result option" where
  "resolve_deps es ms job a =
     (case job of
        Inl n \<Rightarrow>
          (if n \<in> set (snd a) then Some (Ok (Inr a))
           else case find_entry n es of
                  None \<Rightarrow> Some (Ok (Inr a))
                | Some e \<Rightarrow> Option.bind (resolve_deps es ms (Inr (model_deps e)) a)
                    (\<lambda>r. case r of Ok (Inr a') \<Rightarrow> add_cte ms n a' | _ \<Rightarrow> Some r))
      | Inr ds \<Rightarrow>
          (case ds of
             [] \<Rightarrow> Some (Ok (Inr a))
           | d # rest \<Rightarrow> Option.bind (resolve_deps es ms (Inl d) a)
               (\<lambda>r. case r of Ok (Inr a') \<Rightarrow> resolve_deps es ms (Inr rest) a' | _ \<Rightarrow> Some r)))"

text \<open>The part of the last expression between its parentheses is the statement; the others go before it.\<close>

definition cte_body :: "string \<Rightarrow> string" where
  "cte_body c = (case find_str c '' AS ('' of None \<Rightarrow> c | Some pos \<Rightarrow> drop (pos + 5) (take (length c - 1) c))"

definition build_executable_sql :: "string \<Rightarrow> transform_entry list \<Rightarrow> models \<Rightarrow> string http result option" where
  "build_executable_sql n es ms =
     Option.bind (resolve_deps es ms (Inl n) ([], []))
       (\<lambda>r. case r of
          Ok (Inr (ctes, _)) \<Rightarrow>
            (if length ctes \<le> 1 then compile_entry ''transform'' ms n
             else Some (Ok (Inr (''WITH '' @ join_with '', '' (butlast ctes) @ '' '' @ cte_body (last ctes)))))
        | Ok (Inl e) \<Rightarrow> Some (Ok (Inl e))
        | Err e \<Rightarrow> Some (Err e)
        | Panic \<Rightarrow> Some Panic)"

section \<open>The handlers\<close>

record 'b transform_answer =
  ran_transform :: string
  compiled_text :: string
  ran_columns :: "string list"
  ran_rows :: "'b list"

definition first_batch_columns :: "record_batch list \<Rightarrow> string list" where
  "first_batch_columns bs = (case bs of [] \<Rightarrow> [] | b # _ \<Rightarrow> map field_name (batch_schema b))"

definition answer_rows ::
  "(record_batch list \<Rightarrow> string + 'b list) \<Rightarrow> string \<Rightarrow> string \<Rightarrow> string + record_batch list \<Rightarrow> 'b transform_answer http" where
  "answer_rows to_json n compiled r =
     (case r of
        Inl e \<Rightarrow> Inl (400, ''Transform execution failed: '' @ e)
      | Inr bs \<Rightarrow>
          (case to_json bs of
             Inl e \<Rightarrow> Inl (500, ''Failed to serialize transform results: '' @ e)
           | Inr rows \<Rightarrow> Inr \<lparr>ran_transform = n, compiled_text = compiled, ran_columns = first_batch_columns bs, ran_rows = rows\<rparr>))"

definition run_transform ::
  "('w \<Rightarrow> string \<Rightarrow> (string + record_batch list) \<times> 'w) \<Rightarrow> (record_batch list \<Rightarrow> string + 'b list) \<Rightarrow>
   string \<Rightarrow> user_transform list \<Rightarrow> 'w \<Rightarrow> ('b transform_answer http result \<times> 'w) option" where
  "run_transform run_sql to_json n user w =
     (let es = all_transforms user; ms = build_compiler_from_entries es
      in if find_entry n es = None
         then Some (Ok (Inl (404, ''Transform '' @ quote n @ '' not found. Available: '' @ join_with '', '' (map entry_name es))), w)
         else Option.bind (compile_entry ''transform'' ms n) (\<lambda>c. case c of
                Ok (Inr compiled) \<Rightarrow>
                  Option.bind (build_executable_sql n es ms) (\<lambda>x. case x of
                    Ok (Inr sql) \<Rightarrow> (case run_sql w sql of (r, w') \<Rightarrow> Some (Ok (answer_rows to_json n compiled r), w'))
                  | Ok (Inl e) \<Rightarrow> Some (Ok (Inl e), w)
                  | Err e \<Rightarrow> Some (Err e, w)
                  | Panic \<Rightarrow> Some (Panic, w))
              | Ok (Inl e) \<Rightarrow> Some (Ok (Inl e), w)
              | Err e \<Rightarrow> Some (Err e, w)
              | Panic \<Rightarrow> Some (Panic, w)))"

definition default_materialization :: string where "default_materialization = ''view''"

record transform_request =
  new_name :: string
  new_sql :: string
  new_depends_on :: "string list"
  new_materialization :: "string option"
  new_description :: string

definition user_transform_of :: "string \<Rightarrow> transform_request \<Rightarrow> user_transform" where
  "user_transform_of now r =
     \<lparr>entry_name = new_name r, entry_sql = new_sql r, entry_depends_on = new_depends_on r,
      materialization = unwrap_or default_materialization (new_materialization r), entry_description = new_description r,
      entry_created_at = now\<rparr>"

definition create_transform :: "string \<Rightarrow> transform_request \<Rightarrow> user_transform list \<Rightarrow> string http \<times> user_transform list" where
  "create_transform now r ts =
     (if new_name r = [] \<or> new_sql r = [] then (Inl (400, ''name and sql are required''), ts)
      else (Inr (new_name r), ts @ [user_transform_of now r]))"

definition delete_transform :: "string \<Rightarrow> user_transform list \<Rightarrow> string http \<times> user_transform list" where
  "delete_transform n ts =
     (let ts' = filter (\<lambda>t. entry_name t \<noteq> n) ts
      in if length ts' = length ts then (Inl (404, ''Transform '' @ quote n @ '' not found''), ts') else (Inr n, ts'))"

section \<open>Compilation returns\<close>

lemma count_replace_range:
  assumes "start \<le> e" and "e \<le> length s"
  shows "count_list (replace_range start e r s) c + count_list (take (e - start) (drop start s)) c = count_list s c + count_list r c"
proof -
  have "s = take start s @ take (e - start) (drop start s) @ drop e s"
    using assms(1) by (metis append_take_drop_id drop_drop le_add_diff_inverse2)
  then have "count_list s c = count_list (take start s) c + count_list (take (e - start) (drop start s)) c + count_list (drop e s) c"
    by (metis count_list_append add.assoc)
  then show ?thesis by (simp add: replace_range_def)
qed

lemma find_char_split: "find_str s [c] = Some i \<Longrightarrow> s = take i s @ c # drop (Suc i) s \<and> i < length s"
  by (induction s arbitrary: i) (auto split: if_splits)

lemma parse_source_shape:
  assumes "find_str s source_open = Some start" and "parse_source model s start = Ok (src, tbl, cp)"
  shows "\<exists>g r. take (cp + 1 - start) (drop start s) = source_open @ src @ sq # g @ sq # tbl @ r"
proof -
  let ?X = "drop (start + 8) s"
  from assms(2) obtain len1 gap len2 k where
    1: "find_str ?X [sq] = Some len1"
    and 2: "find_str (drop (start + 8 + len1 + 1) s) [sq] = Some gap"
    and 3: "find_str (drop (start + 8 + len1 + 1 + gap + 1) s) [sq] = Some len2"
    and r: "src = take len1 ?X" "tbl = take len2 (drop (start + 8 + len1 + 1 + gap + 1) s)"
      "cp = start + 8 + len1 + 1 + gap + 1 + len2 + k"
    by (auto simp: parse_source_def Let_def split: option.splits)
  let ?Y = "drop (start + 8 + len1 + 1) s" and ?Z = "drop (start + 8 + len1 + 1 + gap + 1) s"
  have x: "?X = src @ sq # ?Y" "length src = len1" using find_char_split [OF 1] r(1) by (auto simp: add.commute add.left_commute)
  have y: "?Y = take gap ?Y @ sq # ?Z" "length (take gap ?Y) = gap" using find_char_split [OF 2] by (auto simp: add.commute add.left_commute)
  have z: "?Z = tbl @ drop len2 ?Z" "length tbl = len2"
    unfolding r(2) using find_char_split [OF 3] by (simp_all only: append_take_drop_id length_take) simp
  have "prefix source_open (drop start s)" using assms(1) by (simp add: find_str_prefix)
  then obtain t where t: "drop start s = source_open @ t" by (auto simp: prefix_def)
  have l: "length source_open = 8" by (simp add: source_open_def)
  have "t = ?X" using arg_cong [OF t, of "drop 8"] l by (simp add: add.commute)
  then have "drop start s = source_open @ src @ sq # take gap ?Y @ sq # tbl @ drop len2 ?Z"
    using t x(1) y(1) z(1) by (metis append_Cons append_assoc)
  moreover have "cp + 1 - start = length (source_open @ src @ sq # take gap ?Y @ sq # tbl) + (k + 1)"
    using r(3) l x(2) y(2) z(2) by simp
  moreover have "take (length p + j) (p @ q) = p @ take j q" for p q :: string and j by simp
  from this [of "source_open @ src @ sq # take gap ?Y @ sq # tbl" "k + 1" "drop len2 ?Z"]
  have "take (length (source_open @ src @ sq # take gap ?Y @ sq # tbl) + (k + 1))
      (source_open @ src @ sq # take gap ?Y @ sq # tbl @ drop len2 ?Z) =
      source_open @ src @ sq # take gap ?Y @ sq # tbl @ take (k + 1) (drop len2 ?Z)"
    by (simp only: append_assoc append_Cons)
  ultimately have "take (cp + 1 - start) (drop start s) = source_open @ src @ sq # take gap ?Y @ sq # tbl @ take (k + 1) (drop len2 ?Z)"
    by (simp only:)
  then show ?thesis by blast
qed

text \<open>A mapper whose answers have no more opening parentheses than its arguments cannot bring in a new macro.\<close>

lemma sources_with_parens:
  assumes "\<And>a b r. mapper a b = Some r \<Longrightarrow> count_list r (CHR ''('') \<le> count_list a (CHR ''('') + count_list b (CHR ''('')"
  shows "\<exists>r. resolve_sources_with mapper model s = Some r"
proof (induction "count_list s (CHR ''('')" arbitrary: s rule: less_induct)
  case less
  show ?case
  proof (cases "find_str s source_open")
    case None
    then show ?thesis by (subst resolve_sources_with.simps) simp
  next
    case (Some start)
    show ?thesis
    proof (cases "parse_source model s start")
      case (Ok m)
      obtain src tbl cp where m: "m = (src, tbl, cp)" by (cases m) auto
      let ?r = "unwrap_or (src @ ''.'' @ tbl) (mapper src tbl)"
      have r: "count_list ?r (CHR ''('') \<le> count_list src (CHR ''('') + count_list tbl (CHR ''('')"
        using assms [of src tbl] by (cases "mapper src tbl") simp_all
      obtain g rest where t: "take (cp + 1 - start) (drop start s) = source_open @ src @ sq # g @ sq # tbl @ rest"
        using parse_source_shape [OF Some Ok [unfolded m]] by blast
      have "start \<le> cp + 1" "cp + 1 \<le> length s" using parse_source_bounds [OF Ok [unfolded m]] by simp_all
      from count_replace_range [OF this, of ?r "CHR ''(''"] t r
      have "count_list (replace_range start (cp + 1) ?r s) (CHR ''('') < count_list s (CHR ''('')"
        by (simp add: source_open_def sq_def)
      from less [OF this] Some Ok m show ?thesis by (subst resolve_sources_with.simps) simp
    next
      case (Err e)
      with Some show ?thesis by (subst resolve_sources_with.simps) simp
    next
      case Panic
      with Some show ?thesis by (subst resolve_sources_with.simps) simp
    qed
  qed
qed

lemma compile_entry_returns: "\<exists>r. compile_entry kind ms n = Some r"
proof -
  have "\<exists>r. resolve_sources_with source_to_file_path model s = Some r" for model s
    by (rule sources_with_parens) (auto simp: source_to_file_path_def sq_def split: if_splits)
  then have "\<exists>r. compile_with_source_map ms source_to_file_path n = Some r"
    by (auto simp: compile_with_source_map_def split: option.split)
  then show ?thesis by (auto simp: compile_entry_def)
qed

section \<open>Dependencies\<close>

text \<open>The dependencies that are transforms themselves, as a graph.\<close>

definition entry_deps :: "transform_entry list \<Rightarrow> string \<Rightarrow> string list" where
  "entry_deps es n = (case find_entry n es of None \<Rightarrow> [] | Some e \<Rightarrow> filter (\<lambda>d. find_entry d es \<noteq> None) (model_deps e))"

definition entry_dag :: "transform_entry list \<Rightarrow> dag" where
  "entry_dag es = fmap_of_list (map (\<lambda>e. (entry_name e, entry_deps es (entry_name e))) es)"

lemma deps_entry_dag [simp]: "deps_of (entry_dag es) n = entry_deps es n"
proof (cases "find_entry n es")
  case None
  then have "n \<notin> entry_name ` set es" by (auto simp: find_entry_def find_None_iff)
  then have "map_of (map (\<lambda>e. (entry_name e, entry_deps es (entry_name e))) es) n = None"
    by (auto simp: map_of_eq_None_iff)
  with None show ?thesis by (simp add: deps_of_def entry_dag_def fmlookup_of_list entry_deps_def)
next
  case (Some e)
  then have "n \<in> entry_name ` set es" by (auto simp: find_entry_def find_Some_iff)
  then have "map_of (map (\<lambda>e. (entry_name e, f (entry_name e))) es) n = Some (f n)" for f :: "string \<Rightarrow> string list"
    by (induction es) auto
  then show ?thesis by (simp add: deps_of_def entry_dag_def fmlookup_of_list)
qed

definition compiles :: "models \<Rightarrow> string \<Rightarrow> string \<Rightarrow> bool" where
  "compiles ms n sql \<longleftrightarrow> compile_with_source_map ms source_to_file_path n = Some (Ok sql)"

definition compiled_sql :: "models \<Rightarrow> string \<Rightarrow> string" where
  "compiled_sql ms n = (case compile_with_source_map ms source_to_file_path n of Some (Ok s) \<Rightarrow> s | _ \<Rightarrow> [])"

text \<open>What the recursion keeps: the names are in dependency order, are transforms, and the expressions are theirs.\<close>

definition ctes_ok :: "transform_entry list \<Rightarrow> models \<Rightarrow> ctes \<Rightarrow> bool" where
  "ctes_ok es ms a \<longleftrightarrow> in_order (entry_dag es) (snd a) \<and> (\<forall>n \<in> set (snd a). find_entry n es \<noteq> None) \<and>
     fst a = map (\<lambda>n. cte_of n (compiled_sql ms n)) (snd a)"

lemma in_order_snoc:
  assumes "in_order dag ns" and "n \<notin> set ns" and "set (deps_of dag n) \<subseteq> set ns"
  shows "in_order dag (ns @ [n])"
  unfolding in_order_def
proof (intro conjI allI impI)
  show "distinct (ns @ [n])" using assms by (simp add: in_order_def)
  fix i assume "i < length (ns @ [n])"
  then consider "i < length ns" | "i = length ns" by fastforce
  then show "set (deps_of dag ((ns @ [n]) ! i)) \<subseteq> set (take i (ns @ [n]))"
    using assms by cases (auto simp: in_order_def nth_append)
qed

lemma add_cte_ok:
  assumes "add_cte ms n a = Some (Ok (Inr a'))"
  shows "a' = (fst a @ [cte_of n (compiled_sql ms n)], snd a @ [n])"
proof (cases "compile_with_source_map ms source_to_file_path n")
  case (Some r)
  with assms show ?thesis by (cases r) (auto simp: add_cte_def compile_entry_def compiled_sql_def)
qed (use assms in \<open>simp add: add_cte_def compile_entry_def\<close>)

definition job_names :: "transform_entry list \<Rightarrow> string + string list \<Rightarrow> string set" where
  "job_names es job = {n. find_entry n es \<noteq> None \<and> (case job of Inl m \<Rightarrow> n = m | Inr ds \<Rightarrow> n \<in> set ds)}"


text \<open>If the recursion answers without an error, what it was called for is among the names, in order, and
  nothing else has come in but what that depends on.\<close>

definition resolved_for :: "transform_entry list \<Rightarrow> models \<Rightarrow> string + string list \<Rightarrow> ctes \<Rightarrow> ctes \<Rightarrow> bool" where
  "resolved_for es ms job a a' \<longleftrightarrow>
     ctes_ok es ms a' \<and> set (snd a) \<subseteq> set (snd a') \<and> job_names es job \<subseteq> set (snd a') \<and>
     set (snd a') \<subseteq> set (snd a) \<union> (\<Union>m \<in> job_names es job. upstream_of (entry_dag es) m) \<and>
     (\<forall>n. job = Inl n \<longrightarrow> n \<notin> set (snd a) \<longrightarrow> find_entry n es \<noteq> None \<longrightarrow> snd a' \<noteq> [] \<and> last (snd a') = n)"

lemma job_names_deps: "find_entry n es = Some e \<Longrightarrow> job_names es (Inr (model_deps e)) = set (entry_deps es n)"
  by (auto simp: job_names_def entry_deps_def)

lemma upstream_step: "d \<in> set (deps_of dag n) \<Longrightarrow> upstream_of dag d \<subseteq> upstream_of dag n"
  by (auto simp: upstream_of_def depends_on_def intro: converse_rtrancl_into_rtrancl)

lemma resolved_for_name:
  assumes "find_entry n es = Some e" and "n \<notin> set (snd a)"
    and "resolved_for es ms (Inr (model_deps e)) a a1" and "add_cte ms n a1 = Some (Ok (Inr a'))"
  shows "resolved_for es ms (Inl n) a a'"
proof -
  let ?dag = "entry_dag es"
  have a': "a' = (fst a1 @ [cte_of n (compiled_sql ms n)], snd a1 @ [n])" using assms(4) by (rule add_cte_ok)
  note r = assms(3) [unfolded resolved_for_def job_names_deps [OF assms(1)]]
  then have ord: "in_order ?dag (snd a1)" by (simp add: ctes_ok_def)
  have new: "n \<notin> set (snd a1)"
  proof
    assume n: "n \<in> set (snd a1)"
    with r assms(2) obtain d where d: "d \<in> set (entry_deps es n)" "n \<in> upstream_of ?dag d" by blast
    then have "(n, d) \<in> depends_on ?dag" "(d, n) \<in> (depends_on ?dag)\<^sup>*" by (simp_all add: depends_on_def upstream_of_def)
    then have "(n, n) \<in> (depends_on ?dag)\<^sup>+" by (rule rtrancl_into_trancl2)
    then have "hits_cycle ?dag n" by (auto simp: hits_cycle_def)
    with in_order_no_cycle [OF ord n] show False by blast
  qed
  have "ctes_ok es ms a'" using r new assms(1) by (auto simp: a' ctes_ok_def intro!: in_order_snoc)
  moreover have "set (snd a') \<subseteq> set (snd a) \<union> upstream_of ?dag n"
  proof -
    have "upstream_of ?dag d \<subseteq> upstream_of ?dag n" if "d \<in> set (entry_deps es n)" for d
      using upstream_step [of d ?dag n] that by simp
    moreover have "n \<in> upstream_of ?dag n" by (simp add: upstream_of_def)
    ultimately show ?thesis using r by (fastforce simp: a')
  qed
  moreover have "job_names es (Inl n) = {n}" using assms(1) by (auto simp: job_names_def)
  ultimately show ?thesis using r by (auto simp: resolved_for_def a')
qed

lemma resolved_for_Cons:
  assumes "resolved_for es ms (Inl d) a a1" and "resolved_for es ms (Inr rest) a1 a'"
  shows "resolved_for es ms (Inr (d # rest)) a a'"
proof -
  have "job_names es (Inr (d # rest)) = job_names es (Inl d) \<union> job_names es (Inr rest)" by (auto simp: job_names_def)
  with assms show ?thesis by (auto simp: resolved_for_def)
qed

lemma resolve_deps_sound:
  assumes "resolve_deps es ms job a = Some y"
  shows "\<forall>a'. y = Ok (Inr a') \<longrightarrow> ctes_ok es ms a \<longrightarrow> resolved_for es ms job a a'"
proof (rule resolve_deps.raw_induct [OF _ assms], goal_cases)
  case (1 rec es ms job a y)
  show ?case
  proof (intro allI impI)
    fix a' assume y: "y = Ok (Inr a')" and ok: "ctes_ok es ms a"
    show "resolved_for es ms job a a'"
    proof (cases job)
      case (Inl n)
      show ?thesis
      proof (cases "n \<in> set (snd a) \<or> find_entry n es = None")
        case True
        with 1(2) Inl y have "a' = a" by (auto split: if_splits)
        moreover have "job_names es job \<subseteq> set (snd a)" using True Inl by (auto simp: job_names_def)
        ultimately show ?thesis using ok Inl True by (auto simp: resolved_for_def)
      next
        case False
        then obtain e where e: "find_entry n es = Some e" by blast
        obtain r where "rec es ms (Inr (model_deps e)) a = Some r" using 1(2) Inl False e by (cases "rec es ms (Inr (model_deps e)) a") auto
        with 1(2) Inl False e y obtain a1 where a1: "rec es ms (Inr (model_deps e)) a = Some (Ok (Inr a1))"
          "add_cte ms n a1 = Some (Ok (Inr a'))" by (auto split: result.splits sum.splits)
        from 1(1) [OF a1(1)] ok have "resolved_for es ms (Inr (model_deps e)) a a1" by blast
        with resolved_for_name [OF e _ _ a1(2)] False Inl show ?thesis by blast
      qed
    next
      case (Inr ds)
      show ?thesis
      proof (cases ds)
        case Nil
        with 1(2) Inr y ok show ?thesis by (auto simp: resolved_for_def job_names_def)
      next
        case (Cons d rest)
        obtain r where "rec es ms (Inl d) a = Some r" using 1(2) Inr Cons by (cases "rec es ms (Inl d) a") auto
        with 1(2) Inr Cons y obtain a1 where a1: "rec es ms (Inl d) a = Some (Ok (Inr a1))"
          "rec es ms (Inr rest) a1 = Some (Ok (Inr a'))" by (auto split: result.splits sum.splits)
        from 1(1) [OF a1(1)] ok have r1: "resolved_for es ms (Inl d) a a1" by blast
        then have "ctes_ok es ms a1" by (simp add: resolved_for_def)
        with 1(1) [OF a1(2)] have "resolved_for es ms (Inr rest) a1 a'" by blast
        with r1 show ?thesis unfolding Inr Cons by (rule resolved_for_Cons)
      qed
    qed
  qed
qed


text \<open>Without a cycle the recursion returns; its depth is bounded by the finite graph.\<close>

lemma add_cte_returns: "\<exists>r. add_cte ms n a = Some r"
  using compile_entry_returns [of "''dependency''" ms n] by (auto simp: add_cte_def)

lemma resolve_list_returns:
  assumes "\<And>d a. d \<in> set ds \<Longrightarrow> \<exists>r. resolve_deps es ms (Inl d) a = Some r"
  shows "\<exists>r. resolve_deps es ms (Inr ds) a = Some r"
  using assms
proof (induction ds arbitrary: a)
  case Nil
  show ?case by (subst resolve_deps.simps) simp
next
  case (Cons d rest)
  obtain r where r: "resolve_deps es ms (Inl d) a = Some r" using Cons.prems [of d a] by auto
  show ?case
  proof (cases r)
    case (Ok x)
    then show ?thesis
    proof (cases x)
      case (Inr a')
      from Cons.IH [of a'] Cons.prems obtain r' where "resolve_deps es ms (Inr rest) a' = Some r'" by auto
      with r Ok Inr show ?thesis by (subst resolve_deps.simps) simp
    qed (use r Ok in \<open>subst resolve_deps.simps, simp\<close>)
  qed (use r in \<open>subst resolve_deps.simps, simp\<close>)+
qed

lemma resolve_unknown: "find_entry n es = None \<Longrightarrow> resolve_deps es ms (Inl n) a = Some (Ok (Inr a))"
  by (subst resolve_deps.simps) simp

lemma resolve_name_returns:
  assumes "find_entry n es = Some e" and "\<And>d a. d \<in> set (entry_deps es n) \<Longrightarrow> \<exists>r. resolve_deps es ms (Inl d) a = Some r"
  shows "\<exists>r. resolve_deps es ms (Inl n) a = Some r"
proof -
  have "\<exists>r. resolve_deps es ms (Inl d) a = Some r" if "d \<in> set (model_deps e)" for d a
  proof (cases "find_entry d es")
    case None
    then show ?thesis by (simp add: resolve_unknown)
  next
    case (Some x)
    then have "d \<in> set (entry_deps es n)" using that assms(1) by (simp add: entry_deps_def)
    then show ?thesis by (rule assms(2))
  qed
  from resolve_list_returns [OF this] obtain r where "resolve_deps es ms (Inr (model_deps e)) a = Some r" by blast
  with assms(1) add_cte_returns [of ms n] show ?thesis
    by (subst resolve_deps.simps) (cases r; auto split: sum.split)
qed

lemma finite_upstream: "finite (upstream_of dag n)"
  using collect_upstream_Some [of dag n] by (metis finite_set)

lemma resolve_returns:
  assumes "\<not> hits_cycle (entry_dag es) n"
  shows "\<exists>r. resolve_deps es ms (Inl n) a = Some r"
proof -
  let ?dag = "entry_dag es"
  let ?R = "{m. \<forall>a. \<exists>r. resolve_deps es ms (Inl m) a = Some r}"
  have "n \<in> ?R"
  proof (rule acyclic_closed_in [OF assms subset_refl finite_upstream])
    fix m assume "set (deps_of ?dag m) \<subseteq> ?R"
    then have d: "\<exists>r. resolve_deps es ms (Inl d) a = Some r" if "d \<in> set (entry_deps es m)" for d a
      using that unfolding deps_entry_dag by blast
    show "m \<in> ?R"
    proof (cases "find_entry m es")
      case None
      then show ?thesis by (simp add: resolve_unknown)
    next
      case (Some e)
      from resolve_name_returns [OF Some d] show ?thesis by blast
    qed
  qed
  then show ?thesis by blast
qed

lemma resolve_deps_no_error:
  assumes "resolve_deps es ms job a = Some y"
  shows "(\<forall>m. find_entry m es \<noteq> None \<longrightarrow> (\<exists>sql. compiles ms m sql)) \<longrightarrow> (\<exists>a'. y = Ok (Inr a'))"
proof (rule resolve_deps.raw_induct [OF _ assms], goal_cases)
  case (1 rec es ms job a y)
  have add: "\<exists>a'. z = Ok (Inr a')" if "add_cte ms n b = Some z" "compiles ms n sql" for n b z sql
    using that by (auto simp: add_cte_def compile_entry_def compiles_def)
  show ?case
  proof
    assume c: "\<forall>m. find_entry m es \<noteq> None \<longrightarrow> (\<exists>sql. compiles ms m sql)"
    show "\<exists>a'. y = Ok (Inr a')"
    proof (cases job)
      case (Inl n)
      show ?thesis
      proof (cases "n \<in> set (snd a) \<or> find_entry n es = None")
        case True
        with 1(2) Inl show ?thesis by (auto split: if_splits)
      next
        case False
        then obtain e sql where e: "find_entry n es = Some e" "compiles ms n sql" using c by blast
        obtain r where r: "rec es ms (Inr (model_deps e)) a = Some r" using 1(2) Inl False e by (cases "rec es ms (Inr (model_deps e)) a") auto
        with 1(1) [OF r] c obtain a1 where "r = Ok (Inr a1)" by blast
        with 1(2) Inl False e r add [of n a1] show ?thesis by auto
      qed
    next
      case (Inr ds)
      show ?thesis
      proof (cases ds)
        case Nil
        with 1(2) Inr show ?thesis by auto
      next
        case (Cons d rest)
        obtain r where r: "rec es ms (Inl d) a = Some r" using 1(2) Inr Cons by (cases "rec es ms (Inl d) a") auto
        with 1(1) [OF r] c obtain a1 where "r = Ok (Inr a1)" by blast
        with 1(2) Inr Cons r have "rec es ms (Inr rest) a1 = Some y" by auto
        from 1(1) [OF this] c show ?thesis by blast
      qed
    qed
  qed
qed

lemma cte_body_of: "CHR ''('' \<notin> set n \<Longrightarrow> cte_body (cte_of n sql) = sql"
  using find_str_char [of "CHR ''(''" n "'' AS ''" "[]" "sql @ '')''"] by (simp add: cte_body_def cte_of_def eval_nat_numeral)

text \<open>C29. When every stored transform compiles, the executable statement of a transform, whose name has no
  parenthesis, is answered if and only if no dependency cycle can be reached from it; on a cycle - a transform that names itself is enough - the
  recursion never ends. (A transform that does not compile ends the recursion with an error where it is met, also
  before a cycle.) When it is answered, every transform upstream is a common table expression once,
  after its own dependencies, and the statement behind them is the compiled transform.\<close>

theorem executable_sql_iff_acyclic:
  assumes "find_entry n es \<noteq> None" and "CHR ''('' \<notin> set n"
    and "\<And>m. find_entry m es \<noteq> None \<Longrightarrow> \<exists>sql. compiles ms m sql"
  shows "((\<exists>y. build_executable_sql n es ms = Some y) \<longleftrightarrow> \<not> hits_cycle (entry_dag es) n) \<and>
    (\<not> hits_cycle (entry_dag es) n \<longrightarrow>
      (\<exists>order. in_order (entry_dag es) (order @ [n]) \<and> set (order @ [n]) = upstream_of (entry_dag es) n \<and>
         build_executable_sql n es ms = Some (Ok (Inr (if order = [] then compiled_sql ms n
           else ''WITH '' @ join_with '', '' (map (\<lambda>m. cte_of m (compiled_sql ms m)) order) @ '' '' @ compiled_sql ms n)))))"
proof -
  let ?dag = "entry_dag es"
  have start: "ctes_ok es ms ([], [])" by (simp add: ctes_ok_def in_order_def)
  have answered: "\<exists>a'. y = Ok (Inr a') \<and> resolved_for es ms (Inl n) ([], []) a'"
    if "resolve_deps es ms (Inl n) ([], []) = Some y" for y
    using resolve_deps_no_error [OF that] resolve_deps_sound [OF that] start assms(3) by blast
  have acyclic: "\<not> hits_cycle ?dag n" if "build_executable_sql n es ms = Some y" for y
  proof -
    from that obtain r where r: "resolve_deps es ms (Inl n) ([], []) = Some r"
      by (cases "resolve_deps es ms (Inl n) ([], [])") (auto simp: build_executable_sql_def)
    from answered [OF r] obtain a' where "resolved_for es ms (Inl n) ([], []) a'" by blast
    then have "in_order ?dag (snd a')" "n \<in> set (snd a')" using assms(1) by (auto simp: resolved_for_def ctes_ok_def job_names_def)
    then show ?thesis by (rule in_order_no_cycle)
  qed
  have built: "\<exists>order. in_order ?dag (order @ [n]) \<and> set (order @ [n]) = upstream_of ?dag n \<and>
      build_executable_sql n es ms = Some (Ok (Inr (if order = [] then compiled_sql ms n
        else ''WITH '' @ join_with '', '' (map (\<lambda>m. cte_of m (compiled_sql ms m)) order) @ '' '' @ compiled_sql ms n)))"
    if c: "\<not> hits_cycle ?dag n"
  proof -
    from resolve_returns [OF c] obtain y where y: "resolve_deps es ms (Inl n) ([], []) = Some y" by blast
    from answered [OF y] obtain a' where a': "y = Ok (Inr a')" "resolved_for es ms (Inl n) ([], []) a'" by blast
    then have ok: "ctes_ok es ms a'" and l: "snd a' \<noteq> []" "last (snd a') = n"
      and sub: "set (snd a') \<subseteq> upstream_of ?dag n" using assms(1) by (auto simp: resolved_for_def job_names_def)
    define order where "order = butlast (snd a')"
    have s: "snd a' = order @ [n]" unfolding order_def using append_butlast_last_id [OF l(1)] unfolding l(2) by (rule sym)
    have ord: "in_order ?dag (order @ [n])" using ok s by (simp add: ctes_ok_def)
    have "upstream_of ?dag n \<subseteq> set (order @ [n])" using in_order_closed [of ?dag order n "[]"] ord by auto
    then have set: "set (order @ [n]) = upstream_of ?dag n" using sub s by auto
    have f: "fst a' = map (\<lambda>m. cte_of m (compiled_sql ms m)) order @ [cte_of n (compiled_sql ms n)]"
      using ok s by (simp add: ctes_ok_def)
    obtain sql where "compiles ms n sql" using assms(1,3) by blast
    then have comp: "compile_entry k ms n = Some (Ok (Inr (compiled_sql ms n)))" for k
      by (simp add: compiles_def compile_entry_def compiled_sql_def)
    obtain cs ns where p: "a' = (cs, ns)" by fastforce
    have "build_executable_sql n es ms = Some (Ok (Inr (if order = [] then compiled_sql ms n
        else ''WITH '' @ join_with '', '' (map (\<lambda>m. cte_of m (compiled_sql ms m)) order) @ '' '' @ compiled_sql ms n)))"
      using y a'(1) p f comp cte_body_of [OF assms(2)] by (cases order) (simp_all add: build_executable_sql_def butlast_append)
    with ord set show ?thesis by blast
  qed
  from acyclic built show ?thesis by blast
qed


section \<open>Instances\<close>

lemma compiles_plain:
  assumes "fmlookup ms n = Some t" and "CHR ''{'' \<notin> set t" and "sq \<notin> set t"
  shows "compiles ms n t"
proof -
  have "find_str t ''{{'' = None" by (rule find_str_no_head [OF assms(2)]) simp
  then have j: "strip_jinja_wrappers t = t" by (subst strip_jinja_wrappers.simps) simp
  have f: "find_str t source_open = None" "find_str t ref_open = None"
    by (rule find_str_no_head [OF assms(3)], simp add: source_open_def ref_open_def)+
  have "resolve_sources_with source_to_file_path n t = Some (Ok t)" by (subst resolve_sources_with.simps) (simp add: f)
  moreover have "resolve_refs ms n t = Ok t" by (subst resolve_refs.simps) (simp add: f)
  ultimately show ?thesis by (simp add: compiles_def compile_with_source_map_def assms(1) j)
qed

definition plain_entry :: "string \<Rightarrow> string list \<Rightarrow> transform_entry" where
  "plain_entry n deps = \<lparr>entry_name = n, entry_sql = ''SELECT 1'', entry_depends_on = deps, materialization = ''view'', entry_description = []\<rparr>"

definition demo_entries :: "transform_entry list" where
  "demo_entries = [plain_entry ''a'' [''raw.x''], plain_entry ''b'' [''a''], plain_entry ''c'' [''c'']]"

lemma demo_compiles: "find_entry m demo_entries \<noteq> None \<Longrightarrow> compiles (build_compiler_from_entries demo_entries) m ''SELECT 1''"
  by (rule compiles_plain)
    (auto simp: find_entry_def demo_entries_def plain_entry_def build_compiler_from_entries_def sq_def split: if_splits)

lemma executable_sql_iff_acyclic_witness:
  "(\<exists>y. build_executable_sql ''b'' demo_entries (build_compiler_from_entries demo_entries) = Some y) \<and>
   build_executable_sql ''c'' demo_entries (build_compiler_from_entries demo_entries) = None"
proof -
  let ?dag = "entry_dag demo_entries" and ?ms = "build_compiler_from_entries demo_entries"
  have deps: "entry_deps demo_entries ''a'' = []" "entry_deps demo_entries ''b'' = [''a'']" "entry_deps demo_entries ''c'' = [''c'']"
    by (simp_all add: entry_deps_def find_entry_def demo_entries_def plain_entry_def model_deps_def)
  have "in_order ?dag ([] @ [''a''])" by (rule in_order_snoc) (simp_all add: in_order_def deps)
  then have "in_order ?dag ([''a''] @ [''b''])" by (intro in_order_snoc) (simp_all add: deps)
  from in_order_no_cycle [OF this] have b: "\<not> hits_cycle ?dag ''b''" by simp
  have "(''c'', ''c'') \<in> depends_on ?dag" by (simp add: depends_on_def deps)
  then have c: "hits_cycle ?dag ''c''" by (auto simp: hits_cycle_def)
  have f: "find_entry ''b'' demo_entries \<noteq> None" "find_entry ''c'' demo_entries \<noteq> None"
    by (simp_all add: find_entry_def demo_entries_def plain_entry_def)
  have all: "\<exists>sql. compiles ?ms m sql" if "find_entry m demo_entries \<noteq> None" for m using demo_compiles [OF that] by blast
  have "\<exists>y. build_executable_sql ''b'' demo_entries ?ms = Some y"
    using executable_sql_iff_acyclic [OF f(1) _ all] b by simp
  moreover have "\<not> (\<exists>y. build_executable_sql ''c'' demo_entries ?ms = Some y)"
    using executable_sql_iff_acyclic [OF f(2) _ all] c by simp
  ultimately show ?thesis by (metis not_Some_eq)
qed

end
