(* ===== verification/Job_Schedules.thy ===== *)
theory Job_Schedules
  imports Table_Services Transform_Models
begin

text \<open>
  The scheduled jobs of \<open>rustlake-api/src/routes.rs\<close>: when a job runs next, creating, updating, deleting and
  running jobs, and how \<open>state.rs\<close>, \<open>state_db.rs\<close> and the start of \<open>main.rs\<close> keep them over a restart.

  Instants and durations are nanoseconds; chrono's range of instants is a pair of bounds, and leaving it is
  a panic. The engines, the clock, \<open>serde_json\<close> on a job and the order of rows in DuckDB are parameters;
  statements on the state database succeed. A handler is one step.
\<close>

section \<open>The next run\<close>

definition minute_ns :: int where "minute_ns = 60 * 10 ^ 9"
definition hour_ns :: int where "hour_ns = 60 * minute_ns"
definition day_ns :: int where "day_ns = 24 * hour_ns"

type_synonym calendar = "int \<times> int"

definition add_time :: "calendar \<Rightarrow> int \<Rightarrow> int \<Rightarrow> int option result" where
  "add_time cal t d = (if fst cal \<le> t + d \<and> t + d \<le> snd cal then Ok (Some (t + d)) else Panic)"

text \<open>\<open>split_once\<close> at one character, the part before it.\<close>

definition before_char :: "char \<Rightarrow> string \<Rightarrow> string option" where
  "before_char c s = (if c \<in> set s then Some (takeWhile (\<lambda>x. x \<noteq> c) s) else None)"

definition parse_cron_value :: "string \<Rightarrow> nat option" where
  "parse_cron_value f =
     (if f = ''?'' then None
      else case parse_u32 f of
             Some v \<Rightarrow> Some v
           | None \<Rightarrow> (case before_char (CHR ''-'') f of
                 Some first \<Rightarrow> parse_u32 first
               | None \<Rightarrow> (case before_char (CHR '','') f of Some first \<Rightarrow> parse_u32 first | None \<Rightarrow> None)))"

definition cron_field :: "string \<Rightarrow> nat option" where
  "cron_field f = (if f = ''*'' then None else parse_cron_value f)"

text \<open>\<open>date_naive().and_hms_opt(h, m, 0)\<close>.\<close>

definition at_time :: "int \<Rightarrow> nat \<Rightarrow> nat \<Rightarrow> int option" where
  "at_time now h m =
     (if h < 24 \<and> m < 60 then Some (now - now mod day_ns + int h * hour_ns + int m * minute_ns) else None)"

definition next_at :: "calendar \<Rightarrow> int \<Rightarrow> int option \<Rightarrow> int \<Rightarrow> int option result" where
  "next_at cal now t step =
     (case t of
        None \<Rightarrow> Ok None
      | Some t \<Rightarrow> if now < t then Ok (Some t) else add_time cal t step)"

definition current_hour :: "int \<Rightarrow> nat" where
  "current_hour now = nat (now mod day_ns div hour_ns)"

definition parse_cron_fields ::
  "calendar \<Rightarrow> int \<Rightarrow> string \<Rightarrow> string \<Rightarrow> string \<Rightarrow> string \<Rightarrow> string \<Rightarrow> int option result" where
  "parse_cron_fields cal now min_f hour_f dom_f month_f dow_f =
     (case (cron_field hour_f, cron_field min_f) of
        (Some h, Some m) \<Rightarrow> next_at cal now (at_time now h m) day_ns
      | (Some h, None) \<Rightarrow> next_at cal now (at_time now h 0) day_ns
      | (None, Some m) \<Rightarrow> next_at cal now (at_time now (current_hour now) m) hour_ns
      | (None, None) \<Rightarrow> add_time cal now minute_ns)"

text \<open>Durations out of chrono's range lead out of the range of instants. The position before the last byte must not
  be inside a character.\<close>

definition unit_ns :: "string \<Rightarrow> int option" where
  "unit_ns u =
     (if u = ''s'' then Some (10 ^ 9) else if u = ''m'' then Some minute_ns
      else if u = ''h'' then Some hour_ns else if u = ''d'' then Some day_ns else None)"

definition next_interval :: "calendar \<Rightarrow> int \<Rightarrow> string \<Rightarrow> int option result" where
  "next_interval cal now rest =
     (let k = length rest - 1
      in if char_boundary rest k
         then (case unit_ns (drop k rest) of
                 None \<Rightarrow> Ok None
               | Some u \<Rightarrow> add_time cal now (unwrap_or 1 (parse_i64 (take k rest)) * u))
         else Panic)"

definition special_interval :: "string \<Rightarrow> int option" where
  "special_interval s =
     (if s = ''@hourly'' then Some hour_ns
      else if s \<in> {''@daily'', ''@midnight''} then Some day_ns
      else if s = ''@weekly'' then Some (7 * day_ns)
      else if s = ''@monthly'' then Some (30 * day_ns)
      else if s \<in> {''@yearly'', ''@annually''} then Some (365 * day_ns)
      else None)"

definition next_cron_run :: "calendar \<Rightarrow> int \<Rightarrow> string \<Rightarrow> int option result" where
  "next_cron_run cal now cron_text =
     (let trimmed = trim cron_text
      in case strip_prefix trimmed ''every '' of
           Some rest \<Rightarrow> next_interval cal now (trim rest)
         | None \<Rightarrow>
             (case special_interval trimmed of
                Some d \<Rightarrow> add_time cal now d
              | None \<Rightarrow>
                  (case split_whitespace trimmed of
                     [mi, ho, dm, mo, dw] \<Rightarrow> parse_cron_fields cal now mi ho dm mo dw
                   | [_, mi, ho, dm, mo, dw] \<Rightarrow> parse_cron_fields cal now mi ho dm mo dw
                   | [_, mi, ho, dm, mo, dw, _] \<Rightarrow> parse_cron_fields cal now mi ho dm mo dw
                   | _ \<Rightarrow> add_time cal now hour_ns)))"

section \<open>Jobs and their files\<close>

record event_config =
  event_type :: string
  event_path :: string
  file_pattern :: "string option"

record schedule = scheduled_job +
  last_status :: "string option"
  sched_created_at :: int
  sched_engine :: string
  trigger_type :: string
  event_cfg :: "event_config option"
  cluster :: "string option"
  timeout_seconds :: "u64 option"
  retries :: u32
  sched_tags :: "string list"

text \<open>The items of one kind, the text of their JSONL file, and the state database if there is one: its rows under
  their keys and whether the file has been moved into it.\<close>

record 'a item_codec =
  to_line :: "'a \<Rightarrow> string"
  of_line :: "string \<Rightarrow> 'a option"
  row_order :: "(string, string) fmap \<Rightarrow> string list"

record 'a item_store =
  stored_items :: "'a list"
  lines_file :: "string option"
  state_db :: "((string, string) fmap \<times> bool) option"

text \<open>A write works, or fails and leaves the file with some content; the error is only logged.\<close>

datatype file_write = Written | Write_failed "string option"

definition written :: "file_write \<Rightarrow> string \<Rightarrow> string option" where
  "written io txt = (case io of Written \<Rightarrow> Some txt | Write_failed left \<Rightarrow> left)"

definition json_line :: "'a item_codec \<Rightarrow> 'a \<Rightarrow> string" where
  "json_line C x = to_line C x @ [CHR 0x0A]"

definition append_json_line :: "'a item_codec \<Rightarrow> file_write \<Rightarrow> 'a \<Rightarrow> string option \<Rightarrow> string option" where
  "append_json_line C io x file = written io (unwrap_or [] file @ json_line C x)"

definition rewrite_json_lines :: "'a item_codec \<Rightarrow> file_write \<Rightarrow> 'a list \<Rightarrow> string option" where
  "rewrite_json_lines C io xs = written io (concat (map (json_line C) xs))"

definition add_item :: "'a item_codec \<Rightarrow> file_write \<Rightarrow> 'a \<Rightarrow> 'a item_store \<Rightarrow> 'a item_store" where
  "add_item C io x s =
     s\<lparr>lines_file := (if state_db s = None then append_json_line C io x (lines_file s) else lines_file s),
       stored_items := stored_items s @ [x]\<rparr>"

definition persist_items :: "'a item_codec \<Rightarrow> file_write \<Rightarrow> 'a item_store \<Rightarrow> 'a item_store" where
  "persist_items C io s =
     (if state_db s = None then s\<lparr>lines_file := rewrite_json_lines C io (stored_items s)\<rparr> else s)"

definition remove_item :: "'a item_codec \<Rightarrow> file_write \<Rightarrow> ('a \<Rightarrow> bool) \<Rightarrow> 'a item_store \<Rightarrow> bool \<times> 'a item_store" where
  "remove_item C io keep s =
     (let xs = filter keep (stored_items s)
      in if length xs = length (stored_items s) then (False, s)
         else (True, persist_items C io (s\<lparr>stored_items := xs\<rparr>)))"

text \<open>The start of the server: the file, or the database if it gives nothing; then the move into the database,
  once for each kind. The files of all kinds are deleted when any kind had something to move.\<close>

definition load_items :: "'a item_codec \<Rightarrow> 'a item_store \<Rightarrow> 'a list" where
  "load_items C s = (case lines_file s of None \<Rightarrow> [] | Some txt \<Rightarrow> List.map_filter (of_line C) (str_lines txt))"

definition load_rows :: "'a item_codec \<Rightarrow> 'a item_store \<Rightarrow> 'a list" where
  "load_rows C s = (case state_db s of None \<Rightarrow> [] | Some (rows, _) \<Rightarrow> List.map_filter (of_line C) (row_order C rows))"

definition migrate_items :: "'a item_codec \<Rightarrow> ('a \<Rightarrow> string) \<Rightarrow> 'a item_store \<Rightarrow> nat \<times> 'a item_store" where
  "migrate_items C key s =
     (case state_db s of
        None \<Rightarrow> (0, s)
      | Some (rows, migrated) \<Rightarrow>
          if stored_items s = [] \<or> migrated then (0, s)
          else (length (stored_items s),
                s\<lparr>state_db := Some (fold (\<lambda>x. fmupd (key x) (to_line C x)) (stored_items s) rows, True)\<rparr>))"

definition start_up :: "'a item_codec \<Rightarrow> ('a \<Rightarrow> string) \<Rightarrow> bool \<Rightarrow> 'a item_store \<Rightarrow> 'a item_store" where
  "start_up C key others_moved s =
     (let xs = load_items C s; ys = (if xs = [] then load_rows C s else xs)
      in case migrate_items C key (s\<lparr>stored_items := ys\<rparr>) of
           (n, s1) \<Rightarrow> if state_db s \<noteq> None \<and> (0 < n \<or> others_moved) then s1\<lparr>lines_file := None\<rparr> else s1)"

section \<open>Creating, changing and deleting jobs\<close>

record job_run =
  jr_job :: string
  jr_name :: string
  jr_target :: string
  jr_status :: string
  jr_ms :: nat
  jr_error :: "string option"
  jr_at :: int

record sched_state =
  job_store :: "schedule item_store"
  job_runs :: "job_run list"

definition max_job_runs :: nat where "max_job_runs = 500"

definition record_job_run :: "job_run \<Rightarrow> sched_state \<Rightarrow> sched_state" where
  "record_job_run r st = (let rs = job_runs st @ [r] in st\<lparr>job_runs := drop (length rs - max_job_runs) rs\<rparr>)"

record schedule_request =
  rq_name :: string
  rq_type :: string
  rq_cron :: string
  rq_target :: string
  rq_enabled :: "bool option"
  rq_engine :: "string option"
  rq_trigger :: "string option"
  rq_event :: "event_config option"
  rq_cluster :: "string option"
  rq_timeout :: "u64 option"
  rq_retries :: "u32 option"
  rq_tags :: "string list option"

record schedule_update =
  up_name :: "string option"
  up_type :: "string option"
  up_cron :: "string option"
  up_target :: "string option"
  up_enabled :: "bool option"
  up_engine :: "string option"
  up_trigger :: "string option"
  up_event :: "event_config option"
  up_cluster :: "string option"
  up_timeout :: "u64 option"
  up_retries :: "u32 option"
  up_tags :: "string list option"

text \<open>Only jobs with a time trigger get a next run.\<close>

definition timed :: "string \<Rightarrow> bool" where
  "timed trigger \<longleftrightarrow> trigger \<noteq> ''continuous'' \<and> trigger \<noteq> ''event''"

definition new_schedule :: "string \<Rightarrow> int \<Rightarrow> int option \<Rightarrow> schedule_request \<Rightarrow> schedule" where
  "new_schedule fresh now nxt r =
     \<lparr>job_id = fresh, job_name = rq_name r, job_type = rq_type r, cron = rq_cron r, job_target = rq_target r,
      job_enabled = unwrap_or True (rq_enabled r), last_run = None, next_run = nxt, last_status = None,
      sched_created_at = now, sched_engine = unwrap_or ''auto'' (rq_engine r),
      trigger_type = unwrap_or ''time'' (rq_trigger r), event_cfg = rq_event r, cluster = rq_cluster r,
      timeout_seconds = rq_timeout r, retries = unwrap_or 0 (rq_retries r), sched_tags = unwrap_or [] (rq_tags r)\<rparr>"

definition create_schedule ::
  "calendar \<Rightarrow> schedule item_codec \<Rightarrow> file_write \<Rightarrow> string \<Rightarrow> int \<Rightarrow> schedule_request \<Rightarrow> sched_state \<Rightarrow>
   string http result \<times> sched_state" where
  "create_schedule cal C io fresh now r st =
     (if rq_name r = [] \<or> rq_target r = [] then (Ok (Inl (400, ''name and target are required'')), st)
      else case (if unwrap_or True (rq_enabled r) \<and> timed (unwrap_or ''time'' (rq_trigger r))
                 then next_cron_run cal now (rq_cron r) else Ok None) of
             Ok nxt \<Rightarrow> (Ok (Inr fresh), st\<lparr>job_store := add_item C io (new_schedule fresh now nxt r) (job_store st)\<rparr>)
           | Err e \<Rightarrow> (Err e, st)
           | Panic \<Rightarrow> (Panic, st))"

definition update_fields :: "schedule_update \<Rightarrow> schedule \<Rightarrow> schedule" where
  "update_fields u j =
     j\<lparr>job_name := unwrap_or (job_name j) (up_name u), job_type := unwrap_or (job_type j) (up_type u),
       cron := unwrap_or (cron j) (up_cron u), job_target := unwrap_or (job_target j) (up_target u),
       job_enabled := unwrap_or (job_enabled j) (up_enabled u), sched_engine := unwrap_or (sched_engine j) (up_engine u),
       trigger_type := unwrap_or (trigger_type j) (up_trigger u),
       event_cfg := (if up_event u = None then event_cfg j else up_event u),
       cluster := (if up_cluster u = None then cluster j else up_cluster u),
       timeout_seconds := (if up_timeout u = None then timeout_seconds j else up_timeout u),
       retries := unwrap_or (retries j) (up_retries u), sched_tags := unwrap_or (sched_tags j) (up_tags u)\<rparr>"

definition recalculated :: "calendar \<Rightarrow> int \<Rightarrow> schedule \<Rightarrow> schedule result" where
  "recalculated cal now j =
     (if job_enabled j \<and> timed (trigger_type j)
      then bind_result (next_cron_run cal now (cron j)) (\<lambda>n. Ok (j\<lparr>next_run := n\<rparr>))
      else if \<not> job_enabled j then Ok (j\<lparr>next_run := None\<rparr>) else Ok j)"

definition not_found :: "string \<Rightarrow> nat \<times> string" where
  "not_found i = (404, ''Schedule '' @ quote i @ '' not found'')"

definition find_job :: "string \<Rightarrow> sched_state \<Rightarrow> schedule option" where
  "find_job i st = find (\<lambda>j. job_id j = i) (stored_items (job_store st))"

definition change_job :: "string \<Rightarrow> (schedule \<Rightarrow> schedule) \<Rightarrow> sched_state \<Rightarrow> sched_state" where
  "change_job i f st =
     st\<lparr>job_store := (job_store st)\<lparr>stored_items := update_first (\<lambda>j. job_id j = i) f (stored_items (job_store st))\<rparr>\<rparr>"

text \<open>The fields are set before the next run is computed, so a panic leaves them set and nothing written.\<close>

definition update_schedule ::
  "calendar \<Rightarrow> schedule item_codec \<Rightarrow> file_write \<Rightarrow> int \<Rightarrow> string \<Rightarrow> schedule_update \<Rightarrow> sched_state \<Rightarrow>
   string http result \<times> sched_state" where
  "update_schedule cal C io now i u st =
     (case find_job i st of
        None \<Rightarrow> (Ok (Inl (not_found i)), st)
      | Some j \<Rightarrow>
          (case recalculated cal now (update_fields u j) of
             Ok j' \<Rightarrow>
               (let st1 = change_job i (\<lambda>_. j') st
                in (Ok (Inr (job_name j')), st1\<lparr>job_store := persist_items C io (job_store st1)\<rparr>))
           | Err e \<Rightarrow> (Err e, change_job i (update_fields u) st)
           | Panic \<Rightarrow> (Panic, change_job i (update_fields u) st)))"

definition delete_schedule ::
  "schedule item_codec \<Rightarrow> file_write \<Rightarrow> string \<Rightarrow> sched_state \<Rightarrow> string http \<times> sched_state" where
  "delete_schedule C io i st =
     (case remove_item C io (\<lambda>j. job_id j \<noteq> i) (job_store st) of
        (True, s) \<Rightarrow> (Inr i, st\<lparr>job_store := s\<rparr>)
      | (False, s) \<Rightarrow> (Inl (not_found i), st))"

definition get_schedule :: "string \<Rightarrow> sched_state \<Rightarrow> schedule http" where
  "get_schedule i st = (case find_job i st of Some j \<Rightarrow> Inr j | None \<Rightarrow> Inl (not_found i))"

section \<open>Running a job\<close>

record 'w job_env = "'w services" +
  calendar_of :: calendar
  job_codec :: "schedule item_codec"
  now_ns :: "'w \<Rightarrow> int"
  duckdb_sql :: "('w \<Rightarrow> string \<Rightarrow> (string + record_batch list) \<times> 'w) option"
  polars_sql :: "('w \<Rightarrow> string \<Rightarrow> (string + record_batch list) \<times> 'w) option"

definition run_transform_job :: "'w job_env \<Rightarrow> user_transform list \<Rightarrow> string \<Rightarrow> 'w \<Rightarrow> (string result \<times> 'w) option" where
  "run_transform_job V user target w =
     (let es = all_transforms user
      in map_option (\<lambda>x. case x of
           Ok (Inr sql) \<Rightarrow>
             (case eng_sql V w sql of
                (Inl e, w') \<Rightarrow> (Err e, w')
              | (Inr _, w') \<Rightarrow> (Ok (''Transform '' @ quote target @ '' executed successfully''), w'))
         | Ok (Inl _) \<Rightarrow> (Err (''Transform '' @ quote target @ '' not found''), w)
         | Err e \<Rightarrow> (Err e, w)
         | Panic \<Rightarrow> (Panic, w))
         (build_executable_sql target es (build_compiler_from_entries es)))"

definition sql_engine :: "'w job_env \<Rightarrow> string \<Rightarrow> 'w \<Rightarrow> string \<Rightarrow> (string + record_batch list) \<times> 'w" where
  "sql_engine V engine =
     (case (to_lowercase engine = ''duckdb'', duckdb_sql V) of
        (True, Some run) \<Rightarrow> run
      | _ \<Rightarrow> (case (to_lowercase engine = ''polars'', polars_sql V) of (True, Some run) \<Rightarrow> run | _ \<Rightarrow> eng_sql V))"

definition run_sql_job :: "'w job_env \<Rightarrow> string \<Rightarrow> string \<Rightarrow> 'w \<Rightarrow> string result \<times> 'w" where
  "run_sql_job V sql engine w =
     (case sql_engine V engine w sql of
        (Inl e, w') \<Rightarrow> (Err e, w')
      | (Inr bs, w') \<Rightarrow> (Ok (''SQL executed '' @ em_dash @ '' '' @ show_nat (total_rows bs) @ '' rows returned''), w'))"

fun run_statements :: "'w job_env \<Rightarrow> nat \<Rightarrow> nat \<Rightarrow> string list \<Rightarrow> 'w \<Rightarrow> nat result \<times> 'w" where
  "run_statements V i rows [] w = (Ok rows, w)"
| "run_statements V i rows (s # ss) w =
     (case eng_sql V w s of
        (Inl e, w') \<Rightarrow> (Err (''Statement '' @ show_nat (i + 1) @ '' failed: '' @ e), w')
      | (Inr bs, w') \<Rightarrow> run_statements V (i + 1) (rows + total_rows bs) ss w')"

definition run_notebook_job :: "'w job_env \<Rightarrow> string \<Rightarrow> 'w \<Rightarrow> string result \<times> 'w" where
  "run_notebook_job V target w =
     (let ss = filter (\<lambda>s. s \<noteq> []) (map trim (split_char (CHR '';'') target))
      in if ss = [] then (Err ''Notebook has no SQL statements'', w)
         else case run_statements V 0 0 ss w of
                (Ok rows, w') \<Rightarrow>
                  (Ok (''Notebook executed '' @ em_dash @ '' '' @ show_nat (length ss) @ '' statements, '' @ show_nat rows @ '' total rows''), w')
              | (Err e, w') \<Rightarrow> (Err e, w')
              | (Panic, w') \<Rightarrow> (Panic, w'))"

text \<open>The streaming pipelines by id and name; a job only says whether its pipeline exists.\<close>

definition run_pipeline_job :: "(string \<times> string) list \<Rightarrow> string \<Rightarrow> string result" where
  "run_pipeline_job pipelines target =
     (if list_ex (\<lambda>(i, n). n = target \<or> i = target) pipelines
      then Ok (''Pipeline '' @ quote target @ '' triggered'')
      else Ok (''Pipeline '' @ quote target @ '' scheduled (not yet registered)''))"

definition run_dashboard_refresh_job :: "string \<Rightarrow> string result" where
  "run_dashboard_refresh_job target = Ok (''Dashboard '' @ quote target @ '' cache refreshed'')"

definition run_simulated_job :: "string \<Rightarrow> string \<Rightarrow> string result" where
  "run_simulated_job ty target = Ok (ty @ '' job '' @ quote target @ '' completed (simulated)'')"

definition rows_in :: "nat \<Rightarrow> u64 \<Rightarrow> string" where
  "rows_in rows ms = show_nat rows @ '' rows in '' @ show_nat (unat ms) @ ''ms''"

definition run_table_job :: "'w job_env \<Rightarrow> tables \<Rightarrow> string \<Rightarrow> 'w \<Rightarrow> string result \<times> 'w" where
  "run_table_job V ts target w =
     (case find_table target ts of
        None \<Rightarrow> (Err (''Executable table '' @ quote target @ '' not found''), w)
      | Some t \<Rightarrow>
          (let ty = transform_type (transform_of t); code = source_code (transform_of t)
           in if ty = ''streaming_cdc''
              then (case eng_sql V w (extract_sql_from_streaming_cdc code) of
                      (Inr bs, w') \<Rightarrow>
                        (Ok (''Streaming CDC glacier '' @ quote target @ '' refreshed: '' @ rows_in (total_rows bs) (elapsed_ms V w')), w')
                    | (Inl e, w') \<Rightarrow> (Err (''Streaming CDC glacier '' @ quote target @ '' SQL failed: '' @ e), w'))
              else (case execute_transform_code (services.truncate V) ty code w of
                      ((_, rows, ms), w') \<Rightarrow>
                        (Ok (''Executable table '' @ quote target @ '' executed: '' @ rows_in (unat rows) ms), w'))))"

definition run_job_type ::
  "'w job_env \<Rightarrow> user_transform list \<Rightarrow> (string \<times> string) list \<Rightarrow> tables \<Rightarrow> schedule \<Rightarrow> 'w \<Rightarrow> (string result \<times> 'w) option" where
  "run_job_type V user pipelines ts j w =
     (let ty = job_type j; target = job_target j
      in if ty = ''transform'' then run_transform_job V user target w
         else if ty = ''sql'' then Some (run_sql_job V target (sched_engine j) w)
         else if ty = ''notebook'' then Some (run_notebook_job V target w)
         else if ty = ''pipeline'' then Some (run_pipeline_job pipelines target, w)
         else if ty = ''dashboard_refresh'' then Some (run_dashboard_refresh_job target, w)
         else if ty = ''executable_table'' then Some (run_table_job V ts target w)
         else Some (run_simulated_job ty target, w))"

text \<open>A run answers with its status, its error or message, and its duration. No result stands for the overflow of
  the stack on a cyclic transform, which ends the server.\<close>

definition run_entry :: "'w job_env \<Rightarrow> schedule \<Rightarrow> string result \<Rightarrow> 'w \<Rightarrow> job_run" where
  "run_entry V j r w =
     \<lparr>jr_job = job_id j, jr_name = job_name j, jr_target = job_target j,
      jr_status = (case r of Ok _ \<Rightarrow> ''success'' | _ \<Rightarrow> ''error''), jr_ms = unat (elapsed_ms V w),
      jr_error = (case r of Err e \<Rightarrow> Some e | _ \<Rightarrow> None), jr_at = now_ns V w\<rparr>"

definition finish_run :: "'w job_env \<Rightarrow> file_write \<Rightarrow> job_run \<Rightarrow> sched_state \<Rightarrow> sched_state" where
  "finish_run V io e st =
     (let st1 = change_job (jr_job e) (\<lambda>j. j\<lparr>last_status := Some (jr_status e)\<rparr>) st
      in record_job_run e (st1\<lparr>job_store := persist_items (job_codec V) io (job_store st1)\<rparr>))"

definition run_schedule ::
  "'w job_env \<Rightarrow> file_write \<Rightarrow> user_transform list \<Rightarrow> (string \<times> string) list \<Rightarrow> tables \<Rightarrow> string \<Rightarrow> sched_state \<Rightarrow> 'w \<Rightarrow>
   ((job_run \<times> string) http result \<times> sched_state \<times> 'w) option" where
  "run_schedule V io user pipelines ts i st w =
     (case find_job i st of
        None \<Rightarrow> Some (Ok (Inl (not_found i)), st, w)
      | Some j \<Rightarrow>
          (let st1 = change_job i (scheduled_job.last_run_update (\<lambda>_. Some (now_ns V w))) st
           in map_option (\<lambda>(r, w').
                case r of
                  Panic \<Rightarrow> (Panic, st1, w')
                | Ok msg \<Rightarrow> (let e = run_entry V j r w' in (Ok (Inr (e, msg)), finish_run V io e st1, w'))
                | Err msg \<Rightarrow> (let e = run_entry V j r w' in (Ok (Inr (e, msg)), finish_run V io e st1, w')))
              (run_job_type V user pipelines ts j w)))"

text \<open>One request that answers, with the job it changes or deletes and whether it panicked. Writes may end in any
  way of a given set.\<close>

inductive sched_step :: "'w job_env \<Rightarrow> file_write set \<Rightarrow> sched_state \<Rightarrow> string option \<Rightarrow> bool \<Rightarrow> sched_state \<Rightarrow> bool"
  for V :: "'w job_env" and ios :: "file_write set" where
  created: "create_schedule (calendar_of V) (job_codec V) io fresh now r st = (a, st') \<Longrightarrow> io \<in> ios \<Longrightarrow>
    sched_step V ios st None (a = Panic) st'"
| updated: "update_schedule (calendar_of V) (job_codec V) io now i u st = (a, st') \<Longrightarrow> io \<in> ios \<Longrightarrow>
    sched_step V ios st (Some i) (a = Panic) st'"
| deleted: "delete_schedule (job_codec V) io i st = (b, st') \<Longrightarrow> io \<in> ios \<Longrightarrow> sched_step V ios st (Some i) False st'"
| ran: "run_schedule V io user pipelines ts i st w = Some (c, st', w') \<Longrightarrow> io \<in> ios \<Longrightarrow>
    sched_step V ios st None (c = Panic) st'"

inductive_cases sched_stepE: "sched_step V ios st l p st'"

section \<open>Numeric expressions\<close>

text \<open>What the minute and hour of an expression ask of an instant, a field that is no number not counted: with an
  hour, the start of that minute of that hour (minute 0 if there is no minute); with a minute only, the
  start of that minute of any hour.\<close>

definition fires_at :: "nat option \<Rightarrow> nat option \<Rightarrow> int \<Rightarrow> bool" where
  "fires_at h m t =
     (case (h, m) of
        (Some h, _) \<Rightarrow> t mod day_ns = int h * hour_ns + int (unwrap_or 0 m) * minute_ns
      | (None, Some m) \<Rightarrow> t mod hour_ns = int m * minute_ns
      | (None, None) \<Rightarrow> True)"

lemmas ns_defs = day_ns_def hour_ns_def minute_ns_def

text \<open>Of the instants with one remainder the next one after now is in this period or the next.\<close>

lemma next_with_remainder:
  fixes now p r :: int
  assumes r: "0 \<le> r" "r < p" and t: "t = (if now < now - now mod p + r then now - now mod p + r else now - now mod p + r + p)"
  shows "now < t" and "t mod p = r" and "now < u \<Longrightarrow> u < t \<Longrightarrow> u mod p \<noteq> r"
proof -
  have b: "now - now mod p = p * (now div p)" by (simp add: minus_mod_eq_mult_div)
  have m: "0 \<le> now mod p" "now mod p < p" using r by simp_all
  show "now < t" using t m r by (smt (verit))
  have "(p * (now div p) + r) mod p = r" using r by simp
  moreover have "(p * (now div p) + r + p) mod p = r" using r by (metis calculation mod_add_self2)
  ultimately show "t mod p = r" using t b by simp
  show "u mod p \<noteq> r" if u: "now < u" "u < t"
  proof
    assume "u mod p = r"
    then have ue: "u = p * (u div p) + r" using mult_div_mod_eq [of p u] by simp
    show False
    proof (cases "now < now - now mod p + r")
      case True
      then have "t = now - now mod p + r" using t by simp
      then have "p * (u div p) < p * (now div p)" using u ue b by linarith
      then have "u div p \<le> now div p - 1" using r by simp
      then have "p * (u div p) \<le> p * (now div p - 1)" using r by (intro mult_left_mono) simp_all
      then show False using u ue b m r by (simp add: algebra_simps)
    next
      case False
      then have "t = now - now mod p + r + p" using t by simp
      then have "p * (u div p) < p * (now div p) + p" using u ue b by linarith
      then have "p * (u div p) < p * (now div p + 1)" by (simp add: distrib_left)
      then have "u div p \<le> now div p" using r by simp
      then have "p * (u div p) \<le> p * (now div p)" using r by (intro mult_left_mono) simp_all
      then show False using u ue b False by linarith
    qed
  qed
qed

lemma special_one_word:
  assumes "special_interval x = Some d"
  shows "length (split_whitespace x) = 1"
proof -
  have "length (split_whitespace ''@hourly'') = 1" "length (split_whitespace ''@daily'') = 1" "length (split_whitespace ''@midnight'') = 1"
    "length (split_whitespace ''@weekly'') = 1" "length (split_whitespace ''@monthly'') = 1" "length (split_whitespace ''@yearly'') = 1"
    "length (split_whitespace ''@annually'') = 1" by code_simp+
  then show ?thesis using assms by (auto simp: special_interval_def split: if_splits)
qed

lemma cron_text_fields:
  assumes "split_whitespace (trim s) = [mi, ho, dm, mo, dw]" and "strip_prefix (trim s) ''every '' = None"
  shows "next_cron_run cal now s = parse_cron_fields cal now mi ho dm mo dw"
proof -
  have "special_interval (trim s) = None" using special_one_word [of "trim s"] assms(1) by (cases "special_interval (trim s)") auto
  then show ?thesis using assms by (simp add: next_cron_run_def)
qed

lemma period_below_bound:
  fixes now p r b :: int
  assumes "b mod p = 0" and "now < b" and "r < p" and "0 \<le> r"
  shows "now - now mod p + r < b"
proof -
  have e: "now - now mod p = p * (now div p)" "b = p * (b div p)"
    using assms(1) by (simp_all add: minus_mod_eq_mult_div) (metis add.right_neutral mult_div_mod_eq)
  have "0 \<le> now mod p" using assms(3,4) by simp
  then have "p * (now div p) < p * (b div p)" using e assms(2) by linarith
  then have "now div p + 1 \<le> b div p" using assms(3,4) by simp
  then have "p * (now div p + 1) \<le> p * (b div p)" using assms(3,4) by (intro mult_left_mono) simp_all
  moreover have "p * (now div p + 1) = p * (now div p) + p" by (simp add: algebra_simps)
  ultimately show ?thesis using e assms(3) by linarith
qed

text \<open>The first candidate, or the one a period later. The range of the instants ends with a period.\<close>

lemma next_at_period:
  assumes "fst cal \<le> now" and "now \<le> snd cal" and "(snd cal + 1) mod p = 0" and "0 \<le> r" and "r < p"
  shows "\<exists>t. now < t \<and> t mod p = r \<and> (\<forall>u. now < u \<and> u < t \<longrightarrow> u mod p \<noteq> r) \<and>
    next_at cal now (Some (now - now mod p + r)) p = (if t \<le> snd cal then Ok (Some t) else Panic)"
proof -
  define t where "t = (if now < now - now mod p + r then now - now mod p + r else now - now mod p + r + p)"
  note n = next_with_remainder [OF assms(4,5) t_def]
  have "now - now mod p + r \<le> snd cal" using period_below_bound [of "snd cal + 1" p now r] assms by simp
  moreover have "now - now mod p + r + p \<ge> fst cal"
    using assms(1,4,5) pos_mod_bound [of p now] by linarith
  ultimately have "next_at cal now (Some (now - now mod p + r)) p = (if t \<le> snd cal then Ok (Some t) else Panic)"
    by (simp add: next_at_def t_def add_time_def)
  then show ?thesis using n by blast
qed

lemma at_current_hour: "m < 60 \<Longrightarrow> at_time now (current_hour now) m = Some (now - now mod hour_ns + int m * minute_ns)"
proof -
  have h: "0 \<le> now mod day_ns" "now mod day_ns < 24 * hour_ns" by (simp_all add: ns_defs)
  have mm: "now mod day_ns mod hour_ns = now mod hour_ns" by (simp add: ns_defs mod_mod_cancel)
  have c: "int (current_hour now) = now mod day_ns div hour_ns"
    using h(1) by (simp add: current_hour_def pos_imp_zdiv_nonneg_iff ns_defs)
  have "current_hour now < 24"
  proof -
    have "now mod day_ns div hour_ns < 24"
      using h(2) pos_mod_sign [of hour_ns "now mod day_ns"] div_mult_mod_eq [of "now mod day_ns" hour_ns]
      by (simp add: ns_defs)
    then show ?thesis using c by linarith
  qed
  moreover have "now mod day_ns = int (current_hour now) * hour_ns + now mod hour_ns"
    using c mm by (metis div_mult_mod_eq)
  ultimately show "m < 60 \<Longrightarrow> ?thesis" by (simp add: at_time_def)
qed

text \<open>A standard expression of five fields whose minute or hour is a number: the next run is the least instant
  after now at which the two fields fire, whatever day, month and weekday say, or a panic if that lies
  beyond chrono's range. A minute above 59 or an hour above 23 gives no next run at all.\<close>

theorem numeric_cron_is_next_match:
  assumes "split_whitespace (trim s) = [mi, ho, dm, mo, dw]" and "strip_prefix (trim s) ''every '' = None"
    and "cron_field ho \<noteq> None \<or> cron_field mi \<noteq> None"
    and "fst cal \<le> now" and "now \<le> snd cal" and "(snd cal + 1) mod day_ns = 0"
  shows "(if unwrap_or 0 (cron_field ho) < 24 \<and> unwrap_or 0 (cron_field mi) < 60
    then \<exists>t. now < t \<and> fires_at (cron_field ho) (cron_field mi) t \<and>
           (\<forall>u. now < u \<and> u < t \<longrightarrow> \<not> fires_at (cron_field ho) (cron_field mi) u) \<and>
           next_cron_run cal now s = (if t \<le> snd cal then Ok (Some t) else Panic)
    else next_cron_run cal now s = Ok None)"
proof -
  have day: "int h * hour_ns + int m * minute_ns < day_ns" if "h < 24" "m < 60" for h m
    using that by (simp add: ns_defs)
  have pos: "0 \<le> int h * hour_ns + int m * minute_ns" for h m by (simp add: ns_defs)
  have "hour_ns dvd day_ns" by (simp add: day_ns_def)
  then have hour: "(snd cal + 1) mod hour_ns = 0" using assms(6) by (metis dvd_trans mod_eq_0_iff_dvd)
  have mh: "0 \<le> int m * minute_ns" "m < 60 \<Longrightarrow> int m * minute_ns < hour_ns" for m by (simp_all add: ns_defs)
  note d = next_at_period [OF assms(4-6) pos day] and e = next_at_period [OF assms(4,5) hour mh]
  show ?thesis
  proof (cases "cron_field ho")
    case (Some h)
    define m where "m = unwrap_or 0 (cron_field mi)"
    have r: "next_cron_run cal now s = next_at cal now (at_time now h m) day_ns"
      unfolding cron_text_fields [OF assms(1,2)] using Some by (cases "cron_field mi") (simp_all add: parse_cron_fields_def m_def)
    have f: "fires_at (cron_field ho) (cron_field mi) = (\<lambda>t. t mod day_ns = int h * hour_ns + int m * minute_ns)"
      using Some by (simp add: fires_at_def m_def fun_eq_iff)
    show ?thesis
    proof (cases "h < 24 \<and> m < 60")
      case True
      then have "at_time now h m = Some (now - now mod day_ns + (int h * hour_ns + int m * minute_ns))" by (simp add: at_time_def)
      then show ?thesis using d [of h m] True Some r unfolding f m_def [symmetric] by auto
    next
      case False
      then have "at_time now h m = None" by (auto simp: at_time_def)
      then show ?thesis using r False Some by (auto simp: next_at_def m_def)
    qed
  next
    case None
    then obtain m where m: "cron_field mi = Some m" using assms(3) by auto
    have r: "next_cron_run cal now s = next_at cal now (at_time now (current_hour now) m) hour_ns"
      unfolding cron_text_fields [OF assms(1,2)] using None m by (simp add: parse_cron_fields_def)
    have f: "fires_at (cron_field ho) (cron_field mi) = (\<lambda>t. t mod hour_ns = int m * minute_ns)"
      using None m by (simp add: fires_at_def fun_eq_iff)
    show ?thesis
    proof (cases "m < 60")
      case True
      then show ?thesis using e [of m] None m r at_current_hour [OF True] unfolding f by auto
    next
      case False
      then have "at_time now (current_hour now) m = None" by (auto simp: at_time_def)
      then show ?thesis using r False None m by (auto simp: next_at_def)
    qed
  qed
qed

lemma parse_u32_show_nat [simp]: "n < 2 ^ 32 \<Longrightarrow> parse_u32 (show_nat n) = Some n"
  by (simp add: parse_u32_def parse_u64_show_nat unat_of_nat)

definition demo_calendar :: calendar where
  "demo_calendar = (- (10 ^ 8) * day_ns, 10 ^ 8 * day_ns - 1)"

text \<open>Half past nine, asked for at ten: the next day, a Saturday or not.\<close>

lemma numeric_cron_is_next_match_witness:
  "next_cron_run demo_calendar (10 * hour_ns) '' 30 9 * * MON-FRI'' = Ok (Some (day_ns + 9 * hour_ns + 30 * minute_ns)) \<and>
   (\<forall>u. 10 * hour_ns < u \<and> u < day_ns + 9 * hour_ns + 30 * minute_ns \<longrightarrow> \<not> fires_at (Some 9) (Some 30) u)"
proof -
  let ?s = "'' 30 9 * * MON-FRI''"
  have w: "split_whitespace (trim ?s) = [''30'', ''9'', ''*'', ''*'', ''MON-FRI'']" by code_simp
  have e: "strip_prefix (trim ?s) ''every '' = None" by code_simp
  have "show_nat 9 = ''9''" "show_nat 30 = ''30''" by code_simp+
  then have "parse_u32 ''9'' = Some 9" "parse_u32 ''30'' = Some 30"
    using parse_u32_show_nat [of 9] parse_u32_show_nat [of 30] by simp_all
  then have f: "cron_field ''9'' = Some 9" "cron_field ''30'' = Some 30" by (simp_all add: cron_field_def parse_cron_value_def)
  have v: "next_cron_run demo_calendar (10 * hour_ns) ?s = Ok (Some (day_ns + 9 * hour_ns + 30 * minute_ns))"
    unfolding cron_text_fields [OF w e]
    by (simp add: parse_cron_fields_def f next_at_def at_time_def add_time_def demo_calendar_def ns_defs)
  have b: "fst demo_calendar \<le> 10 * hour_ns" "10 * hour_ns \<le> snd demo_calendar" "(snd demo_calendar + 1) mod day_ns = 0"
    by (simp_all add: demo_calendar_def ns_defs)
  have n: "cron_field ''9'' \<noteq> None \<or> cron_field ''30'' \<noteq> None" using f by simp
  obtain t where t: "\<forall>u. 10 * hour_ns < u \<and> u < t \<longrightarrow> \<not> fires_at (Some 9) (Some 30) u"
    "next_cron_run demo_calendar (10 * hour_ns) ?s = (if t \<le> snd demo_calendar then Ok (Some t) else Panic)"
    using numeric_cron_is_next_match [OF w e n b] unfolding f by simp blast
  have "t = day_ns + 9 * hour_ns + 30 * minute_ns" using t(2) unfolding v by (simp split: if_splits)
  then show ?thesis using t(1) v by simp
qed

text \<open>Without a number before the unit letter the interval is one unit; a step is no number, so every minute.\<close>

lemma spaced_interval_is_one_minute: "next_cron_run cal now ''every 5 m'' = add_time cal now minute_ns"
proof -
  have "trim (drop 6 ''every 5 m'') = ''5 m''" "trim ''every 5 m'' = ''every 5 m''"
    "strip_prefix ''every 5 m'' ''every '' = Some ''5 m''" "trim ''5 m'' = ''5 m''" "parse_i64 ''5 '' = None"
    "char_boundary ''5 m'' 2" "take 2 ''5 m'' = ''5 ''" "drop 2 ''5 m'' = ''m''" "unit_ns ''m'' = Some minute_ns"
    by code_simp+
  then show ?thesis by (simp add: next_cron_run_def next_interval_def numeral_2_eq_2)
qed

section \<open>A due job\<close>

lemma find_update_first:
  assumes "\<And>j. job_id (f j) = job_id j"
  shows "find (\<lambda>j. job_id j = i) (update_first (\<lambda>j. job_id j = k) f xs) =
    (if i = k then map_option f (find (\<lambda>j. job_id j = i) xs) else find (\<lambda>j. job_id j = i) xs)"
  by (induction xs) (auto simp: assms)

lemma find_job_filtered: "i \<noteq> k \<Longrightarrow> find (\<lambda>j. job_id j = i) (filter (\<lambda>j. job_id j \<noteq> k) xs) = find (\<lambda>j. job_id j = i) xs"
  by (induction xs) auto

lemma find_append: "find P (xs @ ys) = (case find P xs of Some x \<Rightarrow> Some x | None \<Rightarrow> find P ys)"
  by (induction xs) auto

lemma persist_items_simps [simp]:
  "stored_items (persist_items C io s) = stored_items s" "state_db (persist_items C io s) = state_db s"
  by (simp_all add: persist_items_def)

lemma find_job_change:
  "(\<And>j. job_id (f j) = job_id j) \<Longrightarrow>
   find_job i (change_job k f st) = (if i = k then map_option f (find_job i st) else find_job i st)"
  by (simp add: find_job_def change_job_def find_update_first)

lemma find_job_change_other: "i \<noteq> k \<Longrightarrow> job_id j' = k \<Longrightarrow> find_job i (change_job k (\<lambda>_. j') st) = find_job i st"
proof -
  assume k: "i \<noteq> k" "job_id j' = k"
  have "find (\<lambda>j. job_id j = i) (update_first (\<lambda>j. job_id j = k) (\<lambda>_. j') xs) = find (\<lambda>j. job_id j = i) xs" for xs
    using k by (induction xs) auto
  then show ?thesis by (simp add: find_job_def change_job_def)
qed

lemma find_job_persist [simp]: "find_job i (st\<lparr>job_store := persist_items C io (job_store st)\<rparr>) = find_job i st"
  by (simp add: find_job_def)

lemma find_job_record [simp]: "find_job i (record_job_run e st) = find_job i st"
  by (simp add: find_job_def record_job_run_def Let_def)

lemma find_job_id: "find_job i st = Some j \<Longrightarrow> job_id j = i"
  by (auto simp: find_job_def find_Some_iff)

lemma recalculated_id: "recalculated cal now j = Ok j' \<Longrightarrow> job_id j' = job_id j"
  by (auto simp: recalculated_def split: if_splits)

lemma update_fields_id [simp]: "job_id (update_fields u j) = job_id j"
  by (simp add: update_fields_def)

text \<open>What the scheduler looks at.\<close>

definition due_fields :: "schedule \<Rightarrow> bool \<times> string \<times> string \<times> int option" where
  "due_fields j = (job_enabled j, job_type j, job_target j, next_run j)"

lemma step_keeps_job:
  assumes "sched_step V ios st l p st'" and "l \<noteq> Some i" and "find_job i st = Some j"
  shows "\<exists>j'. find_job i st' = Some j' \<and> due_fields j' = due_fields j"
  using assms(1)
proof cases
  case (created io fresh now r a)
  then show ?thesis using assms(3)
    by (auto simp: create_schedule_def find_job_def add_item_def find_append split: if_splits result.splits)
next
  case (updated io now k u a)
  have k: "k \<noteq> i" using updated(1) assms(2) by auto
  have "find_job i st' = find_job i st"
  proof (cases "find_job k st")
    case (Some j)
    note id = find_job_id [OF Some]
    show ?thesis
    proof (cases "recalculated (calendar_of V) now (update_fields u j)")
      case (Ok j')
      then have "job_id j' = k" using recalculated_id id by fastforce
      then show ?thesis using updated Some Ok k by (auto simp: update_schedule_def Let_def find_job_change_other)
    qed (use updated Some k in \<open>auto simp: update_schedule_def find_job_change\<close>)
  qed (use updated in \<open>simp add: update_schedule_def\<close>)
  then show ?thesis using assms(3) by simp
next
  case (deleted io k b)
  then show ?thesis using assms(2,3)
    by (auto simp: delete_schedule_def remove_item_def Let_def find_job_def find_job_filtered split: if_splits)
next
  case (ran io user pipelines ts k w c w')
  show ?thesis
  proof (cases "find_job k st")
    case (Some jk)
    obtain r w1 where "run_job_type V user pipelines ts jk w = Some (r, w1)"
      using ran(3) Some by (auto simp: run_schedule_def Let_def)
    then have "st' = change_job k (scheduled_job.last_run_update (\<lambda>_. Some (now_ns V w))) st \<or>
      (\<exists>e. st' = finish_run V io e (change_job k (scheduled_job.last_run_update (\<lambda>_. Some (now_ns V w))) st))"
      using ran(3) Some by (auto simp: run_schedule_def Let_def split: result.splits)
    then show ?thesis
      using assms(3) by (auto simp: finish_run_def Let_def find_job_change due_fields_def)
  qed (use ran assms(3) in \<open>simp add: run_schedule_def\<close>)
qed

text \<open>A schedule is a start time, not a repetition: whatever requests follow, as long as none of them changes or
  deletes the job, an enabled job of an executable table does nothing at the ticks before its next run and
  runs its table at every tick from then on.\<close>

theorem due_job_runs_at_every_tick:
  assumes "find_job i st = Some j" and "job_enabled j" and "job_type j = ''executable_table''" and "next_run j = Some n"
    and "(\<lambda>a b. \<exists>l p. sched_step V ios a l p b \<and> l \<noteq> Some i)\<^sup>*\<^sup>* st st'"
  shows "\<exists>j'. find_job i st' = Some j' \<and>
    (\<forall>X ts. tick_job X j' ts =
       (if clock_ns X < n then ts
        else case find_table (job_target j) ts of Some t \<Rightarrow> run_job X t ts | None \<Rightarrow> ts))"
proof -
  have "\<exists>j'. find_job i st' = Some j' \<and> due_fields j' = due_fields j"
    using assms(5)
  proof (induction rule: rtranclp_induct)
    case base
    then show ?case using assms(1) by blast
  next
    case (step a b)
    then show ?case using step_keeps_job by metis
  qed
  then obtain j' where "find_job i st' = Some j'" and d: "due_fields j' = due_fields j" by blast
  moreover have "tick_job X j' ts = (if clock_ns X < n then ts
      else case find_table (job_target j) ts of Some t \<Rightarrow> run_job X t ts | None \<Rightarrow> ts)" for X ts
    using assms(2-4) d by (simp add: tick_job_def job_due_def due_fields_def)
  ultimately show ?thesis by blast
qed

section \<open>Restarts\<close>

text \<open>With a state database no request writes anything a restart would read.\<close>

lemma change_job_files [simp]:
  "lines_file (job_store (change_job i f st)) = lines_file (job_store st)"
  "state_db (job_store (change_job i f st)) = state_db (job_store st)"
  by (simp_all add: change_job_def)

lemma finish_run_files:
  "state_db (job_store st) \<noteq> None \<Longrightarrow> lines_file (job_store (finish_run V io e st)) = lines_file (job_store st) \<and>
   state_db (job_store (finish_run V io e st)) = state_db (job_store st)"
  by (auto simp: finish_run_def record_job_run_def persist_items_def Let_def)

lemma step_keeps_database:
  assumes "sched_step V ios st l p st'" and "state_db (job_store st) \<noteq> None"
  shows "lines_file (job_store st') = lines_file (job_store st) \<and> state_db (job_store st') = state_db (job_store st)"
  using assms(1)
proof cases
  case (created io fresh now r a)
  then show ?thesis using assms(2) by (auto simp: create_schedule_def add_item_def split: if_splits result.splits)
next
  case (updated io now k u a)
  then show ?thesis using assms(2)
    by (auto simp: update_schedule_def change_job_def persist_items_def Let_def split: option.splits result.splits)
next
  case (deleted io k b)
  then show ?thesis using assms(2) by (auto simp: delete_schedule_def remove_item_def persist_items_def Let_def split: if_splits)
next
  case (ran io user pipelines ts k w c w')
  show ?thesis
  proof (cases "find_job k st")
    case (Some jk)
    obtain r w1 where "run_job_type V user pipelines ts jk w = Some (r, w1)"
      using ran(3) Some by (auto simp: run_schedule_def Let_def)
    then have "st' = change_job k (scheduled_job.last_run_update (\<lambda>_. Some (now_ns V w))) st \<or>
      (\<exists>e. st' = finish_run V io e (change_job k (scheduled_job.last_run_update (\<lambda>_. Some (now_ns V w))) st))"
      using ran(3) Some by (auto simp: run_schedule_def Let_def split: result.splits)
    then show ?thesis using assms(2) finish_run_files [of "change_job k _ st"] by auto
  qed (use ran in \<open>simp add: run_schedule_def\<close>)
qed

text \<open>A server with a state database loses every change of a schedule: whatever is created, changed, deleted or run,
  the jobs after the next start are the ones a start before all that would have read.\<close>

theorem restart_forgets_changes:
  assumes "state_db (job_store st) \<noteq> None" and "(\<lambda>a b. \<exists>l p. sched_step V ios a l p b)\<^sup>*\<^sup>* st st'"
  shows "stored_items (start_up C key moved (job_store st')) = stored_items (start_up C key moved (job_store st))"
proof -
  have "lines_file (job_store st') = lines_file (job_store st) \<and> state_db (job_store st') = state_db (job_store st)"
    using assms(2)
  proof (induction rule: rtranclp_induct)
    case (step a b)
    then show ?case using step_keeps_database assms(1) by metis
  qed simp
  then show ?thesis
    by (simp add: start_up_def migrate_items_def load_items_def load_rows_def Let_def split: option.split prod.split)
qed

text \<open>A job of an executable table that exists and is no stream succeeds, whatever its run did.\<close>

theorem table_job_never_fails:
  assumes "find_table target ts = Some t" and "transform_type (transform_of t) \<noteq> ''streaming_cdc''"
  shows "\<exists>msg. fst (run_table_job V ts target w) = Ok msg"
  using assms by (simp add: run_table_job_def Let_def split: prod.split)

end
