(* ===== verification/Spec2Isabelle.thy ===== *)
theory Spec2Isabelle
  imports
    Auth
    Iceberg_Maintenance
    Iceberg_Versions
    Rest_Catalog
    Executable_Table
    Column_Lineage
    Dependency_Order
    Sql_Compiler
    Distributed_Query
    Dag_Scheduler
    Memory_Catalog
    Credential_Store
    Table_Creation
    Table_History
    Ws_Connection
    Table_Discovery
    Rust_Executor
    Table_Services
    Transform_Models
    Job_Schedules
begin

text \<open>
  A verification library for the Rust lakehouse in this repository (the crates under
  \<open>crates/\<close>; the server is \<open>crates/rustlake-api\<close>). It models the parts that hold their own logic and
  state, and proves what makes them correct; where the code does something its comments or its purpose do
  not want, the theorem states what it does.

  The program. The server answers SQL over HTTP and WebSockets on one of three engines, keeps Iceberg
  tables as numbered JSON metadata documents beside Parquet files in an object store, offers them to other
  engines through a REST catalog held in memory, finds tables that others left in a bucket, and refreshes
  executable tables, which carry their own transform with a version history, by hand, by schedule or by a
  stream. A coordinator spreads queries over workers. Handlers live in \<open>routes.rs\<close>, \<open>ws.rs\<close> and the module of
  their subject; the background scheduler is in \<open>main.rs\<close>; all share the state of \<open>state.rs\<close>.

  Foundations.
  \<^item> \<open>Prelude\<close>: results with errors and panics as values, Rust's string operations, decimal text, signed
    wrap-around, and the locales \<open>state_invariant\<close> (an invariant kept by operations) and \<open>history_constraint\<close>
    (an invariant together with a relation between earlier and later states).
  \<^item> \<open>Json\<close>: \<open>serde_json::Value\<close> with the accessors used, and the read part of Arrow schemas.
    \<open>Float64\<close>: rounded arithmetic of finite doubles on rational numbers.

  Access and credentials.
  \<^item> \<open>Base64_Codec\<close>, \<open>Auth\<close> (\<open>auth.rs\<close>): codec and HMAC with locale \<open>text_codec\<close>; tokens, permission patterns,
    row filters, column masks, the middleware and the operations on \<open>AuthState\<close>.
  \<^item> \<open>Credential_Store\<close> (\<open>credential_store.rs\<close>): the encrypted record file; locale \<open>record_sequence\<close>.

  Iceberg.
  \<^item> \<open>Iceberg_Metadata\<close> (\<open>iceberg_metadata.rs\<close>, \<open>iceberg_writer.rs\<close>): the object store as an environment; loading,
    appending, schema and partition evolution. \<open>Iceberg_History\<close>: the laws of the store, what is read back, time
    travel, the walk over the parents. \<open>Iceberg_Versions\<close>:
    locale \<open>table_update\<close>, the contract of every operation that writes the next document, with four
    interpretations. \<open>Iceberg_Maintenance\<close> (\<open>iceberg_maintenance.rs\<close>): status, compaction, expiry, orphans.
  \<^item> \<open>Rest_Catalog\<close> (\<open>iceberg_rest_catalog.rs\<close>): catalog state and handlers. \<open>Table_Discovery\<close> (\<open>iceberg_s3.rs\<close>): the
    scan of a bucket and the readers of the four formats. \<open>Parquet_Sink\<close> (\<open>parquet_sink.rs\<close>): buffered writing.

  Executable tables (\<open>executable_table.rs\<close>, \<open>routes.rs\<close>, \<open>main.rs\<close>).
  \<^item> \<open>Executable_Table\<close>: line diff, source hash, data contracts. \<open>Column_Lineage\<close>: the lineage of a SELECT list.
    \<open>Dependency_Order\<close>: the dependency graph and its upstream order. \<open>Output_Regression\<close>: regressions of counts
    and data, A/B comparison, gates and costs. \<open>Quality_Gates\<close> (\<open>quality_gates.rs\<close>): checks over batches.
  \<^item> \<open>Rust_Executor\<close> (\<open>rust_executor.rs\<close>): compiling and running Rust code with its cache of binaries.
  \<^item> \<open>Executable_Lifecycle\<close>: the records, update, rollback and stream events. \<open>Table_Execution\<close>: the execution of a
    table and of one version. \<open>Table_Scheduler\<close>: the tick of the background scheduler. \<open>Table_Services\<close>: A/B tests,
    contracts, marketplace, cascade replay, pipelines, debugging, data products. \<open>Table_Creation\<close>: promotion of
    a streaming pipeline and conversion of a SQL statement into a table. \<open>Job_Schedules\<close>: the scheduled jobs, their next
    run, their handlers and what a restart leaves of them.
  \<^item> \<open>Table_History\<close>: all of these as operations on the list of tables, with the promises they keep together.

  Queries.
  \<^item> \<open>Query_Engines\<close> (crate \<open>rustlake-engine\<close>), \<open>Cost_Model\<close> and \<open>Query_Profiler\<close> (crate \<open>rustlake-router\<close>),
    \<open>Spark_Compat\<close> (\<open>spark_compat.rs\<close>): what the SQL endpoint is built from.
  \<^item> \<open>Sql_Execution\<close> (\<open>routes.rs\<close>): \<open>POST /sql\<close> with read-only check, CREATE TABLE AS, time travel and engine selection; the
    operations that copy tables to DuckDB and Polars; registration of files. \<open>Ws_Connection\<close> (\<open>ws.rs\<close>): a
    connection as a step relation of messages and tasks.
  \<^item> \<open>Sql_Compiler\<close> (crate \<open>rustlake-transform\<close>), \<open>Transform_Models\<close> (\<open>routes.rs\<close>): macros of SQL models and the
    executable statement of a transform with its dependencies.
  \<^item> \<open>Worker_Registry\<close>, \<open>Distributed_Query\<close> (crate \<open>rustlake-flight\<close>), \<open>Dag_Scheduler\<close> (crate \<open>rustlake-scheduler\<close>),
    \<open>Memory_Catalog\<close> (crate \<open>rustlake-catalog\<close>, locale \<open>table_catalog\<close>).

  What the lemmas show. Each theory proves the behaviour of its operations on every branch it needs, then
  what they promise together: token safety and the glob semantics of patterns; append, evolution and expiry read
  back from the store; invariants of the catalog, the registry, the connection and the SQL server as
  interpretations of the locales; topological orders for any iteration order of the hash maps; totality of replays
  and pipelines; the version history of executable tables, whatever tables it starts from. Statements marked
  C and a number are the main ones; a witness beside each applies it to a concrete input.

  Conventions. A record or datatype has the fields and constructors of the Rust type. A function
  returns \<open>result\<close>, whose third value stands for a panic, or an error beside a value where it cannot panic.
  State that a function changes is passed and returned; a handler is one step, and where the code gives up its
  locks in the middle (an execution that records its outcome later) the recording is an operation
  of its own. 64-bit and 32-bit unsigned integers are words; signed ones are integers with the
  wrap-around written out where the code adds to them (release-build arithmetic).

  Texts are the bytes of Rust's UTF-8 strings. A slice panics out of range and inside a character
  (\<open>char_boundary\<close>). Where positions of case-mapped text are used in the original, or a check depends on it
  (row filters, lineage, the SQL endpoint, conversions), case mapping is a parameter that agrees with ASCII
  on ASCII texts (\<open>unicode_case\<close>); elsewhere (Spark rewriting, the profiler, type names of contracts) it is that of ASCII, and
  white space is ASCII white space.

  Loops are recursion. Those whose end is not evident are \<open>partial_function (option)\<close>, and that they return, or
  do not, is proved: the walk over parent snapshots, the graph search and Kahn's algorithm of the upstream
  order, the source macros with a mapper, and the dependencies of a transform. No fuel is used; the bounds are those of the
  code (a scan depth of five, three running queries per connection, 1000 entries of history, 500 job runs).

  What stands outside. The object store, the text form of JSON, SHA-256 and the cipher, the Parquet reader and
  writer, the engines and their SQL parser, the Rust compiler and processes, Arrow's text of types and values, the
  clock, random ids and the iteration order of hash maps are arguments of the definitions that use them;
  named hypotheses such as \<open>env_ok\<close> state what is relied on, and each has an instance here. Logging is left out.

  Not modelled: the connectors and providers of other systems, notebooks, streaming clients, the Flight RPC
  layer, vector search, the command line, configuration parsing, the handlers that only forward or list, and
  the server's wiring. They are I/O over other systems.
\<close>

end
